(* ===== verification/Prelude.thy ===== *)
theory Prelude
  imports Complex_Main "HOL-Library.Char_ord" "HOL-Library.List_Lexorder"
    "HOL-Library.Product_Lexorder" "HOL-Library.Multiset"
begin

section \<open>Shared vocabulary: names, decimal strings, lists\<close>

text \<open>
  Type names used by every component, the collections of rewrite rules that the component
  theories fill, the decimal text of integers (Redis stores counters as text, and the rate
  limiter's log members carry a decimal cost), and facts on lists that several components use.
\<close>

type_synonym key = string
type_synonym member = string
type_synonym ident = string
type_synonym ms = int

named_theorems redis_laws "how the commands of the store act on its view"
named_theorems zset_simps "sorted-set facts"

subsection \<open>Decimal text of an integer\<close>

definition digit_char :: "nat \<Rightarrow> char" where
  "digit_char n = char_of (48 + n)"

definition char_digit :: "char \<Rightarrow> nat" where
  "char_digit c = of_char c - 48"

definition is_digit :: "char \<Rightarrow> bool" where
  "is_digit c = (48 \<le> (of_char c :: nat) \<and> (of_char c :: nat) \<le> 57)"

fun nat_str :: "nat \<Rightarrow> string" where
  "nat_str n = (if n < 10 then [digit_char n] else nat_str (n div 10) @ [digit_char (n mod 10)])"

declare nat_str.simps [simp del]

definition digits_val :: "string \<Rightarrow> nat" where
  "digits_val ds = foldl (\<lambda>a c. 10 * a + char_digit c) 0 ds"

definition int_str :: "int \<Rightarrow> string" where
  "int_str i = (if i < 0 then CHR ''-'' # nat_str (nat (- i)) else nat_str (nat i))"

text \<open>Reading a decimal integer back; \<open>None\<close> where the text is not one.\<close>

definition str_int :: "string \<Rightarrow> int option" where
  "str_int t =
     (case t of
        [] \<Rightarrow> None
      | c # ds \<Rightarrow>
          if c = CHR ''-''
          then (if ds \<noteq> [] \<and> list_all is_digit ds then Some (- int (digits_val ds)) else None)
          else (if list_all is_digit t then Some (int (digits_val t)) else None))"

lemma of_char_digit: "n < 10 \<Longrightarrow> (of_char (digit_char n) :: nat) = 48 + n"
  by (simp add: digit_char_def)

lemma is_digit_digit_char [simp]: "n < 10 \<Longrightarrow> is_digit (digit_char n)"
  by (simp add: is_digit_def of_char_digit)

lemma char_digit_digit_char [simp]: "n < 10 \<Longrightarrow> char_digit (digit_char n) = n"
  by (simp add: char_digit_def of_char_digit)

lemma nat_str_nonempty [simp]: "nat_str n \<noteq> []"
  by (subst nat_str.simps) simp

lemma nat_str_digits [simp]: "list_all is_digit (nat_str n)"
proof (induction n rule: nat_str.induct)
  case (1 n)
  then show ?case by (subst nat_str.simps) simp
qed

lemma digits_val_snoc: "digits_val (ds @ [c]) = 10 * digits_val ds + char_digit c"
  by (simp add: digits_val_def)

lemma digits_val_nat_str [simp]: "digits_val (nat_str n) = n"
proof (induction n rule: nat_str.induct)
  case (1 n)
  show ?case
  proof (cases "n < 10")
    case True
    then show ?thesis by (subst nat_str.simps) (simp add: digits_val_def)
  next
    case False
    with 1 have "digits_val (nat_str (n div 10)) = n div 10" by simp
    with False show ?thesis by (subst nat_str.simps) (simp add: digits_val_snoc)
  qed
qed

lemma minus_not_digit [simp]: "\<not> is_digit (CHR ''-'')"
  by (simp add: is_digit_def)

lemma colon_not_digit [simp]: "\<not> is_digit (CHR '':'')"
  by (simp add: is_digit_def)

lemma nat_str_no_minus: "nat_str n = c # ds \<Longrightarrow> c \<noteq> CHR ''-''"
  using nat_str_digits [of n] by auto

lemma str_int_nat_str [simp]: "str_int (nat_str n) = Some (int n)"
  using nat_str_no_minus [of n] nat_str_digits [of n] digits_val_nat_str [of n]
    nat_str_nonempty [of n]
  by (cases "nat_str n") (simp_all add: str_int_def del: nat_str_digits digits_val_nat_str)

lemma str_int_int_str [simp]: "str_int (int_str i) = Some i"
proof (cases "i < 0")
  case True
  then show ?thesis by (simp add: int_str_def str_int_def)
next
  case False
  then show ?thesis by (simp add: int_str_def)
qed

lemma int_str_inject [simp]: "int_str i = int_str j \<longleftrightarrow> i = j"
  by (metis option.inject str_int_int_str)

lemma int_str_nonempty [simp]: "int_str i \<noteq> []"
  by (simp add: int_str_def)

lemma int_str_digits: "0 \<le> i \<Longrightarrow> list_all is_digit (int_str i)"
  by (simp add: int_str_def)

text \<open>Evaluation of the text of an integer by integer arithmetic.\<close>

definition pos_str :: "int \<Rightarrow> string" where
  "pos_str i = nat_str (nat i)"

lemma pos_str_code [code]:
  "pos_str i = (if i < 10 then [digit_char (nat i)]
                else pos_str (i div 10) @ [digit_char (nat (i mod 10))])"
  unfolding pos_str_def by (subst nat_str.simps) (auto simp: nat_div_distrib nat_mod_distrib)

lemma int_str_code [code]: "int_str i = (if i < 0 then CHR ''-'' # pos_str (- i) else pos_str i)"
  by (simp add: int_str_def pos_str_def)

lemma digits_val_int_str: "0 \<le> i \<Longrightarrow> int (digits_val (int_str i)) = i"
  by (simp add: int_str_def)

text \<open>Python's \<open>int(x)\<close> of a float truncates towards zero.\<close>

definition py_int :: "real \<Rightarrow> int" where
  "py_int x = (if 0 \<le> x then \<lfloor>x\<rfloor> else \<lceil>x\<rceil>)"

subsection \<open>Lists\<close>

lemma takeWhile_all_append:
  "list_all P xs \<Longrightarrow> \<not> P y \<Longrightarrow> takeWhile P (xs @ y # ys) = xs"
  by (induction xs) auto

lemma dropWhile_all_append:
  "list_all P xs \<Longrightarrow> \<not> P y \<Longrightarrow> dropWhile P (xs @ y # ys) = y # ys"
  by (induction xs) auto

lemma sum_list_filter_split:
  fixes f :: "'a \<Rightarrow> int"
  shows "sum_list (map f xs)
           = sum_list (map f (filter P xs)) + sum_list (map f (filter (\<lambda>x. \<not> P x) xs))"
  by (induction xs) auto

lemma sum_list_nonneg_int:
  fixes f :: "'a \<Rightarrow> int"
  shows "(\<And>x. x \<in> set xs \<Longrightarrow> 0 \<le> f x) \<Longrightarrow> 0 \<le> sum_list (map f xs)"
  by (induction xs) force+

lemma sum_list_insort:
  fixes f :: "'a::linorder \<Rightarrow> int"
  shows "sum_list (map f (insort x xs)) = f x + sum_list (map f xs)"
  by (induction xs) auto

lemma filter_True_id: "(\<And>x. x \<in> set xs \<Longrightarrow> P x) \<Longrightarrow> filter P xs = xs"
  by (rule filter_True) blast

subsection \<open>Dicts in insertion order\<close>

text \<open>\<open>d[k] = v\<close>: a key that is there keeps its place.\<close>

fun dict_put :: "string \<Rightarrow> 'a \<Rightarrow> (string \<times> 'a) list \<Rightarrow> (string \<times> 'a) list" where
  "dict_put k v [] = [(k, v)]"
| "dict_put k v ((l, w) # kvs) = (if l = k then (k, v) # kvs else (l, w) # dict_put k v kvs)"

lemma map_of_dict_put [simp]: "map_of (dict_put k v kvs) = (map_of kvs)(k \<mapsto> v)"
  by (induction kvs) (auto simp: fun_eq_iff)

subsection \<open>Loops whose rounds may return\<close>

text \<open>A \<open>while True\<close> loop: a round returns (\<open>Inl\<close>) or gives the state of the next round (\<open>Inr\<close>).
  \<open>None\<close> stands for a loop that never ends.\<close>

partial_function (option) repeat_until :: "('x \<Rightarrow> 'r + 'x) \<Rightarrow> 'x \<Rightarrow> 'r option" where
  "repeat_until body x = (case body x of Inl r \<Rightarrow> Some r | Inr y \<Rightarrow> repeat_until body y)"

declare repeat_until.simps [code]

lemma repeat_until_Inl [simp]: "body x = Inl r \<Longrightarrow> repeat_until body x = Some r"
  by (simp add: repeat_until.simps)

lemma repeat_until_Inr: "body x = Inr y \<Longrightarrow> repeat_until body x = repeat_until body y"
  by (simp add: repeat_until.simps)

text \<open>What holds if the loop ends, and when it does end.\<close>

lemma repeat_until_invariant:
  fixes body :: "'a \<Rightarrow> 'b + 'a"
  assumes "repeat_until body x = Some r" and "P x"
    and "\<And>x y. P x \<Longrightarrow> body x = Inr y \<Longrightarrow> P y"
    and "\<And>x r. P x \<Longrightarrow> body x = Inl r \<Longrightarrow> Q r"
  shows "Q r"
proof -
  let ?inv = "\<lambda>body x r. P x \<longrightarrow> (\<forall>x y. P x \<longrightarrow> body x = Inr y \<longrightarrow> P y) \<longrightarrow>
      (\<forall>x r. P x \<longrightarrow> body x = Inl r \<longrightarrow> Q r) \<longrightarrow> Q r"
  have "?inv body x r"
  proof (rule repeat_until.raw_induct [where P = ?inv and ?xa = "(body, x)" and y = r,
        unfolded prod.case, OF _ assms(1)])
    fix f :: "('a \<Rightarrow> 'b + 'a) \<Rightarrow> 'a \<Rightarrow> 'b option" and body x r
    assume "\<And>body x r. f body x = Some r \<Longrightarrow> ?inv body x r"
      and "(case body x of Inl r \<Rightarrow> Some r | Inr y \<Rightarrow> f body y) = Some r"
    then show "?inv body x r" by (cases "body x") (simp, metis sum.case(2))
  qed
  with assms(2-4) show ?thesis by blast
qed

lemma repeat_until_ends:
  fixes f :: "'x \<Rightarrow> nat"
  assumes "P x"
    and "\<And>x y. P x \<Longrightarrow> body x = Inr y \<Longrightarrow> P y \<and> f y < f x"
    and "\<And>x r. P x \<Longrightarrow> body x = Inl r \<Longrightarrow> Q r"
  shows "\<exists>r. repeat_until body x = Some r \<and> Q r"
  using assms(1)
proof (induction "f x" arbitrary: x rule: less_induct)
  case less
  show ?case
  proof (cases "body x")
    case (Inl r)
    with less.prems assms(3) show ?thesis by simp
  next
    case (Inr y)
    with less.prems assms(2) have "P y" "f y < f x" by blast+
    with less.hyps Inr show ?thesis by (simp add: repeat_until_Inr)
  qed
qed

text \<open>A measure for loops whose rounds take time: the steps of length \<open>q\<close> left until \<open>c\<close>.\<close>

lemma rounds_left_less:
  fixes q a b c :: real
  assumes "0 < q" and "a + q \<le> b" and "b \<le> c"
  shows "nat \<lfloor>(c - b) / q\<rfloor> < nat \<lfloor>(c - a) / q\<rfloor>"
proof -
  have "(c - b) / q + 1 = (c - b + q) / q" using assms(1) by (simp add: add_divide_distrib)
  also have "\<dots> \<le> (c - a) / q" using assms(1,2) by (simp add: divide_right_mono)
  finally have "\<lfloor>(c - b) / q\<rfloor> + 1 \<le> \<lfloor>(c - a) / q\<rfloor>" by linarith
  moreover have "0 \<le> \<lfloor>(c - b) / q\<rfloor>" using assms by simp
  ultimately show ?thesis by linarith
qed

end
