(* ===== verification/Redis.thy ===== *)
theory Redis
  imports Prelude
begin

section \<open>The store the scripts run on: an interface with its documented behaviour\<close>

text \<open>
  Redis is not part of the program. The scripts reach it through a record of commands over an
  arbitrary state type \<open>'s\<close>; what the program relies on is the locale \<open>redis\<close>: a view of the
  state and, for every command, the behaviour the Redis documentation gives it, written as a
  function on the view (\<open>doc_zadd\<close> and so on). The record \<open>doc_redis\<close> of these functions is one
  store that satisfies the interface, so the hypotheses of the locale can hold.

  A sorted set is viewed as the list of its (score, member) pairs in the order Redis keeps it
  (score first, then the member's bytes). A missing key is the empty sorted set, the empty list,
  \<open>None\<close> for a string or a stream. Commands are used on keys of their own type only. Scores,
  counters and expiry times are whole milliseconds or whole units, as the scripts use them.
\<close>

subsection \<open>Sorted sets\<close>

type_synonym zset = "(ms \<times> member) list"

definition z_score :: "zset \<Rightarrow> member \<Rightarrow> ms option" where
  "z_score z = map_of (map prod.swap z)"

definition z_rem :: "member \<Rightarrow> zset \<Rightarrow> zset" where
  "z_rem m z = filter (\<lambda>e. snd e \<noteq> m) z"

definition z_add :: "ms \<Rightarrow> member \<Rightarrow> zset \<Rightarrow> zset" where
  "z_add x m z = insort (x, m) (z_rem m z)"

definition z_upto :: "ms \<Rightarrow> zset \<Rightarrow> zset" where
  "z_upto x z = filter (\<lambda>e. fst e \<le> x) z"

definition z_after :: "ms \<Rightarrow> zset \<Rightarrow> zset" where
  "z_after x z = filter (\<lambda>e. \<not> fst e \<le> x) z"

text \<open>ZRANGE by rank: negative ranks count from the end, the range is clipped to the set.\<close>

definition z_slice :: "int \<Rightarrow> int \<Rightarrow> zset \<Rightarrow> zset" where
  "z_slice start stop z =
     (let n = int (length z);
          a = (if start < 0 then max 0 (n + start) else start);
          b = (if stop < 0 then n + stop else min stop (n - 1))
      in if b < a then [] else take (nat (b - a + 1)) (drop (nat a) z))"

definition z_wf :: "zset \<Rightarrow> bool" where
  "z_wf z \<longleftrightarrow> sorted z \<and> distinct (map snd z)"

lemma z_score_Some_iff [zset_simps]:
  "z_wf z \<Longrightarrow> z_score z m = Some x \<longleftrightarrow> (x, m) \<in> set z"
  unfolding z_score_def z_wf_def
  by (subst map_of_eq_Some_iff) (auto simp: comp_def)

lemma z_score_None_iff [zset_simps]: "z_score z m = None \<longleftrightarrow> m \<notin> snd ` set z"
  by (force simp: z_score_def map_of_eq_None_iff)

lemma dom_z_score [zset_simps]: "dom (z_score z) = snd ` set z"
  by (force simp: z_score_def dom_map_of_conv_image_fst)

lemma card_dom_z_score: "z_wf z \<Longrightarrow> card (dom (z_score z)) = length z"
  by (simp add: dom_z_score z_wf_def) (metis distinct_card length_map set_map)

lemma z_wf_Nil [simp]: "z_wf []"
  by (simp add: z_wf_def)

lemma z_wf_filter [simp]: "z_wf z \<Longrightarrow> z_wf (filter P z)"
  unfolding z_wf_def
  using sorted_wrt_filter distinct_map_filter by blast

lemma z_wf_rem [simp]: "z_wf z \<Longrightarrow> z_wf (z_rem m z)"
  by (simp add: z_rem_def)

lemma z_wf_upto [simp]: "z_wf z \<Longrightarrow> z_wf (z_upto x z)"
  by (simp add: z_upto_def)

lemma z_wf_after [simp]: "z_wf z \<Longrightarrow> z_wf (z_after x z)"
  by (simp add: z_after_def)

lemma set_z_rem [simp]: "set (z_rem m z) = {e \<in> set z. snd e \<noteq> m}"
  by (simp add: z_rem_def)

lemma set_z_after [simp]: "set (z_after x z) = {e \<in> set z. x < fst e}"
  by (auto simp: z_after_def)

lemma set_z_upto [simp]: "set (z_upto x z) = {e \<in> set z. fst e \<le> x}"
  by (simp add: z_upto_def)

lemma set_z_add [simp]: "set (z_add x m z) = insert (x, m) {e \<in> set z. snd e \<noteq> m}"
  by (simp add: z_add_def set_insort_key)

lemma z_wf_add [simp]: "z_wf z \<Longrightarrow> z_wf (z_add x m z)"
proof -
  assume wf: "z_wf z"
  then have r: "sorted (z_rem m z)" "distinct (map snd (z_rem m z))"
    using z_wf_rem [OF wf, of m] by (auto simp: z_wf_def)
  have s: "sorted (z_add x m z)"
    using r(1) by (simp add: z_add_def sorted_insort)
  have p: "mset (map snd (z_add x m z)) = mset (m # map snd (z_rem m z))"
    by (simp add: z_add_def)
  have "distinct (m # map snd (z_rem m z))"
    using r(2) by auto
  with p have "distinct (map snd (z_add x m z))"
    by (metis mset_eq_imp_distinct_iff)
  with s show ?thesis by (simp add: z_wf_def)
qed

lemma z_add_nonempty [simp]: "z_add x m z \<noteq> []"
  by (simp add: z_add_def)

lemma z_wf_same_member:
  assumes "z_wf z" "(x, m) \<in> set z" "(y, m) \<in> set z"
  shows "x = y"
  using assms z_score_Some_iff [OF assms(1)] by (metis option.inject)

lemma z_score_eqI:
  assumes "z_wf z" and "\<And>m x. (x, m) \<in> set z \<longleftrightarrow> f m = Some x"
  shows "z_score z = f"
proof (rule ext)
  fix m
  show "z_score z m = f m"
    using z_score_Some_iff [OF assms(1), of m] assms(2) [of _ m]
    by (metis not_Some_eq)
qed

lemma z_score_rem [zset_simps]: "z_wf z \<Longrightarrow> z_score (z_rem m z) = (z_score z)(m := None)"
  by (rule z_score_eqI) (auto simp: z_score_Some_iff)

lemma z_score_add [zset_simps]: "z_wf z \<Longrightarrow> z_score (z_add x m z) = (z_score z)(m \<mapsto> x)"
  by (rule z_score_eqI) (auto simp: z_score_Some_iff)

lemma z_score_after [zset_simps]:
  "z_wf z \<Longrightarrow> z_score (z_after x z) = (\<lambda>m. case z_score z m of
     None \<Rightarrow> None | Some e \<Rightarrow> if e \<le> x then None else Some e)"
  by (rule z_score_eqI) (auto simp: simp flip: z_score_Some_iff split: option.splits)

lemma length_z_rem:
  assumes "z_wf z" and "m \<in> snd ` set z"
  shows "Suc (length (z_rem m z)) = length z"
proof -
  have "card (dom (z_score z)) = Suc (card (dom (z_score (z_rem m z))))"
    using assms by (simp add: z_score_rem dom_z_score) (metis card_Suc_Diff1 finite_imageI
      finite_set card_Diff_singleton One_nat_def)
  then show ?thesis using assms by (simp add: card_dom_z_score)
qed

lemma z_rem_notin [simp]: "m \<notin> snd ` set z \<Longrightarrow> z_rem m z = z"
  by (force simp: z_rem_def intro: filter_True_id)

lemma length_z_add:
  "z_wf z \<Longrightarrow> length (z_add x m z) = (if m \<in> snd ` set z then length z else Suc (length z))"
  by (auto simp: z_add_def length_z_rem)

lemma length_upto_after: "length (z_upto x z) + length (z_after x z) = length z"
  by (simp add: z_upto_def z_after_def sum_length_filter_compl)

text \<open>The last element, which ZRANGE -1 -1 returns, has the largest score.\<close>

lemma z_slice_last: "z \<noteq> [] \<Longrightarrow> z_slice (-1) (-1) z = [last z]"
proof (cases z rule: rev_cases)
  case (snoc ys y)
  then show ?thesis by (simp add: z_slice_def Let_def)
qed simp

lemma z_slice_Nil [simp]: "z_slice a b [] = []"
  by (simp add: z_slice_def Let_def)

lemma z_slice_all: "z_slice 0 (-1) z = z"
  by (simp add: z_slice_def Let_def)

lemma z_wf_last_max:
  assumes "z_wf z" and "e \<in> set z"
  shows "fst e \<le> fst (last z)"
proof (cases z rule: rev_cases)
  case (snoc ys y)
  with assms have "e \<le> y" by (auto simp: z_wf_def sorted_wrt_append)
  with snoc show ?thesis by (auto simp: less_eq_prod_def)
qed (use assms in simp)

subsection \<open>The view of a store\<close>

text \<open>Stream entry ids, in the order of the stream; their text is \<open>ms-seq\<close>.\<close>

datatype sid = Sid (sid_ms: ms) (sid_seq: int)

instantiation sid :: linorder
begin

definition less_eq_sid :: "sid \<Rightarrow> sid \<Rightarrow> bool" where
  "less_eq_sid a b \<longleftrightarrow> sid_ms a < sid_ms b \<or> (sid_ms a = sid_ms b \<and> sid_seq a \<le> sid_seq b)"

definition less_sid :: "sid \<Rightarrow> sid \<Rightarrow> bool" where
  "less_sid a b \<longleftrightarrow> sid_ms a < sid_ms b \<or> (sid_ms a = sid_ms b \<and> sid_seq a < sid_seq b)"

instance
  by standard (auto simp: less_eq_sid_def less_sid_def sid.expand)

end

definition sid_str :: "sid \<Rightarrow> string" where
  "sid_str i = int_str (sid_ms i) @ ''-'' @ int_str (sid_seq i)"

type_synonym fields = "(string \<times> string) list"

text \<open>
  A consumer group: the last id handed out, and the entries delivered but not acknowledged,
  each with its consumer and the time of its last delivery.
\<close>

record cgroup =
  last_delivered :: sid
  pending :: "(sid \<times> string \<times> ms) list"

record stream =
  entries :: "(sid \<times> fields) list"
  groups :: "string \<Rightarrow> cgroup option"

record rview =
  zsets :: "key \<Rightarrow> zset"
  strs :: "key \<Rightarrow> string option"
  rlists :: "key \<Rightarrow> string list"
  strms :: "key \<Rightarrow> stream option"
  ttls :: "key \<Rightarrow> ms option"
  sec :: int
  usec :: int

definition clock_ms :: "rview \<Rightarrow> ms" where
  "clock_ms v = sec v * 1000 + usec v div 1000"

lemma clock_ms_update [simp]:
  "clock_ms (zsets_update f v) = clock_ms v"
  "clock_ms (strs_update g v) = clock_ms v"
  "clock_ms (rlists_update h v) = clock_ms v"
  "clock_ms (strms_update j v) = clock_ms v"
  "clock_ms (ttls_update k v) = clock_ms v"
  by (simp_all add: clock_ms_def)

definition exists_key :: "key \<Rightarrow> rview \<Rightarrow> bool" where
  "exists_key k v \<longleftrightarrow> zsets v k \<noteq> [] \<or> strs v k \<noteq> None \<or> rlists v k \<noteq> [] \<or> strms v k \<noteq> None"

definition del_view :: "key \<Rightarrow> rview \<Rightarrow> rview" where
  "del_view k v = v\<lparr>zsets := (zsets v)(k := []), strs := (strs v)(k := None),
     rlists := (rlists v)(k := []), strms := (strms v)(k := None), ttls := (ttls v)(k := None)\<rparr>"

text \<open>Storing a sorted set: an empty one is no key, so its expiry goes too.\<close>

definition put_zset :: "key \<Rightarrow> zset \<Rightarrow> rview \<Rightarrow> rview" where
  "put_zset k z v = v\<lparr>zsets := (zsets v)(k := z),
     ttls := (if z = [] then (ttls v)(k := None) else ttls v)\<rparr>"

subsection \<open>Documented behaviour of the commands, on the view\<close>

definition doc_zadd :: "key \<Rightarrow> ms \<Rightarrow> member \<Rightarrow> rview \<Rightarrow> int \<times> rview" where
  \<comment> \<open>ZADD: adds or moves the member; the reply counts new members.\<close>
  "doc_zadd k x m v = (if m \<in> snd ` set (zsets v k) then 0 else 1, put_zset k (z_add x m (zsets v k)) v)"

definition doc_zadd_xx :: "key \<Rightarrow> ms \<Rightarrow> member \<Rightarrow> rview \<Rightarrow> int \<times> rview" where
  \<comment> \<open>ZADD XX: only moves a member that is there.\<close>
  "doc_zadd_xx k x m v =
     (0, if m \<in> snd ` set (zsets v k) then put_zset k (z_add x m (zsets v k)) v else v)"

definition doc_zadd_nx :: "key \<Rightarrow> ms \<Rightarrow> member \<Rightarrow> rview \<Rightarrow> int \<times> rview" where
  \<comment> \<open>ZADD NX: only adds a member that is not there.\<close>
  "doc_zadd_nx k x m v =
     (if m \<in> snd ` set (zsets v k) then (0, v) else (1, put_zset k (z_add x m (zsets v k)) v))"

definition doc_zrem :: "key \<Rightarrow> member \<Rightarrow> rview \<Rightarrow> int \<times> rview" where
  "doc_zrem k m v =
     (if m \<in> snd ` set (zsets v k) then (1, put_zset k (z_rem m (zsets v k)) v) else (0, v))"

definition doc_zremrangebyscore :: "key \<Rightarrow> ms \<Rightarrow> rview \<Rightarrow> int \<times> rview" where
  \<comment> \<open>ZREMRANGEBYSCORE key -inf x: removes scores up to and including x.\<close>
  "doc_zremrangebyscore k x v =
     (int (length (z_upto x (zsets v k))), put_zset k (z_after x (zsets v k)) v)"

text \<open>The integer a string key holds, where INCR and its kin apply (a missing key counts as 0).\<close>

definition str_num :: "string option \<Rightarrow> int option" where
  "str_num t = (case t of None \<Rightarrow> Some 0 | Some t \<Rightarrow> str_int t)"

definition doc_incrby :: "key \<Rightarrow> int \<Rightarrow> rview \<Rightarrow> int \<times> rview" where
  "doc_incrby k n v =
     (case str_num (strs v k) of
        None \<Rightarrow> (0, v)
      | Some x \<Rightarrow> (x + n, v\<lparr>strs := (strs v)(k \<mapsto> int_str (x + n))\<rparr>))"

definition doc_set_px :: "key \<Rightarrow> string \<Rightarrow> ms \<Rightarrow> rview \<Rightarrow> rview" where
  "doc_set_px k t px v =
     v\<lparr>strs := (strs v)(k \<mapsto> t), ttls := (ttls v)(k \<mapsto> clock_ms v + px)\<rparr>"

definition doc_pexpire :: "key \<Rightarrow> ms \<Rightarrow> rview \<Rightarrow> int \<times> rview" where
  \<comment> \<open>PEXPIRE: a time that is not in the future deletes the key.\<close>
  "doc_pexpire k t v =
     (if \<not> exists_key k v then (0, v)
      else (1, if t \<le> 0 then del_view k v else v\<lparr>ttls := (ttls v)(k \<mapsto> clock_ms v + t)\<rparr>))"

definition doc_pttl :: "key \<Rightarrow> rview \<Rightarrow> int" where
  "doc_pttl k v =
     (if \<not> exists_key k v then - 2
      else case ttls v k of None \<Rightarrow> - 1 | Some d \<Rightarrow> d - clock_ms v)"

definition doc_next_sid :: "rview \<Rightarrow> (sid \<times> fields) list \<Rightarrow> sid" where
  \<comment> \<open>XADD with id *: the server time, or the successor of the top id if that is not older.\<close>
  "doc_next_sid v es =
     (let t = foldr (\<lambda>e. max (fst e)) es (Sid (clock_ms v) (- 1))
      in Sid (sid_ms t) (sid_seq t + 1))"

definition stream_at :: "key \<Rightarrow> rview \<Rightarrow> stream" where
  "stream_at k v = (case strms v k of None \<Rightarrow> \<lparr>entries = [], groups = (\<lambda>_. None)\<rparr> | Some st \<Rightarrow> st)"

definition doc_xadd :: "key \<Rightarrow> fields \<Rightarrow> rview \<Rightarrow> sid \<times> rview" where
  "doc_xadd k fs v =
     (let st = stream_at k v; i = doc_next_sid v (entries st)
      in (i, v\<lparr>strms := (strms v)(k \<mapsto> st\<lparr>entries := entries st @ [(i, fs)]\<rparr>)\<rparr>))"

definition doc_del :: "key \<Rightarrow> rview \<Rightarrow> rview" where
  "doc_del k v = del_view k v"

definition doc_lpush :: "key \<Rightarrow> string \<Rightarrow> rview \<Rightarrow> rview" where
  "doc_lpush k x v = v\<lparr>rlists := (rlists v)(k := x # rlists v k)\<rparr>"

definition doc_ltrim :: "key \<Rightarrow> int \<Rightarrow> rview \<Rightarrow> rview" where
  \<comment> \<open>LTRIM key 0 stop, with stop not negative: keeps the first stop + 1 elements.\<close>
  "doc_ltrim k stop v = v\<lparr>rlists := (rlists v)(k := take (nat (stop + 1)) (rlists v k))\<rparr>"

definition doc_xpending :: "key \<Rightarrow> string \<Rightarrow> rview \<Rightarrow> int option" where
  \<comment> \<open>The summary's count; an error (here \<open>None\<close>) without the stream or the group.\<close>
  "doc_xpending k g v =
     (case strms v k of None \<Rightarrow> None
      | Some st \<Rightarrow> map_option (\<lambda>c. int (length (pending c))) (groups st g))"

subsection \<open>The interface\<close>

record 's redis_api =
  c_time :: "'s \<Rightarrow> int \<times> int"
  c_pexpire :: "key \<Rightarrow> ms \<Rightarrow> 's \<Rightarrow> int \<times> 's"
  c_pttl :: "key \<Rightarrow> 's \<Rightarrow> int"
  c_del :: "key \<Rightarrow> 's \<Rightarrow> 's"
  c_zadd :: "key \<Rightarrow> ms \<Rightarrow> member \<Rightarrow> 's \<Rightarrow> int \<times> 's"
  c_zadd_xx :: "key \<Rightarrow> ms \<Rightarrow> member \<Rightarrow> 's \<Rightarrow> int \<times> 's"
  c_zadd_nx :: "key \<Rightarrow> ms \<Rightarrow> member \<Rightarrow> 's \<Rightarrow> int \<times> 's"
  c_zrem :: "key \<Rightarrow> member \<Rightarrow> 's \<Rightarrow> int \<times> 's"
  c_zremrangebyscore :: "key \<Rightarrow> ms \<Rightarrow> 's \<Rightarrow> int \<times> 's"
  c_zrangebyscore :: "key \<Rightarrow> ms \<Rightarrow> 's \<Rightarrow> member list"
  c_zrange :: "key \<Rightarrow> int \<Rightarrow> int \<Rightarrow> 's \<Rightarrow> zset"
  c_zcard :: "key \<Rightarrow> 's \<Rightarrow> int"
  c_zscore :: "key \<Rightarrow> member \<Rightarrow> 's \<Rightarrow> ms option"
  c_get :: "key \<Rightarrow> 's \<Rightarrow> string option"
  c_set_px :: "key \<Rightarrow> string \<Rightarrow> ms \<Rightarrow> 's \<Rightarrow> 's"
  c_incrby :: "key \<Rightarrow> int \<Rightarrow> 's \<Rightarrow> int \<times> 's"
  c_lpush :: "key \<Rightarrow> string \<Rightarrow> 's \<Rightarrow> 's"
  c_ltrim :: "key \<Rightarrow> int \<Rightarrow> 's \<Rightarrow> 's"
  c_xlen :: "key \<Rightarrow> 's \<Rightarrow> int"
  c_xadd :: "key \<Rightarrow> fields \<Rightarrow> 's \<Rightarrow> sid \<times> 's"
  c_xfirst :: "key \<Rightarrow> 's \<Rightarrow> (sid \<times> fields) option"
  c_xpending :: "key \<Rightarrow> string \<Rightarrow> 's \<Rightarrow> int option"

text \<open>INCR is INCRBY 1, DECRBY n is INCRBY of -n.\<close>

definition c_incr :: "'s redis_api \<Rightarrow> key \<Rightarrow> 's \<Rightarrow> int \<times> 's" where
  "c_incr R k s = c_incrby R k 1 s"

definition c_decrby :: "'s redis_api \<Rightarrow> key \<Rightarrow> int \<Rightarrow> 's \<Rightarrow> int \<times> 's" where
  "c_decrby R k n s = c_incrby R k (- n) s"

text \<open>Keys in general: the clock, expiry and deletion.\<close>

locale redis_keys =
  fixes R :: "'s redis_api" and view :: "'s \<Rightarrow> rview"
  assumes time_law: "c_time R s = (sec (view s), usec (view s))"
    and pexpire_law: "map_prod id view (c_pexpire R k t s) = doc_pexpire k t (view s)"
    and pttl_law: "c_pttl R k s = doc_pttl k (view s)"
    and del_law: "view (c_del R k s) = doc_del k (view s)"

locale redis_zsets = redis_keys R view for R :: "'s redis_api" and view :: "'s \<Rightarrow> rview" +
  assumes zadd_law: "map_prod id view (c_zadd R k x m s) = doc_zadd k x m (view s)"
    and zadd_xx_law: "map_prod id view (c_zadd_xx R k x m s) = doc_zadd_xx k x m (view s)"
    and zadd_nx_law: "map_prod id view (c_zadd_nx R k x m s) = doc_zadd_nx k x m (view s)"
    and zrem_law: "map_prod id view (c_zrem R k m s) = doc_zrem k m (view s)"
    and zremrangebyscore_law:
      "map_prod id view (c_zremrangebyscore R k x s) = doc_zremrangebyscore k x (view s)"
    and zrangebyscore_law: "c_zrangebyscore R k x s = map snd (z_upto x (zsets (view s) k))"
    and zrange_law: "c_zrange R k a b s = z_slice a b (zsets (view s) k)"
    and zcard_law: "c_zcard R k s = int (length (zsets (view s) k))"
    and zscore_law: "c_zscore R k m s = z_score (zsets (view s) k) m"

text \<open>
  Strings. INCR and its kin are used on keys that are missing or hold an integer, and SET PX
  with a positive time: on anything else the command is an error, and nothing is assumed.
\<close>

locale redis_strings = redis_keys R view for R :: "'s redis_api" and view :: "'s \<Rightarrow> rview" +
  assumes get_law: "c_get R k s = strs (view s) k"
    and set_px_law: "0 < px \<Longrightarrow> view (c_set_px R k t px s) = doc_set_px k t px (view s)"
    and incrby_law: "str_num (strs (view s) k) \<noteq> None \<Longrightarrow>
      map_prod id view (c_incrby R k n s) = doc_incrby k n (view s)"

locale redis_lists = redis_keys R view for R :: "'s redis_api" and view :: "'s \<Rightarrow> rview" +
  assumes lpush_law: "view (c_lpush R k x s) = doc_lpush k x (view s)"
    and ltrim_law: "0 \<le> stop \<Longrightarrow> view (c_ltrim R k stop s) = doc_ltrim k stop (view s)"

text \<open>
  Streams. The id XADD makes is larger than every id in the stream and not older than the
  server clock; how it is chosen is left open.
\<close>

locale redis_streams = redis_strings R view for R :: "'s redis_api" and view :: "'s \<Rightarrow> rview" +
  assumes xlen_law: "c_xlen R k s = int (length (entries (stream_at k (view s))))"
    and xadd_law: "c_xadd R k fs s = (i, s') \<Longrightarrow>
      clock_ms (view s) \<le> sid_ms i \<and> (\<forall>e \<in> set (entries (stream_at k (view s))). fst e < i) \<and>
      view s' = (view s)\<lparr>strms := (strms (view s))(k \<mapsto> (stream_at k (view s))
        \<lparr>entries := entries (stream_at k (view s)) @ [(i, fs)]\<rparr>)\<rparr>"
    and xfirst_law: "c_xfirst R k s =
      (case entries (stream_at k (view s)) of [] \<Rightarrow> None | e # _ \<Rightarrow> Some e)"
    and xpending_law: "c_xpending R k g s = doc_xpending k g (view s)"

locale redis =
  redis_zsets R view + redis_strings R view + redis_lists R view + redis_streams R view
  for R :: "'s redis_api" and view :: "'s \<Rightarrow> rview"

lemma map_prod_fst: "map_prod id f p = q \<Longrightarrow> fst p = fst q"
  by (cases p) auto

lemma map_prod_snd: "map_prod id f p = q \<Longrightarrow> f (snd p) = snd q"
  by (cases p) auto

context redis_keys
begin

lemmas keys_laws = time_law pttl_law del_law
  map_prod_fst [OF pexpire_law] map_prod_snd [OF pexpire_law]

end

context redis_zsets
begin

lemmas zset_laws = zrangebyscore_law zrange_law zcard_law zscore_law
  map_prod_fst [OF zadd_law] map_prod_snd [OF zadd_law]
  map_prod_fst [OF zadd_xx_law] map_prod_snd [OF zadd_xx_law]
  map_prod_fst [OF zadd_nx_law] map_prod_snd [OF zadd_nx_law]
  map_prod_fst [OF zrem_law] map_prod_snd [OF zrem_law]
  map_prod_fst [OF zremrangebyscore_law] map_prod_snd [OF zremrangebyscore_law]

end

context redis_strings
begin

lemmas string_laws = get_law set_px_law
  map_prod_fst [OF incrby_law] map_prod_snd [OF incrby_law]

end

lemma clock_docs [simp]:
  "clock_ms (snd (doc_pexpire k t v)) = clock_ms v"
  "clock_ms (snd (doc_incrby k n v)) = clock_ms v"
  "clock_ms (snd (doc_zadd k x m v)) = clock_ms v"
  "clock_ms (snd (doc_zadd_xx k x m v)) = clock_ms v"
  "clock_ms (snd (doc_zadd_nx k x m v)) = clock_ms v"
  "clock_ms (snd (doc_zrem k m v)) = clock_ms v"
  "clock_ms (snd (doc_zremrangebyscore k x v)) = clock_ms v"
  "clock_ms (doc_set_px k w x v) = clock_ms v"
  "clock_ms (doc_del k v) = clock_ms v"
  by (simp_all add: doc_pexpire_def del_view_def doc_incrby_def doc_zadd_def doc_zadd_xx_def
     doc_zadd_nx_def doc_zrem_def doc_zremrangebyscore_def doc_set_px_def doc_del_def put_zset_def
     split: option.split)

subsection \<open>A store with the documented behaviour\<close>

definition doc_redis :: "rview redis_api" where
  "doc_redis = \<lparr>
     c_time = (\<lambda>v. (sec v, usec v)),
     c_pexpire = doc_pexpire,
     c_pttl = doc_pttl,
     c_del = doc_del,
     c_zadd = doc_zadd,
     c_zadd_xx = doc_zadd_xx,
     c_zadd_nx = doc_zadd_nx,
     c_zrem = doc_zrem,
     c_zremrangebyscore = doc_zremrangebyscore,
     c_zrangebyscore = (\<lambda>k x v. map snd (z_upto x (zsets v k))),
     c_zrange = (\<lambda>k a b v. z_slice a b (zsets v k)),
     c_zcard = (\<lambda>k v. int (length (zsets v k))),
     c_zscore = (\<lambda>k m v. z_score (zsets v k) m),
     c_get = (\<lambda>k v. strs v k),
     c_set_px = doc_set_px,
     c_incrby = doc_incrby,
     c_lpush = doc_lpush,
     c_ltrim = doc_ltrim,
     c_xlen = (\<lambda>k v. int (length (entries (stream_at k v)))),
     c_xadd = doc_xadd,
     c_xfirst = (\<lambda>k v. case entries (stream_at k v) of [] \<Rightarrow> None | e # _ \<Rightarrow> Some e),
     c_xpending = doc_xpending\<rparr>"

lemma doc_redis_sel [simp]:
  "c_time doc_redis = (\<lambda>v. (sec v, usec v))"
  "c_pexpire doc_redis = doc_pexpire"
  "c_pttl doc_redis = doc_pttl"
  "c_del doc_redis = doc_del"
  "c_zadd doc_redis = doc_zadd"
  "c_zadd_xx doc_redis = doc_zadd_xx"
  "c_zadd_nx doc_redis = doc_zadd_nx"
  "c_zrem doc_redis = doc_zrem"
  "c_zremrangebyscore doc_redis = doc_zremrangebyscore"
  "c_zrangebyscore doc_redis = (\<lambda>k x v. map snd (z_upto x (zsets v k)))"
  "c_zrange doc_redis = (\<lambda>k a b v. z_slice a b (zsets v k))"
  "c_zcard doc_redis = (\<lambda>k v. int (length (zsets v k)))"
  "c_zscore doc_redis = (\<lambda>k m v. z_score (zsets v k) m)"
  "c_get doc_redis = (\<lambda>k v. strs v k)"
  "c_set_px doc_redis = doc_set_px"
  "c_incrby doc_redis = doc_incrby"
  "c_lpush doc_redis = doc_lpush"
  "c_ltrim doc_redis = doc_ltrim"
  "c_xlen doc_redis = (\<lambda>k v. int (length (entries (stream_at k v))))"
  "c_xadd doc_redis = doc_xadd"
  "c_xfirst doc_redis = (\<lambda>k v. case entries (stream_at k v) of [] \<Rightarrow> None | e # _ \<Rightarrow> Some e)"
  "c_xpending doc_redis = doc_xpending"
  by (simp_all add: doc_redis_def)

lemma sid_max_ge: "e \<in> set es \<Longrightarrow> fst e \<le> foldr (\<lambda>e. max (fst e)) es (b :: sid)"
  by (induction es) (auto intro: max.coboundedI2)

lemma sid_max_base: "b \<le> foldr (\<lambda>e. max (fst e)) es (b :: sid)"
  by (induction es) (auto intro: max.coboundedI2)

lemma sid_succ: "i \<le> t \<Longrightarrow> i < Sid (sid_ms t) (sid_seq t + 1)"
  by (auto simp: less_eq_sid_def less_sid_def)

lemma doc_next_sid_fresh: "e \<in> set es \<Longrightarrow> fst e < doc_next_sid v es"
  unfolding doc_next_sid_def Let_def by (intro sid_succ sid_max_ge)

lemma doc_next_sid_clock: "clock_ms v \<le> sid_ms (doc_next_sid v es)"
  using sid_max_base [of "Sid (clock_ms v) (- 1)" es]
  by (auto simp: doc_next_sid_def Let_def less_eq_sid_def)

interpretation doc: redis doc_redis "\<lambda>v. v"
  by unfold_locales
    (auto simp: map_prod_def doc_xadd_def Let_def doc_next_sid_fresh
       doc_next_sid_clock)

text \<open>Script replies, as the protocol carries them (Lua numbers become integers).\<close>

datatype resp = RInt int | RBulk string | RNil | RArr "resp list"

subsection \<open>Time passes between scripts\<close>

text \<open>
  A script runs atomically. Between two scripts the server clock moves on and never back, other
  clients may do anything to keys outside \<open>ks\<close>, and a key of \<open>ks\<close> is left as it is, or is gone
  once its expiry time has been reached.
\<close>

definition same_key :: "key \<Rightarrow> rview \<Rightarrow> rview \<Rightarrow> bool" where
  "same_key k v v' \<longleftrightarrow> zsets v' k = zsets v k \<and> strs v' k = strs v k \<and> rlists v' k = rlists v k \<and>
     strms v' k = strms v k \<and> ttls v' k = ttls v k"

definition gone_key :: "key \<Rightarrow> rview \<Rightarrow> rview \<Rightarrow> bool" where
  "gone_key k v v' \<longleftrightarrow> (case ttls v k of None \<Rightarrow> False | Some d \<Rightarrow> d \<le> clock_ms v') \<and>
     zsets v' k = [] \<and> strs v' k = None \<and> rlists v' k = [] \<and> strms v' k = None \<and> ttls v' k = None"

definition env_step :: "key list \<Rightarrow> rview \<Rightarrow> rview \<Rightarrow> bool" where
  "env_step ks v v' \<longleftrightarrow> clock_ms v \<le> clock_ms v' \<and>
     list_all (\<lambda>k. same_key k v v' \<or> gone_key k v v') ks"

text \<open>One such step, which the witnesses use: the clock moves on and the due keys of \<open>ks\<close> vanish.\<close>

definition expire_key :: "key \<Rightarrow> rview \<Rightarrow> rview" where
  "expire_key k v =
     (case ttls v k of
        None \<Rightarrow> v
      | Some d \<Rightarrow> if d \<le> clock_ms v then del_view k v else v)"

definition doc_tick :: "key list \<Rightarrow> ms \<Rightarrow> rview \<Rightarrow> rview" where
  "doc_tick ks n v =
     (let now = clock_ms v + n
      in fold expire_key ks (v\<lparr>sec := now div 1000, usec := now mod 1000 * 1000\<rparr>))"

lemma clock_ms_expire_key [simp]: "clock_ms (expire_key k v) = clock_ms v"
  by (simp add: expire_key_def del_view_def split: option.split)

lemma clock_ms_fold_expire [simp]: "clock_ms (fold expire_key ks v) = clock_ms v"
  by (induction ks arbitrary: v) simp_all

lemma clock_ms_doc_tick [simp]: "clock_ms (doc_tick ks n v) = clock_ms v + n"
  by (simp add: doc_tick_def Let_def) (simp add: clock_ms_def)

lemma same_or_gone_expire:
  "same_key k v (expire_key k' v) \<or> gone_key k v (expire_key k' v)"
  by (auto simp: expire_key_def same_key_def gone_key_def del_view_def clock_ms_def
      split: option.split)

lemma same_or_gone_trans:
  "same_key k u v \<or> gone_key k u v \<Longrightarrow> same_key k v w \<or> gone_key k v w \<Longrightarrow>
    clock_ms v = clock_ms w \<Longrightarrow> same_key k u w \<or> gone_key k u w"
  by (auto simp: same_key_def gone_key_def split: option.splits)

lemma same_or_gone_fold:
  "same_key k v (fold expire_key ks v) \<or> gone_key k v (fold expire_key ks v)"
proof (induction ks arbitrary: v)
  case Nil
  then show ?case by (simp add: same_key_def)
next
  case (Cons k' ks)
  from same_or_gone_trans [OF same_or_gone_expire [of k v k'] Cons.IH] show ?case by simp
qed

lemma env_step_doc_tick: "0 \<le> n \<Longrightarrow> env_step ks v (doc_tick ks' n v)"
proof -
  assume n: "0 \<le> n"
  let ?v = "v\<lparr>sec := (clock_ms v + n) div 1000, usec := (clock_ms v + n) mod 1000 * 1000\<rparr>"
  have "same_key k v (doc_tick ks' n v) \<or> gone_key k v (doc_tick ks' n v)" for k
    using same_or_gone_fold [of k ?v ks']
    by (simp add: doc_tick_def Let_def same_key_def gone_key_def)
  with n show ?thesis by (simp add: env_step_def list_all_iff)
qed

definition empty_view :: "ms \<Rightarrow> rview" where
  "empty_view now = \<lparr>zsets = (\<lambda>_. []), strs = (\<lambda>_. None), rlists = (\<lambda>_. []), strms = (\<lambda>_. None),
     ttls = (\<lambda>_. None), sec = now div 1000, usec = now mod 1000 * 1000\<rparr>"

lemma clock_ms_empty_view [simp]: "clock_ms (empty_view n) = n"
  by (simp add: empty_view_def clock_ms_def)

end
