(* ===== verification/SemScripts.thy ===== *)
theory SemScripts
  imports Redis
begin

section \<open>The semaphore's Lua scripts\<close>

text \<open>
  The five scripts of \<open>src/redis_semaphore/lua_scripts.py\<close> that work on one semaphore: ACQUIRE,
  RELEASE, REFRESH, CLEANUP and STATUS, over the sorted set of owners (member: identifier,
  score: expiry in ms) and the fencing counter. A script takes its keys and arguments and the
  store, and returns its reply and the store after it. \<open>now_arg\<close> is the optional client time;
  \<open>None\<close> stands for the empty string, which selects the server clock.
\<close>

definition lua_resolve_now :: "'s redis_api \<Rightarrow> ms option \<Rightarrow> 's \<Rightarrow> ms" where
  "lua_resolve_now R now_arg s =
     (case now_arg of
        Some n \<Rightarrow> n
      | None \<Rightarrow> (let t = c_time R s in fst t * 1000 + snd t div 1000))"

definition lua_bump_owners_ttl :: "'s redis_api \<Rightarrow> key \<Rightarrow> ms \<Rightarrow> ms \<Rightarrow> 's \<Rightarrow> 's" where
  "lua_bump_owners_ttl R owners_key now_ms lock_timeout_ms s =
     (case c_zrange R owners_key (-1) (-1) s of
        [] \<Rightarrow> s
      | top_entry # _ \<Rightarrow> snd (c_pexpire R owners_key (fst top_entry - now_ms + lock_timeout_ms) s))"

definition acquire_script ::
  "'s redis_api \<Rightarrow> key \<Rightarrow> key \<Rightarrow> ident \<Rightarrow> int \<Rightarrow> ms \<Rightarrow> ms option \<Rightarrow> 's \<Rightarrow> resp \<times> 's" where
  "acquire_script R owners_key fencing_key identifier limit lock_timeout_ms now_arg s =
     (let now_ms = lua_resolve_now R now_arg s;
          s = snd (c_zremrangebyscore R owners_key now_ms s);
          current_count = c_zcard R owners_key s
      in if c_zscore R owners_key identifier s \<noteq> None then
           (let new_expires = now_ms + lock_timeout_ms;
                s = snd (c_zadd R owners_key new_expires identifier s);
                (fencing_token, s) = c_incr R fencing_key s;
                s = lua_bump_owners_ttl R owners_key now_ms lock_timeout_ms s
            in (RArr [RInt 1, RInt fencing_token, RInt new_expires, RInt current_count], s))
         else if current_count < limit then
           (let expires_at = now_ms + lock_timeout_ms;
                s = snd (c_zadd R owners_key expires_at identifier s);
                (fencing_token, s) = c_incr R fencing_key s;
                s = lua_bump_owners_ttl R owners_key now_ms lock_timeout_ms s
            in (RArr [RInt 1, RInt fencing_token, RInt expires_at, RInt (current_count + 1)], s))
         else (RArr [RInt 0, RBulk [], RBulk [], RInt current_count], s))"

definition release_script :: "'s redis_api \<Rightarrow> key \<Rightarrow> ident \<Rightarrow> 's \<Rightarrow> resp \<times> 's" where
  "release_script R owners_key identifier s =
     (let (removed, s) = c_zrem R owners_key identifier s in (RInt removed, s))"

definition refresh_script ::
  "'s redis_api \<Rightarrow> key \<Rightarrow> ident \<Rightarrow> ms \<Rightarrow> ms option \<Rightarrow> 's \<Rightarrow> resp \<times> 's" where
  "refresh_script R owners_key identifier lock_timeout_ms now_arg s =
     (let now_ms = lua_resolve_now R now_arg s
      in case c_zscore R owners_key identifier s of
           None \<Rightarrow> (RInt 0, s)
         | Some current_score \<Rightarrow>
             if current_score < now_ms then
               (RInt 0, snd (c_zrem R owners_key identifier s))
             else
               (let new_expires = now_ms + lock_timeout_ms;
                    s = snd (c_zadd_xx R owners_key new_expires identifier s);
                    s = lua_bump_owners_ttl R owners_key now_ms lock_timeout_ms s
                in (RInt new_expires, s)))"

definition cleanup_script :: "'s redis_api \<Rightarrow> key \<Rightarrow> ms option \<Rightarrow> 's \<Rightarrow> resp \<times> 's" where
  "cleanup_script R owners_key now_arg s =
     (let (n, s) = c_zremrangebyscore R owners_key (lua_resolve_now R now_arg s) s in (RInt n, s))"

definition status_script :: "'s redis_api \<Rightarrow> key \<Rightarrow> ms option \<Rightarrow> ident \<Rightarrow> 's \<Rightarrow> resp \<times> 's" where
  "status_script R owners_key now_arg identifier s =
     (let s = snd (c_zremrangebyscore R owners_key (lua_resolve_now R now_arg s) s);
          current_count = c_zcard R owners_key s;
          score = (if identifier \<noteq> [] then c_zscore R owners_key identifier s else None)
      in (case score of
            None \<Rightarrow> RArr [RInt current_count, RInt 0, RBulk []]
          | Some e \<Rightarrow> RArr [RInt current_count, RInt 1, RBulk (int_str e)], s))"

subsection \<open>The scripts on the view\<close>

text \<open>The time a script works with, on the view.\<close>

definition script_now :: "ms option \<Rightarrow> rview \<Rightarrow> ms" where
  "script_now now_arg v = (case now_arg of Some n \<Rightarrow> n | None \<Rightarrow> clock_ms v)"

text \<open>
  The well-formedness every script keeps: the owners are a sorted set, the fencing counter is
  missing or an integer.
\<close>

definition sem_wf :: "key \<Rightarrow> key \<Rightarrow> rview \<Rightarrow> bool" where
  "sem_wf ok fk v \<longleftrightarrow> z_wf (zsets v ok) \<and> str_num (strs v fk) \<noteq> None"

text \<open>The counter's value, and the owners with their expiry.\<close>

definition fence :: "key \<Rightarrow> rview \<Rightarrow> int" where
  "fence fk v = (case str_num (strs v fk) of None \<Rightarrow> 0 | Some n \<Rightarrow> n)"

definition owners :: "key \<Rightarrow> rview \<Rightarrow> ident \<Rightarrow> ms option" where
  "owners ok v = z_score (zsets v ok)"

text \<open>No owner outlives the key: an expiry set on the key is at or after every score.\<close>

definition ttl_covers :: "key \<Rightarrow> rview \<Rightarrow> bool" where
  "ttl_covers ok v \<longleftrightarrow>
     (case ttls v ok of None \<Rightarrow> True | Some d \<Rightarrow> list_all (\<lambda>e. fst e \<le> d) (zsets v ok))"

lemma str_num_Some [simp]: "str_num (Some (int_str n)) = Some n"
  by (simp add: str_num_def)

lemma put_zset_simps [simp]:
  "zsets (put_zset k z v) = (zsets v)(k := z)"
  "strs (put_zset k z v) = strs v"
  "rlists (put_zset k z v) = rlists v"
  "strms (put_zset k z v) = strms v"
  "sec (put_zset k z v) = sec v"
  "usec (put_zset k z v) = usec v"
  "clock_ms (put_zset k z v) = clock_ms v"
  "ttls (put_zset k z v) = (if z = [] then (ttls v)(k := None) else ttls v)"
  by (simp_all add: put_zset_def clock_ms_def)

text \<open>What a positive lock timeout makes of the expiry fragment: the key never goes.\<close>

definition bumped :: "key \<Rightarrow> ms \<Rightarrow> ms \<Rightarrow> rview \<Rightarrow> rview" where
  "bumped ok now lt v =
     v\<lparr>ttls := (ttls v)(ok \<mapsto> clock_ms v + (fst (last (zsets v ok)) - now + lt))\<rparr>"

lemma bumped_simps [simp]:
  "zsets (bumped k n l v) = zsets v"
  "strs (bumped k n l v) = strs v"
  "rlists (bumped k n l v) = rlists v"
  "strms (bumped k n l v) = strms v"
  "clock_ms (bumped k n l v) = clock_ms v"
  "ttls (bumped k n l v) =
     (ttls v)(k \<mapsto> clock_ms v + (fst (last (zsets v k)) - n + l))"
  by (simp_all add: bumped_def clock_ms_def)

context redis
begin

lemma resolve_now_view: "lua_resolve_now R now_arg s = script_now now_arg (view s)"
  by (simp add: lua_resolve_now_def script_now_def time_law clock_ms_def split: option.split)

lemma bump_view:
  assumes "z_wf (zsets (view s) ok)" and "(e, m) \<in> set (zsets (view s) ok)"
    and "now - lt < e"
  shows "view (lua_bump_owners_ttl R ok now lt s) = bumped ok now lt (view s)"
proof -
  have ne: "zsets (view s) ok \<noteq> []" using assms(2) by auto
  then have "e \<le> fst (last (zsets (view s) ok))"
    using z_wf_last_max [OF assms(1,2)] by simp
  with ne assms(3) show ?thesis
    by (simp add: lua_bump_owners_ttl_def zrange_law z_slice_last keys_laws doc_pexpire_def
        exists_key_def bumped_def)
qed

lemma incr_view:
  assumes "str_num (strs (view s) k) \<noteq> None"
  shows "fst (c_incr R k s) = fence k (view s) + 1"
    and "view (snd (c_incr R k s)) =
      (view s)\<lparr>strs := (strs (view s))(k \<mapsto> int_str (fence k (view s) + 1))\<rparr>"
  using assms
  by (auto simp: c_incr_def string_laws doc_incrby_def fence_def)

end

text \<open>
  The effect of each script as a function on the view: the owners with the expired ones purged,
  and the view after a grant.
\<close>

definition purged :: "key \<Rightarrow> ms \<Rightarrow> rview \<Rightarrow> rview" where
  "purged ok now v = put_zset ok (z_after now (zsets v ok)) v"

definition granted :: "key \<Rightarrow> key \<Rightarrow> ident \<Rightarrow> ms \<Rightarrow> ms \<Rightarrow> rview \<Rightarrow> rview" where
  "granted ok fk x lt now v =
     bumped ok now lt ((put_zset ok (z_add (now + lt) x (zsets v ok)) v)
       \<lparr>strs := (strs v)(fk \<mapsto> int_str (fence fk v + 1))\<rparr>)"

definition acquire_view ::
  "key \<Rightarrow> key \<Rightarrow> ident \<Rightarrow> int \<Rightarrow> ms \<Rightarrow> ms \<Rightarrow> rview \<Rightarrow> resp \<times> rview" where
  "acquire_view ok fk x limit lt now v =
     (let p = purged ok now v; n = int (length (zsets p ok))
      in if x \<in> dom (owners ok p) then
           (RArr [RInt 1, RInt (fence fk v + 1), RInt (now + lt), RInt n], granted ok fk x lt now p)
         else if n < limit then
           (RArr [RInt 1, RInt (fence fk v + 1), RInt (now + lt), RInt (n + 1)],
            granted ok fk x lt now p)
         else (RArr [RInt 0, RBulk [], RBulk [], RInt n], p))"

definition refresh_view :: "key \<Rightarrow> ident \<Rightarrow> ms \<Rightarrow> ms \<Rightarrow> rview \<Rightarrow> resp \<times> rview" where
  "refresh_view ok x lt now v =
     (case owners ok v x of
        None \<Rightarrow> (RInt 0, v)
      | Some e \<Rightarrow>
          if e < now then (RInt 0, put_zset ok (z_rem x (zsets v ok)) v)
          else (RInt (now + lt),
                bumped ok now lt (put_zset ok (z_add (now + lt) x (zsets v ok)) v)))"

definition status_view :: "key \<Rightarrow> ident \<Rightarrow> ms \<Rightarrow> rview \<Rightarrow> resp \<times> rview" where
  "status_view ok x now v =
     (let p = purged ok now v; n = int (length (zsets p ok))
      in (case (if x = [] then None else owners ok p x) of
            None \<Rightarrow> RArr [RInt n, RInt 0, RBulk []]
          | Some e \<Rightarrow> RArr [RInt n, RInt 1, RBulk (int_str e)], p))"

lemma purged_simps [simp]:
  "zsets (purged k n v) = (zsets v)(k := z_after n (zsets v k))"
  "strs (purged k n v) = strs v"
  "rlists (purged k n v) = rlists v"
  "strms (purged k n v) = strms v"
  "clock_ms (purged k n v) = clock_ms v"
  "fence fk (purged k n v) = fence fk v"
  by (simp_all add: purged_def fence_def)

lemma bumped_put_purged [simp]:
  "z \<noteq> [] \<Longrightarrow> bumped k n l (put_zset k z (purged k m v)) = bumped k n l (put_zset k z v)"
  by (simp add: bumped_def put_zset_def purged_def clock_ms_def)

context redis
begin

lemma purge_step:
  "view (snd (c_zremrangebyscore R ok now s)) = purged ok now (view s)"
  by (simp add: zset_laws doc_zremrangebyscore_def purged_def)

lemma grant_step:
  fixes s defines "v \<equiv> view s"
  assumes wf: "sem_wf ok fk v" and lt: "0 < lt"
  shows "fst (c_incr R fk (snd (c_zadd R ok (now + lt) x s))) = fence fk v + 1"
    and "view (lua_bump_owners_ttl R ok now lt
           (snd (c_incr R fk (snd (c_zadd R ok (now + lt) x s))))) = granted ok fk x lt now v"
proof -
  let ?s1 = "snd (c_zadd R ok (now + lt) x s)"
  let ?s2 = "snd (c_incr R fk ?s1)"
  have v1: "view ?s1 = put_zset ok (z_add (now + lt) x (zsets v ok)) v"
    by (simp add: zset_laws doc_zadd_def v_def)
  have num: "str_num (strs (view ?s1) fk) \<noteq> None"
    using wf by (simp add: v1 sem_wf_def)
  have f1: "fence fk (view ?s1) = fence fk v"
    by (simp add: v1 fence_def)
  show "fst (c_incr R fk ?s1) = fence fk v + 1"
    using incr_view(1) [OF num] f1 by simp
  have v2: "view ?s2 = (view ?s1)\<lparr>strs := (strs v)(fk \<mapsto> int_str (fence fk v + 1))\<rparr>"
    using incr_view(2) [OF num] f1 v1 by simp
  have "view (lua_bump_owners_ttl R ok now lt ?s2) = bumped ok now lt (view ?s2)"
    by (rule bump_view [where e = "now + lt" and m = x])
       (use wf lt in \<open>simp_all add: v2 v1 sem_wf_def\<close>)
  then show "view (lua_bump_owners_ttl R ok now lt ?s2) = granted ok fk x lt now v"
    by (simp add: v2 v1 granted_def)
qed

lemma sem_wf_purged [simp]: "sem_wf ok fk v \<Longrightarrow> sem_wf ok fk (purged ok now v)"
  by (simp add: sem_wf_def)

lemma acquire_on_view:
  assumes wf: "sem_wf ok fk (view s)" and lt: "0 < lt"
  shows "map_prod id view (acquire_script R ok fk x limit lt na s) =
    acquire_view ok fk x limit lt (script_now na (view s)) (view s)"
proof -
  let ?now = "script_now na (view s)"
  let ?s = "snd (c_zremrangebyscore R ok ?now s)"
  have p: "view ?s = purged ok ?now (view s)" by (rule purge_step)
  have wf': "sem_wf ok fk (view ?s)" using wf by (simp add: p)
  show ?thesis
    using grant_step [OF wf' lt, of ?now x]
    by (simp add: acquire_script_def acquire_view_def Let_def case_prod_beta resolve_now_view
        zcard_law zscore_law p owners_def domIff)
qed

lemma release_on_view:
  "map_prod id view (release_script R ok x s) = map_prod RInt id (doc_zrem ok x (view s))"
  by (simp add: release_script_def case_prod_beta zset_laws prod_eq_iff)

lemma refresh_on_view:
  assumes wf: "z_wf (zsets (view s) ok)" and lt: "0 < lt"
  shows "map_prod id view (refresh_script R ok x lt na s) =
    refresh_view ok x lt (script_now na (view s)) (view s)"
proof (cases "owners ok (view s) x")
  case None
  then show ?thesis
    by (simp add: refresh_script_def refresh_view_def Let_def zscore_law owners_def)
next
  case (Some e)
  let ?now = "script_now na (view s)"
  let ?s = "snd (c_zadd_xx R ok (?now + lt) x s)"
  from Some have mem: "x \<in> snd ` set (zsets (view s) ok)"
    using z_score_None_iff [of "zsets (view s) ok" x] by (auto simp: owners_def)
  then have v: "view ?s = put_zset ok (z_add (?now + lt) x (zsets (view s) ok)) (view s)"
    by (simp add: zset_laws doc_zadd_xx_def)
  have "view (lua_bump_owners_ttl R ok ?now lt ?s) = bumped ok ?now lt (view ?s)"
    by (rule bump_view [where e = "?now + lt" and m = x]) (use wf lt in \<open>simp_all add: v\<close>)
  with Some mem v show ?thesis
    by (simp add: refresh_script_def refresh_view_def Let_def resolve_now_view zset_laws
        doc_zrem_def owners_def)
qed

lemma cleanup_on_view:
  "map_prod id view (cleanup_script R ok na s) =
    (RInt (int (length (z_upto (script_now na (view s)) (zsets (view s) ok)))),
     purged ok (script_now na (view s)) (view s))"
  by (simp add: cleanup_script_def case_prod_beta resolve_now_view zset_laws
      doc_zremrangebyscore_def purged_def)

lemma status_on_view:
  "map_prod id view (status_script R ok na x s) =
    status_view ok x (script_now na (view s)) (view s)"
  by (simp add: status_script_def status_view_def Let_def resolve_now_view purge_step
      zcard_law zscore_law owners_def split: option.split)

end

end
