(* ===== verification/SemSpec.thy ===== *)
theory SemSpec
  imports SemScripts
begin

section \<open>What a semaphore store promises: leases\<close>

text \<open>
  The abstract semaphore is a set of leases (identifier to expiry) and a fencing counter. The
  locale \<open>lease_store\<close> is the contract between the scripts and their clients: each script acts
  on the abstract semaphore as the specification says. The scripts of the model provide it over
  every store with the interface \<open>redis\<close>.
\<close>

record lease =
  holders :: "ident \<Rightarrow> ms option"
  token :: int

datatype grant = Granted (g_token: int) (g_expires: ms) (g_used: int) | Busy int

definition live :: "ms \<Rightarrow> (ident \<Rightarrow> ms option) \<Rightarrow> ident \<Rightarrow> ms option" where
  "live now h = (\<lambda>m. case h m of None \<Rightarrow> None | Some e \<Rightarrow> if e \<le> now then None else Some e)"

definition lease_acquire :: "int \<Rightarrow> ms \<Rightarrow> ms \<Rightarrow> ident \<Rightarrow> lease \<Rightarrow> grant \<times> lease" where
  "lease_acquire limit lt now x L =
     (let h = live now (holders L)
      in if x \<in> dom h \<or> int (card (dom h)) < limit then
           (let h' = h(x \<mapsto> now + lt)
            in (Granted (token L + 1) (now + lt) (int (card (dom h'))),
                \<lparr>holders = h', token = token L + 1\<rparr>))
         else (Busy (int (card (dom h))), L\<lparr>holders := h\<rparr>))"

definition lease_release :: "ident \<Rightarrow> lease \<Rightarrow> bool \<times> lease" where
  "lease_release x L = (x \<in> dom (holders L), L\<lparr>holders := (holders L)(x := None)\<rparr>)"

definition lease_refresh :: "ms \<Rightarrow> ms \<Rightarrow> ident \<Rightarrow> lease \<Rightarrow> ms option \<times> lease" where
  "lease_refresh lt now x L =
     (case holders L x of
        None \<Rightarrow> (None, L)
      | Some e \<Rightarrow>
          if e < now then (None, L\<lparr>holders := (holders L)(x := None)\<rparr>)
          else (Some (now + lt), L\<lparr>holders := (holders L)(x \<mapsto> now + lt)\<rparr>))"

definition lease_purge :: "ms \<Rightarrow> lease \<Rightarrow> lease" where
  "lease_purge now L = L\<lparr>holders := live now (holders L)\<rparr>"

text \<open>How the results are written in a reply.\<close>

fun grant_resp :: "grant \<Rightarrow> resp" where
  "grant_resp (Granted t e n) = RArr [RInt 1, RInt t, RInt e, RInt n]"
| "grant_resp (Busy n) = RArr [RInt 0, RBulk [], RBulk [], RInt n]"

definition lease_bounded :: "int \<Rightarrow> lease \<Rightarrow> bool" where
  "lease_bounded limit L \<longleftrightarrow> finite (dom (holders L)) \<and> int (card (dom (holders L))) \<le> limit"

lemma dom_live: "dom (live now h) \<subseteq> dom h"
  by (auto simp: live_def split: option.splits if_splits)

lemma live_Some [simp]: "live now h m = Some e \<longleftrightarrow> h m = Some e \<and> now < e"
  by (auto simp: live_def split: option.splits)

lemma lease_bounded_mono:
  assumes "lease_bounded limit L" and "dom (holders L') \<subseteq> dom (holders L)"
  shows "lease_bounded limit L'"
proof -
  have "card (dom (holders L')) \<le> card (dom (holders L))" and "finite (dom (holders L'))"
    using assms by (auto simp: lease_bounded_def intro: card_mono finite_subset)
  with assms(1) show ?thesis by (simp add: lease_bounded_def)
qed

lemma lease_bounded_acquire:
  assumes "lease_bounded limit L"
  shows "lease_bounded limit (snd (lease_acquire limit lt now x L))"
proof -
  let ?h = "live now (holders L)"
  have b: "lease_bounded limit (L\<lparr>holders := ?h\<rparr>)"
    by (rule lease_bounded_mono [OF assms]) (simp add: dom_live)
  then show ?thesis
    by (auto simp: lease_acquire_def Let_def lease_bounded_def card_insert_if insert_absorb)
qed

lemma lease_bounded_release: "lease_bounded limit L \<Longrightarrow> lease_bounded limit (snd (lease_release x L))"
  by (erule lease_bounded_mono) (auto simp: lease_release_def)

lemma lease_bounded_refresh:
  "lease_bounded limit L \<Longrightarrow> lease_bounded limit (snd (lease_refresh lt now x L))"
  by (erule lease_bounded_mono) (auto simp: lease_refresh_def split: option.splits)

lemma lease_bounded_purge: "lease_bounded limit L \<Longrightarrow> lease_bounded limit (lease_purge now L)"
  by (erule lease_bounded_mono) (simp add: lease_purge_def dom_live)

lemmas lease_bounded_ops =
  lease_bounded_acquire lease_bounded_release lease_bounded_refresh lease_bounded_purge

lemma token_lease_ops:
  "token (snd (lease_acquire limit lt now x L)) =
     (case fst (lease_acquire limit lt now x L) of Granted t _ _ \<Rightarrow> t | Busy _ \<Rightarrow> token L)"
  "token (snd (lease_release x L)) = token L"
  "token (snd (lease_refresh lt now x L)) = token L"
  "token (lease_purge now L) = token L"
  by (auto simp: lease_acquire_def lease_release_def lease_refresh_def lease_purge_def Let_def
      split: option.split)

subsection \<open>The contract\<close>

locale lease_store =
  fixes acq :: "ident \<Rightarrow> ms \<Rightarrow> ms option \<Rightarrow> 's \<Rightarrow> resp \<times> 's"
    and rel :: "ident \<Rightarrow> 's \<Rightarrow> resp \<times> 's"
    and rfr :: "ident \<Rightarrow> ms \<Rightarrow> ms option \<Rightarrow> 's \<Rightarrow> resp \<times> 's"
    and cln :: "ms option \<Rightarrow> 's \<Rightarrow> resp \<times> 's"
    and sta :: "ms option \<Rightarrow> ident \<Rightarrow> 's \<Rightarrow> resp \<times> 's"
    and good :: "'s \<Rightarrow> bool"
    and abs :: "'s \<Rightarrow> lease"
    and now_of :: "ms option \<Rightarrow> 's \<Rightarrow> ms"
    and limit :: int
  assumes acq_spec: "good s \<Longrightarrow> 0 < lt \<Longrightarrow> good (snd (acq x lt na s)) \<and>
      map_prod id abs (acq x lt na s) =
        map_prod grant_resp id (lease_acquire limit lt (now_of na s) x (abs s))"
    and rel_spec: "good s \<Longrightarrow> good (snd (rel x s)) \<and>
      map_prod id abs (rel x s) =
        map_prod (\<lambda>b. RInt (if b then 1 else 0)) id (lease_release x (abs s))"
    and rfr_spec: "good s \<Longrightarrow> 0 < lt \<Longrightarrow> good (snd (rfr x lt na s)) \<and>
      map_prod id abs (rfr x lt na s) =
        map_prod (\<lambda>r. RInt (case r of None \<Rightarrow> 0 | Some e \<Rightarrow> e)) id
          (lease_refresh lt (now_of na s) x (abs s))"
    and cln_spec: "good s \<Longrightarrow> good (snd (cln na s)) \<and>
      abs (snd (cln na s)) = lease_purge (now_of na s) (abs s)"
    and sta_spec: "good s \<Longrightarrow> good (snd (sta na x s)) \<and>
      abs (snd (sta na x s)) = lease_purge (now_of na s) (abs s)"
begin

lemmas store_good =
  acq_spec [THEN conjunct1] rel_spec [THEN conjunct1] rfr_spec [THEN conjunct1]
  cln_spec [THEN conjunct1] sta_spec [THEN conjunct1]

lemmas store_abs =
  acq_spec [THEN conjunct2, THEN map_prod_snd] rel_spec [THEN conjunct2, THEN map_prod_snd]
  rfr_spec [THEN conjunct2, THEN map_prod_snd] cln_spec [THEN conjunct2]
  sta_spec [THEN conjunct2]

lemmas store_reply =
  acq_spec [THEN conjunct2, THEN map_prod_fst] rel_spec [THEN conjunct2, THEN map_prod_fst]
  rfr_spec [THEN conjunct2, THEN map_prod_fst]

lemma store_bounded:
  assumes "good s" and "lease_bounded limit (abs s)"
  shows "0 < lt \<Longrightarrow> lease_bounded limit (abs (snd (acq x lt na s)))"
    and "lease_bounded limit (abs (snd (rel x s)))"
    and "0 < lt \<Longrightarrow> lease_bounded limit (abs (snd (rfr x lt na s)))"
    and "lease_bounded limit (abs (snd (cln na s)))"
    and "lease_bounded limit (abs (snd (sta na x s)))"
  using assms by (simp_all add: store_abs lease_bounded_ops)

text \<open>A granted token is one more than the counter was; the counter never falls.\<close>

lemma store_token:
  assumes "good s"
  shows "0 < lt \<Longrightarrow> fst (acq x lt na s) = grant_resp (Granted t e n) \<Longrightarrow>
      t = token (abs s) + 1 \<and> token (abs (snd (acq x lt na s))) = t"
    and "0 < lt \<Longrightarrow> token (abs s) \<le> token (abs (snd (acq x lt na s)))"
    and "token (abs (snd (rel x s))) = token (abs s)"
    and "0 < lt \<Longrightarrow> token (abs (snd (rfr x lt na s))) = token (abs s)"
    and "token (abs (snd (cln na s))) = token (abs s)"
    and "token (abs (snd (sta na x s))) = token (abs s)"
  using assms
  by (auto simp: store_abs store_reply token_lease_ops lease_acquire_def Let_def split: if_splits)

end

end
