(* ===== verification/SemSystem.thy ===== *)
theory SemSystem
  imports SemSpec
begin

section \<open>The semaphore's scripts provide the lease contract; interleavings\<close>

text \<open>
  The scripts, over any store with the interface \<open>redis\<close>, are a \<open>lease_store\<close>. The system of any
  number of clients is the step relation \<open>sem_step\<close>: at each step one script runs with the
  arguments of some client, or time passes. The properties say what holds after any number of
  such steps.
\<close>

definition sem_abs :: "key \<Rightarrow> key \<Rightarrow> rview \<Rightarrow> lease" where
  "sem_abs ok fk v = \<lparr>holders = owners ok v, token = fence fk v\<rparr>"

lemma sem_abs_simps [simp]:
  "holders (sem_abs ok fk v) = owners ok v" "token (sem_abs ok fk v) = fence fk v"
  by (simp_all add: sem_abs_def)

lemma owners_purged: "z_wf (zsets v ok) \<Longrightarrow> owners ok (purged ok now v) = live now (owners ok v)"
  by (simp add: owners_def live_def z_score_after)

lemma length_owners: "z_wf (zsets v ok) \<Longrightarrow> length (zsets v ok) = card (dom (owners ok v))"
  by (simp add: owners_def card_dom_z_score)

lemma granted_simps [simp]:
  "zsets (granted ok fk x lt now v) = (zsets v)(ok := z_add (now + lt) x (zsets v ok))"
  "strs (granted ok fk x lt now v) = (strs v)(fk \<mapsto> int_str (fence fk v + 1))"
  "clock_ms (granted ok fk x lt now v) = clock_ms v"
  "fence fk (granted ok fk x lt now v) = fence fk v + 1"
  by (simp_all add: granted_def fence_def)

lemma sem_wf_granted [simp]: "sem_wf ok fk v \<Longrightarrow> sem_wf ok fk (granted ok fk x lt now v)"
  by (simp add: sem_wf_def)

lemma owners_granted:
  "z_wf (zsets v ok) \<Longrightarrow> owners ok (granted ok fk x lt now v) = (owners ok v)(x \<mapsto> now + lt)"
  by (simp add: owners_def z_score_add)

lemma sem_abs_purged:
  "z_wf (zsets v ok) \<Longrightarrow> sem_abs ok fk (purged ok now v) = lease_purge now (sem_abs ok fk v)"
  by (simp add: sem_abs_def lease_purge_def owners_purged)

text \<open>Each script on the view follows the specification.\<close>

lemma acquire_view_spec:
  assumes wf: "sem_wf ok fk v"
  shows "sem_wf ok fk (snd (acquire_view ok fk x limit lt now v))"
    and "map_prod id (sem_abs ok fk) (acquire_view ok fk x limit lt now v) =
      map_prod grant_resp id (lease_acquire limit lt now x (sem_abs ok fk v))"
proof -
  let ?p = "purged ok now v"
  have z: "z_wf (zsets v ok)" "z_wf (zsets ?p ok)" and p: "sem_wf ok fk ?p"
    using wf by (simp_all add: sem_wf_def)
  have o: "owners ok ?p = live now (owners ok v)"
    using z(1) by (rule owners_purged)
  have n: "length (zsets ?p ok) = card (dom (live now (owners ok v)))"
    using length_owners [OF z(2)] o by simp
  have fin: "finite (dom (live now (owners ok v)))"
    using o [symmetric] by (simp add: owners_def dom_z_score)
  show "sem_wf ok fk (snd (acquire_view ok fk x limit lt now v))"
    using p by (simp add: acquire_view_def Let_def del: purged_simps)
  show "map_prod id (sem_abs ok fk) (acquire_view ok fk x limit lt now v) =
      map_prod grant_resp id (lease_acquire limit lt now x (sem_abs ok fk v))"
    using fin n o owners_granted [OF z(2)]
    by (auto simp: acquire_view_def lease_acquire_def Let_def sem_abs_def card_insert_if
        insert_absorb simp del: purged_simps(1))
qed

lemma refresh_view_spec:
  assumes wf: "sem_wf ok fk v" and lt: "0 < lt"
  shows "sem_wf ok fk (snd (refresh_view ok x lt now v))"
    and "map_prod id (sem_abs ok fk) (refresh_view ok x lt now v) =
      map_prod (\<lambda>r. RInt (case r of None \<Rightarrow> 0 | Some e \<Rightarrow> e)) id
        (lease_refresh lt now x (sem_abs ok fk v))"
  using wf
  by (auto simp: refresh_view_def lease_refresh_def sem_abs_def sem_wf_def fence_def owners_def
      z_score_rem z_score_add fun_upd_def split: option.split)

lemma release_view_spec:
  assumes wf: "sem_wf ok fk v"
  shows "sem_wf ok fk (snd (doc_zrem ok x v))"
    and "map_prod id (sem_abs ok fk) (map_prod RInt id (doc_zrem ok x v)) =
      map_prod (\<lambda>b. RInt (if b then 1 else 0)) id (lease_release x (sem_abs ok fk v))"
  using wf
  by (auto simp: doc_zrem_def lease_release_def sem_abs_def sem_wf_def fence_def owners_def
      z_score_rem dom_z_score fun_upd_idem z_score_None_iff)

lemma status_view_snd: "snd (status_view ok x now v) = purged ok now v"
  by (simp add: status_view_def Let_def)

locale sem_keys = redis R view for R :: "'s redis_api" and view :: "'s \<Rightarrow> rview" +
  fixes ok fk :: key and limit :: int
begin

lemma map_prod_trans:
  "map_prod id view p = q \<Longrightarrow> map_prod id (\<lambda>s. f (view s)) p = map_prod id f q"
  by (cases p) auto

end

sublocale sem_keys \<subseteq> lease: lease_store
  "\<lambda>x lt na s. acquire_script R ok fk x limit lt na s"
  "\<lambda>x s. release_script R ok x s"
  "\<lambda>x lt na s. refresh_script R ok x lt na s"
  "\<lambda>na s. cleanup_script R ok na s"
  "\<lambda>na x s. status_script R ok na x s"
  "\<lambda>s. sem_wf ok fk (view s)"
  "\<lambda>s. sem_abs ok fk (view s)"
  "\<lambda>na s. script_now na (view s)"
  limit
proof (unfold_locales, goal_cases)
  case (1 s lt x na)
  note sim = acquire_on_view [OF 1, of x limit na]
  show ?case
    using acquire_view_spec [OF 1(1), of x limit lt "script_now na (view s)"]
    by (simp add: map_prod_snd [OF sim] map_prod_trans [OF sim])
next
  case (2 s x)
  note sim = release_on_view [of ok x s]
  show ?case
    using release_view_spec [OF 2, of x]
    by (simp add: map_prod_snd [OF sim] map_prod_trans [OF sim])
next
  case (3 s lt x na)
  then have "z_wf (zsets (view s) ok)" by (simp add: sem_wf_def)
  note sim = refresh_on_view [OF this 3(2), of x na]
  show ?case
    using refresh_view_spec [OF 3, of x "script_now na (view s)"]
    by (simp add: map_prod_snd [OF sim] map_prod_trans [OF sim])
next
  case (4 s na)
  then have "z_wf (zsets (view s) ok)" by (simp add: sem_wf_def)
  with 4 show ?case
    by (simp add: map_prod_snd [OF cleanup_on_view] sem_abs_purged)
next
  case (5 s na x)
  then have "z_wf (zsets (view s) ok)" by (simp add: sem_wf_def)
  with 5 show ?case
    by (simp add: map_prod_snd [OF status_on_view] status_view_snd sem_abs_purged)
qed

subsection \<open>Any number of clients: the step relation\<close>

datatype sem_event =
    EvAcquire ident ms "ms option" resp
  | EvRelease ident resp
  | EvRefresh ident ms "ms option" resp
  | EvCleanup "ms option" resp
  | EvStatus "ms option" ident resp
  | EvEnv

text \<open>
  Every client uses the semaphore's keys and its limit; identifiers, lock timeouts (at least one
  millisecond) and time arguments are any.
\<close>

inductive sem_step ::
  "'s redis_api \<Rightarrow> ('s \<Rightarrow> rview) \<Rightarrow> key \<Rightarrow> key \<Rightarrow> int \<Rightarrow> 's \<Rightarrow> sem_event \<Rightarrow> 's \<Rightarrow> bool"
  for R view ok fk limit
where
  step_acquire: "0 < lt \<Longrightarrow> acquire_script R ok fk x limit lt na s = (r, s') \<Longrightarrow>
    sem_step R view ok fk limit s (EvAcquire x lt na r) s'"
| step_release: "release_script R ok x s = (r, s') \<Longrightarrow>
    sem_step R view ok fk limit s (EvRelease x r) s'"
| step_refresh: "0 < lt \<Longrightarrow> refresh_script R ok x lt na s = (r, s') \<Longrightarrow>
    sem_step R view ok fk limit s (EvRefresh x lt na r) s'"
| step_cleanup: "cleanup_script R ok na s = (r, s') \<Longrightarrow>
    sem_step R view ok fk limit s (EvCleanup na r) s'"
| step_status: "status_script R ok na x s = (r, s') \<Longrightarrow>
    sem_step R view ok fk limit s (EvStatus na x r) s'"
| step_env: "env_step [ok, fk] (view s) (view s') \<Longrightarrow>
    sem_step R view ok fk limit s EvEnv s'"

inductive sem_run ::
  "'s redis_api \<Rightarrow> ('s \<Rightarrow> rview) \<Rightarrow> key \<Rightarrow> key \<Rightarrow> int \<Rightarrow> 's \<Rightarrow> sem_event list \<Rightarrow> 's \<Rightarrow> bool"
  for R view ok fk limit
where
  run_Nil: "sem_run R view ok fk limit s [] s"
| run_snoc: "sem_run R view ok fk limit s tr s' \<Longrightarrow> sem_step R view ok fk limit s' e s'' \<Longrightarrow>
    sem_run R view ok fk limit s (tr @ [e]) s''"

text \<open>A semaphore nobody has used: neither key exists.\<close>

definition sem_unused :: "key \<Rightarrow> key \<Rightarrow> rview \<Rightarrow> bool" where
  "sem_unused ok fk v \<longleftrightarrow> zsets v ok = [] \<and> strs v fk = None \<and> ttls v ok = None \<and> ttls v fk = None"

text \<open>What every step keeps: the fencing counter never expires, the owners stay within the limit.\<close>

definition sem_inv :: "key \<Rightarrow> key \<Rightarrow> int \<Rightarrow> rview \<Rightarrow> bool" where
  "sem_inv ok fk limit v \<longleftrightarrow>
     sem_wf ok fk v \<and> ttls v fk = None \<and> lease_bounded limit (sem_abs ok fk v)"

lemma sem_inv_unused:
  assumes "sem_unused ok fk v" and "0 \<le> limit"
  shows "sem_inv ok fk limit v"
  using assms
  by (simp add: sem_inv_def sem_unused_def sem_wf_def str_num_def sem_abs_def lease_bounded_def
      owners_def z_score_def)

text \<open>The scripts leave the expiry of every other key alone.\<close>

lemma acquire_view_ttls: "k \<noteq> ok \<Longrightarrow> ttls (snd (acquire_view ok fk x limit lt now v)) k = ttls v k"
  by (simp add: acquire_view_def Let_def granted_def purged_def)

lemma refresh_view_ttls: "k \<noteq> ok \<Longrightarrow> ttls (snd (refresh_view ok x lt now v)) k = ttls v k"
  by (simp add: refresh_view_def split: option.split)

lemma zrem_ttls: "k \<noteq> ok \<Longrightarrow> ttls (snd (doc_zrem ok x v)) k = ttls v k"
  by (simp add: doc_zrem_def)

lemma purged_ttls: "k \<noteq> ok \<Longrightarrow> ttls (purged ok now v) k = ttls v k"
  by (simp add: purged_def)

text \<open>Between scripts, the counter stays and the owners stay or are gone together.\<close>

lemma env_step_sem:
  assumes "env_step [ok, fk] v v'" and "ttls v fk = None"
  shows "strs v' fk = strs v fk" and "ttls v' fk = None"
    and "zsets v' ok = zsets v ok \<and> ttls v' ok = ttls v ok \<or>
      zsets v' ok = [] \<and> (\<exists>d. ttls v ok = Some d \<and> d \<le> clock_ms v')"
    and "clock_ms v \<le> clock_ms v'"
  using assms
  by (auto simp: env_step_def same_key_def gone_key_def split: option.splits)

context sem_keys
begin

lemma script_ttls:
  assumes "sem_wf ok fk (view s)" and "k \<noteq> ok"
  shows "0 < lt \<Longrightarrow> ttls (view (snd (acquire_script R ok fk x limit lt na s))) k = ttls (view s) k"
    and "ttls (view (snd (release_script R ok x s))) k = ttls (view s) k"
    and "0 < lt \<Longrightarrow> ttls (view (snd (refresh_script R ok x lt na s))) k = ttls (view s) k"
    and "ttls (view (snd (cleanup_script R ok na s))) k = ttls (view s) k"
    and "ttls (view (snd (status_script R ok na x s))) k = ttls (view s) k"
  using assms
  by (simp_all add: map_prod_snd [OF acquire_on_view] map_prod_snd [OF release_on_view]
      map_prod_snd [OF refresh_on_view] map_prod_snd [OF cleanup_on_view]
      map_prod_snd [OF status_on_view] acquire_view_ttls refresh_view_ttls zrem_ttls
      status_view_snd purged_ttls sem_wf_def)

lemma sem_step_inv:
  assumes step: "sem_step R view ok fk limit s e s'" and ne: "ok \<noteq> fk"
    and inv: "sem_inv ok fk limit (view s)" and lim: "0 \<le> limit"
  shows "sem_inv ok fk limit (view s')"
  using step
proof (cases rule: sem_step.cases)
  case step_env
  with inv env_step_sem [OF step_env(2)] lim show ?thesis
    by (auto simp: sem_inv_def sem_wf_def sem_abs_def lease_bounded_def owners_def fence_def
        z_score_def)
qed (use inv ne in \<open>auto simp: sem_inv_def script_ttls lease.store_good lease.store_bounded
  dest!: arg_cong [where f = snd]\<close>)

end

subsection \<open>Fencing tokens along a run\<close>

fun resp_token :: "resp \<Rightarrow> int option" where
  "resp_token (RArr (RInt success # RInt fencing # _)) = (if success = 1 then Some fencing else None)"
| "resp_token _ = None"

fun granted_token :: "sem_event \<Rightarrow> int option" where
  "granted_token (EvAcquire x lt na r) = resp_token r"
| "granted_token _ = None"

definition trace_tokens :: "sem_event list \<Rightarrow> int list" where
  "trace_tokens tr = concat (map (\<lambda>e. case granted_token e of None \<Rightarrow> [] | Some t \<Rightarrow> [t]) tr)"

lemma resp_token_grant: "resp_token (grant_resp g) = (case g of Granted t _ _ \<Rightarrow> Some t | Busy _ \<Rightarrow> None)"
  by (cases g) simp_all

lemma trace_tokens_snoc:
  "trace_tokens (tr @ [e]) =
     trace_tokens tr @ (case granted_token e of None \<Rightarrow> [] | Some t \<Rightarrow> [t])"
  by (simp add: trace_tokens_def)

subsection \<open>What a step leaves to the other holders\<close>

text \<open>The events of one identifier, and the events that use the server clock.\<close>

fun touches :: "ident \<Rightarrow> sem_event \<Rightarrow> bool" where
  "touches x (EvAcquire y lt na r) = (x = y)"
| "touches x (EvRelease y r) = (x = y)"
| "touches x (EvRefresh y lt na r) = (x = y)"
| "touches x _ = False"

fun server_timed :: "sem_event \<Rightarrow> bool" where
  "server_timed (EvAcquire y lt na r) = (na = None)"
| "server_timed (EvRefresh y lt na r) = (na = None)"
| "server_timed (EvCleanup na r) = (na = None)"
| "server_timed (EvStatus na x r) = (na = None)"
| "server_timed _ = True"

lemma ttl_covers_bumped:
  assumes "z_wf (zsets v ok)" and "now \<le> clock_ms v + lt"
  shows "ttl_covers ok (bumped ok now lt v)"
  using z_wf_last_max [OF assms(1)] assms(2)
  by (fastforce simp: ttl_covers_def list_all_iff)

lemma ttl_covers_subset:
  "ttl_covers ok v \<Longrightarrow> set z \<subseteq> set (zsets v ok) \<Longrightarrow> ttl_covers ok (put_zset ok z v)"
  by (auto simp: ttl_covers_def list_all_iff split: option.splits)

lemma ttl_covers_purged: "ttl_covers ok v \<Longrightarrow> ttl_covers ok (purged ok now v)"
  unfolding purged_def by (rule ttl_covers_subset) auto

lemma ttl_covers_acquire:
  assumes "sem_wf ok fk v" and "0 < lt" and "ttl_covers ok v" and "now \<le> clock_ms v + lt"
  shows "ttl_covers ok (snd (acquire_view ok fk x limit lt now v))"
proof -
  have "ttl_covers ok (granted ok fk x lt now (purged ok now v))"
    unfolding granted_def using assms by (intro ttl_covers_bumped) (simp_all add: sem_wf_def)
  with ttl_covers_purged [OF assms(3), of now] show ?thesis
    by (simp add: acquire_view_def Let_def)
qed

lemma ttl_covers_refresh:
  assumes "z_wf (zsets v ok)" and "0 < lt" and "ttl_covers ok v" and "now \<le> clock_ms v + lt"
  shows "ttl_covers ok (snd (refresh_view ok x lt now v))"
proof -
  have "ttl_covers ok (bumped ok now lt (put_zset ok (z_add (now + lt) x (zsets v ok)) v))"
    using assms by (intro ttl_covers_bumped) simp_all
  moreover have "ttl_covers ok (put_zset ok (z_rem x (zsets v ok)) v)"
    by (rule ttl_covers_subset [OF assms(3)]) auto
  ultimately show ?thesis
    using assms(3) by (simp add: refresh_view_def split: option.split)
qed

lemma ttl_covers_zrem: "ttl_covers ok v \<Longrightarrow> ttl_covers ok (snd (doc_zrem ok x v))"
  by (auto simp: doc_zrem_def intro: ttl_covers_subset)

lemma clock_views [simp]:
  "clock_ms (snd (acquire_view ok fk x limit lt now v)) = clock_ms v"
  "clock_ms (snd (refresh_view ok x lt now v)) = clock_ms v"
  "clock_ms (snd (doc_zrem ok x v)) = clock_ms v"
  by (simp_all add: acquire_view_def refresh_view_def doc_zrem_def Let_def split: option.split)

text \<open>An owner other than the script's own, with time left, stays as it is.\<close>

lemma other_owner_kept:
  assumes wf: "sem_wf ok fk v" and o: "owners ok v x = Some e" and t: "now < e"
  shows "y \<noteq> x \<Longrightarrow> owners ok (snd (acquire_view ok fk y limit lt now v)) x = Some e"
    and "y \<noteq> x \<Longrightarrow> owners ok (snd (refresh_view ok y lt now v)) x = Some e"
    and "y \<noteq> x \<Longrightarrow> owners ok (snd (doc_zrem ok y v)) x = Some e"
    and "owners ok (purged ok now v) x = Some e"
proof -
  have z: "z_wf (zsets v ok)" using wf by (simp add: sem_wf_def)
  then show p: "owners ok (purged ok now v) x = Some e"
    using o t by (simp add: owners_purged)
  have "z_wf (zsets (purged ok now v) ok)" using z by simp
  with p show "y \<noteq> x \<Longrightarrow> owners ok (snd (acquire_view ok fk y limit lt now v)) x = Some e"
    by (simp add: acquire_view_def Let_def owners_granted del: purged_simps)
  show "y \<noteq> x \<Longrightarrow> owners ok (snd (refresh_view ok y lt now v)) x = Some e"
    using z o by (simp add: refresh_view_def owners_def z_score_rem z_score_add split: option.split)
  show "y \<noteq> x \<Longrightarrow> owners ok (snd (doc_zrem ok y v)) x = Some e"
    using z o by (simp add: doc_zrem_def owners_def z_score_rem)
qed

context sem_keys
begin

lemmas script_views = map_prod_snd [OF acquire_on_view] map_prod_snd [OF release_on_view]
  map_prod_snd [OF refresh_on_view] map_prod_snd [OF cleanup_on_view]
  map_prod_snd [OF status_on_view] status_view_snd

lemma sem_step_token:
  assumes step: "sem_step R view ok fk limit s e s'" and inv: "sem_inv ok fk limit (view s)"
  shows "case granted_token e of
      None \<Rightarrow> fence fk (view s') = fence fk (view s)
    | Some t \<Rightarrow> t = fence fk (view s) + 1 \<and> fence fk (view s') = t"
  using step
proof (cases rule: sem_step.cases)
  case (step_acquire lt x na r)
  from inv have wf: "sem_wf ok fk (view s)" by (simp add: sem_inv_def)
  from step_acquire have r: "r = fst (acquire_script R ok fk x limit lt na s)"
    and s': "s' = snd (acquire_script R ok fk x limit lt na s)" by simp_all
  let ?g = "lease_acquire limit lt (script_now na (view s)) x (sem_abs ok fk (view s))"
  have rg: "r = grant_resp (fst ?g)" and a: "sem_abs ok fk (view s') = snd ?g"
    using lease.store_reply(1) [OF wf step_acquire(2)] lease.store_abs(1) [OF wf step_acquire(2)]
    by (simp_all add: r s')
  have "fence fk (view s') = token (snd ?g)"
    using sem_abs_simps(2) [of ok fk "view s'"] by (simp only: a)
  then show ?thesis
    using step_acquire(1) rg
    by (auto simp: lease_acquire_def Let_def split: if_splits)
next
  case step_env
  with inv env_step_sem [OF step_env(2)] show ?thesis
    by (auto simp: sem_inv_def fence_def)
qed (use inv in \<open>auto simp: sem_inv_def lease.store_token(3-6) [simplified]
  dest!: arg_cong [where f = snd]\<close>)

lemma sem_step_lease:
  assumes step: "sem_step R view ok fk limit s e s'" and inv: "sem_inv ok fk limit (view s)"
    and cov: "ttl_covers ok (view s)" and srv: "server_timed e"
  shows "clock_ms (view s) \<le> clock_ms (view s')" and "ttl_covers ok (view s')"
    and "owners ok (view s) x = Some d \<Longrightarrow> \<not> touches x e \<Longrightarrow> clock_ms (view s') < d \<Longrightarrow>
      owners ok (view s') x = Some d"
proof -
  from inv have wf: "sem_wf ok fk (view s)" and z: "z_wf (zsets (view s) ok)"
    by (simp_all add: sem_inv_def sem_wf_def)
  have "clock_ms (view s) \<le> clock_ms (view s') \<and> ttl_covers ok (view s') \<and>
    (owners ok (view s) x = Some d \<longrightarrow> \<not> touches x e \<longrightarrow> clock_ms (view s') < d \<longrightarrow>
      owners ok (view s') x = Some d)"
    using step
  proof (cases rule: sem_step.cases)
    case step_env
    with inv have env: "env_step [ok, fk] (view s) (view s')" "ttls (view s) fk = None"
      by (simp_all add: sem_inv_def)
    from env_step_sem(3) [OF env] show ?thesis
    proof (elim disjE conjE exE)
      assume "zsets (view s') ok = zsets (view s) ok" "ttls (view s') ok = ttls (view s) ok"
      with env_step_sem(4) [OF env] cov show ?thesis
        by (simp add: ttl_covers_def owners_def split: option.splits)
    next
      fix t assume "zsets (view s') ok = []" "ttls (view s) ok = Some t" "t \<le> clock_ms (view s')"
      with env_step_sem(4) [OF env] cov show ?thesis
        by (force simp: ttl_covers_def list_all_iff owners_def z_score_Some_iff [OF z]
            split: option.split)
    qed
  qed (use wf z cov srv in \<open>auto simp: script_views script_now_def ttl_covers_acquire
    ttl_covers_refresh ttl_covers_zrem ttl_covers_purged other_owner_kept
    dest!: arg_cong [where f = snd]\<close>)
  then show "clock_ms (view s) \<le> clock_ms (view s')" and "ttl_covers ok (view s')"
    and "owners ok (view s) x = Some d \<Longrightarrow> \<not> touches x e \<Longrightarrow> clock_ms (view s') < d \<Longrightarrow>
      owners ok (view s') x = Some d"
    by blast+
qed

end

subsection \<open>Whole runs\<close>

context sem_keys
begin

lemma run_inv:
  assumes "sem_run R view ok fk limit s0 tr s" and "ok \<noteq> fk" and "0 \<le> limit"
    and "sem_inv ok fk limit (view s0)"
  shows "sem_inv ok fk limit (view s)"
  using assms by (induction rule: sem_run.induct) (auto intro: sem_step_inv)

lemma run_tokens:
  assumes "sem_run R view ok fk limit s0 tr s" and "ok \<noteq> fk" and "0 \<le> limit"
    and "sem_inv ok fk limit (view s0)"
  shows "sorted_wrt (<) (trace_tokens tr) \<and> fence fk (view s0) \<le> fence fk (view s) \<and>
    (\<forall>t \<in> set (trace_tokens tr). fence fk (view s0) < t \<and> t \<le> fence fk (view s))"
  using assms
proof (induction rule: sem_run.induct)
  case (run_Nil s)
  then show ?case by (simp add: trace_tokens_def)
next
  case (run_snoc s tr s' e s'')
  then have inv: "sem_inv ok fk limit (view s')" by (blast intro: run_inv)
  have IH: "sorted_wrt (<) (trace_tokens tr)" "fence fk (view s) \<le> fence fk (view s')"
    "\<forall>t \<in> set (trace_tokens tr). fence fk (view s) < t \<and> t \<le> fence fk (view s')"
    using run_snoc by blast+
  from sem_step_token [OF run_snoc.hyps(2) inv] IH show ?case
    by (auto simp: trace_tokens_snoc sorted_wrt_append split: option.splits)
qed

lemma run_lease:
  assumes "sem_run R view ok fk limit s0 tr s" and "ok \<noteq> fk" and "0 \<le> limit"
    and "sem_inv ok fk limit (view s0)" and "ttl_covers ok (view s0)"
    and "list_all server_timed tr"
  shows "clock_ms (view s0) \<le> clock_ms (view s) \<and> ttl_covers ok (view s) \<and>
    (owners ok (view s0) x = Some d \<longrightarrow> list_all (\<lambda>e. \<not> touches x e) tr \<longrightarrow>
      clock_ms (view s) < d \<longrightarrow> owners ok (view s) x = Some d)"
  using assms
proof (induction rule: sem_run.induct)
  case (run_Nil s)
  then show ?case by simp
next
  case (run_snoc s tr s' e s'')
  then have inv: "sem_inv ok fk limit (view s')" by (auto intro: run_inv)
  have "server_timed e" and IH: "clock_ms (view s) \<le> clock_ms (view s') \<and> ttl_covers ok (view s') \<and>
      (owners ok (view s) x = Some d \<longrightarrow> list_all (\<lambda>e. \<not> touches x e) tr \<longrightarrow>
        clock_ms (view s') < d \<longrightarrow> owners ok (view s') x = Some d)"
    using run_snoc by simp_all
  note step = sem_step_lease [OF run_snoc.hyps(2) inv IH [THEN conjunct2, THEN conjunct1]
      \<open>server_timed e\<close>]
  show ?case
    using IH step(1,2) step(3) [of x d] by auto
qed

end

text \<open>The contract's equations, for the properties.\<close>

context sem_keys
begin

lemmas acquire_contract = lease.store_reply(1) lease.store_abs(1) lease.store_good(1)
lemmas release_contract = lease.store_reply(2) lease.store_abs(2) lease.store_good(2)
lemmas refresh_contract = lease.store_reply(3) lease.store_abs(3) lease.store_good(3)
lemmas cleanup_contract = lease.store_abs(4) lease.store_good(4)
lemmas status_contract = lease.store_abs(5) lease.store_good(5)

end

subsection \<open>A driver for concrete runs\<close>

text \<open>Commands of clients over the documented store, server time; the witnesses run them.\<close>

datatype sem_cmd = CAcquire ident ms | CRelease ident | CRefresh ident ms | CTick ms

fun cmd_ok :: "sem_cmd \<Rightarrow> bool" where
  "cmd_ok (CAcquire x lt) = (0 < lt)"
| "cmd_ok (CRelease x) = True"
| "cmd_ok (CRefresh x lt) = (0 < lt)"
| "cmd_ok (CTick n) = (0 \<le> n)"

fun exec_cmd :: "key \<Rightarrow> key \<Rightarrow> int \<Rightarrow> sem_cmd \<Rightarrow> rview \<Rightarrow> sem_event \<times> rview" where
  "exec_cmd ok fk limit (CAcquire x lt) v =
     (let (r, v') = acquire_script doc_redis ok fk x limit lt None v in (EvAcquire x lt None r, v'))"
| "exec_cmd ok fk limit (CRelease x) v =
     (let (r, v') = release_script doc_redis ok x v in (EvRelease x r, v'))"
| "exec_cmd ok fk limit (CRefresh x lt) v =
     (let (r, v') = refresh_script doc_redis ok x lt None v in (EvRefresh x lt None r, v'))"
| "exec_cmd ok fk limit (CTick n) v = (EvEnv, doc_tick [ok, fk] n v)"

fun exec_cmds :: "key \<Rightarrow> key \<Rightarrow> int \<Rightarrow> sem_cmd list \<Rightarrow> rview \<Rightarrow> sem_event list \<times> rview" where
  "exec_cmds ok fk limit [] v = ([], v)"
| "exec_cmds ok fk limit (c # cs) v =
     (let (e, v1) = exec_cmd ok fk limit c v; (es, v2) = exec_cmds ok fk limit cs v1
      in (e # es, v2))"

lemma exec_cmd_step:
  "cmd_ok c \<Longrightarrow> sem_step doc_redis (\<lambda>v. v) ok fk limit v
     (fst (exec_cmd ok fk limit c v)) (snd (exec_cmd ok fk limit c v))"
  by (cases c) (auto simp: case_prod_beta Let_def env_step_doc_tick intro!: sem_step.intros)

lemma sem_run_Cons:
  "sem_run R view ok fk limit s' tr s'' \<Longrightarrow> sem_step R view ok fk limit s e s' \<Longrightarrow>
    sem_run R view ok fk limit s (e # tr) s''"
proof (induction rule: sem_run.induct)
  case (run_Nil s')
  then show ?case
    using sem_run.run_snoc [OF sem_run.run_Nil run_Nil] by simp
next
  case (run_snoc s' tr t e' t')
  then show ?case
    using sem_run.run_snoc [where tr = "e # tr"] by fastforce
qed

lemma exec_cmds_run:
  "list_all cmd_ok cs \<Longrightarrow> sem_run doc_redis (\<lambda>v. v) ok fk limit v
     (fst (exec_cmds ok fk limit cs v)) (snd (exec_cmds ok fk limit cs v))"
  by (induction cs arbitrary: v)
     (auto simp: case_prod_beta Let_def sem_run.run_Nil intro: sem_run_Cons exec_cmd_step)

lemma exec_cmd_server_timed: "server_timed (fst (exec_cmd ok fk limit c v))"
  by (cases c) (auto simp: case_prod_beta Let_def)

lemma exec_cmds_server_timed: "list_all server_timed (fst (exec_cmds ok fk limit cs v))"
  by (induction cs arbitrary: v) (auto simp: case_prod_beta Let_def exec_cmd_server_timed)

lemma clock_bump: "clock_ms (lua_bump_owners_ttl doc_redis ok now lt v) = clock_ms v"
  by (simp add: lua_bump_owners_ttl_def split: list.split)

fun cmd_time :: "sem_cmd \<Rightarrow> ms" where
  "cmd_time (CTick n) = n"
| "cmd_time _ = 0"

lemma clock_exec_cmd: "clock_ms (snd (exec_cmd ok fk limit c v)) = clock_ms v + cmd_time c"
  by (cases c)
     (simp_all add: acquire_script_def release_script_def refresh_script_def Let_def
       case_prod_beta clock_bump c_incr_def split: option.split)

lemma clock_exec_cmds:
  "clock_ms (snd (exec_cmds ok fk limit cs v)) = clock_ms v + sum_list (map cmd_time cs)"
  by (induction cs arbitrary: v) (simp_all add: case_prod_beta Let_def clock_exec_cmd)

lemma sem_unused_empty: "sem_unused ok fk (empty_view n)"
  by (simp add: sem_unused_def empty_view_def)

end
