(* ===== verification/SemProps.thy ===== *)
theory SemProps
  imports SemSystem
begin

section \<open>Properties of the shared semaphore\<close>

text \<open>
  What any number of clients can rely on, over every store with the interface \<open>redis\<close>: the limit,
  the fencing tokens, the leases, and the behaviour of each script as the specification of
  \<open>SemSpec\<close> gives it.
\<close>

lemma sem_keysI: "redis R view \<Longrightarrow> sem_keys R view"
  by (rule sem_keys.intro)

text \<open>A run of three clients on a semaphore with two slots, for the witnesses.\<close>

abbreviation "demo_owners \<equiv> ''semaphore:payments:owners''"
abbreviation "demo_fencing \<equiv> ''semaphore:payments:fencing''"

definition demo_cmds :: "sem_cmd list" where
  "demo_cmds = [CAcquire ''A'' 1000, CAcquire ''B'' 3000, CAcquire ''C'' 1000, CTick 500,
     CRelease ''A'', CAcquire ''C'' 1000]"

definition demo :: "sem_event list \<times> rview" where
  "demo = exec_cmds demo_owners demo_fencing 2 demo_cmds (empty_view 5000)"

lemma demo_run: "sem_run doc_redis (\<lambda>v. v) demo_owners demo_fencing 2 (empty_view 5000)
    (fst demo) (snd demo)"
  unfolding demo_def by (rule exec_cmds_run) (simp add: demo_cmds_def)

text \<open>C1: whatever scripts the clients of one semaphore run, in whatever order, with whatever
  clocks, at most \<open>limit\<close> identifiers own a slot.\<close>

theorem holders_never_exceed_limit:
  assumes "redis R view" and "ok \<noteq> fk" and "0 \<le> limit"
    and "sem_unused ok fk (view s0)" and "sem_run R view ok fk limit s0 tr s"
  shows "int (card (dom (owners ok (view s)))) \<le> limit"
  using sem_keys.run_inv [OF sem_keysI [OF assms(1)] assms(5,2,3) sem_inv_unused [OF assms(4,3)]]
  by (simp add: sem_inv_def lease_bounded_def)

theorem holders_never_exceed_limit_witness:
  "int (card (dom (owners demo_owners (snd demo)))) \<le> 2 \<and>
   map snd (zsets (snd demo) demo_owners) = [''C'', ''B'']"
proof
  show "int (card (dom (owners demo_owners (snd demo)))) \<le> 2"
    by (rule holders_never_exceed_limit [OF doc.redis_axioms _ _ _ demo_run])
       (simp_all add: sem_unused_empty)
  show "map snd (zsets (snd demo) demo_owners) = [''C'', ''B'']"
    by code_simp
qed

text \<open>C6: the fencing tokens of the successful acquires of a run are strictly increasing, in the
  order the store granted them, whoever the callers are.\<close>

theorem fencing_tokens_strictly_increase:
  assumes "redis R view" and "ok \<noteq> fk" and "0 \<le> limit"
    and "sem_unused ok fk (view s0)" and "sem_run R view ok fk limit s0 tr s"
  shows "sorted_wrt (<) (trace_tokens tr) \<and> (\<forall>t \<in> set (trace_tokens tr). 0 < t)"
  using sem_keys.run_tokens
      [OF sem_keysI [OF assms(1)] assms(5,2,3) sem_inv_unused [OF assms(4,3)]] assms(4)
  by (auto simp: sem_unused_def fence_def str_num_def)

theorem fencing_tokens_strictly_increase_witness:
  "sorted_wrt (<) (trace_tokens (fst demo)) \<and> trace_tokens (fst demo) = [1, 2, 3]"
proof
  show "sorted_wrt (<) (trace_tokens (fst demo))"
    using fencing_tokens_strictly_increase [OF doc.redis_axioms _ _ _ demo_run]
    by (simp add: sem_unused_empty)
  show "trace_tokens (fst demo) = [1, 2, 3]"
    by code_simp
qed

text \<open>C8: with server time, a slot stays with its owner, with the same expiry, until the server
  clock reaches that expiry or the owner itself acts on it: no script of another client and no
  expiry of the owners key takes it earlier.\<close>

theorem lease_kept_until_expiry:
  assumes "redis R view" and "ok \<noteq> fk" and "0 \<le> limit" and "sem_unused ok fk (view s0)"
    and "sem_run R view ok fk limit s0 tr1 s1" and "list_all server_timed tr1"
    and "owners ok (view s1) x = Some expires"
    and "sem_run R view ok fk limit s1 tr2 s2" and "list_all server_timed tr2"
    and "list_all (\<lambda>e. \<not> touches x e) tr2"
    and "clock_ms (view s2) < expires"
  shows "owners ok (view s2) x = Some expires"
proof -
  note K = sem_keysI [OF assms(1)]
  have inv0: "sem_inv ok fk limit (view s0)" "ttl_covers ok (view s0)"
    using sem_inv_unused [OF assms(4,3)] assms(4) by (simp_all add: ttl_covers_def sem_unused_def)
  have inv1: "sem_inv ok fk limit (view s1)"
    by (rule sem_keys.run_inv [OF K assms(5,2,3) inv0(1)])
  have "ttl_covers ok (view s1)"
    using sem_keys.run_lease [OF K assms(5,2,3) inv0 assms(6)] by blast
  from sem_keys.run_lease [OF K assms(8,2,3) inv1 this assms(9)] assms(7,10,11)
  show ?thesis by blast
qed

definition demo_later :: "sem_event list \<times> rview" where
  "demo_later = exec_cmds demo_owners demo_fencing 2
     [CAcquire ''D'' 1000, CTick 1500, CRelease ''C'', CAcquire ''E'' 500] (snd demo)"

theorem lease_kept_until_expiry_witness:
  "owners demo_owners (snd demo) ''B'' = Some 8000 \<and> clock_ms (snd demo_later) = 7000 \<and>
   owners demo_owners (snd demo_later) ''B'' = Some 8000"
proof -
  have o: "owners demo_owners (snd demo) ''B'' = Some 8000" by code_simp
  have c: "clock_ms (snd demo_later) = 7000"
    by (simp add: demo_later_def demo_def demo_cmds_def clock_exec_cmds del: exec_cmds.simps)
  have r: "sem_run doc_redis (\<lambda>v. v) demo_owners demo_fencing 2 (snd demo)
      (fst demo_later) (snd demo_later)"
    unfolding demo_later_def by (rule exec_cmds_run) simp
  have t: "list_all server_timed (fst demo)" "list_all server_timed (fst demo_later)"
    by (simp_all add: demo_def demo_later_def exec_cmds_server_timed del: exec_cmds.simps)
  have n: "list_all (\<lambda>e. \<not> touches ''B'' e) (fst demo_later)"
    by (simp add: demo_later_def case_prod_beta Let_def)
  have "owners demo_owners (snd demo_later) ''B'' = Some 8000"
    by (rule lease_kept_until_expiry [OF doc.redis_axioms _ _ _ demo_run t(1) o r t(2) n])
       (simp_all add: sem_unused_empty c)
  with o c show ?thesis by simp
qed

text \<open>C13: ACQUIRE refines the specification: it purges the expired owners, renews the caller or
  gives it a free slot with a fresh token, and is busy otherwise; the reply and the owners and
  counter after it are the specification's.\<close>

theorem acquire_script_refines:
  assumes "redis R view" and "sem_wf ok fk (view s)" and "0 < lt"
  shows "fst (acquire_script R ok fk x limit lt now_arg s) =
      grant_resp (fst (lease_acquire limit lt (script_now now_arg (view s)) x
        (sem_abs ok fk (view s)))) \<and>
    sem_abs ok fk (view (snd (acquire_script R ok fk x limit lt now_arg s))) =
      snd (lease_acquire limit lt (script_now now_arg (view s)) x (sem_abs ok fk (view s))) \<and>
    sem_wf ok fk (view (snd (acquire_script R ok fk x limit lt now_arg s)))"
  using sem_keys.acquire_contract [OF sem_keysI [OF assms(1)] assms(2,3), of x limit now_arg]
  by simp

lemma sem_wf_empty: "sem_wf ok fk (empty_view n)"
  by (simp add: sem_wf_def empty_view_def str_num_def)

theorem acquire_script_refines_witness:
  "fst (acquire_script doc_redis demo_owners demo_fencing ''A'' 1 1000 (Some 7000) (empty_view 5000))
     = grant_resp (Granted 1 8000 1)"
  using acquire_script_refines [OF doc.redis_axioms sem_wf_empty, of 1000 demo_owners demo_fencing
      "''A''" 1 "Some 7000" 5000]
  by (simp add: lease_acquire_def live_def owners_def z_score_def fence_def empty_view_def
      str_num_def script_now_def)

text \<open>C14: REFRESH refines the specification: an owner whose expiry has not passed gets the new
  expiry and no other owner changes; an identifier that is no owner, or whose expiry has
  passed, gets 0 and is no owner afterwards. No fencing token is used.\<close>

theorem refresh_script_refines:
  assumes "redis R view" and "sem_wf ok fk (view s)" and "0 < lt"
  shows "fst (refresh_script R ok x lt now_arg s) =
      RInt (case fst (lease_refresh lt (script_now now_arg (view s)) x (sem_abs ok fk (view s)))
        of None \<Rightarrow> 0 | Some e \<Rightarrow> e) \<and>
    sem_abs ok fk (view (snd (refresh_script R ok x lt now_arg s))) =
      snd (lease_refresh lt (script_now now_arg (view s)) x (sem_abs ok fk (view s))) \<and>
    sem_wf ok fk (view (snd (refresh_script R ok x lt now_arg s)))"
  using sem_keys.refresh_contract [OF sem_keysI [OF assms(1)] assms(2,3), of x now_arg]
  by simp

definition one_owner :: rview where
  "one_owner = put_zset demo_owners [(6000, ''A'')] (empty_view 5000)"

lemma sem_wf_one_owner: "sem_wf demo_owners demo_fencing one_owner"
  by (simp add: sem_wf_def one_owner_def empty_view_def str_num_def z_wf_def)

lemma one_owner_abs:
  "sem_abs demo_owners demo_fencing one_owner = \<lparr>holders = [''A'' \<mapsto> 6000], token = 0\<rparr>"
  by (simp add: sem_abs_def one_owner_def owners_def z_score_def fence_def empty_view_def
      str_num_def)

lemma one_owner_owners:
  "owners demo_owners one_owner = [''A'' \<mapsto> 6000]" "fence demo_fencing one_owner = 0"
  using one_owner_abs by (simp_all add: sem_abs_def)

theorem refresh_script_refines_witness:
  "fst (refresh_script doc_redis demo_owners ''A'' 1000 (Some 5500) one_owner) = RInt 6500 \<and>
   fst (refresh_script doc_redis demo_owners ''A'' 1000 (Some 6001) one_owner) = RInt 0 \<and>
   fst (refresh_script doc_redis demo_owners ''B'' 1000 (Some 5500) one_owner) = RInt 0"
  using refresh_script_refines [OF doc.redis_axioms sem_wf_one_owner, of 1000 "''A''" "Some 5500"]
    refresh_script_refines [OF doc.redis_axioms sem_wf_one_owner, of 1000 "''A''" "Some 6001"]
    refresh_script_refines [OF doc.redis_axioms sem_wf_one_owner, of 1000 "''B''" "Some 5500"]
  by (simp add: lease_refresh_def one_owner_abs script_now_def)

text \<open>C15: RELEASE removes exactly the caller and tells whether it was there; CLEANUP and STATUS
  remove exactly the expired owners. None of them touches the fencing counter.\<close>

theorem release_cleanup_status_refine:
  assumes "redis R view" and "sem_wf ok fk (view s)"
  shows "fst (release_script R ok x s) = RInt (if x \<in> dom (owners ok (view s)) then 1 else 0) \<and>
    sem_abs ok fk (view (snd (release_script R ok x s))) =
      snd (lease_release x (sem_abs ok fk (view s))) \<and>
    sem_abs ok fk (view (snd (cleanup_script R ok now_arg s))) =
      lease_purge (script_now now_arg (view s)) (sem_abs ok fk (view s)) \<and>
    sem_abs ok fk (view (snd (status_script R ok now_arg x s))) =
      lease_purge (script_now now_arg (view s)) (sem_abs ok fk (view s))"
  using sem_keys.release_contract [OF sem_keysI [OF assms(1)] assms(2), of x]
    sem_keys.cleanup_contract [OF sem_keysI [OF assms(1)] assms(2), of now_arg]
    sem_keys.status_contract [OF sem_keysI [OF assms(1)] assms(2), of now_arg x]
  by (simp add: lease_release_def)

theorem release_cleanup_status_refine_witness:
  "fst (release_script doc_redis demo_owners ''A'' one_owner) = RInt 1 \<and>
   fst (release_script doc_redis demo_owners ''B'' one_owner) = RInt 0"
  using release_cleanup_status_refine [OF doc.redis_axioms sem_wf_one_owner, of "''A''"]
    release_cleanup_status_refine [OF doc.redis_axioms sem_wf_one_owner, of "''B''"]
  by (simp add: one_owner_owners)

text \<open>Slots of crashed holders come back: when fewer than \<open>limit\<close> owners have time left at
  the script's time, an acquire by any identifier succeeds, and the owners are then exactly the
  ones with time left and the caller.\<close>

theorem expired_slots_are_reclaimed:
  assumes "redis R view" and "sem_wf ok fk (view s)" and "0 < lt"
    and "int (card (dom (live (script_now now_arg (view s)) (owners ok (view s))))) < limit"
  shows "resp_token (fst (acquire_script R ok fk x limit lt now_arg s)) =
      Some (fence fk (view s) + 1) \<and>
    owners ok (view (snd (acquire_script R ok fk x limit lt now_arg s))) =
      (live (script_now now_arg (view s)) (owners ok (view s)))
        (x \<mapsto> script_now now_arg (view s) + lt)"
proof -
  note c = sem_keys.acquire_contract [OF sem_keysI [OF assms(1)] assms(2,3), of x limit now_arg]
  from arg_cong [OF c(2), of holders] c(1) assms(4) show ?thesis
    by (simp add: lease_acquire_def Let_def resp_token_grant)
qed

theorem expired_slots_are_reclaimed_witness:
  "resp_token (fst (acquire_script doc_redis demo_owners demo_fencing ''B'' 1 1000 (Some 6000)
     one_owner)) = Some 1"
proof -
  have "live 6000 (owners demo_owners one_owner) = (\<lambda>_. None)"
    by (simp add: one_owner_owners live_def fun_eq_iff)
  with expired_slots_are_reclaimed [OF doc.redis_axioms sem_wf_one_owner, of 1000 "Some 6000" 1]
  show ?thesis by (simp add: script_now_def one_owner_owners)
qed

end
