(* ===== verification/RateScripts.thy ===== *)
theory RateScripts
  imports SemScripts
begin

section \<open>The rate limiter's Lua scripts\<close>

text \<open>
  RATE_ACQUIRE, RATE_ADJUST and RATE_STATUS of \<open>src/redis_semaphore/lua_scripts.py\<close>, with the
  helper fragment \<open>_LUA_RATE_HELPERS\<close> they share. Per limit a sorted set logs the admitted
  requests (member \<open>cost:identifier\<close>, score: admission time in ms) and a string key holds the
  running total of the costs in the log. The scripts' flat arguments are given here as one record
  per limit. A reply \<open>None\<close> stands for a script that does not answer: a Lua error, or a loop that
  does not end; \<open>RateSystem\<close> shows that it does not happen on the keys the scripts maintain.
\<close>

record rate_keys =
  log_key :: key
  total_key :: key
  window_ms :: ms

record rate_charge = rate_keys +
  limit_units :: int
  cost :: int

record rate_change = rate_keys +
  old_cost :: int
  new_cost :: int

text \<open>The member a request is recorded under, and the cost read back from it (\<open>^(%d+):\<close>).\<close>

definition rate_member :: "int \<Rightarrow> ident \<Rightarrow> member" where
  "rate_member c identifier = int_str c @ '':'' @ identifier"

definition member_cost :: "member \<Rightarrow> int" where
  "member_cost m =
     (let ds = takeWhile is_digit m
      in case dropWhile is_digit m of
           [] \<Rightarrow> 0
         | c # _ \<Rightarrow> if ds \<noteq> [] \<and> c = CHR '':'' then int (digits_val ds) else 0)"

definition touch :: "'s redis_api \<Rightarrow> key \<Rightarrow> key \<Rightarrow> ms \<Rightarrow> 's \<Rightarrow> 's" where
  "touch R lk tk ttl_ms s = snd (c_pexpire R tk ttl_ms (snd (c_pexpire R lk ttl_ms s)))"

definition recount :: "'s redis_api \<Rightarrow> key \<Rightarrow> key \<Rightarrow> ms \<Rightarrow> 's \<Rightarrow> int \<times> 's" where
  "recount R lk tk ttl_ms s =
     (let tot = sum_list (map (\<lambda>e. member_cost (snd e)) (c_zrange R lk 0 (-1) s));
          s = c_set_px R tk (int_str tot) ttl_ms s;
          log_ttl = c_pttl R lk s
      in (tot, if 0 < log_ttl then snd (c_pexpire R tk log_ttl s) else s))"

definition evict :: "'s redis_api \<Rightarrow> key \<Rightarrow> key \<Rightarrow> ms \<Rightarrow> ms \<Rightarrow> 's \<Rightarrow> int option \<times> 's" where
  "evict R lk tk cutoff ttl_ms s =
     (let expired = c_zrangebyscore R lk cutoff s;
          freed = sum_list (map member_cost expired);
          s = (if expired \<noteq> [] then snd (c_zremrangebyscore R lk cutoff s) else s)
      in if c_zcard R lk s = 0 then (Some 0, c_del R tk s)
         else case c_get R tk s of
           None \<Rightarrow> map_prod Some id (recount R lk tk ttl_ms s)
         | Some raw \<Rightarrow>
             (case str_int raw of
                None \<Rightarrow> (None, s)
              | Some tot \<Rightarrow>
                  (let (tot, s) = (if 0 < freed then c_decrby R tk freed s else (tot, s))
                   in if tot < 0 then map_prod Some id (recount R lk tk ttl_ms s)
                      else (Some tot, s))))"

subsection \<open>RATE_ACQUIRE\<close>

text \<open>
  The walk over the log, oldest entry first, that finds the admission time of the entry whose
  expiry frees enough units: the \<open>for\<close> loop over one chunk, and the \<open>while\<close> loop that reads the
  log in chunks of 128. The loop has no bound of its own.
\<close>

fun walk_entries :: "int \<Rightarrow> zset \<Rightarrow> int \<Rightarrow> int \<times> ms option" where
  "walk_entries need [] freed = (freed, None)"
| "walk_entries need (e # es) freed =
     (let freed = freed + member_cost (snd e)
      in if need \<le> freed then (freed, Some (fst e)) else walk_entries need es freed)"

partial_function (option) rate_walk ::
  "'s redis_api \<Rightarrow> key \<Rightarrow> int \<Rightarrow> int \<Rightarrow> int \<Rightarrow> 's \<Rightarrow> ms option option" where
  "rate_walk R lk need start freed s =
     (case c_zrange R lk start (start + 127) s of
        [] \<Rightarrow> Some None
      | e # es \<Rightarrow>
          (case walk_entries need (e # es) freed of
             (freed, Some x) \<Rightarrow> Some (Some x)
           | (freed, None) \<Rightarrow> rate_walk R lk need (start + 128) freed s))"

declare rate_walk.simps [code]

definition rate_wait :: "'s redis_api \<Rightarrow> rate_charge \<Rightarrow> ms \<Rightarrow> int \<Rightarrow> 's \<Rightarrow> ms option" where
  "rate_wait R l now_ms tot s =
     (let need = tot + cost l - limit_units l
      in case rate_walk R (log_key l) need 0 0 s of
           None \<Rightarrow> None
         | Some found \<Rightarrow>
             (let wait = (case found of None \<Rightarrow> window_ms l | Some x \<Rightarrow> x + window_ms l - now_ms)
              in Some (if wait < 1 then 1 else wait)))"

text \<open>Phase 1: evict and check every limit in order. The result is the longest wait and the use.\<close>

fun rate_check ::
  "'s redis_api \<Rightarrow> ident \<Rightarrow> ms \<Rightarrow> rate_charge list \<Rightarrow> bool \<Rightarrow> ms \<Rightarrow> 's \<Rightarrow> (ms \<times> int list) option \<times> 's"
where
  "rate_check R identifier now_ms [] already retry_after s = (Some (retry_after, []), s)"
| "rate_check R identifier now_ms (l # ls) already retry_after s =
     (case evict R (log_key l) (total_key l) (now_ms - window_ms l) (window_ms l * 2) s of
        (None, s) \<Rightarrow> (None, s)
      | (Some tot, s) \<Rightarrow>
          (let already = (already \<or>
                 0 < cost l \<and> c_zscore R (log_key l) (rate_member (cost l) identifier) s \<noteq> None)
           in case (if 0 < cost l \<and> \<not> already \<and> limit_units l < tot + cost l
                    then rate_wait R l now_ms tot s else Some 0) of
                None \<Rightarrow> (None, s)
              | Some wait \<Rightarrow>
                  (case rate_check R identifier now_ms ls already
                          (if retry_after < wait then wait else retry_after) s of
                     (None, s) \<Rightarrow> (None, s)
                   | (Some (retry_after, used), s) \<Rightarrow> (Some (retry_after, tot # used), s))))"

text \<open>Phase 2: record the request in every window it is charged to.\<close>

definition rate_record_one ::
  "'s redis_api \<Rightarrow> ident \<Rightarrow> ms \<Rightarrow> rate_charge \<Rightarrow> int \<Rightarrow> 's \<Rightarrow> int \<times> 's" where
  "rate_record_one R identifier now_ms l used s =
     (if 0 < cost l then
        (let (added, s) = c_zadd_nx R (log_key l) now_ms (rate_member (cost l) identifier) s;
             (used, s) =
               (if added = 1 then c_incrby R (total_key l) (cost l) s
                else (case c_get R (total_key l) s of
                        None \<Rightarrow> used
                      | Some raw \<Rightarrow> (case str_int raw of None \<Rightarrow> used | Some t \<Rightarrow> t), s))
         in (used, touch R (log_key l) (total_key l) (window_ms l * 2) s))
      else (used, s))"

fun rate_record ::
  "'s redis_api \<Rightarrow> ident \<Rightarrow> ms \<Rightarrow> (rate_charge \<times> int) list \<Rightarrow> 's \<Rightarrow> int list \<times> 's" where
  "rate_record R identifier now_ms [] s = ([], s)"
| "rate_record R identifier now_ms ((l, used) # rest) s =
     (let (used, s) = rate_record_one R identifier now_ms l used s;
          (useds, s) = rate_record R identifier now_ms rest s
      in (used # useds, s))"

definition rate_acquire_script ::
  "'s redis_api \<Rightarrow> rate_charge list \<Rightarrow> ident \<Rightarrow> ms option \<Rightarrow> 's \<Rightarrow> resp option \<times> 's" where
  "rate_acquire_script R ls identifier now_arg s =
     (let now_ms = lua_resolve_now R now_arg s
      in case rate_check R identifier now_ms ls False 0 s of
           (None, s) \<Rightarrow> (None, s)
         | (Some (retry_after, used), s) \<Rightarrow>
             if 0 < retry_after then
               (Some (RArr ([RInt 0, RInt retry_after, RInt now_ms] @ map RInt used)), s)
             else
               (let (used, s) = rate_record R identifier now_ms (zip ls used) s
                in (Some (RArr ([RInt 1, RInt retry_after, RInt now_ms] @ map RInt used)), s)))"

subsection \<open>RATE_ADJUST and RATE_STATUS\<close>

text \<open>Taking the old member out of the log, and putting the new one in.\<close>

definition rate_adjust_drop ::
  "'s redis_api \<Rightarrow> ident \<Rightarrow> rate_change \<Rightarrow> int \<Rightarrow> 's \<Rightarrow> int \<times> 's" where
  "rate_adjust_drop R identifier l tot s =
     (if 0 < old_cost l then
        (let (removed, s) = c_zrem R (log_key l) (rate_member (old_cost l) identifier) s
         in if removed = 1 then c_decrby R (total_key l) (old_cost l) s else (tot, s))
      else (tot, s))"

definition rate_adjust_put ::
  "'s redis_api \<Rightarrow> ident \<Rightarrow> ms \<Rightarrow> ms \<Rightarrow> rate_change \<Rightarrow> int \<Rightarrow> 's \<Rightarrow> int \<times> 's" where
  "rate_adjust_put R identifier now_ms acquired_at l tot s =
     (if 0 < new_cost l \<and> now_ms - window_ms l < acquired_at then
        (let (added, s) =
               c_zadd R (log_key l) acquired_at (rate_member (new_cost l) identifier) s;
             (tot, s) = (if added = 1 then c_incrby R (total_key l) (new_cost l) s else (tot, s))
         in (tot, touch R (log_key l) (total_key l) (window_ms l * 2) s))
      else if c_zcard R (log_key l) s = 0 then (0, c_del R (total_key l) s)
      else (tot, s))"

definition rate_adjust_one ::
  "'s redis_api \<Rightarrow> ident \<Rightarrow> ms \<Rightarrow> ms \<Rightarrow> rate_change \<Rightarrow> 's \<Rightarrow> int option \<times> 's" where
  "rate_adjust_one R identifier now_ms acquired_at l s =
     (case evict R (log_key l) (total_key l) (now_ms - window_ms l) (window_ms l * 2) s of
        (None, s) \<Rightarrow> (None, s)
      | (Some tot, s) \<Rightarrow>
          (let (tot, s) = rate_adjust_drop R identifier l tot s;
               (tot, s) = rate_adjust_put R identifier now_ms acquired_at l tot s
           in (Some tot, s)))"

fun rate_each ::
  "('l \<Rightarrow> 's \<Rightarrow> int option \<times> 's) \<Rightarrow> 'l list \<Rightarrow> 's \<Rightarrow> int list option \<times> 's" where
  "rate_each f [] s = (Some [], s)"
| "rate_each f (l # ls) s =
     (case f l s of
        (None, s) \<Rightarrow> (None, s)
      | (Some used, s) \<Rightarrow>
          (case rate_each f ls s of
             (None, s) \<Rightarrow> (None, s)
           | (Some useds, s) \<Rightarrow> (Some (used # useds), s)))"

definition rate_adjust_script ::
  "'s redis_api \<Rightarrow> rate_change list \<Rightarrow> ident \<Rightarrow> ms option \<Rightarrow> ms \<Rightarrow> 's \<Rightarrow> resp option \<times> 's" where
  "rate_adjust_script R ls identifier now_arg acquired_at s =
     (let now_ms = lua_resolve_now R now_arg s
      in map_prod (map_option (\<lambda>used. RArr (map RInt used))) id
           (rate_each (rate_adjust_one R identifier now_ms acquired_at) ls s))"

definition rate_status_script ::
  "'s redis_api \<Rightarrow> rate_keys list \<Rightarrow> ms option \<Rightarrow> 's \<Rightarrow> resp option \<times> 's" where
  "rate_status_script R ls now_arg s =
     (let now_ms = lua_resolve_now R now_arg s
      in map_prod (map_option (\<lambda>used. RArr (map RInt used))) id
           (rate_each (\<lambda>l. evict R (log_key l) (total_key l) (now_ms - window_ms l)
              (window_ms l * 2)) ls s))"

end
