(* ===== verification/RateView.thy ===== *)
theory RateView
  imports RateScripts
begin

section \<open>The rate limiter's scripts on the view of the store\<close>

text \<open>
  The helpers of the rate limiter's scripts act on one limit's pair of keys: what they leave in
  the log and in the running total, and that they leave every other key alone. The well-formedness
  \<open>rate_wf\<close> allows what can happen between two scripts: either key may have expired.
\<close>

subsection \<open>The costs in a log\<close>

definition log_cost :: "zset \<Rightarrow> int" where
  "log_cost z = sum_list (map (\<lambda>e. member_cost (snd e)) z)"

lemma member_cost_nonneg [simp]: "0 \<le> member_cost m"
  by (simp add: member_cost_def Let_def split: list.split)

lemma member_cost_rate_member [simp]: "0 \<le> c \<Longrightarrow> member_cost (rate_member c x) = c"
  using takeWhile_all_append [OF int_str_digits colon_not_digit, of c x]
    dropWhile_all_append [OF int_str_digits colon_not_digit, of c x]
  by (simp add: member_cost_def rate_member_def digits_val_int_str)

lemma rate_member_inject:
  assumes "0 \<le> c" "0 \<le> d" "rate_member c x = rate_member d y"
  shows "c = d \<and> x = y"
proof -
  have "c = d" using assms member_cost_rate_member by metis
  with assms(3) show ?thesis by (simp add: rate_member_def)
qed

lemma log_cost_nonneg [simp]: "0 \<le> log_cost z"
  unfolding log_cost_def by (rule sum_list_nonneg_int) simp

lemma log_cost_Nil [simp]: "log_cost [] = 0"
  by (simp add: log_cost_def)

lemma log_cost_split: "log_cost z = log_cost (z_upto x z) + log_cost (z_after x z)"
  unfolding log_cost_def z_upto_def z_after_def by (rule sum_list_filter_split)

lemma log_cost_rem:
  assumes "z_wf z"
  shows "log_cost (z_rem m z) = log_cost z - (if m \<in> snd ` set z then member_cost m else 0)"
proof (cases "m \<in> snd ` set z")
  case True
  then obtain x where x: "(x, m) \<in> set z" by auto
  have d: "distinct z" using assms by (auto simp: z_wf_def distinct_map)
  have "set (filter (\<lambda>e. \<not> snd e \<noteq> m) z) = {(x, m)}"
    using x z_wf_same_member [OF assms] by fastforce
  with d have "mset (filter (\<lambda>e. \<not> snd e \<noteq> m) z) = {#(x, m)#}"
    by (metis distinct_filter mset_set_set mset_set.insert mset_set.empty finite.emptyI
        empty_iff)
  then have one: "filter (\<lambda>e. \<not> snd e \<noteq> m) z = [(x, m)]" by (metis mset_single_iff)
  have "log_cost z = log_cost (z_rem m z) + log_cost (filter (\<lambda>e. \<not> snd e \<noteq> m) z)"
    unfolding log_cost_def z_rem_def by (rule sum_list_filter_split)
  with True one show ?thesis by (simp add: log_cost_def)
qed simp

lemma log_cost_add:
  assumes "z_wf z"
  shows "log_cost (z_add x m z) =
    log_cost z + (if m \<in> snd ` set z then 0 else member_cost m)"
  using log_cost_rem [OF assms, of m] by (simp add: z_add_def log_cost_def sum_list_insort)

lemma log_cost_after_mono: "x \<le> y \<Longrightarrow> log_cost (z_after y z) \<le> log_cost (z_after x z)"
  unfolding log_cost_def z_after_def
  by (induction z) (auto simp: add_increasing)

subsection \<open>The chunked walk is the plain walk\<close>

lemma walk_entries_append:
  "walk_entries need (xs @ ys) freed =
     (case walk_entries need xs freed of
        (freed, Some x) \<Rightarrow> (freed, Some x) | (freed, None) \<Rightarrow> walk_entries need ys freed)"
  by (induction xs arbitrary: freed) (simp_all add: Let_def)

lemma z_slice_chunk: "z_slice (int n) (int n + 127) z = take 128 (drop n z)"
proof (cases "n < length z")
  case True
  have a: "nat (min (int n + 127) (int (length z) - 1) - int n + 1) = min 128 (length z - n)"
    using True by (simp add: min_def) linarith
  have "take (min 128 (length z - n)) (drop n z) = take 128 (drop n z)"
    by (auto simp: min_def)
  with True a show ?thesis by (simp add: z_slice_def Let_def)
qed (simp add: z_slice_def Let_def)

text \<open>
  What the walk finds: a prefix of the log whose costs reach the need, and no shorter prefix does.
\<close>

lemma walk_entries_Some:
  assumes "walk_entries need z freed = (f, Some x)" and "0 < need - freed"
  shows "\<exists>ys m zs. z = ys @ (x, m) # zs \<and> freed + log_cost ys < need \<and>
    need \<le> freed + log_cost (ys @ [(x, m)])"
  using assms
proof (induction z arbitrary: freed)
  case (Cons e z)
  show ?case
  proof (cases "need \<le> freed + member_cost (snd e)")
    case True
    with Cons.prems show ?thesis
      by (intro exI [of _ "[]"] exI [of _ "snd e"] exI [of _ z])
        (auto simp: log_cost_def Let_def prod_eq_iff)
  next
    case False
    with Cons obtain ys m zs where "z = ys @ (x, m) # zs"
      "freed + member_cost (snd e) + log_cost ys < need"
      "need \<le> freed + member_cost (snd e) + log_cost (ys @ [(x, m)])"
      by (fastforce simp: Let_def)
    then show ?thesis
      by (intro exI [of _ "e # ys"] exI [of _ m] exI [of _ zs])
        (auto simp: log_cost_def Let_def)
  qed
qed simp

lemma walk_entries_None:
  "walk_entries need z freed = (f, None) \<Longrightarrow> z \<noteq> [] \<Longrightarrow> freed + log_cost z < need"
proof (induction z arbitrary: freed)
  case (Cons e z)
  then show ?case
    by (cases "z = []") (fastforce simp: Let_def log_cost_def split: if_splits)+
qed simp

context redis
begin

lemma rate_walk_eq:
  "rate_walk R lk need (int n) freed s =
     Some (snd (walk_entries need (drop n (zsets (view s) lk)) freed))"
proof (induction "length (zsets (view s) lk) - n" arbitrary: n freed rule: less_induct)
  case less
  let ?z = "zsets (view s) lk"
  have c: "c_zrange R lk (int n) (int n + 127) s = take 128 (drop n ?z)"
    by (simp add: zrange_law z_slice_chunk)
  show ?case
  proof (cases "n < length ?z")
    case False
    with c show ?thesis by (subst rate_walk.simps) simp
  next
    case True
    then obtain e es where e: "take 128 (drop n ?z) = e # es"
      by (cases "take 128 (drop n ?z)") auto
    have d: "drop n ?z = (e # es) @ drop (n + 128) ?z"
      using append_take_drop_id [of 128 "drop n ?z"] e by (simp add: add.commute)
    obtain f r where w: "walk_entries need (e # es) freed = (f, r)" by fastforce
    have IH: "rate_walk R lk need (int n + 128) f s =
        Some (snd (walk_entries need (drop (n + 128) ?z) f))"
      using less [of "n + 128" f] True by simp
    have dw: "walk_entries need (drop n ?z) freed =
        (case r of Some x \<Rightarrow> (f, Some x) | None \<Rightarrow> walk_entries need (drop (n + 128) ?z) f)"
      unfolding d walk_entries_append w by simp
    show ?thesis
      unfolding dw using c e w IH
      by (subst rate_walk.simps) (cases r; simp del: walk_entries.simps take_append)
  qed
qed

end


subsection \<open>One limit's pair of keys\<close>

definition only :: "key list \<Rightarrow> rview \<Rightarrow> rview \<Rightarrow> bool" where
  "only ks v v' \<longleftrightarrow> clock_ms v' = clock_ms v \<and> (\<forall>k. k \<notin> set ks \<longrightarrow> same_key k v v')"

lemma same_key_refl [simp]: "same_key k v v"
  by (simp add: same_key_def)

lemma only_refl [simp]: "only ks v v"
  by (simp add: only_def)

lemma only_trans: "only ks u v \<Longrightarrow> only ks' v w \<Longrightarrow> only (ks @ ks') u w"
  by (simp add: only_def same_key_def)

lemma only_trans_same: "only ks u v \<Longrightarrow> only ks v w \<Longrightarrow> only ks u w"
  by (simp add: only_def same_key_def)

definition log_at :: "'m rate_keys_scheme \<Rightarrow> rview \<Rightarrow> zset" where
  "log_at l v = zsets v (log_key l)"

text \<open>Between scripts: a log that is there has its total, unless the total has expired.\<close>

definition rate_wf :: "'m rate_keys_scheme \<Rightarrow> rview \<Rightarrow> bool" where
  "rate_wf l v \<longleftrightarrow> log_key l \<noteq> total_key l \<and> 0 < window_ms l \<and> z_wf (log_at l v) \<and>
     (log_at l v \<noteq> [] \<longrightarrow>
       (case strs v (total_key l) of None \<Rightarrow> True | Some t \<Rightarrow> str_int t = Some (log_cost (log_at l v))))"

text \<open>After \<open>evict\<close>: the total is there exactly when the log is.\<close>

definition settled :: "'m rate_keys_scheme \<Rightarrow> rview \<Rightarrow> bool" where
  "settled l v \<longleftrightarrow> log_key l \<noteq> total_key l \<and> 0 < window_ms l \<and> z_wf (log_at l v) \<and>
     (case strs v (total_key l) of
        None \<Rightarrow> log_at l v = []
      | Some t \<Rightarrow> log_at l v \<noteq> [] \<and> str_int t = Some (log_cost (log_at l v)))"

lemma settled_rate_wf: "settled l v \<Longrightarrow> rate_wf l v"
  by (auto simp: settled_def rate_wf_def split: option.splits)

lemma settled_str_num: "settled l v \<Longrightarrow> str_num (strs v (total_key l)) = Some (log_cost (log_at l v))"
  by (auto simp: settled_def str_num_def split: option.splits)

text \<open>Between the parts of RATE_ADJUST: an emptied log may still have its total, of 0.\<close>

definition counted :: "'m rate_keys_scheme \<Rightarrow> rview \<Rightarrow> bool" where
  "counted l v \<longleftrightarrow> log_key l \<noteq> total_key l \<and> 0 < window_ms l \<and> z_wf (log_at l v) \<and>
     str_num (strs v (total_key l)) = Some (log_cost (log_at l v)) \<and>
     (log_at l v \<noteq> [] \<longrightarrow> strs v (total_key l) \<noteq> None)"

lemma settled_counted: "settled l v \<Longrightarrow> counted l v"
  by (auto simp: settled_def counted_def str_num_def split: option.splits)

text \<open>
  With the server clock, no entry is from the future and the log does not expire before its
  entries have left the window.
\<close>

definition timely :: "'m rate_keys_scheme \<Rightarrow> rview \<Rightarrow> bool" where
  "timely l v \<longleftrightarrow> list_all (\<lambda>e. fst e \<le> clock_ms v) (log_at l v) \<and>
     (case ttls v (log_key l) of
        None \<Rightarrow> True | Some d \<Rightarrow> list_all (\<lambda>e. fst e + window_ms l \<le> d) (log_at l v))"

text \<open>One limit after an operation at \<open>now\<close> that makes its log \<open>g\<close> of what it was.\<close>

definition becomes :: "'m rate_keys_scheme \<Rightarrow> ms \<Rightarrow> (zset \<Rightarrow> zset) \<Rightarrow> rview \<Rightarrow> rview \<Rightarrow> bool" where
  "becomes l now g v v' \<longleftrightarrow> settled l v' \<and> log_at l v' = g (log_at l v) \<and>
     (timely l v \<and> now \<le> clock_ms v \<longrightarrow> timely l v')"

definition evicted :: "'m rate_keys_scheme \<Rightarrow> ms \<Rightarrow> rview \<Rightarrow> rview \<Rightarrow> bool" where
  "evicted l cutoff v v' \<longleftrightarrow> only [log_key l, total_key l] v v' \<and> settled l v' \<and>
     log_at l v' = z_after cutoff (log_at l v) \<and> (timely l v \<longrightarrow> timely l v')"

lemma evicted_becomes: "evicted l cutoff v v' \<Longrightarrow> becomes l now (z_after cutoff) v v'"
  by (simp add: evicted_def becomes_def)

context redis
begin

lemma touch_view:
  assumes "0 < t" and "exists_key lk (view s)" and "exists_key tk (view s)"
  shows "view (touch R lk tk t s) = (view s)\<lparr>ttls := (ttls (view s))
    (lk \<mapsto> clock_ms (view s) + t, tk \<mapsto> clock_ms (view s) + t)\<rparr>"
  using assms
  by (simp add: touch_def keys_laws doc_pexpire_def exists_key_def)

lemma recount_view:
  assumes "0 < t" and "lk \<noteq> tk"
  shows "\<exists>s'. recount R lk tk t s = (log_cost (zsets (view s) lk), s') \<and>
    only [tk] (view s) (view s') \<and>
    strs (view s') tk = Some (int_str (log_cost (zsets (view s) lk))) \<and>
    zsets (view s') lk = zsets (view s) lk \<and> ttls (view s') lk = ttls (view s) lk"
  using assms
  by (simp add: recount_def Let_def zrange_law z_slice_all keys_laws set_px_law doc_set_px_def
      doc_pexpire_def exists_key_def log_cost_def only_def same_key_def)

lemma timely_kept:
  assumes "timely l v" and "log_at l v' = z_after cutoff (log_at l v)" and "only [log_key l, total_key l] v v'"
    and "z_after cutoff (log_at l v) \<noteq> [] \<Longrightarrow> ttls v' (log_key l) = ttls v (log_key l)"
  shows "timely l v'"
  using assms by (cases "z_after cutoff (log_at l v) = []") (auto simp: only_def timely_def list_all_iff split: option.splits)

lemma recount_evicts:
  assumes wf: "rate_wf l v" and t: "0 < t" and ne: "z_after cutoff (log_at l v) \<noteq> []"
    and s: "zsets (view s) (log_key l) = z_after cutoff (log_at l v)" "only [log_key l, total_key l] v (view s)"
      "ttls (view s) (log_key l) = ttls v (log_key l)"
  shows "\<exists>s'. map_prod Some id (recount R (log_key l) (total_key l) t s) =
      (Some (log_cost (z_after cutoff (log_at l v))), s') \<and> evicted l cutoff v (view s')"
proof -
  let ?a = "z_after cutoff (log_at l v)"
  have keys: "log_key l \<noteq> total_key l" using wf by (simp add: rate_wf_def)
  obtain s' where r: "recount R (log_key l) (total_key l) t s = (log_cost ?a, s')"
    and o: "only [total_key l] (view s) (view s')"
    and st: "strs (view s') (total_key l) = Some (int_str (log_cost ?a))"
    and z: "zsets (view s') (log_key l) = ?a" and tt: "ttls (view s') (log_key l) = ttls (view s) (log_key l)"
    using recount_view [OF t keys, of s] s(1) by auto
  have "only [log_key l, total_key l] v (view s')"
    using s(2) o by (auto simp: only_def same_key_def)
  with r st z tt s ne keys wf timely_kept [of l v "view s'" cutoff] show ?thesis
    by (auto simp: evicted_def settled_def log_at_def rate_wf_def)
qed

lemma evict_on_view:
  assumes wf: "rate_wf l (view s)" and t: "0 < t"
  shows "\<exists>s'. evict R (log_key l) (total_key l) cutoff t s =
      (Some (log_cost (z_after cutoff (log_at l (view s)))), s') \<and> evicted l cutoff (view s) (view s')"
proof -
  let ?lk = "log_key l" and ?tk = "total_key l"
  let ?z = "log_at l (view s)" and ?a = "z_after cutoff (log_at l (view s))"
  define s1 where "s1 = (if c_zrangebyscore R ?lk cutoff s \<noteq> []
    then snd (c_zremrangebyscore R ?lk cutoff s) else s)"
  define freed where "freed = log_cost (z_upto cutoff ?z)"
  have ne: "?lk \<noteq> ?tk" and zw: "z_wf ?z" using wf by (simp_all add: rate_wf_def)
  have same: "z_upto cutoff ?z = [] \<Longrightarrow> ?a = ?z"
    using length_upto_after [of cutoff ?z]
    by (simp add: z_upto_def z_after_def) (metis filter_True length_filter_less less_irrefl)
  have z1: "zsets (view s1) ?lk = ?a" and o1: "only [?lk] (view s) (view s1)"
    and str1: "strs (view s1) = strs (view s)" and ttl1: "?a \<noteq> [] \<Longrightarrow>
      ttls (view s1) ?lk = ttls (view s) ?lk"
    using same
    by (auto simp: s1_def zset_laws doc_zremrangebyscore_def log_at_def only_def same_key_def)
  have f: "sum_list (map member_cost (c_zrangebyscore R ?lk cutoff s)) = freed"
    by (simp add: freed_def log_cost_def zset_laws log_at_def comp_def)
  have sum: "log_cost ?z - freed = log_cost ?a"
    using log_cost_split [of ?z cutoff] by (simp add: freed_def)
  note keeps = timely_kept [where cutoff = cutoff and l = l and v = "view s"]
  note ev = evict_def Let_def f s1_def [symmetric] zcard_law z1 get_law str1
  show ?thesis
  proof (cases "?a = []")
    case True
    have "evict R ?lk ?tk cutoff t s = (Some 0, c_del R ?tk s1)"
      using True by (simp add: ev)
    moreover have "evicted l cutoff (view s) (view (c_del R ?tk s1))"
      using True z1 o1 ne wf
      by (auto simp: evicted_def only_def same_key_def del_law doc_del_def del_view_def settled_def
          rate_wf_def log_at_def clock_ms_def timely_def split: option.splits)
    ultimately show ?thesis using True by auto
  next
    case False
    note recounted = recount_evicts [OF wf t False]
    show ?thesis
    proof (cases "strs (view s) ?tk")
      case None
      with False recounted [OF z1] o1 ttl1 show ?thesis
        by (simp add: ev only_def)
    next
      case (Some raw)
      have "?z \<noteq> []" using False by (auto simp: z_after_def)
      with wf Some have num: "str_int raw = Some (log_cost ?z)" by (simp add: rate_wf_def)
      show ?thesis
      proof (cases "0 < freed")
        case f0: False
        then have "freed = 0" by (simp add: freed_def order.antisym)
        with num sum have n: "str_int raw = Some (log_cost ?a)" by simp
        have "evict R ?lk ?tk cutoff t s = (Some (log_cost ?a), s1)"
          using False Some n f0 leD [OF log_cost_nonneg [of ?a]] by (simp add: ev)
        moreover have "evicted l cutoff (view s) (view s1)"
          using n False z1 o1 ttl1 ne wf Some str1 keeps
          by (auto simp: evicted_def only_def settled_def log_at_def rate_wf_def)
        ultimately show ?thesis by blast
      next
        case True
        have sn: "str_num (strs (view s1) ?tk) = Some (log_cost ?z)"
          using Some str1 num by (simp add: str_num_def)
        define s2 where "s2 = snd (c_decrby R ?tk freed s1)"
        have d: "c_decrby R ?tk freed s1 = (log_cost ?a, s2)"
          using sn sum by (auto simp: s2_def c_decrby_def string_laws doc_incrby_def prod_eq_iff)
        have v2: "view s2 = (view s1)\<lparr>strs := (strs (view s1))(?tk \<mapsto> int_str (log_cost ?a))\<rparr>"
          using sn sum by (simp add: s2_def c_decrby_def string_laws doc_incrby_def)
        have "evict R ?lk ?tk cutoff t s = (Some (log_cost ?a), s2)"
          using False Some num True d leD [OF log_cost_nonneg [of ?a]] by (simp add: ev)
        moreover have "evicted l cutoff (view s) (view s2)"
          using v2 False z1 o1 ttl1 ne wf keeps
          by (auto simp: evicted_def only_def settled_def log_at_def rate_wf_def same_key_def)
        ultimately show ?thesis by blast
      qed
    qed
  qed
qed

end

end
