(* ===== verification/RateSystem.thy ===== *)
theory RateSystem
  imports RateView
begin

section \<open>The rate limiter's scripts as operations on the logs\<close>

text \<open>
  A specification of the rate limiter on the logs alone (\<open>window_log\<close>, \<open>verdict\<close>, \<open>charged\<close>,
  \<open>adjusted\<close>), and the proof that the scripts, with their running totals, chunked walk and
  expiry times, implement it on any number of limits with separate keys.
\<close>

subsection \<open>The specification\<close>

text \<open>The entries that count at \<open>now\<close>, and the units they use.\<close>

definition window_log :: "'m rate_keys_scheme \<Rightarrow> ms \<Rightarrow> zset \<Rightarrow> zset" where
  "window_log l now z = z_after (now - window_ms l) z"

definition used_at :: "'m rate_keys_scheme \<Rightarrow> ms \<Rightarrow> rview \<Rightarrow> int" where
  "used_at l now v = log_cost (window_log l now (log_at l v))"

definition recorded_at :: "rate_charge \<Rightarrow> ident \<Rightarrow> zset \<Rightarrow> bool" where
  "recorded_at l x z \<longleftrightarrow> 0 < cost l \<and> rate_member (cost l) x \<in> snd ` set z"

definition log_wait :: "rate_charge \<Rightarrow> ms \<Rightarrow> zset \<Rightarrow> ms" where
  "log_wait l now z =
     max 1 (case snd (walk_entries (log_cost z + cost l - limit_units l) z 0) of
              None \<Rightarrow> window_ms l | Some x \<Rightarrow> x + window_ms l - now)"

fun verdict :: "ident \<Rightarrow> ms \<Rightarrow> rate_charge list \<Rightarrow> bool \<Rightarrow> ms \<Rightarrow> rview \<Rightarrow> ms" where
  "verdict x now [] already w v = w"
| "verdict x now (l # ls) already w v =
     (let z = window_log l now (log_at l v);
          already = (already \<or> recorded_at l x z)
      in verdict x now ls already
           (if 0 < cost l \<and> \<not> already \<and> limit_units l < log_cost z + cost l
            then max w (log_wait l now z) else w) v)"

definition charged :: "ident \<Rightarrow> ms \<Rightarrow> rate_charge \<Rightarrow> zset \<Rightarrow> zset" where
  "charged x now l z =
     (if 0 < cost l \<and> \<not> recorded_at l x z then z_add now (rate_member (cost l) x) z else z)"

definition adjusted :: "ident \<Rightarrow> ms \<Rightarrow> ms \<Rightarrow> rate_change \<Rightarrow> zset \<Rightarrow> zset" where
  "adjusted x now adm l z =
     (let z = (if 0 < old_cost l then z_rem (rate_member (old_cost l) x) z else z)
      in if 0 < new_cost l \<and> now - window_ms l < adm
         then z_add adm (rate_member (new_cost l) x) z else z)"

subsection \<open>Several limits with separate keys\<close>

definition limit_keys :: "'m rate_keys_scheme list \<Rightarrow> key list" where
  "limit_keys ls = concat (map (\<lambda>l. [log_key l, total_key l]) ls)"

definition rate_ok :: "'m rate_keys_scheme list \<Rightarrow> rview \<Rightarrow> bool" where
  "rate_ok ls v \<longleftrightarrow> distinct (limit_keys ls) \<and> list_all (\<lambda>l. rate_wf l v) ls"

lemma limit_keys_simps [simp]:
  "limit_keys [] = []" "limit_keys (l # ls) = log_key l # total_key l # limit_keys ls"
  by (simp_all add: limit_keys_def)

lemma limit_keys_mem: "l \<in> set ls \<Longrightarrow> log_key l \<in> set (limit_keys ls) \<and> total_key l \<in> set (limit_keys ls)"
  by (auto simp: limit_keys_def)

lemma only_limit:
  assumes "only ks v v'" and "log_key l \<notin> set ks" and "total_key l \<notin> set ks"
  shows "log_at l v' = log_at l v" "rate_wf l v' = rate_wf l v" "settled l v' = settled l v"
    "timely l v' = timely l v" "clock_ms v' = clock_ms v"
proof -
  have a: "log_at l v' = log_at l v" "strs v' (total_key l) = strs v (total_key l)"
    "ttls v' (log_key l) = ttls v (log_key l)" "clock_ms v' = clock_ms v"
    using assms by (simp_all add: only_def same_key_def log_at_def)
  show "log_at l v' = log_at l v" "rate_wf l v' = rate_wf l v" "settled l v' = settled l v"
    "timely l v' = timely l v" "clock_ms v' = clock_ms v"
    unfolding rate_wf_def settled_def timely_def a by (rule refl)+
qed

lemma only_mono: "only ks v v' \<Longrightarrow> set ks \<subseteq> set ks' \<Longrightarrow> only ks' v v'"
  by (auto simp: only_def)

lemma only_clock: "only ks v v' \<Longrightarrow> clock_ms v' = clock_ms v"
  by (simp add: only_def)

text \<open>The limits one after the other: an operation on the first leaves the others alone.\<close>

lemma rate_ok_Cons:
  assumes "rate_ok (l # ls) v" and "only [log_key l, total_key l] v v'"
  shows "rate_wf l v" and "rate_ok ls v'" and "m \<in> set ls \<Longrightarrow> log_at m v' = log_at m v"
    and "m \<in> set ls \<Longrightarrow> timely m v' = timely m v"
    and "m \<in> set ls \<Longrightarrow> settled m v' = settled m v"
proof -
  have disj: "log_key m \<notin> {log_key l, total_key l} \<and> total_key m \<notin> {log_key l, total_key l}"
    if "m \<in> set ls" for m
    using assms(1) limit_keys_mem [OF that] by (auto simp: rate_ok_def)
  show "rate_wf l v" using assms(1) by (simp add: rate_ok_def)
  show "rate_ok ls v'"
    using assms(1) disj only_limit(2) [OF assms(2)] by (auto simp: rate_ok_def list_all_iff)
  show "m \<in> set ls \<Longrightarrow> log_at m v' = log_at m v" "m \<in> set ls \<Longrightarrow> timely m v' = timely m v"
    "m \<in> set ls \<Longrightarrow> settled m v' = settled m v"
    using only_limit [OF assms(2), of m] disj [of m] by simp_all
qed

lemma rate_ok_head:
  assumes "rate_ok (l # ls) v" and "only (limit_keys ls) v v'"
  shows "log_at l v' = log_at l v" "settled l v' = settled l v" "timely l v' = timely l v"
  using assms only_limit [OF assms(2), of l] by (simp_all add: rate_ok_def)

lemma becomes_all_Cons:
  assumes ok: "rate_ok (l # ls) v" and o1: "only [log_key l, total_key l] v u"
    and b1: "becomes l now (g l) v u" and o2: "only (limit_keys ls) u w"
    and b2: "\<forall>m \<in> set ls. becomes m now (g m) u w"
  shows "only (limit_keys (l # ls)) v w \<and> (\<forall>m \<in> set (l # ls). becomes m now (g m) v w)"
proof -
  have d: "log_key l \<notin> set (limit_keys ls)" "total_key l \<notin> set (limit_keys ls)"
    using ok by (simp_all add: rate_ok_def)
  have c: "clock_ms u = clock_ms v" using o1 by (simp add: only_def)
  have "becomes l now (g l) v w"
    using b1 only_limit [OF o2 d] by (simp add: becomes_def)
  moreover have "becomes m now (g m) v w" if "m \<in> set ls" for m
    using b2 that rate_ok_Cons(3,4) [OF ok o1 that] c by (simp add: becomes_def)
  ultimately show ?thesis
    using only_trans [OF o1 o2] by simp
qed

subsection \<open>The scripts implement the specification\<close>

lemma verdict_cong:
  "(\<And>l. l \<in> set ls \<Longrightarrow> log_at l v' = log_at l v) \<Longrightarrow> verdict x now ls al w v' = verdict x now ls al w v"
  by (induction ls arbitrary: al w) simp_all

context redis
begin

lemma rate_wait_on_view:
  assumes "log_at l (view s) = z" and "u = log_cost z"
  shows "rate_wait R l now u s = Some (log_wait l now z)"
  using assms rate_walk_eq [of "log_key l" _ 0 0 s]
  by (auto simp: rate_wait_def log_wait_def log_at_def Let_def max_def split: option.split)

lemma recorded_on_view:
  "0 < cost l \<and> c_zscore R (log_key l) (rate_member (cost l) x) s \<noteq> None \<longleftrightarrow>
     recorded_at l x (log_at l (view s))"
  by (auto simp: recorded_at_def zscore_law z_score_None_iff log_at_def)

lemma rate_check_on_view:
  assumes "rate_ok ls (view s)" and "0 \<le> w"
  shows "\<exists>s'. rate_check R x now ls al w s =
      (Some (verdict x now ls al w (view s), map (\<lambda>l. used_at l now (view s)) ls), s') \<and>
    only (limit_keys ls) (view s) (view s') \<and>
    (\<forall>l \<in> set ls. becomes l now (window_log l now) (view s) (view s'))"
  using assms
proof (induction ls arbitrary: al w s)
  case (Cons l ls)
  let ?z = "window_log l now (log_at l (view s))"
  note ok = Cons.prems(1) and w0 = Cons.prems(2)
  have wf: "rate_wf l (view s)" using ok by (simp add: rate_ok_def)
  then have t: "0 < window_ms l * 2" by (simp add: rate_wf_def)
  obtain u where ev: "evict R (log_key l) (total_key l) (now - window_ms l) (window_ms l * 2) s =
      (Some (log_cost ?z), u)" and evd: "evicted l (now - window_ms l) (view s) (view u)"
    using evict_on_view [OF wf t] unfolding window_log_def by blast
  have o: "only [log_key l, total_key l] (view s) (view u)" and zu: "log_at l (view u) = ?z"
    using evd by (simp_all add: evicted_def window_log_def)
  have b: "becomes l now (window_log l now) (view s) (view u)"
    using evicted_becomes [OF evd, of now] by (simp add: becomes_def window_log_def)
  define al' where "al' = (al \<or> recorded_at l x ?z)"
  define w' where "w' = (if 0 < cost l \<and> \<not> al' \<and> limit_units l < log_cost ?z + cost l
    then max w (log_wait l now ?z) else w)"
  have w0': "0 \<le> w'" using w0 by (simp add: w'_def le_max_iff_disj)
  note frame = rate_ok_Cons [OF ok o]
  obtain s' where r: "rate_check R x now ls al' w' u =
      (Some (verdict x now ls al' w' (view u), map (\<lambda>l. used_at l now (view u)) ls), s')"
    and o': "only (limit_keys ls) (view u) (view s')"
    and b': "\<forall>l \<in> set ls. becomes l now (window_log l now) (view u) (view s')"
    using Cons.IH [OF frame(2) w0', of al'] by blast
  have v: "verdict x now ls al' w' (view u) = verdict x now ls al' w' (view s)"
    using frame(3) by (rule verdict_cong)
  have us: "map (\<lambda>l. used_at l now (view u)) ls = map (\<lambda>l. used_at l now (view s)) ls"
    using frame(3) by (simp add: used_at_def)
  have wait: "rate_wait R l now (log_cost ?z) u = Some (log_wait l now ?z)"
    by (rule rate_wait_on_view [OF zu refl])
  have al: "(al \<or> 0 < cost l \<and> c_zscore R (log_key l) (rate_member (cost l) x) u \<noteq> None) = al'"
    using recorded_on_view [of l x u] zu by (simp add: al'_def)
  have vd: "verdict x now (l # ls) al w (view s) = verdict x now ls al' w' (view s)"
    unfolding al'_def w'_def by (simp add: Let_def)
  define C where "C \<longleftrightarrow> 0 < cost l \<and> \<not> al' \<and> limit_units l < log_cost ?z + cost l"
  have wt: "(if 0 < cost l \<and> \<not> al' \<and> limit_units l < log_cost ?z + cost l
      then rate_wait R l now (log_cost ?z) u else Some 0) = Some (if C then log_wait l now ?z else 0)"
    by (simp add: C_def wait)
  have wt': "(if w < (if C then log_wait l now ?z else 0) then if C then log_wait l now ?z else 0
      else w) = w'"
    using w0 by (auto simp: C_def w'_def)
  have u0: "used_at l now (view s) = log_cost ?z" by (simp add: used_at_def)
  have step: "rate_check R x now (l # ls) al w s =
      (Some (verdict x now (l # ls) al w (view s), map (\<lambda>l. used_at l now (view s)) (l # ls)), s')"
    by (simp only: rate_check.simps ev prod.case option.case Let_def al wt wt' r v us vd u0 list.map)
  show ?case
    using step becomes_all_Cons [OF ok o b o' b'] by blast
qed simp

text \<open>Adding a member to a settled log, and removing one.\<close>

lemma rate_added:
  assumes st: "counted l (view s)" and c: "0 \<le> c" and new: "rate_member c x \<notin> snd ` set (log_at l (view s))"
    and add: "view u = put_zset (log_key l)
      (z_add n (rate_member c x) (log_at l (view s))) (view s)"
  shows "\<exists>s'. c_incrby R (total_key l) c u =
      (log_cost (z_add n (rate_member c x) (log_at l (view s))), s') \<and>
    settled l (view s') \<and> only [log_key l, total_key l] (view s) (view s') \<and>
    log_at l (view s') = z_add n (rate_member c x) (log_at l (view s)) \<and>
    ttls (view s') = ttls (view s)"
proof -
  let ?z = "z_add n (rate_member c x) (log_at l (view s))"
  have w: "z_wf (log_at l (view s))" "log_key l \<noteq> total_key l" "0 < window_ms l"
    using st by (simp_all add: counted_def)
  have cz: "log_cost ?z = log_cost (log_at l (view s)) + c"
    using log_cost_add [OF w(1)] new c by simp
  have n: "str_num (strs (view u) (total_key l)) = Some (log_cost (log_at l (view s)))"
    using st add by (simp add: counted_def)
  define s' where "s' = snd (c_incrby R (total_key l) c u)"
  have v: "view s' = (view u)\<lparr>strs := (strs (view u))(total_key l \<mapsto> int_str (log_cost ?z))\<rparr>"
    using n cz by (simp add: s'_def string_laws doc_incrby_def)
  have "c_incrby R (total_key l) c u = (log_cost ?z, s')"
    using n cz by (simp add: s'_def string_laws doc_incrby_def prod_eq_iff)
  moreover have "settled l (view s')" "only [log_key l, total_key l] (view s) (view s')"
    "log_at l (view s') = ?z" "ttls (view s') = ttls (view s)"
    using v add w by (auto simp: settled_def log_at_def only_def same_key_def)
  ultimately show ?thesis by blast
qed

lemma touch_on_view:
  assumes st: "settled l (view s)" and ne: "log_at l (view s) \<noteq> []"
    and o: "only [log_key l, total_key l] v (view s)"
  shows "settled l (view (touch R (log_key l) (total_key l) (window_ms l * 2) s))"
    and "only [log_key l, total_key l] v (view (touch R (log_key l) (total_key l) (window_ms l * 2) s))"
    and "log_at l (view (touch R (log_key l) (total_key l) (window_ms l * 2) s)) = log_at l (view s)"
    and "list_all (\<lambda>e. fst e \<le> clock_ms v) (log_at l (view s)) \<Longrightarrow> timely l (view (touch R (log_key l) (total_key l) (window_ms l * 2) s))"
proof -
  have w: "0 < window_ms l * 2" "0 < window_ms l" "log_key l \<noteq> total_key l"
    using st by (simp_all add: settled_def)
  have ex: "exists_key (log_key l) (view s)" "exists_key (total_key l) (view s)"
    using st ne by (auto simp: exists_key_def settled_def log_at_def split: option.splits)
  note v = touch_view [OF w(1) ex]
  have c: "clock_ms (view s) = clock_ms v" using o by (simp add: only_def)
  show "settled l (view (touch R (log_key l) (total_key l) (window_ms l * 2) s))"
    using st unfolding v by (simp add: settled_def log_at_def split: option.splits)
  show "only [log_key l, total_key l] v (view (touch R (log_key l) (total_key l) (window_ms l * 2) s))"
    using o by (auto simp: v only_def same_key_def)
  show "log_at l (view (touch R (log_key l) (total_key l) (window_ms l * 2) s)) = log_at l (view s)"
    by (simp add: v log_at_def)
  show "timely l (view (touch R (log_key l) (total_key l) (window_ms l * 2) s))"
    if past: "list_all (\<lambda>e. fst e \<le> clock_ms v) (log_at l (view s))"
    using past w c by (force simp: v timely_def log_at_def list_all_iff)
qed

lemma touch_becomes:
  assumes "settled l (view s)" and "log_at l (view s) = g (log_at l v)" and "g (log_at l v) \<noteq> []"
    and "only [log_key l, total_key l] v (view s)"
    and "timely l v \<Longrightarrow> now \<le> clock_ms v \<Longrightarrow> list_all (\<lambda>e. fst e \<le> clock_ms v) (g (log_at l v))"
  shows "only [log_key l, total_key l] v (view (touch R (log_key l) (total_key l) (window_ms l * 2) s)) \<and>
    becomes l now g v (view (touch R (log_key l) (total_key l) (window_ms l * 2) s))"
  using assms touch_on_view [OF assms(1) _ assms(4)] by (simp add: becomes_def)

lemma record_one_on_view:
  assumes st: "settled l (view s)"
  shows "\<exists>s'. rate_record_one R x now l (log_cost (log_at l (view s))) s =
      (log_cost (charged x now l (log_at l (view s))), s') \<and>
    only [log_key l, total_key l] (view s) (view s') \<and>
    becomes l now (charged x now l) (view s) (view s')"
proof (cases "0 < cost l")
  case False
  then show ?thesis using st by (simp add: rate_record_one_def charged_def becomes_def)
next
  case c: True
  let ?m = "rate_member (cost l) x" and ?z = "log_at l (view s)"
  define u where "u = snd (c_zadd_nx R (log_key l) now ?m s)"
  have n: "c_zadd_nx R (log_key l) now ?m s =
      (if recorded_at l x ?z then 0 else 1, u)"
    and vu: "view u = (if recorded_at l x ?z then view s else put_zset (log_key l) (z_add now ?m ?z) (view s))"
    using c by (auto simp: u_def prod_eq_iff zset_laws doc_zadd_nx_def recorded_at_def log_at_def)
  show ?thesis
  proof (cases "recorded_at l x ?z")
    case True
    then have ne: "?z \<noteq> []" by (auto simp: recorded_at_def)
    then obtain t where t: "strs (view s) (total_key l) = Some t" "str_int t = Some (log_cost ?z)"
      using st by (auto simp: settled_def split: option.splits)
    have vs: "view u = view s" using vu True by simp
    have id: "charged x now l ?z = ?z" using True by (simp add: charged_def)
    have "rate_record_one R x now l (log_cost ?z) s =
        (log_cost ?z, touch R (log_key l) (total_key l) (window_ms l * 2) u)"
      using c n True t vs by (simp add: rate_record_one_def get_law)
    with touch_becomes [of l u "charged x now l" "view s" now] st vs ne show ?thesis
      by (simp add: id timely_def)
  next
    case False
    then have new: "?m \<notin> snd ` set ?z" using c by (simp add: recorded_at_def)
    have ch: "charged x now l ?z = z_add now ?m ?z" using c False by (simp add: charged_def)
    obtain s1 where i: "c_incrby R (total_key l) (cost l) u = (log_cost (z_add now ?m ?z), s1)"
      and st1: "settled l (view s1)" and o1: "only [log_key l, total_key l] (view s) (view s1)"
      and z1: "log_at l (view s1) = z_add now ?m ?z"
      using rate_added [OF settled_counted [OF st] _ new, of u now] c vu False by auto
    have "rate_record_one R x now l (log_cost ?z) s =
        (log_cost (z_add now ?m ?z), touch R (log_key l) (total_key l) (window_ms l * 2) s1)"
      using c n False i by (simp add: rate_record_one_def)
    moreover have "list_all (\<lambda>e. fst e \<le> clock_ms (view s)) (z_add now ?m ?z)"
      if "timely l (view s)" "now \<le> clock_ms (view s)"
      using that by (auto simp: timely_def list_all_iff)
    ultimately show ?thesis
      using touch_becomes [OF st1, of "charged x now l" "view s" now] z1 o1 by (simp add: ch)
  qed
qed

lemma record_on_view:
  assumes "rate_ok ls (view s)" and "\<forall>l \<in> set ls. settled l (view s)"
  shows "\<exists>s'. rate_record R x now (zip ls (map (\<lambda>l. log_cost (log_at l (view s))) ls)) s =
      (map (\<lambda>l. log_cost (charged x now l (log_at l (view s)))) ls, s') \<and>
    only (limit_keys ls) (view s) (view s') \<and>
    (\<forall>l \<in> set ls. becomes l now (charged x now l) (view s) (view s'))"
  using assms
proof (induction ls arbitrary: s)
  case (Cons l ls)
  obtain u where one: "rate_record_one R x now l (log_cost (log_at l (view s))) s =
      (log_cost (charged x now l (log_at l (view s))), u)"
    and o: "only [log_key l, total_key l] (view s) (view u)"
    and b: "becomes l now (charged x now l) (view s) (view u)"
    using record_one_on_view [of l s x now] Cons.prems(2) by auto
  note frame = rate_ok_Cons [OF Cons.prems(1) o]
  have st: "\<forall>m \<in> set ls. settled m (view u)" using frame(5) Cons.prems(2) by simp
  obtain s' where r: "rate_record R x now (zip ls (map (\<lambda>l. log_cost (log_at l (view u))) ls)) u =
      (map (\<lambda>l. log_cost (charged x now l (log_at l (view u)))) ls, s')"
    and o': "only (limit_keys ls) (view u) (view s')"
    and b': "\<forall>l \<in> set ls. becomes l now (charged x now l) (view u) (view s')"
    using Cons.IH [OF frame(2) st] by blast
  have eq: "map (\<lambda>l. log_cost (log_at l (view u))) ls = map (\<lambda>l. log_cost (log_at l (view s))) ls"
    "map (\<lambda>l. log_cost (charged x now l (log_at l (view u)))) ls =
      map (\<lambda>l. log_cost (charged x now l (log_at l (view s)))) ls"
    using frame(3) by simp_all
  show ?case
    using becomes_all_Cons [where g = "charged x now", OF Cons.prems(1) o b o' b'] one r
    by (auto simp: eq)
qed simp

text \<open>RATE_ADJUST on one limit.\<close>

lemma adjust_drop_on_view:
  assumes st: "settled l (view s)"
  shows "\<exists>u. rate_adjust_drop R x l (log_cost (log_at l (view s))) s =
      (log_cost (if 0 < old_cost l then z_rem (rate_member (old_cost l) x) (log_at l (view s))
                 else log_at l (view s)), u) \<and>
    counted l (view u) \<and> only [log_key l, total_key l] (view s) (view u) \<and>
    log_at l (view u) = (if 0 < old_cost l then z_rem (rate_member (old_cost l) x) (log_at l (view s))
      else log_at l (view s)) \<and>
    (log_at l (view u) \<noteq> [] \<longrightarrow> ttls (view u) (log_key l) = ttls (view s) (log_key l))"
proof (cases "0 < old_cost l \<and> rate_member (old_cost l) x \<in> snd ` set (log_at l (view s))")
  case False
  define u where "u = (if 0 < old_cost l then
    snd (c_zrem R (log_key l) (rate_member (old_cost l) x) s) else s)"
  have v: "view u = view s" using False by (auto simp: u_def zset_laws doc_zrem_def log_at_def)
  have "0 < old_cost l \<Longrightarrow> z_rem (rate_member (old_cost l) x) (log_at l (view s)) = log_at l (view s)"
    using False by simp
  then show ?thesis
    using settled_counted [OF st] v False
    by (auto simp: rate_adjust_drop_def u_def zset_laws doc_zrem_def log_at_def case_prod_beta)
next
  case True
  let ?m = "rate_member (old_cost l) x" and ?z = "log_at l (view s)"
  have w: "z_wf ?z" "log_key l \<noteq> total_key l" "0 < window_ms l" and c: "0 \<le> old_cost l"
    using st True by (simp_all add: settled_def)
  define t where "t = snd (c_zrem R (log_key l) ?m s)"
  define u where "u = snd (c_decrby R (total_key l) (old_cost l) t)"
  have z: "c_zrem R (log_key l) ?m s = (1, t)" and vt: "view t = put_zset (log_key l) (z_rem ?m ?z) (view s)"
    using True by (auto simp: t_def prod_eq_iff zset_laws doc_zrem_def log_at_def)
  have cz: "log_cost (z_rem ?m ?z) = log_cost ?z - old_cost l"
    using log_cost_rem [OF w(1), of ?m] True c by simp
  have n: "str_num (strs (view t) (total_key l)) = Some (log_cost ?z)"
    using settled_str_num [OF st] vt by simp
  have d: "c_decrby R (total_key l) (old_cost l) t = (log_cost (z_rem ?m ?z), u)"
    and vu: "view u = (view t)\<lparr>strs := (strs (view t))(total_key l \<mapsto> int_str (log_cost (z_rem ?m ?z)))\<rparr>"
    using n cz by (simp_all add: u_def c_decrby_def string_laws doc_incrby_def prod_eq_iff)
  have "rate_adjust_drop R x l (log_cost ?z) s = (log_cost (z_rem ?m ?z), u)"
    using True z d by (simp add: rate_adjust_drop_def)
  moreover have "counted l (view u)" "only [log_key l, total_key l] (view s) (view u)"
    "log_at l (view u) = z_rem ?m ?z"
    "log_at l (view u) \<noteq> [] \<longrightarrow> ttls (view u) (log_key l) = ttls (view s) (log_key l)"
    using vu vt w by (auto simp: counted_def log_at_def only_def same_key_def)
  ultimately show ?thesis using True by auto
qed

lemma adjust_put_nothing:
  assumes ct: "counted l (view s)" and o: "only [log_key l, total_key l] v (view s)"
    and tm: "timely l v \<Longrightarrow> timely l (view s)" and no: "\<not> (0 < new_cost l \<and> now - window_ms l < adm)"
  shows "\<exists>s'. rate_adjust_put R x now adm l (log_cost (log_at l (view s))) s = (log_cost (log_at l (view s)), s') \<and>
    only [log_key l, total_key l] v (view s') \<and> settled l (view s') \<and> log_at l (view s') = log_at l (view s) \<and>
    (timely l v \<and> adm \<le> clock_ms v \<longrightarrow> timely l (view s'))"
proof -
  have w: "log_key l \<noteq> total_key l" "0 < window_ms l" "z_wf (log_at l (view s))"
    using ct by (simp_all add: counted_def)
  show ?thesis
  proof (cases "log_at l (view s) = []")
    case True
    let ?d = "c_del R (total_key l) s"
    have "rate_adjust_put R x now adm l (log_cost (log_at l (view s))) s = (0, ?d)"
      using no True by (auto simp: rate_adjust_put_def zcard_law log_at_def)
    moreover have "only [log_key l, total_key l] v (view ?d)"
      using o by (auto simp: only_def same_key_def del_law doc_del_def del_view_def clock_ms_def)
    moreover have "settled l (view ?d)" and e: "log_at l (view ?d) = []"
      using True w by (auto simp: settled_def log_at_def del_law doc_del_def del_view_def)
    moreover have "timely l (view ?d)"
      using True w by (auto simp: timely_def log_at_def del_law doc_del_def del_view_def
          split: option.split)
    ultimately show ?thesis using no True by auto
  next
    case ne: False
    have "rate_adjust_put R x now adm l (log_cost (log_at l (view s))) s = (log_cost (log_at l (view s)), s)"
      using no ne by (auto simp: rate_adjust_put_def zcard_law log_at_def)
    moreover have "settled l (view s)"
      using ct ne by (auto simp: settled_def counted_def str_num_def split: option.splits)
    ultimately show ?thesis using o tm by auto
  qed
qed

lemma adjust_put_entry:
  assumes ct: "counted l (view s)" and o: "only [log_key l, total_key l] v (view s)"
    and tm: "timely l v \<Longrightarrow> timely l (view s)" and yes: "0 < new_cost l \<and> now - window_ms l < adm"
  shows "\<exists>s'. rate_adjust_put R x now adm l (log_cost (log_at l (view s))) s =
      (log_cost (z_add adm (rate_member (new_cost l) x) (log_at l (view s))), s') \<and>
    only [log_key l, total_key l] v (view s') \<and> settled l (view s') \<and>
    log_at l (view s') = z_add adm (rate_member (new_cost l) x) (log_at l (view s)) \<and>
    (timely l v \<and> adm \<le> clock_ms v \<longrightarrow> timely l (view s'))"
proof -
  let ?m = "rate_member (new_cost l) x" and ?z = "log_at l (view s)"
  have c: "0 \<le> new_cost l" using yes by simp
  define u where "u = snd (c_zadd R (log_key l) adm ?m s)"
  have a: "c_zadd R (log_key l) adm ?m s = (if ?m \<in> snd ` set ?z then 0 else 1, u)"
    and vu: "view u = put_zset (log_key l) (z_add adm ?m ?z) (view s)"
    by (auto simp: u_def prod_eq_iff zset_laws doc_zadd_def log_at_def)
  have "\<exists>u'. (if ?m \<in> snd ` set ?z then (log_cost ?z, u) else c_incrby R (total_key l) (new_cost l) u) =
      (log_cost (z_add adm ?m ?z), u') \<and> settled l (view u') \<and>
    only [log_key l, total_key l] (view s) (view u') \<and> log_at l (view u') = z_add adm ?m ?z"
  proof (cases "?m \<in> snd ` set ?z")
    case False
    with rate_added [OF ct c False vu] show ?thesis by auto
  next
    case m: True
    then have "?z \<noteq> []" by auto
    with ct obtain t where "strs (view s) (total_key l) = Some t" "str_int t = Some (log_cost ?z)"
      by (auto simp: counted_def str_num_def)
    with ct m vu show ?thesis
      by (auto simp: settled_def counted_def log_cost_add only_def same_key_def log_at_def)
  qed
  then obtain u' where u': "(if ?m \<in> snd ` set ?z then (log_cost ?z, u)
      else c_incrby R (total_key l) (new_cost l) u) = (log_cost (z_add adm ?m ?z), u')"
    and st: "settled l (view u')" and o': "only [log_key l, total_key l] (view s) (view u')"
    and zu: "log_at l (view u') = z_add adm ?m ?z" by blast
  have ov: "only [log_key l, total_key l] v (view u')" using only_trans_same [OF o o'] .
  let ?t = "touch R (log_key l) (total_key l) (window_ms l * 2) u'"
  have "rate_adjust_put R x now adm l (log_cost ?z) s = (log_cost (z_add adm ?m ?z), ?t)"
    using yes a u' by (cases "?m \<in> snd ` set ?z") (simp_all add: rate_adjust_put_def)
  moreover have "timely l (view ?t)" if "timely l v \<and> adm \<le> clock_ms v"
  proof -
    have "list_all (\<lambda>e. fst e \<le> clock_ms v) (log_at l (view u'))"
      using that tm only_clock [OF o] zu by (auto simp: timely_def list_all_iff)
    then show ?thesis using touch_on_view(4) [OF st _ ov] zu by simp
  qed
  ultimately show ?thesis
    using touch_on_view(1-3) [OF st _ ov] zu by auto
qed

lemma adjust_put_on_view:
  assumes ct: "counted l (view s)" and o: "only [log_key l, total_key l] v (view s)"
    and tm: "timely l v \<Longrightarrow> timely l (view s)"
  shows "\<exists>s'. rate_adjust_put R x now adm l (log_cost (log_at l (view s))) s =
      (log_cost (if 0 < new_cost l \<and> now - window_ms l < adm
         then z_add adm (rate_member (new_cost l) x) (log_at l (view s)) else log_at l (view s)), s') \<and>
    only [log_key l, total_key l] v (view s') \<and> settled l (view s') \<and>
    log_at l (view s') = (if 0 < new_cost l \<and> now - window_ms l < adm
         then z_add adm (rate_member (new_cost l) x) (log_at l (view s)) else log_at l (view s)) \<and>
    (timely l v \<and> adm \<le> clock_ms v \<longrightarrow> timely l (view s'))"
  using adjust_put_nothing [OF assms, of now adm x] adjust_put_entry [OF assms, of now adm x] by (auto simp: if_splits)

lemma adjust_one_on_view:
  assumes wf: "rate_wf l (view s)"
  shows "\<exists>s'. rate_adjust_one R x now adm l s =
      (Some (log_cost (adjusted x now adm l (window_log l now (log_at l (view s))))), s') \<and>
    only [log_key l, total_key l] (view s) (view s') \<and>
    becomes l adm (\<lambda>z. adjusted x now adm l (window_log l now z)) (view s) (view s')"
proof -
  let ?z = "window_log l now (log_at l (view s))"
  let ?r = "if 0 < old_cost l then z_rem (rate_member (old_cost l) x) ?z else ?z"
  have t: "0 < window_ms l * 2" using wf by (simp add: rate_wf_def)
  obtain s1 where ev: "evict R (log_key l) (total_key l) (now - window_ms l) (window_ms l * 2) s =
      (Some (log_cost ?z), s1)" and evd: "evicted l (now - window_ms l) (view s) (view s1)"
    using evict_on_view [OF wf t] unfolding window_log_def by blast
  then have st1: "settled l (view s1)" and o1: "only [log_key l, total_key l] (view s) (view s1)"
    and z1: "log_at l (view s1) = ?z" and t1: "timely l (view s) \<Longrightarrow> timely l (view s1)"
    by (simp_all add: evicted_def window_log_def)
  obtain s2 where dr: "rate_adjust_drop R x l (log_cost ?z) s1 = (log_cost ?r, s2)"
    and ct: "counted l (view s2)" and o2: "only [log_key l, total_key l] (view s1) (view s2)"
    and z2: "log_at l (view s2) = ?r"
    and tt: "log_at l (view s2) \<noteq> [] \<longrightarrow> ttls (view s2) (log_key l) = ttls (view s1) (log_key l)"
    using adjust_drop_on_view [OF st1, of x] unfolding z1 by blast
  have o: "only [log_key l, total_key l] (view s) (view s2)" using only_trans_same [OF o1 o2] .
  have tm: "timely l (view s2)" if "timely l (view s)"
  proof (cases "log_at l (view s2) = []")
    case True
    then show ?thesis by (simp add: timely_def split: option.split)
  next
    case False
    have sub: "set (log_at l (view s2)) \<subseteq> set (log_at l (view s1))" using z1 z2 by auto
    have "timely l (view s1)" using t1 that .
    then show ?thesis
      using sub tt False only_clock [OF o2]
      by (auto simp: timely_def list_all_iff split: option.splits)
  qed
  obtain s3 where pt: "rate_adjust_put R x now adm l (log_cost ?r) s2 =
      (log_cost (adjusted x now adm l ?z), s3)"
    and o3: "only [log_key l, total_key l] (view s) (view s3)" and st3: "settled l (view s3)"
    and z3: "log_at l (view s3) = adjusted x now adm l ?z"
    and t3: "timely l (view s) \<and> adm \<le> clock_ms (view s) \<longrightarrow> timely l (view s3)"
    using adjust_put_on_view [OF ct o tm, of x now adm]
    unfolding z2 adjusted_def Let_def by blast
  have "rate_adjust_one R x now adm l s = (Some (log_cost (adjusted x now adm l ?z)), s3)"
    by (simp only: rate_adjust_one_def ev prod.case option.case Let_def dr pt)
  with o3 st3 z3 t3 show ?thesis by (auto simp: becomes_def)
qed

lemma each_on_view:
  assumes "rate_ok ls (view s)"
    and "\<And>l s. l \<in> set ls \<Longrightarrow> rate_wf l (view s) \<Longrightarrow>
      \<exists>s'. f l s = (Some (h l (log_at l (view s))), s') \<and>
        only [log_key l, total_key l] (view s) (view s') \<and> becomes l n (g l) (view s) (view s')"
  shows "\<exists>s'. rate_each f ls s = (Some (map (\<lambda>l. h l (log_at l (view s))) ls), s') \<and>
    only (limit_keys ls) (view s) (view s') \<and> (\<forall>l \<in> set ls. becomes l n (g l) (view s) (view s'))"
  using assms
proof (induction ls arbitrary: s)
  case (Cons l ls)
  have "rate_wf l (view s)" using Cons.prems(1) by (simp add: rate_ok_def)
  then obtain u where one: "f l s = (Some (h l (log_at l (view s))), u)"
    and o: "only [log_key l, total_key l] (view s) (view u)"
    and b: "becomes l n (g l) (view s) (view u)"
    using Cons.prems(2) [of l s] by auto
  note frame = rate_ok_Cons [OF Cons.prems(1) o]
  obtain s' where r: "rate_each f ls u = (Some (map (\<lambda>l. h l (log_at l (view u))) ls), s')"
    and o': "only (limit_keys ls) (view u) (view s')"
    and b': "\<forall>l \<in> set ls. becomes l n (g l) (view u) (view s')"
    using Cons.IH [OF frame(2) Cons.prems(2)] by (meson list.set_intros(2))
  have "map (\<lambda>l. h l (log_at l (view u))) ls = map (\<lambda>l. h l (log_at l (view s))) ls"
    using frame(3) by simp
  then show ?case
    using becomes_all_Cons [where g = g, OF Cons.prems(1) o b o' b'] one r by auto
qed simp

subsection \<open>The three scripts\<close>

lemma rate_acquire_on_view:
  assumes ok: "rate_ok ls (view s)" and now: "now = script_now na (view s)"
    and w: "w = verdict x now ls False 0 (view s)"
  defines "g \<equiv> \<lambda>l z. if 0 < w then window_log l now z else charged x now l (window_log l now z)"
  shows "\<exists>s'. rate_acquire_script R ls x na s =
      (Some (RArr ([RInt (if 0 < w then 0 else 1), RInt w, RInt now] @
         map (\<lambda>l. RInt (log_cost (g l (log_at l (view s))))) ls)), s') \<and>
    only (limit_keys ls) (view s) (view s') \<and> (\<forall>l \<in> set ls. becomes l now (g l) (view s) (view s'))"
proof -
  obtain u where c: "rate_check R x now ls False 0 s =
      (Some (w, map (\<lambda>l. used_at l now (view s)) ls), u)"
    and o: "only (limit_keys ls) (view s) (view u)"
    and b: "\<forall>l \<in> set ls. becomes l now (window_log l now) (view s) (view u)"
    using rate_check_on_view [OF ok, of 0 x now False] w by auto
  have n: "lua_resolve_now R na s = now" by (simp add: now resolve_now_view)
  have us: "used_at l now (view s) = log_cost (window_log l now (log_at l (view s)))" for l
    by (simp add: used_at_def)
  show ?thesis
  proof (cases "0 < w")
    case True
    with c n o b us show ?thesis
      by (auto simp: rate_acquire_script_def g_def comp_def)
  next
    case False
    have zu: "log_at l (view u) = window_log l now (log_at l (view s))" "settled l (view u)"
      if "l \<in> set ls" for l using b that by (simp_all add: becomes_def)
    have oku: "rate_ok ls (view u)"
      using ok zu(2) by (auto simp: rate_ok_def list_all_iff settled_rate_wf)
    have m1: "map (\<lambda>l. used_at l now (view s)) ls = map (\<lambda>l. log_cost (log_at l (view u))) ls"
      using zu(1) by (simp add: used_at_def)
    obtain s' where r: "rate_record R x now (zip ls (map (\<lambda>l. log_cost (log_at l (view u))) ls)) u =
        (map (\<lambda>l. log_cost (charged x now l (log_at l (view u)))) ls, s')"
      and o': "only (limit_keys ls) (view u) (view s')"
      and b': "\<forall>l \<in> set ls. becomes l now (charged x now l) (view u) (view s')"
      using record_on_view [OF oku, of x now] zu(2) by blast
    have "rate_acquire_script R ls x na s =
        (Some (RArr ([RInt 1, RInt w, RInt now] @
           map RInt (map (\<lambda>l. log_cost (charged x now l (log_at l (view u)))) ls))), s')"
      using False by (simp add: rate_acquire_script_def n c m1 r)
    moreover have "\<forall>l \<in> set ls. becomes l now (g l) (view s) (view s')"
      using b b' only_clock [OF o] False by (simp add: becomes_def g_def)
    ultimately show ?thesis
      using only_trans_same [OF o o'] zu(1) False by (auto simp: g_def)
  qed
qed

lemma rate_adjust_on_view:
  fixes x :: ident and adm :: ms
  assumes ok: "rate_ok ls (view s)" and now: "now = script_now na (view s)"
  defines "g \<equiv> \<lambda>l z. adjusted x now adm l (window_log l now z)"
  shows "\<exists>s'. rate_adjust_script R ls x na adm s =
      (Some (RArr (map (\<lambda>l. RInt (log_cost (g l (log_at l (view s))))) ls)), s') \<and>
    only (limit_keys ls) (view s) (view s') \<and> (\<forall>l \<in> set ls. becomes l adm (g l) (view s) (view s'))"
proof -
  have n: "lua_resolve_now R na s = now" by (simp add: now resolve_now_view)
  show ?thesis
    using each_on_view [OF ok, of "rate_adjust_one R x now adm" "\<lambda>l z. log_cost (g l z)" adm g]
      adjust_one_on_view
    by (fastforce simp: rate_adjust_script_def n g_def comp_def)
qed

lemma rate_status_on_view:
  assumes ok: "rate_ok ls (view s)" and now: "now = script_now na (view s)"
  shows "\<exists>s'. rate_status_script R ls na s =
      (Some (RArr (map (\<lambda>l. RInt (used_at l now (view s))) ls)), s') \<and>
    only (limit_keys ls) (view s) (view s') \<and>
    (\<forall>l \<in> set ls. becomes l now (window_log l now) (view s) (view s'))"
proof -
  have n: "lua_resolve_now R na s = now" by (simp add: now resolve_now_view)
  let ?f = "\<lambda>l. evict R (log_key l) (total_key l) (now - window_ms l) (window_ms l * 2)"
  have "\<exists>s'. ?f l s = (Some (log_cost (window_log l now (log_at l (view s)))), s') \<and>
      only [log_key l, total_key l] (view s) (view s') \<and>
      becomes l now (window_log l now) (view s) (view s')" if "rate_wf l (view s)" for l s
    using evict_on_view [OF that, of "window_ms l * 2" "now - window_ms l"] that
    by (auto simp: window_log_def evicted_def becomes_def rate_wf_def)
  from each_on_view [where f = ?f and g = "\<lambda>l. window_log l now" and
      h = "\<lambda>l z. log_cost (window_log l now z)" and n = now, OF ok this]
  show ?thesis by (fastforce simp: rate_status_script_def n used_at_def comp_def)
qed

end

end
