(* ===== verification/RateRuns.thy ===== *)
theory RateRuns
  imports RateSystem
begin

section \<open>What the rate limiter's specification gives; any number of clients\<close>

text \<open>
  Facts on the specification of \<open>RateSystem\<close>: when the verdict is to admit, how long a denied
  request has to wait, what an adjustment makes of the use. Then the step relation of any number
  of clients that use the same limits with server time, and its invariant: at every moment the
  logs account for the admissions of the run.
\<close>

subsection \<open>Windows\<close>

lemma z_after_after: "x \<le> y \<Longrightarrow> z_after y (z_after x z) = z_after y z"
  by (auto simp: z_after_def intro!: filter_cong)

lemma window_window: "now \<le> t \<Longrightarrow> window_log l t (window_log l now z) = window_log l t z"
  by (simp add: window_log_def z_after_after)

lemma z_wf_window [simp]: "z_wf z \<Longrightarrow> z_wf (window_log l now z)"
  by (simp add: window_log_def)

lemma log_cost_window_mono: "now \<le> t \<Longrightarrow> log_cost (window_log l t z) \<le> log_cost (window_log l now z)"
  by (simp add: window_log_def log_cost_after_mono)

lemma filter_insort_fst:
  "sorted z \<Longrightarrow> filter P (insort e z) = (if P e then insort e (filter P z) else filter P z)"
  using filter_insort_triv [of P e "\<lambda>x. x" z] filter_insort [where f = "\<lambda>x. x" and P = P and x = e]
  by (auto simp: sorted_map)

lemma z_after_add:
  assumes "z_wf z" and "m \<notin> snd ` set z"
  shows "log_cost (z_after c (z_add x m z)) =
    log_cost (z_after c z) + (if c < x then member_cost m else 0)"
proof -
  have "log_cost (z_after c (insort (x, m) z)) =
      log_cost (if c < x then insort (x, m) (z_after c z) else z_after c z)"
    using assms(1) by (simp add: z_after_def filter_insort_fst z_wf_def)
  with assms show ?thesis by (simp add: z_add_def log_cost_def sum_list_insort)
qed

lemma log_cost_charged:
  assumes "z_wf z" and "\<not> recorded_at l x z" and "0 \<le> cost l"
  shows "log_cost (window_log l t (charged x now l z)) =
    log_cost (window_log l t z) + (if t - window_ms l < now then cost l else 0)"
proof (cases "0 < cost l")
  case True
  with assms show ?thesis
    by (simp add: charged_def window_log_def recorded_at_def z_after_add)
next
  case False
  with assms show ?thesis by (simp add: charged_def)
qed

subsection \<open>The verdict on a fresh request\<close>

definition fits :: "rate_charge \<Rightarrow> ms \<Rightarrow> rview \<Rightarrow> bool" where
  "fits l now v \<longleftrightarrow> (0 < cost l \<longrightarrow> used_at l now v + cost l \<le> limit_units l)"

definition fresh_request :: "rate_charge list \<Rightarrow> ident \<Rightarrow> ms \<Rightarrow> rview \<Rightarrow> bool" where
  "fresh_request ls x now v \<longleftrightarrow>
     list_all (\<lambda>l. \<not> recorded_at l x (window_log l now (log_at l v))) ls"

lemma verdict_ge: "w \<le> verdict x now ls al w v"
  by (induction ls arbitrary: al w) (auto simp: Let_def intro: order_trans [OF max.cobounded1])

lemma verdict_fresh_le:
  assumes "fresh_request ls x now v"
  shows "verdict x now ls False w v \<le> n \<longleftrightarrow>
    w \<le> n \<and> (\<forall>l \<in> set ls. \<not> fits l now v \<longrightarrow> log_wait l now (window_log l now (log_at l v)) \<le> n)"
  using assms
  by (induction ls arbitrary: w) (auto simp: Let_def fresh_request_def fits_def used_at_def)

lemma log_wait_pos: "1 \<le> log_wait l now z"
  by (simp add: log_wait_def)

lemma verdict_fresh_pos:
  assumes "fresh_request ls x now v"
  shows "0 < verdict x now ls False 0 v \<longleftrightarrow> (\<exists>l \<in> set ls. \<not> fits l now v)"
  using verdict_fresh_le [OF assms, of 0 0] log_wait_pos
  by (smt (verit, best) verdict_ge)

text \<open>The wait is the exact time until the limit has room again.\<close>

lemma log_wait_exact:
  assumes wf: "z_wf z" and win: "\<forall>e \<in> set z. now - window_ms l < fst e"
    and full: "limit_units l < log_cost z + cost l" and c: "cost l \<le> limit_units l" "0 < cost l"
  shows "log_cost (window_log l t z) + cost l \<le> limit_units l \<longleftrightarrow> now + log_wait l now z \<le> t"
proof -
  let ?need = "log_cost z + cost l - limit_units l"
  have ne: "z \<noteq> []" using full c by auto
  obtain f where "walk_entries ?need z 0 = (f, None) \<or> (\<exists>x. walk_entries ?need z 0 = (f, Some x))"
    by (metis not_None_eq surj_pair)
  then obtain x where w: "walk_entries ?need z 0 = (f, Some x)"
    using walk_entries_None [OF _ ne, of ?need 0] c(1) by fastforce
  obtain ys m zs where z: "z = ys @ (x, m) # zs" and lo: "log_cost ys < ?need"
    and hi: "?need \<le> log_cost (ys @ [(x, m)])"
    using walk_entries_Some [OF w] full by auto
  have s: "\<forall>e \<in> set ys. fst e \<le> x" "\<forall>e \<in> set zs. x \<le> fst e"
    using wf unfolding z by (auto simp: z_wf_def sorted_append less_eq_prod_def)
  have lw: "log_wait l now z = x + window_ms l - now"
    using w win z by (auto simp: log_wait_def)
  have split: "log_cost z = log_cost (z_upto (t - window_ms l) z) + log_cost (window_log l t z)"
    unfolding window_log_def by (rule log_cost_split)
  show ?thesis
  proof (cases "x + window_ms l \<le> t")
    case True
    have "z_upto (t - window_ms l) z = (ys @ [(x, m)]) @ z_upto (t - window_ms l) zs"
      using True s(1) unfolding z z_upto_def by (auto intro!: filter_True)
    then have "log_cost (ys @ [(x, m)]) \<le> log_cost (z_upto (t - window_ms l) z)"
      using log_cost_nonneg [of "z_upto (t - window_ms l) zs"] by (simp add: log_cost_def)
    with True hi split lw show ?thesis by simp
  next
    case False
    have "z_upto (t - window_ms l) z = z_upto (t - window_ms l) ys"
      using False s(2) unfolding z z_upto_def by (auto intro!: filter_False)
    moreover have "log_cost (z_upto (t - window_ms l) ys) \<le> log_cost ys"
      using log_cost_split [of ys "t - window_ms l"] log_cost_nonneg [of "z_after (t - window_ms l) ys"]
      by linarith
    ultimately have "log_cost (z_upto (t - window_ms l) z) \<le> log_cost ys" by simp
    with False lo split lw show ?thesis by simp
  qed
qed

lemma fits_later: "fits l now v \<Longrightarrow> now \<le> t \<Longrightarrow> fits l t v"
  using log_cost_window_mono [of now t l "log_at l v"] by (fastforce simp: fits_def used_at_def)

lemma verdict_exact:
  assumes wf: "\<forall>l \<in> set ls. z_wf (log_at l v)" and fresh: "fresh_request ls x now v"
    and c: "\<forall>l \<in> set ls. cost l \<le> limit_units l" and t: "now \<le> t"
  shows "(\<forall>l \<in> set ls. fits l t v) \<longleftrightarrow> now + verdict x now ls False 0 v \<le> t"
proof -
  have one: "fits l t v \<longleftrightarrow> now + log_wait l now (window_log l now (log_at l v)) \<le> t"
    if "l \<in> set ls" "\<not> fits l now v" for l
    using log_wait_exact [of "window_log l now (log_at l v)" now l t] wf c that t
    by (auto simp: fits_def used_at_def window_window) (auto simp: window_log_def)
  show ?thesis
    using verdict_fresh_le [OF fresh, of 0 "t - now"] one fits_later t
    by (smt (verit, best))
qed

subsection \<open>Any number of clients: the step relation\<close>

text \<open>
  All clients of one limiter use its limits \<open>cfg\<close> (whose cost field plays no role), each request
  with its own costs. With server time, a request is fresh (its identifier is in no window), or it
  is the resend of a request that is still recorded in every window it is charged to.
\<close>

definition charges :: "rate_charge list \<Rightarrow> int list \<Rightarrow> rate_charge list" where
  "charges cfg costs = map2 (\<lambda>l c. l\<lparr>cost := c\<rparr>) cfg costs"

datatype rate_event =
    RvAcquire "int list" resp
  | RvResend resp
  | RvStatus resp
  | RvEnv

inductive rate_step ::
  "'s redis_api \<Rightarrow> ('s \<Rightarrow> rview) \<Rightarrow> rate_charge list \<Rightarrow> 's \<Rightarrow> rate_event \<Rightarrow> 's \<Rightarrow> bool"
  for R view cfg
where
  rate_step_acquire: "length costs = length cfg \<Longrightarrow> list_all (\<lambda>c. 0 \<le> c) costs \<Longrightarrow>
    fresh_request (charges cfg costs) x (clock_ms (view s)) (view s) \<Longrightarrow>
    rate_acquire_script R (charges cfg costs) x None s = (Some r, s') \<Longrightarrow>
    rate_step R view cfg s (RvAcquire costs r) s'"
| rate_step_resend: "length costs = length cfg \<Longrightarrow>
    list_all (\<lambda>l. 0 < cost l \<longrightarrow> recorded_at l x (window_log l (clock_ms (view s)) (log_at l (view s))))
      (charges cfg costs) \<Longrightarrow>
    rate_acquire_script R (charges cfg costs) x None s = (Some r, s') \<Longrightarrow>
    rate_step R view cfg s (RvResend r) s'"
| rate_step_status: "rate_status_script R (map (rate_keys.truncate) cfg) None s = (Some r, s') \<Longrightarrow>
    rate_step R view cfg s (RvStatus r) s'"
| rate_step_env: "env_step (limit_keys cfg) (view s) (view s') \<Longrightarrow>
    rate_step R view cfg s RvEnv s'"

inductive rate_run ::
  "'s redis_api \<Rightarrow> ('s \<Rightarrow> rview) \<Rightarrow> rate_charge list \<Rightarrow> 's \<Rightarrow> rate_event list \<Rightarrow> 's \<Rightarrow> bool"
  for R view cfg
where
  rate_run_Nil: "rate_run R view cfg s [] s"
| rate_run_snoc: "rate_run R view cfg s tr s' \<Longrightarrow> rate_step R view cfg s' e s'' \<Longrightarrow>
    rate_run R view cfg s (tr @ [e]) s''"

text \<open>The admissions of a run, with their time and costs, and the units of limit \<open>i\<close> after \<open>c\<close>.\<close>

fun admission :: "rate_event \<Rightarrow> (ms \<times> int list) option" where
  "admission (RvAcquire costs (RArr (RInt ok # RInt w # RInt now # used))) =
     (if ok = 1 then Some (now, costs) else None)"
| "admission _ = None"

definition admitted_units :: "nat \<Rightarrow> ms \<Rightarrow> rate_event list \<Rightarrow> int" where
  "admitted_units i c tr =
     sum_list (map (\<lambda>e. case admission e of None \<Rightarrow> 0
        | Some (now, costs) \<Rightarrow> if c < now then costs ! i else 0) tr)"

lemma admitted_units_simps [simp]:
  "admitted_units i c [] = 0"
  "admitted_units i c (tr @ tr') = admitted_units i c tr + admitted_units i c tr'"
  by (simp_all add: admitted_units_def)

lemma admitted_event:
  "admission e = None \<Longrightarrow> admitted_units i c [e] = 0"
  "admission e = Some (now, costs) \<Longrightarrow> admitted_units i c [e] = (if c < now then costs ! i else 0)"
  by (simp_all add: admitted_units_def)

text \<open>
  What every step keeps: from now on, each log accounts for the units admitted in its window, and
  these are within the limit.
\<close>

definition accounted :: "nat \<Rightarrow> rate_charge \<Rightarrow> rate_event list \<Rightarrow> rview \<Rightarrow> bool" where
  "accounted i l tr v \<longleftrightarrow> timely l v \<and>
     (\<forall>t \<ge> clock_ms v. log_cost (window_log l t (log_at l v)) = admitted_units i (t - window_ms l) tr) \<and>
     used_at l (clock_ms v) v \<le> limit_units l"

definition rate_inv :: "rate_charge list \<Rightarrow> rate_event list \<Rightarrow> rview \<Rightarrow> bool" where
  "rate_inv cfg tr v \<longleftrightarrow> rate_ok cfg v \<and> (\<forall>i < length cfg. accounted i (cfg ! i) tr v)"

lemma charges_nth:
  "length costs = length cfg \<Longrightarrow> i < length cfg \<Longrightarrow> charges cfg costs ! i = (cfg ! i)\<lparr>cost := costs ! i\<rparr>"
  by (simp add: charges_def)

lemma length_charges [simp]: "length costs = length cfg \<Longrightarrow> length (charges cfg costs) = length cfg"
  by (simp add: charges_def)

lemma cost_update_keys [simp]:
  "log_at (l\<lparr>cost := c\<rparr>) v = log_at l v" "window_log (l\<lparr>cost := c\<rparr>) = window_log l"
  "rate_wf (l\<lparr>cost := c\<rparr>) v = rate_wf l v" "timely (l\<lparr>cost := c\<rparr>) v = timely l v"
  "used_at (l\<lparr>cost := c\<rparr>) now v = used_at l now v" "settled (l\<lparr>cost := c\<rparr>) v = settled l v"
  by (simp_all add: log_at_def window_log_def rate_wf_def timely_def used_at_def settled_def fun_eq_iff cong: option.case_cong)

lemma truncate_keys [simp]:
  "log_key (rate_keys.truncate l) = log_key l" "total_key (rate_keys.truncate l) = total_key l"
  "window_ms (rate_keys.truncate l) = window_ms l"
  by (simp_all add: rate_keys.truncate_def)

lemma truncate_keys_views [simp]:
  "log_at (rate_keys.truncate l) v = log_at l v" "window_log (rate_keys.truncate l) = window_log l"
  "rate_wf (rate_keys.truncate l) v = rate_wf l v" "timely (rate_keys.truncate l) v = timely l v"
  "settled (rate_keys.truncate l) v = settled l v" "used_at (rate_keys.truncate l) t v = used_at l t v"
  by (simp_all add: log_at_def window_log_def rate_wf_def timely_def settled_def used_at_def fun_eq_iff
      cong: option.case_cong)

lemma limit_keys_charges [simp]:
  "length costs = length cfg \<Longrightarrow> limit_keys (charges cfg costs) = limit_keys cfg"
  by (induction cfg costs rule: list_induct2') (simp_all add: charges_def)

lemma limit_keys_truncate [simp]: "limit_keys (map rate_keys.truncate cfg) = limit_keys cfg"
  by (induction cfg) simp_all

lemma rate_ok_charges [simp]:
  assumes "length costs = length cfg"
  shows "rate_ok (charges cfg costs) v = rate_ok cfg v"
  using assms by (auto simp: rate_ok_def list_all_length charges_nth)

lemma rate_ok_truncate [simp]: "rate_ok (map rate_keys.truncate cfg) v = rate_ok cfg v"
  by (simp add: rate_ok_def list_all_iff)

text \<open>A step without an admission, on one limit.\<close>

lemma accounted_window:
  assumes a: "accounted i l tr v" and z: "log_at l v' = window_log l (clock_ms v) (log_at l v)"
    and c: "clock_ms v' = clock_ms v" and t: "timely l v'" and e: "admission e = None"
  shows "accounted i l (tr @ [e]) v'"
  using assms by (auto simp: accounted_def used_at_def window_window admitted_event)

lemma accounted_charge:
  assumes a: "accounted i l tr v" and wf: "z_wf (log_at l v)"
    and z: "log_at l v' = charged x (clock_ms v) (l\<lparr>cost := k\<rparr>) (window_log l (clock_ms v) (log_at l v))"
    and fresh: "\<not> recorded_at (l\<lparr>cost := k\<rparr>) x (window_log l (clock_ms v) (log_at l v))"
    and fits: "fits (l\<lparr>cost := k\<rparr>) (clock_ms v) v" and k: "0 \<le> k"
    and c: "clock_ms v' = clock_ms v" and t: "timely l v'"
    and e: "admission e = Some (clock_ms v, costs)" "costs ! i = k"
  shows "accounted i l (tr @ [e]) v'"
proof -
  have cost: "log_cost (window_log l u (log_at l v')) =
      log_cost (window_log l u (log_at l v)) + (if u - window_ms l < clock_ms v then k else 0)"
    if "clock_ms v \<le> u" for u
    using log_cost_charged [of "window_log l (clock_ms v) (log_at l v)" "l\<lparr>cost := k\<rparr>" x u
        "clock_ms v"] wf fresh k that
    by (simp add: z window_window)
  have lim: "log_cost (window_log l (clock_ms v) (log_at l v)) + k \<le> limit_units l"
    using a fits k by (cases "k = 0") (auto simp: fits_def accounted_def used_at_def)
  have "used_at l (clock_ms v') v' \<le> limit_units l"
    using cost [of "clock_ms v"] lim k c by (simp add: used_at_def split: if_splits)
  with a cost c t e show ?thesis
    by (simp add: accounted_def admitted_event)
qed

lemma accounted_env:
  assumes a: "accounted i l tr v" and c: "clock_ms v \<le> clock_ms v'"
    and k: "same_key (log_key l) v v' \<or> gone_key (log_key l) v v'" and e: "admission e = None"
  shows "accounted i l (tr @ [e]) v'"
proof -
  have u: "admitted_units i n (tr @ [e]) = admitted_units i n tr" for n
    using e by (simp add: admitted_event)
  show ?thesis
  proof (cases "same_key (log_key l) v v'")
    case True
    then have z: "log_at l v' = log_at l v" and d: "ttls v' (log_key l) = ttls v (log_key l)"
      by (simp_all add: same_key_def log_at_def)
    have "timely l v'"
      using a c unfolding accounted_def timely_def z d by (auto simp: list_all_iff)
    moreover have "used_at l (clock_ms v') v' \<le> limit_units l"
      using a log_cost_window_mono [OF c, of l "log_at l v"] z by (auto simp: accounted_def used_at_def)
    ultimately show ?thesis using a c z u by (simp add: accounted_def)
  next
    case False
    with k obtain d where d: "ttls v (log_key l) = Some d" "d \<le> clock_ms v'" and g: "log_at l v' = []"
      "ttls v' (log_key l) = None"
      by (auto simp: gone_key_def log_at_def split: option.splits)
    have old: "log_cost (window_log l t (log_at l v)) = 0" if "clock_ms v' \<le> t" for t
    proof -
      have "window_log l t (log_at l v) = []"
        using a d that unfolding accounted_def timely_def window_log_def z_after_def
        by (auto simp: list_all_iff filter_empty_conv)
      then show ?thesis by simp
    qed
    have "0 \<le> limit_units l"
      using a log_cost_nonneg [of "window_log l (clock_ms v) (log_at l v)"]
      unfolding accounted_def used_at_def by linarith
    moreover have "window_log l t [] = []" for t by (simp add: window_log_def z_after_def)
    ultimately show ?thesis
      using a c u old g unfolding accounted_def timely_def used_at_def by auto
  qed
qed

text \<open>Every step keeps the invariant.\<close>

lemma rate_ok_after:
  assumes "rate_ok ls v" and "\<forall>l \<in> set ls. becomes l now (g l) v v'"
  shows "rate_ok ls v'"
  using assms by (auto simp: rate_ok_def list_all_iff becomes_def settled_rate_wf)

lemma rate_ok_env:
  assumes "rate_ok ls v" and "env_step (limit_keys ls) v v'"
  shows "rate_ok ls v'"
proof -
  have "rate_wf l v'" if "l \<in> set ls" for l
  proof -
    have k: "same_key (log_key l) v v' \<or> gone_key (log_key l) v v'"
      "same_key (total_key l) v v' \<or> gone_key (total_key l) v v'" and w: "rate_wf l v"
      using assms limit_keys_mem [OF that] that by (auto simp: env_step_def list_all_iff rate_ok_def)
    have "log_at l v' = log_at l v \<or> log_at l v' = []"
      "strs v' (total_key l) = strs v (total_key l) \<or> strs v' (total_key l) = None"
      using k by (auto simp: same_key_def gone_key_def log_at_def)
    with w show ?thesis by (auto simp: rate_wf_def cong: option.case_cong)
  qed
  with assms(1) show ?thesis by (simp add: rate_ok_def list_all_iff)
qed

lemma nth_charges_mem:
  "length costs = length cfg \<Longrightarrow> i < length cfg \<Longrightarrow> (cfg ! i)\<lparr>cost := costs ! i\<rparr> \<in> set (charges cfg costs)"
  using charges_nth nth_mem length_charges by metis

lemma window_recorded_id:
  "(0 < cost l \<longrightarrow> recorded_at l x z) \<Longrightarrow> charged x now l z = z"
  by (auto simp: charged_def)

context redis
begin

lemma rate_acquire_outcome:
  assumes "rate_ok ls (view s)" and "now = script_now na (view s)"
    and "w = verdict x now ls False 0 (view s)"
  shows "\<exists>s'. rate_acquire_script R ls x na s =
      (Some (RArr ([RInt (if 0 < w then 0 else 1), RInt w, RInt now] @
         map (\<lambda>l. RInt (log_cost (log_at l (view s')))) ls)), s') \<and>
    only (limit_keys ls) (view s) (view s') \<and> rate_ok ls (view s') \<and>
    (\<forall>l \<in> set ls. log_at l (view s') =
       (if 0 < w then window_log l now (log_at l (view s))
        else charged x now l (window_log l now (log_at l (view s)))))"
proof -
  define g where
    "g = (\<lambda>l z. if 0 < w then window_log l now z else charged x now l (window_log l now z))"
  from rate_acquire_on_view [OF assms] obtain s' where
    s': "rate_acquire_script R ls x na s =
      (Some (RArr ([RInt (if 0 < w then 0 else 1), RInt w, RInt now] @
         map (\<lambda>l. RInt (log_cost (g l (log_at l (view s))))) ls)), s')"
      "only (limit_keys ls) (view s) (view s')" "\<forall>l \<in> set ls. becomes l now (g l) (view s) (view s')"
    unfolding g_def by blast
  from s'(3) have z: "\<forall>l \<in> set ls. log_at l (view s') = g l (log_at l (view s))"
    by (simp add: becomes_def)
  then have "map (\<lambda>l. RInt (log_cost (g l (log_at l (view s))))) ls =
      map (\<lambda>l. RInt (log_cost (log_at l (view s')))) ls" by simp
  with s' z rate_ok_after [OF assms(1) s'(3)] show ?thesis
    by (intro exI [of _ s']) (simp add: g_def)
qed

lemma step_acquire_inv:
  assumes inv: "rate_inv cfg tr (view s)" and len: "length costs = length cfg"
    and pos: "list_all (\<lambda>c. 0 \<le> c) costs"
    and fresh: "fresh_request (charges cfg costs) x (clock_ms (view s)) (view s)"
    and run: "rate_acquire_script R (charges cfg costs) x None s = (Some r, s')"
  shows "rate_inv cfg (tr @ [RvAcquire costs r]) (view s')"
proof -
  let ?ls = "charges cfg costs" and ?now = "clock_ms (view s)"
  define w where "w = verdict x ?now ?ls False 0 (view s)"
  define g where "g = (\<lambda>l z. if 0 < w then window_log l ?now z else charged x ?now l (window_log l ?now z))"
  have ok: "rate_ok ?ls (view s)" using inv len by (simp add: rate_inv_def)
  obtain s1 used where s1: "rate_acquire_script R ?ls x None s =
      (Some (RArr ([RInt (if 0 < w then 0 else 1), RInt w, RInt ?now] @ used)), s1)"
    and o: "only (limit_keys ?ls) (view s) (view s1)"
    and b: "\<forall>l \<in> set ?ls. becomes l ?now (g l) (view s) (view s1)"
    using rate_acquire_on_view [OF ok _ w_def, where na = None]
    unfolding g_def by (auto simp: script_now_def)
  have r: "r = RArr ([RInt (if 0 < w then 0 else 1), RInt w, RInt ?now] @ used)" "s' = s1"
    using run s1 by auto
  have c: "clock_ms (view s') = ?now" using o r(2) by (simp add: only_def)
  have ok': "rate_ok cfg (view s')" using rate_ok_after [OF ok b] len r(2) by simp
  have "accounted i (cfg ! i) (tr @ [RvAcquire costs r]) (view s')" if i: "i < length cfg" for i
  proof -
    let ?l = "cfg ! i" and ?c = "(cfg ! i)\<lparr>cost := costs ! i\<rparr>"
    have a: "accounted i ?l tr (view s)" and wf: "z_wf (log_at ?l (view s))"
      using inv i by (auto simp: rate_inv_def rate_ok_def rate_wf_def list_all_length)
    have mem: "?c \<in> set ?ls" using nth_charges_mem [OF len i] .
    have bi: "log_at ?l (view s') = g ?c (log_at ?l (view s))" "timely ?l (view s')"
      using b [rule_format, OF mem] a r(2) by (auto simp: becomes_def accounted_def)
    show ?thesis
    proof (cases "0 < w")
      case True
      have "log_at ?l (view s') = window_log ?l ?now (log_at ?l (view s))"
        using bi(1) True by (simp add: g_def)
      moreover have "admission (RvAcquire costs r) = None" using r True by simp
      ultimately show ?thesis by (rule accounted_window [OF a _ c bi(2)])
    next
      case False
      have z: "log_at ?l (view s') = charged x ?now ?c (window_log ?l ?now (log_at ?l (view s)))"
        using bi(1) False by (simp add: g_def)
      have fr: "\<not> recorded_at ?c x (window_log ?l ?now (log_at ?l (view s)))"
        using fresh mem unfolding fresh_request_def list_all_iff by fastforce
      have ft: "fits ?c ?now (view s)"
        using verdict_fresh_pos [OF fresh] False mem by (auto simp: w_def)
      have k: "0 \<le> costs ! i" using pos i len by (simp add: list_all_length)
      have ad: "admission (RvAcquire costs r) = Some (?now, costs)" using r False by simp
      show ?thesis by (rule accounted_charge [OF a wf z fr ft k c bi(2) ad refl])
    qed
  qed
  with ok' show ?thesis by (simp add: rate_inv_def)
qed

lemma step_resend_inv:
  assumes inv: "rate_inv cfg tr (view s)" and len: "length costs = length cfg"
    and rec: "list_all (\<lambda>l. 0 < cost l \<longrightarrow>
      recorded_at l x (window_log l (clock_ms (view s)) (log_at l (view s)))) (charges cfg costs)"
    and run: "rate_acquire_script R (charges cfg costs) x None s = (Some r, s')"
  shows "rate_inv cfg (tr @ [RvResend r]) (view s')"
proof -
  let ?ls = "charges cfg costs" and ?now = "clock_ms (view s)"
  have ok: "rate_ok ?ls (view s)" using inv len by (simp add: rate_inv_def)
  have id: "charged x ?now l (window_log l ?now (log_at l (view s))) =
      window_log l ?now (log_at l (view s))" if "l \<in> set ?ls" for l
    using rec that by (intro window_recorded_id) (simp add: list_all_iff)
  have o: "only (limit_keys ?ls) (view s) (view s')" and b: "\<forall>l \<in> set ?ls. settled l (view s') \<and>
      log_at l (view s') = window_log l ?now (log_at l (view s)) \<and>
      (timely l (view s) \<longrightarrow> timely l (view s'))"
    using rate_acquire_on_view [OF ok refl refl, where na = None and x = x] run id
    by (auto simp: script_now_def becomes_def)
  have c: "clock_ms (view s') = ?now" using o by (simp add: only_def)
  have ok': "rate_ok ?ls (view s')"
    using ok b by (auto simp: rate_ok_def list_all_iff settled_rate_wf)
  have "accounted i (cfg ! i) (tr @ [RvResend r]) (view s')" if i: "i < length cfg" for i
  proof -
    have a: "accounted i (cfg ! i) tr (view s)" using inv i by (simp add: rate_inv_def)
    from b nth_charges_mem [OF len i] a
    show ?thesis by (intro accounted_window [OF a _ c]) (auto simp: accounted_def)
  qed
  with ok' len show ?thesis by (simp add: rate_inv_def)
qed

lemma step_status_inv:
  assumes inv: "rate_inv cfg tr (view s)"
    and run: "rate_status_script R (map rate_keys.truncate cfg) None s = (Some r, s')"
  shows "rate_inv cfg (tr @ [RvStatus r]) (view s')"
proof -
  let ?now = "clock_ms (view s)"
  have ok: "rate_ok (map rate_keys.truncate cfg) (view s)" using inv by (simp add: rate_inv_def)
  have o: "only (limit_keys cfg) (view s) (view s')" and b: "\<forall>l \<in> set cfg. settled l (view s') \<and>
      log_at l (view s') = window_log l ?now (log_at l (view s)) \<and>
      (timely l (view s) \<longrightarrow> timely l (view s'))"
    using rate_status_on_view [OF ok refl, where na = None] run
    by (auto simp: script_now_def becomes_def)
  have c: "clock_ms (view s') = ?now" using o by (simp add: only_def)
  have "rate_ok cfg (view s')"
    using inv b by (auto simp: rate_inv_def rate_ok_def list_all_iff settled_rate_wf)
  moreover have "accounted i (cfg ! i) (tr @ [RvStatus r]) (view s')" if i: "i < length cfg" for i
  proof -
    have a: "accounted i (cfg ! i) tr (view s)" using inv i by (simp add: rate_inv_def)
    from b i a show ?thesis by (intro accounted_window [OF a _ c]) (auto simp: accounted_def)
  qed
  ultimately show ?thesis by (simp add: rate_inv_def)
qed

lemma step_env_inv:
  assumes inv: "rate_inv cfg tr (view s)" and env: "env_step (limit_keys cfg) (view s) v'"
  shows "rate_inv cfg (tr @ [RvEnv]) v'"
proof -
  have "accounted i (cfg ! i) (tr @ [RvEnv]) v'" if i: "i < length cfg" for i
    using inv env i limit_keys_mem [OF nth_mem [OF i]]
    by (intro accounted_env [of _ _ tr "view s"])
      (auto simp: rate_inv_def env_step_def list_all_iff)
  with inv rate_ok_env [OF _ env] show ?thesis by (simp add: rate_inv_def)
qed

lemma rate_run_inv:
  assumes "rate_run R view cfg s0 tr s" and "rate_inv cfg [] (view s0)"
  shows "rate_inv cfg tr (view s)"
  using assms
proof (induction rule: rate_run.induct)
  case (rate_run_snoc s tr s' e s'')
  then have inv: "rate_inv cfg tr (view s')" by simp
  from rate_run_snoc.hyps(2) show ?case
    by (cases rule: rate_step.cases)
      (auto intro: step_acquire_inv [OF inv] step_resend_inv [OF inv] step_status_inv [OF inv]
        step_env_inv [OF inv])
qed

end

end
