(* ===== verification/RateProps.thy ===== *)
theory RateProps
  imports RateRuns
begin

section \<open>Properties of the rate limiter's scripts\<close>

text \<open>
  What the clients of one rate limiter can rely on, over every store with the interface \<open>redis\<close>:
  the scripts follow the specification of \<open>RateSystem\<close>, no window is ever charged beyond its
  limit, the retry time is exact, resent requests are not charged twice, adjustments settle.
\<close>

text \<open>Two limits for the witnesses: two requests per second, a hundred tokens per two seconds.\<close>

definition demo_limits :: "rate_charge list" where
  "demo_limits =
     [\<lparr>log_key = ''ratelimit:{llm}:requests:log'', total_key = ''ratelimit:{llm}:requests:total'',
       window_ms = 1000, limit_units = 2, cost = 1\<rparr>,
      \<lparr>log_key = ''ratelimit:{llm}:tokens:log'', total_key = ''ratelimit:{llm}:tokens:total'',
       window_ms = 2000, limit_units = 100, cost = 60\<rparr>]"

definition demo_first :: "resp option \<times> rview" where
  "demo_first = rate_acquire_script doc_redis demo_limits ''A'' None (empty_view 5000)"

definition demo_first_view :: rview where
  "demo_first_view = snd demo_first"

definition demo_denied :: "resp option \<times> rview" where
  "demo_denied = rate_acquire_script doc_redis demo_limits ''B'' None demo_first_view"

lemma demo_first_reply: "fst demo_first = Some (RArr [RInt 1, RInt 0, RInt 5000, RInt 1, RInt 60])"
  by code_simp

lemma demo_denied_reply: "fst demo_denied = Some (RArr [RInt 0, RInt 2000, RInt 5000, RInt 1, RInt 60])"
  by code_simp

text \<open>A run: A is admitted, B denied; after 1.5 s a smaller request of B is admitted.\<close>

definition demo_waited :: rview where
  "demo_waited = doc_tick (limit_keys demo_limits) 1500 (snd demo_denied)"

definition demo_second :: "resp option \<times> rview" where
  "demo_second = rate_acquire_script doc_redis (charges demo_limits [1, 40]) ''B'' None demo_waited"

definition demo_trace :: "rate_event list" where
  "demo_trace = [RvAcquire [1, 60] (the (fst demo_first)), RvAcquire [1, 60] (the (fst demo_denied)),
     RvEnv, RvAcquire [1, 40] (the (fst demo_second))]"

lemma demo_second_reply: "fst demo_second = Some (RArr [RInt 1, RInt 0, RInt 6500, RInt 1, RInt 100])"
  by code_simp

lemma demo_charges: "charges demo_limits [1, 60] = demo_limits"
  by code_simp

lemma demo_rate_run: "rate_run doc_redis (\<lambda>v. v) demo_limits (empty_view 5000) demo_trace (snd demo_second)"
proof -
  let ?step = "rate_step doc_redis (\<lambda>v. v) demo_limits"
  have f: "fresh_request demo_limits ''A'' (clock_ms (empty_view 5000)) (empty_view 5000)"
    "fresh_request demo_limits ''B'' (clock_ms demo_first_view) demo_first_view"
    "fresh_request (charges demo_limits [1, 40]) ''B'' (clock_ms demo_waited) demo_waited"
    by code_simp+
  have l: "length demo_limits = 2" by (simp add: demo_limits_def)
  have r: "p = (Some (the (fst p)), snd p)" if "fst p = Some x" for p :: "resp option \<times> rview" and x
    using that by (cases p) simp
  have s1: "?step (empty_view 5000) (RvAcquire [1, 60] (the (fst demo_first))) demo_first_view"
    using r [OF demo_first_reply] f(1) l
    by (intro rate_step_acquire [where x = "''A''"])
      (simp_all add: demo_first_def demo_first_view_def demo_charges)
  have s2: "?step demo_first_view (RvAcquire [1, 60] (the (fst demo_denied))) (snd demo_denied)"
    using r [OF demo_denied_reply] f(2) l
    by (intro rate_step_acquire [where x = "''B''"]) (simp_all add: demo_denied_def demo_charges)
  have s3: "?step (snd demo_denied) RvEnv demo_waited"
    unfolding demo_waited_def by (intro rate_step_env env_step_doc_tick) simp
  have s4: "?step demo_waited (RvAcquire [1, 40] (the (fst demo_second))) (snd demo_second)"
    using r [OF demo_second_reply] f(3) l
    by (intro rate_step_acquire [where x = "''B''"]) (simp_all add: demo_second_def)
  from rate_run_snoc [OF rate_run_snoc [OF rate_run_snoc [OF rate_run_snoc [OF rate_run_Nil s1] s2] s3] s4]
  show ?thesis by (simp add: demo_trace_def)
qed

lemma rate_inv_unused:
  assumes "distinct (limit_keys cfg)"
    and "list_all (\<lambda>l. 0 < window_ms l \<and> 0 \<le> limit_units l \<and> log_at l v = []) cfg"
  shows "rate_inv cfg [] v"
proof -
  have "log_key l \<noteq> total_key l" if "l \<in> set cfg" for l
    using assms(1) that by (induction cfg) auto
  then have "rate_ok cfg v"
    using assms by (auto simp: rate_ok_def rate_wf_def list_all_iff)
  moreover have "accounted i (cfg ! i) [] v" if "i < length cfg" for i
    using assms(2) that
    by (auto simp: accounted_def timely_def used_at_def window_log_def z_after_def list_all_length
        split: option.split)
  ultimately show ?thesis by (simp add: rate_inv_def)
qed

text \<open>C7: in a run of any number of clients with server time, of fresh requests, of resends while the
  request is still recorded in every limit it is charged to, of status calls and of passing time with the
  expiry of keys, in any order, at every moment the units admitted within the last window of a limit are at
  most that limit: the sliding window is exact. Adjustments, which settle a cost after the fact, and resends
  that come later than that are not in these runs.\<close>

theorem rate_window_never_exceeded:
  assumes "redis R view" and "distinct (limit_keys cfg)"
    and "list_all (\<lambda>l. 0 < window_ms l \<and> 0 \<le> limit_units l \<and> log_at l (view s0) = []) cfg"
    and "rate_run R view cfg s0 tr s" and "i < length cfg"
  shows "admitted_units i (clock_ms (view s) - window_ms (cfg ! i)) tr \<le> limit_units (cfg ! i)"
proof -
  have "rate_inv cfg tr (view s)"
    using redis.rate_run_inv [OF assms(1,4)] rate_inv_unused [OF assms(2,3)] by simp
  with assms(5) have "accounted i (cfg ! i) tr (view s)" by (simp add: rate_inv_def)
  then show ?thesis unfolding accounted_def used_at_def by (metis order_refl)
qed

theorem rate_window_never_exceeded_witness:
  "admitted_units 1 (6500 - 2000) demo_trace \<le> 100 \<and> admitted_units 1 (6500 - 2000) demo_trace = 100"
proof
  have c: "clock_ms (snd demo_second) = 6500" by code_simp
  have k: "distinct (limit_keys demo_limits)"
    "list_all (\<lambda>l. 0 < window_ms l \<and> 0 \<le> limit_units l \<and> log_at l (empty_view 5000) = []) demo_limits"
    by code_simp+
  have d: "1 < length demo_limits" "window_ms (demo_limits ! 1) = 2000" "limit_units (demo_limits ! 1) = 100"
    by (simp_all add: demo_limits_def)
  show "admitted_units 1 (6500 - 2000) demo_trace \<le> 100"
    using rate_window_never_exceeded [OF doc.redis_axioms k demo_rate_run d(1)]
    unfolding c d .
  show "admitted_units 1 (6500 - 2000) demo_trace = 100"
    by (simp add: admitted_units_def demo_trace_def demo_first_reply demo_denied_reply demo_second_reply)
qed

text \<open>C16: RATE_ACQUIRE evicts, decides, records and replies as the specification says, on any
  number of limits with separate keys, whether or not their running totals have expired; it always
  replies, and it touches no other key.\<close>

theorem rate_acquire_refines:
  assumes "redis R view" and "rate_ok ls (view s)" and "now = script_now na (view s)"
    and "w = verdict x now ls False 0 (view s)"
  shows "\<exists>s'. rate_acquire_script R ls x na s =
      (Some (RArr ([RInt (if 0 < w then 0 else 1), RInt w, RInt now] @
         map (\<lambda>l. RInt (log_cost (log_at l (view s')))) ls)), s') \<and>
    only (limit_keys ls) (view s) (view s') \<and> rate_ok ls (view s') \<and>
    (\<forall>l \<in> set ls. log_at l (view s') =
       (if 0 < w then window_log l now (log_at l (view s))
        else charged x now l (window_log l now (log_at l (view s)))))"
  by (rule redis.rate_acquire_outcome [OF assms])

theorem rate_acquire_refines_witness:
  "(\<exists>s'. rate_acquire_script doc_redis demo_limits ''B'' None demo_first_view =
      (Some (RArr ([RInt 0, RInt 2000, RInt 5000] @
         map (\<lambda>l. RInt (log_cost (log_at l s'))) demo_limits)), s')) \<and>
   verdict ''B'' 5000 demo_limits False 0 demo_first_view = 2000"
proof
  have ok: "rate_ok demo_limits demo_first_view" by code_simp
  have now: "5000 = script_now None demo_first_view" by code_simp
  show w: "verdict ''B'' 5000 demo_limits False 0 demo_first_view = 2000" by code_simp
  show "\<exists>s'. rate_acquire_script doc_redis demo_limits ''B'' None demo_first_view =
      (Some (RArr ([RInt 0, RInt 2000, RInt 5000] @
         map (\<lambda>l. RInt (log_cost (log_at l s'))) demo_limits)), s')"
    using rate_acquire_refines [OF doc.redis_axioms ok now w [symmetric]] by auto
qed

text \<open>C9: when RATE_ACQUIRE denies a fresh request whose costs are within the limits, the time it
  replies is exact: the request fits all limits at a later moment, as long as nothing else is
  admitted, if and only if that much time has passed.\<close>

theorem retry_after_exact:
  assumes "redis R view" and "rate_ok ls (view s)" and "now = script_now na (view s)"
    and "fresh_request ls x now (view s)" and "list_all (\<lambda>l. cost l \<le> limit_units l) ls"
    and "rate_acquire_script R ls x na s = (Some (RArr (RInt 0 # RInt w # rest)), s')"
    and "now \<le> t"
  shows "0 < w \<and> (list_all (\<lambda>l. fits l t (view s')) ls \<longleftrightarrow> now + w \<le> t)"
proof -
  let ?w = "verdict x now ls False 0 (view s)"
  obtain u where u: "rate_acquire_script R ls x na s =
      (Some (RArr ([RInt (if 0 < ?w then 0 else 1), RInt ?w, RInt now] @
         map (\<lambda>l. RInt (log_cost (log_at l (view u)))) ls)), u)"
    "\<forall>l \<in> set ls. log_at l (view u) =
       (if 0 < ?w then window_log l now (log_at l (view s))
        else charged x now l (window_log l now (log_at l (view s))))"
    using redis.rate_acquire_outcome [OF assms(1-3) refl, of x] by blast
  with assms(6) have w: "w = ?w" "0 < w" and z: "\<forall>l \<in> set ls. log_at l (view s') =
      window_log l now (log_at l (view s))"
    by (auto split: if_splits)
  have "fits l t (view s') = fits l t (view s)" if "l \<in> set ls" for l
    using z that assms(7) by (simp add: fits_def used_at_def window_window)
  moreover have "\<forall>l \<in> set ls. z_wf (log_at l (view s))" "\<forall>l \<in> set ls. cost l \<le> limit_units l"
    using assms(2,5) by (auto simp: rate_ok_def rate_wf_def list_all_iff)
  ultimately show ?thesis
    using verdict_exact [OF _ assms(4) _ assms(7)] w by (simp add: list_all_iff)
qed

theorem retry_after_exact_witness:
  "\<not> list_all (\<lambda>l. fits l 6999 (snd demo_denied)) demo_limits \<and>
   list_all (\<lambda>l. fits l 7000 (snd demo_denied)) demo_limits"
proof -
  have ok: "rate_ok demo_limits demo_first_view" by code_simp
  have now: "5000 = script_now None demo_first_view" by code_simp
  have fr: "fresh_request demo_limits ''B'' 5000 demo_first_view" by code_simp
  have le: "list_all (\<lambda>l. cost l \<le> limit_units l) demo_limits" by code_simp
  have run: "rate_acquire_script doc_redis demo_limits ''B'' None demo_first_view =
      (Some (RArr (RInt 0 # RInt 2000 # [RInt 5000, RInt 1, RInt 60])), snd demo_denied)"
    using demo_denied_reply by (cases demo_denied) (simp add: demo_denied_def)
  show ?thesis
    using retry_after_exact [OF doc.redis_axioms ok now fr le run, of 6999]
      retry_after_exact [OF doc.redis_axioms ok now fr le run, of 7000]
    by simp
qed

text \<open>A denied request is charged to no window: at every later moment each limit has the use
  it would have had without the request.\<close>

theorem denied_request_charges_nothing:
  assumes "redis R view" and "rate_ok ls (view s)" and "now = script_now na (view s)"
    and "rate_acquire_script R ls x na s = (Some (RArr (RInt 0 # rest)), s')"
    and "l \<in> set ls" and "now \<le> t"
  shows "used_at l t (view s') = used_at l t (view s)"
  using redis.rate_acquire_outcome [OF assms(1-3) refl, of x] assms(4-6)
  by (auto simp: used_at_def window_window split: if_splits)

theorem denied_request_charges_nothing_witness:
  "used_at (demo_limits ! 1) 5500 (snd demo_denied) = 60"
proof -
  have ok: "rate_ok demo_limits demo_first_view" by code_simp
  have now: "5000 = script_now None demo_first_view" by code_simp
  have run: "rate_acquire_script doc_redis demo_limits ''B'' None demo_first_view =
      (Some (RArr (RInt 0 # [RInt 2000, RInt 5000, RInt 1, RInt 60])), snd demo_denied)"
    using demo_denied_reply by (cases demo_denied) (simp add: demo_denied_def)
  have "used_at (demo_limits ! 1) 5500 demo_first_view = 60" by code_simp
  with denied_request_charges_nothing [OF doc.redis_axioms ok now run, of "demo_limits ! 1" 5500]
  show ?thesis by (simp add: demo_limits_def)
qed

text \<open>C18: a resent acquire (the client retried after losing the reply), while the request is still
  in every window it is charged to, is admitted again with a wait of 0, and changes no window.\<close>

theorem resend_admitted_and_not_charged_twice:
  assumes "redis R view" and "rate_ok ls (view s)" and "now = script_now na (view s)"
    and "list_all (\<lambda>l. 0 < cost l \<longrightarrow> recorded_at l x (window_log l now (log_at l (view s)))) ls"
  shows "\<exists>s'. rate_acquire_script R ls x na s =
      (Some (RArr ([RInt 1, RInt 0, RInt now] @ map (\<lambda>l. RInt (used_at l now (view s))) ls)), s') \<and>
    list_all (\<lambda>l. log_at l (view s') = window_log l now (log_at l (view s))) ls"
proof -
  have "verdict x now ls al 0 (view s) = 0" for al
    using assms(4)
  proof (induction ls arbitrary: al)
    case (Cons l ls)
    then show ?case by (cases "0 < cost l") (simp_all add: Let_def)
  qed simp
  with redis.rate_acquire_outcome [OF assms(1-3) refl, of x] obtain s' where s':
    "rate_acquire_script R ls x na s = (Some (RArr ([RInt 1, RInt 0, RInt now] @
         map (\<lambda>l. RInt (log_cost (log_at l (view s')))) ls)), s')"
    "\<forall>l \<in> set ls. log_at l (view s') = charged x now l (window_log l now (log_at l (view s)))"
    by auto
  have id: "log_at l (view s') = window_log l now (log_at l (view s))" if "l \<in> set ls" for l
    using s'(2) that assms(4) window_recorded_id by (simp add: list_all_iff)
  then have "map (\<lambda>l. RInt (log_cost (log_at l (view s')))) ls = map (\<lambda>l. RInt (used_at l now (view s))) ls"
    by (simp add: used_at_def)
  with s'(1) id show ?thesis by (auto simp: list_all_iff)
qed

theorem resend_admitted_and_not_charged_twice_witness:
  "\<exists>s'. rate_acquire_script doc_redis demo_limits ''A'' None demo_first_view =
      (Some (RArr [RInt 1, RInt 0, RInt 5000, RInt 1, RInt 60]), s')"
proof -
  have ok: "rate_ok demo_limits demo_first_view" by code_simp
  have now: "5000 = script_now None demo_first_view" by code_simp
  have rec: "list_all (\<lambda>l. 0 < cost l \<longrightarrow>
      recorded_at l ''A'' (window_log l 5000 (log_at l demo_first_view))) demo_limits" by code_simp
  have u: "map (\<lambda>l. RInt (used_at l 5000 demo_first_view)) demo_limits = [RInt 1, RInt 60]" by code_simp
  show ?thesis
    using resend_admitted_and_not_charged_twice [OF doc.redis_axioms ok now rec] unfolding u by auto
qed

end
