(* ===== verification/RateAdjust.thy ===== *)
theory RateAdjust
  imports RateProps
begin

section \<open>Properties of RATE_ADJUST, RATE_STATUS and the log's encoding\<close>

text \<open>
  The settlement of an admitted request's cost, also when the script is resent; the exactness of
  the reported use when the running total is lost; the members of the log and the chunked walk.
\<close>

lemma window_z_rem: "window_log l t (z_rem m z) = z_rem m (window_log l t z)"
  unfolding window_log_def z_after_def z_rem_def filter_filter by (rule filter_cong) auto

lemma log_cost_adjusted:
  assumes wf: "z_wf z" and old: "(adm, rate_member (old_cost l) x) \<in> set z" "0 < old_cost l"
    and new: "0 \<le> new_cost l"
      "old_cost l = new_cost l \<or> rate_member (new_cost l) x \<notin> snd ` set z"
    and win: "now - window_ms l < adm"
  shows "log_cost (window_log l t (adjusted x now adm l z)) =
    log_cost (window_log l t z) + (if t - window_ms l < adm then new_cost l - old_cost l else 0)"
proof -
  let ?m = "rate_member (old_cost l) x" and ?r = "z_rem (rate_member (old_cost l) x) z"
  have m: "?m \<in> snd ` set (window_log l t z) \<longleftrightarrow> t - window_ms l < adm"
  proof
    assume "?m \<in> snd ` set (window_log l t z)"
    then obtain y where "(y, ?m) \<in> set z" "t - window_ms l < y"
      by (auto simp: window_log_def)
    with z_wf_same_member [OF wf old(1)] show "t - window_ms l < adm" by blast
  next
    assume "t - window_ms l < adm"
    with old(1) have "(adm, ?m) \<in> set (window_log l t z)" by (simp add: window_log_def)
    then show "?m \<in> snd ` set (window_log l t z)" by force
  qed
  have r: "log_cost (window_log l t ?r) =
      log_cost (window_log l t z) - (if t - window_ms l < adm then old_cost l else 0)"
    using log_cost_rem [OF z_wf_window [OF wf, of l t], of ?m] m old(2) by (simp add: window_z_rem)
  show ?thesis
  proof (cases "0 < new_cost l")
    case True
    have nin: "rate_member (new_cost l) x \<notin> snd ` set ?r"
      using new(2) unfolding set_z_rem by fastforce
    have "log_cost (window_log l t (z_add adm (rate_member (new_cost l) x) ?r)) =
        log_cost (window_log l t ?r) + (if t - window_ms l < adm then new_cost l else 0)"
      using z_after_add [OF z_wf_rem [OF wf] nin] True by (simp add: window_log_def)
    with r True old(2) win show ?thesis by (simp add: adjusted_def)
  next
    case False
    with r new(1) old(2) show ?thesis by (simp add: adjusted_def)
  qed
qed

lemma z_wf_eq: "z_wf y \<Longrightarrow> z_wf z \<Longrightarrow> set y = set z \<Longrightarrow> y = z"
  by (rule sorted_distinct_set_unique) (auto simp: z_wf_def distinct_map)

lemma z_add_same: "z_wf z \<Longrightarrow> (x, m) \<in> set z \<Longrightarrow> z_add x m z = z"
  by (rule z_wf_eq) (auto dest: z_wf_same_member)

lemma z_add_rem_same: "z_wf z \<Longrightarrow> (x, m) \<in> set z \<Longrightarrow> z_add x m (z_rem m z) = z"
  by (rule z_wf_eq) (auto dest: z_wf_same_member)

lemma z_wf_adjusted [simp]: "z_wf z \<Longrightarrow> z_wf (adjusted x now adm l z)"
  by (simp add: adjusted_def Let_def)

text \<open>A second adjustment with the same arguments finds its work done.\<close>

lemma adjusted_again:
  assumes wf: "z_wf z" and c: "0 \<le> old_cost l" "0 \<le> new_cost l" and t: "now \<le> t"
  shows "adjusted x t adm l (window_log l t (adjusted x now adm l z)) =
    window_log l t (adjusted x now adm l z)"
proof -
  let ?old = "rate_member (old_cost l) x" and ?new = "rate_member (new_cost l) x"
  let ?a = "adjusted x now adm l z" and ?y = "window_log l t (adjusted x now adm l z)"
  have wy: "z_wf ?y" using wf by simp
  have in_y: "e \<in> set ?y \<longleftrightarrow> e \<in> set ?a \<and> t - window_ms l < fst e" for e
    by (auto simp: window_log_def)
  have put: "(adm, ?new) \<in> set ?y" if "0 < new_cost l" "t - window_ms l < adm"
    using that t unfolding in_y by (simp add: adjusted_def)
  have old: "(y, ?old) \<in> set ?y \<Longrightarrow> y = adm \<and> old_cost l = new_cost l \<and> t - window_ms l < adm" if "0 < old_cost l" for y
    using that c rate_member_inject [OF c(1,2)] unfolding in_y
    by (auto simp: adjusted_def Let_def split: if_splits)
  show ?thesis
  proof (cases "0 < old_cost l \<and> ?old \<in> snd ` set ?y")
    case True
    then obtain y where y: "(y, ?old) \<in> set ?y" by auto
    from old [OF _ y] True have "y = adm" "old_cost l = new_cost l" "t - window_ms l < adm" by auto
    with True y z_add_rem_same [OF wy] show ?thesis
      by (simp add: adjusted_def [of x t adm l ?y] Let_def)
  next
    case False
    then have r: "0 < old_cost l \<Longrightarrow> z_rem ?old ?y = ?y" by simp
    have "adjusted x t adm l ?y =
        (if 0 < new_cost l \<and> t - window_ms l < adm then z_add adm ?new ?y else ?y)"
      using r by (simp add: adjusted_def [of x t adm l ?y] Let_def)
    with put z_add_same [OF wy] show ?thesis by simp
  qed
qed

text \<open>C17: RATE_ADJUST settles the cost of a request: from now on each adjusted limit is charged the
  new cost instead of the old one for as long as the request is in the window.\<close>

theorem adjust_settles_the_cost:
  assumes "redis R view" and "rate_ok ls (view s)" and "now = script_now na (view s)"
    and "rate_adjust_script R ls x na adm s = (r, s')"
    and "l \<in> set ls" and "(adm, rate_member (old_cost l) x) \<in> set (log_at l (view s))"
    and "0 < old_cost l" and "0 \<le> new_cost l" and "now - window_ms l < adm"
    and "old_cost l = new_cost l \<or> rate_member (new_cost l) x \<notin> snd ` set (log_at l (view s))"
    and "now \<le> t"
  shows "r \<noteq> None \<and> used_at l t (view s') =
    used_at l t (view s) + (if t - window_ms l < adm then new_cost l - old_cost l else 0)"
proof -
  have wf: "z_wf (log_at l (view s))"
    using assms(2,5) by (auto simp: rate_ok_def rate_wf_def list_all_iff)
  have z: "log_at l (view s') = adjusted x now adm l (window_log l now (log_at l (view s)))"
    and r: "r \<noteq> None"
    using redis.rate_adjust_on_view [OF assms(1-3), of x adm] assms(4,5)
    by (auto simp: becomes_def)
  have "log_cost (window_log l t (log_at l (view s'))) =
      log_cost (window_log l t (window_log l now (log_at l (view s)))) +
      (if t - window_ms l < adm then new_cost l - old_cost l else 0)"
    unfolding z by (rule log_cost_adjusted) (use wf assms in \<open>auto simp: window_log_def\<close>)
  with r assms(11) show ?thesis by (simp add: used_at_def window_window)
qed

definition demo_change :: "rate_change list" where
  "demo_change =
     [\<lparr>log_key = ''ratelimit:{llm}:tokens:log'', total_key = ''ratelimit:{llm}:tokens:total'',
       window_ms = 2000, old_cost = 60, new_cost = 25\<rparr>]"

definition demo_adjusted :: "resp option \<times> rview" where
  "demo_adjusted = rate_adjust_script doc_redis demo_change ''A'' None 5000 demo_first_view"

lemma demo_adjusted_reply: "fst demo_adjusted = Some (RArr [RInt 25])"
  by code_simp

theorem adjust_settles_the_cost_witness:
  "used_at (demo_change ! 0) 6999 demo_first_view = 60 \<and>
   used_at (demo_change ! 0) 6999 (snd demo_adjusted) = 25"
proof -
  have ok: "rate_ok demo_change demo_first_view" by code_simp
  have now: "5000 = script_now None demo_first_view" by code_simp
  have run: "rate_adjust_script doc_redis demo_change ''A'' None 5000 demo_first_view =
      (fst demo_adjusted, snd demo_adjusted)"
    by (simp add: demo_adjusted_def)
  have m: "(5000, rate_member (old_cost (demo_change ! 0)) ''A'') \<in> set (log_at (demo_change ! 0) demo_first_view)"
    "rate_member (new_cost (demo_change ! 0)) ''A'' \<notin> snd ` set (log_at (demo_change ! 0) demo_first_view)"
    and u: "used_at (demo_change ! 0) 6999 demo_first_view = 60"
    by code_simp+
  have l: "demo_change ! 0 \<in> set demo_change" "0 < old_cost (demo_change ! 0)"
    "0 \<le> new_cost (demo_change ! 0)" "5000 - window_ms (demo_change ! 0) < 5000"
    "new_cost (demo_change ! 0) - old_cost (demo_change ! 0) = - 35" "window_ms (demo_change ! 0) = 2000"
    by (simp_all add: demo_change_def)
  from adjust_settles_the_cost [OF doc.redis_axioms ok now run l(1) m(1) l(2-4) disjI2 [OF m(2)], of 6999]
  show ?thesis using u l(5,6) by simp
qed

text \<open>RATE_ADJUST is safe to resend: run again later with the same arguments, on the keys as the
  first run left them or expired since, it leaves the logs as plain eviction would.\<close>

theorem adjust_retry_is_idempotent:
  assumes "redis R view" and "rate_ok ls (view s)" and "now = script_now na (view s)"
    and "list_all (\<lambda>l. 0 \<le> old_cost l \<and> 0 \<le> new_cost l) ls"
    and "rate_adjust_script R ls x na adm s = (r, s')"
    and "list_all (\<lambda>l. same_key (log_key l) (view s') (view u) \<and>
           (same_key (total_key l) (view s') (view u) \<or> gone_key (total_key l) (view s') (view u))) ls"
    and "later = script_now na' (view u)" and "now \<le> later"
    and "rate_adjust_script R ls x na' adm u = (r', u')"
  shows "r' = Some (RArr (map (\<lambda>l. RInt (used_at l later (view u))) ls)) \<and>
    list_all (\<lambda>l. log_at l (view u') = window_log l later (log_at l (view u))) ls"
proof -
  have z: "log_at l (view s') = adjusted x now adm l (window_log l now (log_at l (view s)))"
    and k: "settled l (view s')" if "l \<in> set ls" for l
    using redis.rate_adjust_on_view [OF assms(1-3), of x adm] assms(5) that by (auto simp: becomes_def)
  have zu: "log_at l (view u) = log_at l (view s')" if "l \<in> set ls" for l
    using assms(6) that by (auto simp: list_all_iff same_key_def log_at_def)
  have "rate_wf l (view u)" if "l \<in> set ls" for l
  proof -
    have "strs (view u) (total_key l) = strs (view s') (total_key l) \<or> strs (view u) (total_key l) = None"
      using assms(6) that by (auto simp: list_all_iff same_key_def gone_key_def)
    with settled_rate_wf [OF k [OF that]] zu [OF that] show ?thesis
      by (auto simp: rate_wf_def cong: option.case_cong)
  qed
  then have ok: "rate_ok ls (view u)" using assms(2) by (simp add: rate_ok_def list_all_iff)
  have same: "adjusted x later adm l (window_log l later (log_at l (view u))) =
      window_log l later (log_at l (view u))" if "l \<in> set ls" for l
    unfolding zu [OF that] z [OF that] using assms(2,4,8) that
    by (intro adjusted_again) (auto simp: rate_ok_def rate_wf_def list_all_iff)
  have "map (\<lambda>l. RInt (log_cost (adjusted x later adm l (window_log l later (log_at l (view u)))))) ls =
      map (\<lambda>l. RInt (used_at l later (view u))) ls"
    using same by (simp add: used_at_def)
  with redis.rate_adjust_on_view [OF assms(1) ok assms(7), of x adm] assms(9) same
  show ?thesis by (auto simp: becomes_def list_all_iff)
qed

theorem adjust_retry_is_idempotent_witness:
  "fst (rate_adjust_script doc_redis demo_change ''A'' None 5000 (snd demo_adjusted)) =
    Some (RArr [RInt 25])"
proof -
  have ok: "rate_ok demo_change demo_first_view" by code_simp
  have now: "5000 = script_now None demo_first_view" "5000 = script_now None (snd demo_adjusted)"
    by code_simp+
  have c: "list_all (\<lambda>l. 0 \<le> old_cost l \<and> 0 \<le> new_cost l) demo_change" by code_simp
  have run: "rate_adjust_script doc_redis demo_change ''A'' None 5000 demo_first_view =
      (fst demo_adjusted, snd demo_adjusted)"
    by (simp add: demo_adjusted_def)
  have u: "map (\<lambda>l. RInt (used_at l 5000 (snd demo_adjusted))) demo_change = [RInt 25]" by code_simp
  show ?thesis
    using adjust_retry_is_idempotent [OF doc.redis_axioms ok now(1) c run _ now(2) order_refl surjective_pairing]
    by (simp add: u list_all_iff)
qed

text \<open>RATE_STATUS replies with the exact use of every limit, also when a running total has
  expired before its log, and changes the use of no limit at any later time.\<close>

theorem rate_status_is_exact:
  assumes "redis R view" and "rate_ok ls (view s)" and "now = script_now na (view s)"
  shows "\<exists>s'. rate_status_script R ls na s =
      (Some (RArr (map (\<lambda>l. RInt (used_at l now (view s))) ls)), s') \<and>
    only (limit_keys ls) (view s) (view s') \<and>
    list_all (\<lambda>l. log_at l (view s') = window_log l now (log_at l (view s))) ls"
  using redis.rate_status_on_view [OF assms] by (fastforce simp: becomes_def list_all_iff)

text \<open>A view in which the total of the tokens is lost.\<close>

definition demo_lost :: rview where
  "demo_lost = del_view ''ratelimit:{llm}:tokens:total'' demo_first_view"

definition demo_keys :: "rate_keys list" where
  "demo_keys = map rate_keys.truncate demo_change"

theorem rate_status_is_exact_witness:
  "\<exists>s'. rate_status_script doc_redis demo_keys None demo_lost = (Some (RArr [RInt 60]), s')"
proof -
  have ok: "rate_ok demo_keys demo_lost" by code_simp
  have now: "5000 = script_now None demo_lost" by code_simp
  have u: "map (\<lambda>l. RInt (used_at l 5000 demo_lost)) demo_keys = [RInt 60]" by code_simp
  from rate_status_is_exact [OF doc.redis_axioms ok now] u show ?thesis by auto
qed

text \<open>A log member carries its cost: the cost is read back from it, also when the identifier
  itself contains digits and colons, and different costs or identifiers make different members.\<close>

theorem log_member_roundtrip:
  assumes "0 \<le> c" and "0 \<le> d"
  shows "member_cost (rate_member c x) = c \<and> (rate_member c x = rate_member d y \<longleftrightarrow> c = d \<and> x = y)"
  using assms rate_member_inject [of c d x y] by auto

theorem log_member_roundtrip_witness:
  "member_cost ''60:12:34'' = 60 \<and> rate_member 60 ''12:34'' = ''60:12:34''"
proof -
  have m: "rate_member 60 ''12:34'' = ''60:12:34''" by code_simp
  with log_member_roundtrip [of 60 60 "''12:34''" "''12:34''"] show ?thesis by simp
qed

text \<open>The loop that reads the log in chunks of 128 always ends, on a log of any length, and
  finds what a walk over the whole log finds.\<close>

theorem chunked_walk_is_the_plain_walk:
  assumes "redis R view"
  shows "rate_walk R lk need 0 0 s = Some (snd (walk_entries need (zsets (view s) lk) 0))"
  using redis.rate_walk_eq [OF assms, of lk need 0 0 s] by simp

definition demo_log :: zset where
  "demo_log = map (\<lambda>i. (int i, rate_member 1 ''A'')) [0..<130]"

theorem chunked_walk_is_the_plain_walk_witness:
  "rate_walk doc_redis ''log'' 129 0 0 ((empty_view 0)\<lparr>zsets := (\<lambda>_. demo_log)\<rparr>) = Some (Some 128)"
proof -
  have w: "walk_entries 129 (map (\<lambda>i. (int i, rate_member 1 ''A'')) [n..<130]) (int n) =
      (if n < 129 then (129, Some 128) else if n = 129 then (130, Some 129) else (int n, None))"
    if "n \<le> 130" for n
    using that
    by (induction "130 - n" arbitrary: n) (auto simp: upt_rec Let_def add.commute)
  have "snd (walk_entries 129 demo_log 0) = Some 128"
    using w [of 0] by (simp add: demo_log_def)
  with chunked_walk_is_the_plain_walk [OF doc.redis_axioms, of "''log''" 129
      "(empty_view 0)\<lparr>zsets := (\<lambda>_. demo_log)\<rparr>"]
  show ?thesis by simp
qed

text \<open>A second limit with a shorter window, and a resend that comes after it.\<close>

definition short_second :: "rate_charge list" where
  "short_second =
     [\<lparr>log_key = ''t:log'', total_key = ''t:total'', window_ms = 2000, limit_units = 100, cost = 10\<rparr>,
      \<lparr>log_key = ''r:log'', total_key = ''r:total'', window_ms = 1000, limit_units = 1, cost = 1\<rparr>]"

definition late_view :: rview where
  "late_view =
     (let v = snd (rate_acquire_script doc_redis short_second ''A'' None (empty_view 5000));
          v = doc_tick (limit_keys short_second) 1500 v
      in snd (rate_acquire_script doc_redis short_second ''B'' None v))"

lemma verdict_after_record:
  assumes "\<And>m. m \<in> set early \<Longrightarrow> fits m now v" and "recorded_at l x (window_log l now (log_at l v))"
  shows "verdict x now (early @ l # later) already 0 v = 0"
proof -
  have rest: "verdict x now ls True 0 v = 0" for ls by (induction ls) (simp_all add: Let_def)
  show ?thesis using assms
  proof (induction early arbitrary: already)
    case (Cons m early)
    have "\<not> (0 < cost m \<and> limit_units m < log_cost (window_log m now (log_at m v)) + cost m)"
      using Cons.prems(1) [of m] by (auto simp: fits_def used_at_def)
    moreover have "verdict x now (early @ l # later) a 0 v = 0" for a using Cons by simp
    ultimately show ?case by (auto simp: Let_def)
  qed (simp add: Let_def rest)
qed

text \<open>C25: the resend check looks at the limits in order and, once one of them still records the request,
  admits it to all later ones. So whenever a request is resent while a limit still records it, and the limits
  before that one do not object, it is admitted; and any later limit that no longer records it is charged
  its cost again without a check, also when this exceeds that limit.\<close>

theorem late_resend_overshoots:
  assumes "redis R view" and "rate_ok ls (view s)" and "now = script_now na (view s)"
    and "ls = early @ recording # later" and "list_all (\<lambda>m. fits m now (view s)) early"
    and "recorded_at recording x (window_log recording now (log_at recording (view s)))"
    and "l \<in> set later" and "0 < cost l" and "0 < window_ms l"
    and "\<not> recorded_at l x (window_log l now (log_at l (view s)))"
    and "limit_units l < used_at l now (view s) + cost l"
  shows "\<exists>used s'. rate_acquire_script R ls x na s = (Some (RArr ([RInt 1, RInt 0, RInt now] @ used)), s') \<and>
    used_at l now (view s') = used_at l now (view s) + cost l \<and> limit_units l < used_at l now (view s')"
proof -
  have "verdict x now ls False 0 (view s) = 0"
    unfolding assms(4) by (rule verdict_after_record [OF _ assms(6)]) (use assms(5) in \<open>simp add: list_all_iff\<close>)
  with redis.rate_acquire_outcome [OF assms(1-3) refl, of x] obtain used s' where s':
    "rate_acquire_script R ls x na s = (Some (RArr ([RInt 1, RInt 0, RInt now] @ used)), s')"
    "\<forall>l \<in> set ls. log_at l (view s') = charged x now l (window_log l now (log_at l (view s)))"
    by auto
  have l: "l \<in> set ls" using assms(4,7) by simp
  then have "z_wf (log_at l (view s))" using assms(2) by (simp add: rate_ok_def rate_wf_def list_all_iff)
  then have "used_at l now (view s') = used_at l now (view s) + cost l"
    using log_cost_charged [of "window_log l now (log_at l (view s))" l x now now] s'(2) l assms(8-10)
    by (simp add: used_at_def window_window)
  with s'(1) assms(11) show ?thesis by auto
qed

theorem late_resend_overshoots_witness:
  "\<exists>used s'. rate_acquire_script doc_redis short_second ''A'' None late_view =
      (Some (RArr ([RInt 1, RInt 0, RInt 6500] @ used)), s') \<and>
     limit_units (short_second ! 1) = 1 \<and> used_at (short_second ! 1) 6500 s' = 2"
proof -
  have ok: "rate_ok short_second late_view" by code_simp
  have now: "6500 = script_now None late_view" by code_simp
  have ls: "short_second = [] @ (short_second ! 0) # [short_second ! 1]" by (simp add: short_second_def)
  have r: "recorded_at (short_second ! 0) ''A'' (window_log (short_second ! 0) 6500 (log_at (short_second ! 0) late_view))"
    "\<not> recorded_at (short_second ! 1) ''A'' (window_log (short_second ! 1) 6500 (log_at (short_second ! 1) late_view))"
    "used_at (short_second ! 1) 6500 late_view = 1" by code_simp+
  have l: "cost (short_second ! 1) = 1" "limit_units (short_second ! 1) = 1" "window_ms (short_second ! 1) = 1000"
    by (simp_all add: short_second_def)
  from late_resend_overshoots [OF doc.redis_axioms ok now ls _ r(1), of "short_second ! 1"] r(2,3) l
  show ?thesis by auto
qed

end
