(* ===== verification/DispatchScripts.thy ===== *)
theory DispatchScripts
  imports SemScripts
begin

section \<open>The dispatch queue's Lua scripts\<close>

text \<open>
  DISPATCH_ENQUEUE and DISPATCH_STATUS of \<open>src/redis_semaphore/lua_scripts.py\<close>: the queue is a
  stream, the ids of the entries are made by the store; a marker key remembers the entry a submit
  has created.
\<close>

definition dispatch_enqueue_script ::
  "'s redis_api \<Rightarrow> key \<Rightarrow> key \<Rightarrow> int \<Rightarrow> ms \<Rightarrow> ms option \<Rightarrow> string \<Rightarrow> string \<Rightarrow> 's \<Rightarrow> resp \<times> 's" where
  "dispatch_enqueue_script R stream_key marker_key max_size marker_ttl timeout_ms job_id payload s =
     (case c_get R marker_key s of
        Some existing \<Rightarrow> (RBulk existing, s)
      | None \<Rightarrow>
          if 0 < max_size \<and> max_size \<le> c_xlen R stream_key s then (RNil, s)
          else
            (let t = c_time R s;
                 now_ms = fst t * 1000 + snd t div 1000;
                 deadline = (case timeout_ms of None \<Rightarrow> [] | Some d \<Rightarrow> int_str (now_ms + d));
                 (entry_id, s) = c_xadd R stream_key
                   [(''id'', job_id), (''payload'', payload), (''created'', int_str now_ms),
                    (''deadline'', deadline)] s;
                 s = c_set_px R marker_key (sid_str entry_id) marker_ttl s
             in (RBulk (sid_str entry_id), s)))"

text \<open>The time an entry was added: \<open>^(%d+)-\<close> of its id. \<open>None\<close> is the Lua error on no match.\<close>

definition entry_ms :: "string \<Rightarrow> ms option" where
  "entry_ms i =
     (let ds = takeWhile is_digit i
      in case dropWhile is_digit i of
           [] \<Rightarrow> None
         | c # _ \<Rightarrow> if ds \<noteq> [] \<and> c = CHR ''-'' then Some (int (digits_val ds)) else None)"

definition dispatch_status_script :: "'s redis_api \<Rightarrow> key \<Rightarrow> string \<Rightarrow> 's \<Rightarrow> resp option" where
  "dispatch_status_script R stream_key grp s =
     (let n = c_xlen R stream_key s
      in if n = 0 then Some (RArr [RInt 0, RInt 0, RInt (- 1)])
         else
           (let in_progress = (case c_xpending R stream_key grp s of None \<Rightarrow> 0 | Some p \<Rightarrow> p)
            in case c_xfirst R stream_key s of
                 None \<Rightarrow> Some (RArr [RInt n, RInt in_progress, RInt (- 1)])
               | Some (i, fs) \<Rightarrow>
                   (let t = c_time R s;
                        now_ms = fst t * 1000 + snd t div 1000
                    in case entry_ms (sid_str i) of
                         None \<Rightarrow> None
                       | Some added_ms \<Rightarrow>
                           Some (RArr [RInt n, RInt in_progress, RInt (max 0 (now_ms - added_ms))]))))"

subsection \<open>On the view\<close>

definition queue_of :: "key \<Rightarrow> rview \<Rightarrow> (sid \<times> fields) list" where
  "queue_of k v = entries (stream_at k v)"

text \<open>Ids are made by the store: they grow along the stream and carry a time that is not negative.\<close>

definition queue_wf :: "key \<Rightarrow> rview \<Rightarrow> bool" where
  "queue_wf k v \<longleftrightarrow> sorted_wrt (\<lambda>a b. fst a < fst b) (queue_of k v) \<and>
     list_all (\<lambda>e. 0 \<le> sid_ms (fst e)) (queue_of k v)"

definition job_fields :: "string \<Rightarrow> string \<Rightarrow> ms option \<Rightarrow> ms \<Rightarrow> fields" where
  "job_fields job_id payload timeout_ms now =
     [(''id'', job_id), (''payload'', payload), (''created'', int_str now),
      (''deadline'', (case timeout_ms of None \<Rightarrow> [] | Some d \<Rightarrow> int_str (now + d)))]"

lemma minus_no_digit_dash: "\<not> is_digit (CHR ''-'')"
  by simp

lemma entry_ms_sid_str: "0 \<le> sid_ms i \<Longrightarrow> entry_ms (sid_str i) = Some (sid_ms i)"
  using takeWhile_all_append [OF int_str_digits minus_no_digit_dash, of "sid_ms i" "int_str (sid_seq i)"]
    dropWhile_all_append [OF int_str_digits minus_no_digit_dash, of "sid_ms i" "int_str (sid_seq i)"]
  by (simp add: entry_ms_def sid_str_def digits_val_int_str)

lemma stream_at_update:
  "stream_at k (v\<lparr>strms := (strms v)(k \<mapsto> st)\<rparr>) = st"
  by (simp add: stream_at_def)

context redis
begin

lemma enqueue_on_view:
  assumes ttl: "0 < ttl" and wf: "queue_wf sk (view s)" and now: "0 \<le> clock_ms (view s)"
    and run: "dispatch_enqueue_script R sk mk mx ttl to jid pl s = (r, s')"
  shows "case strs (view s) mk of
      Some i \<Rightarrow> r = RBulk i \<and> s' = s
    | None \<Rightarrow>
        if 0 < mx \<and> mx \<le> int (length (queue_of sk (view s))) then r = RNil \<and> s' = s
        else \<exists>i. r = RBulk (sid_str i) \<and> strs (view s') mk = Some (sid_str i) \<and>
          ttls (view s') mk = Some (clock_ms (view s) + ttl) \<and>
          queue_of sk (view s') = queue_of sk (view s) @ [(i, job_fields jid pl to (clock_ms (view s)))] \<and>
          groups (stream_at sk (view s')) = groups (stream_at sk (view s)) \<and>
          clock_ms (view s) \<le> sid_ms i \<and> queue_wf sk (view s') \<and>
          clock_ms (view s') = clock_ms (view s) \<and>
          (\<forall>k. k \<noteq> sk \<longrightarrow> k \<noteq> mk \<longrightarrow> same_key k (view s) (view s'))"
proof (cases "strs (view s) mk")
  case (Some i)
  with run show ?thesis by (simp add: dispatch_enqueue_script_def get_law)
next
  case None
  show ?thesis
  proof (cases "0 < mx \<and> mx \<le> int (length (queue_of sk (view s)))")
    case True
    with None run show ?thesis by (auto simp: dispatch_enqueue_script_def get_law xlen_law queue_of_def)
  next
    case False
    define fs where "fs = job_fields jid pl to (clock_ms (view s))"
    obtain i u where x: "c_xadd R sk fs s = (i, u)" by fastforce
    note xl = xadd_law [OF x]
    have t: "fst (c_time R s) * 1000 + snd (c_time R s) div 1000 = clock_ms (view s)"
      by (simp add: time_law clock_ms_def)
    define w where "w = c_set_px R mk (sid_str i) ttl u"
    have r: "r = RBulk (sid_str i)" "s' = w"
      using run None False x t
      by (auto simp: dispatch_enqueue_script_def get_law xlen_law queue_of_def Let_def fs_def
          job_fields_def w_def split: option.splits)
    have vu: "view u = (view s)\<lparr>strms := (strms (view s))(sk \<mapsto> (stream_at sk (view s))
        \<lparr>entries := queue_of sk (view s) @ [(i, fs)]\<rparr>)\<rparr>" and i: "clock_ms (view s) \<le> sid_ms i"
      "\<forall>e \<in> set (queue_of sk (view s)). fst e < i"
      using xl by (simp_all add: queue_of_def)
    have vw: "view w = doc_set_px mk (sid_str i) ttl (view u)"
      unfolding w_def using ttl by (rule set_px_law)
    have st: "stream_at sk (view w) = (stream_at sk (view s))\<lparr>entries := queue_of sk (view s) @ [(i, fs)]\<rparr>"
      by (simp add: vw vu doc_set_px_def stream_at_def)
    have q: "queue_of sk (view w) = queue_of sk (view s) @ [(i, fs)]"
      by (simp add: queue_of_def st)
    have "queue_wf sk (view w)"
      using wf i now by (auto simp: queue_wf_def q sorted_wrt_append)
    moreover have "strs (view w) mk = Some (sid_str i)" "clock_ms (view w) = clock_ms (view s)"
      "ttls (view w) mk = Some (clock_ms (view s) + ttl)"
      "\<forall>k. k \<noteq> sk \<longrightarrow> k \<noteq> mk \<longrightarrow> same_key k (view s) (view w)"
      by (auto simp: vw vu doc_set_px_def same_key_def)
    ultimately show ?thesis using None False r q i(1) by (auto simp: fs_def st)
  qed
qed

lemma dispatch_status_on_view:
  assumes wf: "queue_wf sk (view s)"
  shows "dispatch_status_script R sk g s = Some (RArr
    (case queue_of sk (view s) of
       [] \<Rightarrow> [RInt 0, RInt 0, RInt (- 1)]
     | e # es \<Rightarrow>
         [RInt (int (length (e # es))),
          RInt (case doc_xpending sk g (view s) of None \<Rightarrow> 0 | Some n \<Rightarrow> n),
          RInt (max 0 (clock_ms (view s) - sid_ms (fst e)))]))"
proof (cases "queue_of sk (view s)")
  case Nil
  then show ?thesis by (simp add: dispatch_status_script_def xlen_law queue_of_def)
next
  case (Cons e es)
  obtain i fs where e: "e = (i, fs)" by fastforce
  have "entry_ms (sid_str i) = Some (sid_ms i)"
    using wf Cons e by (intro entry_ms_sid_str) (simp add: queue_wf_def)
  with Cons e show ?thesis
    by (simp add: dispatch_status_script_def xlen_law queue_of_def xfirst_law xpending_law Let_def
        time_law clock_ms_def)
qed

end

subsection \<open>Properties\<close>

text \<open>A submit on a queue either finds its own marker and replies with the entry it created
  before, or finds the queue full and leaves it alone, or appends exactly one entry, with the job's
  fields stamped from the server clock, under an id larger than all others, and marks it.\<close>

theorem enqueue_outcome:
  assumes "redis R view" and "0 < ttl" and "queue_wf sk (view s)" and "0 \<le> clock_ms (view s)"
    and "dispatch_enqueue_script R sk mk mx ttl to jid pl s = (r, s')"
  shows "case strs (view s) mk of
      Some i \<Rightarrow> r = RBulk i \<and> s' = s
    | None \<Rightarrow>
        if 0 < mx \<and> mx \<le> int (length (queue_of sk (view s))) then r = RNil \<and> s' = s
        else \<exists>i. r = RBulk (sid_str i) \<and> strs (view s') mk = Some (sid_str i) \<and>
          queue_of sk (view s') = queue_of sk (view s) @ [(i, job_fields jid pl to (clock_ms (view s)))] \<and>
          clock_ms (view s) \<le> sid_ms i \<and> queue_wf sk (view s')"
  using redis.enqueue_on_view [OF assms]
  by (auto split: option.splits if_splits)

definition demo_enqueued :: "resp \<times> rview" where
  "demo_enqueued = dispatch_enqueue_script doc_redis ''dispatch:mail'' ''dispatch:mail:submit:j1'' 1
     60000 (Some 500) ''j1'' ''{}'' (empty_view 7000)"

lemma demo_enqueued_view:
  "fst demo_enqueued = RBulk ''7000-0'' \<and>
   queue_of ''dispatch:mail'' (snd demo_enqueued) =
     [(Sid 7000 0, [(''id'', ''j1''), (''payload'', ''{}''), (''created'', ''7000''), (''deadline'', ''7500'')])]"
  by code_simp

theorem enqueue_outcome_witness:
  "\<exists>i. RBulk ''7000-0'' = RBulk (sid_str i) \<and>
    queue_of ''dispatch:mail'' (snd demo_enqueued) = [(i, job_fields ''j1'' ''{}'' (Some 500) 7000)]"
proof -
  have run: "dispatch_enqueue_script doc_redis ''dispatch:mail'' ''dispatch:mail:submit:j1'' 1
     60000 (Some 500) ''j1'' ''{}'' (empty_view 7000) = (RBulk ''7000-0'', snd demo_enqueued)"
    using demo_enqueued_view by (cases demo_enqueued) (simp add: demo_enqueued_def)
  have e: "queue_of ''dispatch:mail'' (empty_view 7000) = []" "queue_wf ''dispatch:mail'' (empty_view 7000)"
    "strs (empty_view 7000) ''dispatch:mail:submit:j1'' = None"
    by (simp_all add: queue_of_def stream_at_def empty_view_def queue_wf_def)
  show ?thesis
    using enqueue_outcome [OF doc.redis_axioms _ e(2) _ run] e(1,3) by auto
qed

text \<open>A resent submit appends nothing: while its marker is still there it replies with the id
  the first call replied with, whatever happened to the queue in between.\<close>

theorem resent_submit_appends_nothing:
  assumes "redis R view" and "0 < ttl" and "queue_wf sk (view s)" and "0 \<le> clock_ms (view s)"
    and "strs (view s) mk = None"
    and "dispatch_enqueue_script R sk mk mx ttl to jid pl s = (RBulk i, s')"
    and "same_key mk (view s') (view u)"
  shows "dispatch_enqueue_script R sk mk mx ttl to jid pl u = (RBulk i, u)"
proof -
  have "strs (view s') mk = Some i"
    using redis.enqueue_on_view [OF assms(1-4,6)] assms(5) by (auto split: if_splits)
  then have "c_get R mk u = Some i"
    using redis.axioms(2) [OF assms(1)] redis_strings.get_law assms(7) by (metis same_key_def)
  then show ?thesis by (simp add: dispatch_enqueue_script_def)
qed

theorem resent_submit_appends_nothing_witness:
  "dispatch_enqueue_script doc_redis ''dispatch:mail'' ''dispatch:mail:submit:j1'' 1
     60000 (Some 500) ''j1'' ''{}'' (snd demo_enqueued) = (RBulk ''7000-0'', snd demo_enqueued)"
proof -
  have run: "dispatch_enqueue_script doc_redis ''dispatch:mail'' ''dispatch:mail:submit:j1'' 1
     60000 (Some 500) ''j1'' ''{}'' (empty_view 7000) = (RBulk ''7000-0'', snd demo_enqueued)"
    using demo_enqueued_view by (cases demo_enqueued) (simp add: demo_enqueued_def)
  have e: "queue_wf ''dispatch:mail'' (empty_view 7000)"
    "strs (empty_view 7000) ''dispatch:mail:submit:j1'' = None"
    by (simp_all add: queue_of_def stream_at_def empty_view_def queue_wf_def)
  show ?thesis
    by (rule resent_submit_appends_nothing [OF doc.redis_axioms _ e(1) _ e(2) run]) (simp_all add: same_key_def)
qed

text \<open>Submits of several jobs one after the other; the replies tell which were accepted.\<close>

fun submit_all ::
  "'s redis_api \<Rightarrow> key \<Rightarrow> int \<Rightarrow> ms \<Rightarrow> (key \<times> string \<times> string) list \<Rightarrow> 's \<Rightarrow> resp list \<times> 's" where
  "submit_all R sk mx ttl [] s = ([], s)"
| "submit_all R sk mx ttl ((mk, jid, pl) # jobs) s =
     (let (r, s) = dispatch_enqueue_script R sk mk mx ttl None jid pl s;
          (rs, s) = submit_all R sk mx ttl jobs s
      in (r # rs, s))"

context redis
begin

lemma submit_all_on_view:
  assumes "0 < ttl" and "queue_wf sk (view s)" and "0 \<le> clock_ms (view s)"
    and "distinct (map fst jobs)" and "\<forall>j \<in> set jobs. strs (view s) (fst j) = None"
    and "sk \<notin> fst ` set jobs" and "submit_all R sk mx ttl jobs s = (rs, s')"
    and "0 < mx \<longrightarrow> int (length (queue_of sk (view s))) \<le> mx"
  shows "int (length (queue_of sk (view s'))) =
      (let n = int (length (queue_of sk (view s)) + length jobs) in if 0 < mx then min mx n else n)
    \<and> length (filter (\<lambda>r. r \<noteq> RNil) rs) + length (queue_of sk (view s)) = length (queue_of sk (view s'))"
  using assms
proof (induction jobs arbitrary: s rs)
  case (Cons j jobs)
  obtain mk jid pl where j: "j = (mk, jid, pl)" by (cases j) auto
  obtain r u where one: "dispatch_enqueue_script R sk mk mx ttl None jid pl s = (r, u)" by fastforce
  obtain rs' where rest: "submit_all R sk mx ttl jobs u = (rs', s')" and rs: "rs = r # rs'"
    using Cons.prems(7) one by (auto simp: j split: prod.splits)
  have none: "strs (view s) mk = None" using Cons.prems(5) by (simp add: j)
  note out = enqueue_on_view [OF Cons.prems(1-3) one, unfolded none option.case]
  let ?n = "\<lambda>s. length (queue_of sk (view s))"
  have ih: "int (?n s') = (if 0 < mx then min mx (int (?n u + length jobs)) else int (?n u + length jobs)) \<and>
      length (filter (\<lambda>r. r \<noteq> RNil) rs') + ?n u = ?n s'"
    if "queue_wf sk (view u)" "0 \<le> clock_ms (view u)" "\<forall>k \<in> set jobs. strs (view u) (fst k) = None"
      "0 < mx \<longrightarrow> int (?n u) \<le> mx"
    using Cons.IH [OF Cons.prems(1) that(1,2) _ that(3) _ rest that(4)] Cons.prems(4,6)
    by (simp add: Let_def)
  show ?case
  proof (cases "0 < mx \<and> mx \<le> int (?n s)")
    case True
    with out have r: "r = RNil" "u = s" by auto
    have "int (?n s') = min mx (int (?n s + length jobs)) \<and>
        length (filter (\<lambda>r. r \<noteq> RNil) rs') + ?n s = ?n s'"
      using ih Cons.prems(2,3,5,8) r(2) True by simp
    with True r(1) Cons.prems(8) show ?thesis by (auto simp: rs Let_def min_def)
  next
    case False
    with out obtain i where q: "queue_of sk (view u) = queue_of sk (view s) @
        [(i, job_fields jid pl None (clock_ms (view s)))]" and wf: "queue_wf sk (view u)"
      and c: "clock_ms (view u) = clock_ms (view s)" and r: "r = RBulk (sid_str i)"
      and same: "\<forall>k. k \<noteq> sk \<longrightarrow> k \<noteq> mk \<longrightarrow> same_key k (view s) (view u)"
      by auto
    have n: "strs (view u) (fst k) = None" if "k \<in> set jobs" for k
    proof -
      have "fst k \<noteq> sk" "fst k \<noteq> mk" using Cons.prems(4,6) that by (auto simp: j)
      then have "same_key (fst k) (view s) (view u)" using same by blast
      with Cons.prems(5) that show ?thesis by (simp add: same_key_def)
    qed
    have u: "?n u = Suc (?n s)" by (simp add: q)
    have "0 < mx \<longrightarrow> int (?n u) \<le> mx" using False by (auto simp: u)
    with ih wf c n Cons.prems(3) have "int (?n s') = (if 0 < mx
        then min mx (int (?n u + length jobs)) else int (?n u + length jobs)) \<and>
        length (filter (\<lambda>r. r \<noteq> RNil) rs') + ?n u = ?n s'" by simp
    then show ?thesis by (simp add: rs r u Let_def)
  qed
qed (auto simp: Let_def)

end

text \<open>A bounded queue never grows beyond its size and no place is wasted: of any number of
  submits with fresh markers exactly as many are accepted as there is room for, the others are
  told so; without a bound all are accepted.\<close>

theorem queue_capacity_is_exact:
  assumes "redis R view" and "0 < ttl" and "queue_wf sk (view s)" and "0 \<le> clock_ms (view s)"
    and "distinct (map fst jobs)" and "list_all (\<lambda>j. strs (view s) (fst j) = None) jobs"
    and "sk \<notin> fst ` set jobs" and "submit_all R sk mx ttl jobs s = (rs, s')"
    and "0 < mx \<longrightarrow> int (length (queue_of sk (view s))) \<le> mx"
  shows "int (length (queue_of sk (view s'))) =
      (let n = int (length (queue_of sk (view s)) + length jobs) in if 0 < mx then min mx n else n)
    \<and> length (filter (\<lambda>r. r \<noteq> RNil) rs) + length (queue_of sk (view s)) = length (queue_of sk (view s'))"
  using redis.submit_all_on_view [OF assms(1-5) _ assms(7-9)] assms(6) by (simp add: list_all_iff)

definition demo_submits :: "resp list \<times> rview" where
  "demo_submits = submit_all doc_redis ''dispatch:mail'' 2 60000
     [(''m1'', ''j1'', ''{}''), (''m2'', ''j2'', ''{}''), (''m3'', ''j3'', ''{}'')] (empty_view 7000)"

theorem queue_capacity_is_exact_witness:
  "length (queue_of ''dispatch:mail'' (snd demo_submits)) = 2 \<and>
   fst demo_submits = [RBulk ''7000-0'', RBulk ''7000-1'', RNil]"
proof
  show "fst demo_submits = [RBulk ''7000-0'', RBulk ''7000-1'', RNil]" by code_simp
  have e: "queue_of ''dispatch:mail'' (empty_view 7000) = []" "queue_wf ''dispatch:mail'' (empty_view 7000)"
    by (simp_all add: queue_of_def stream_at_def empty_view_def queue_wf_def)
  have n: "list_all (\<lambda>j. strs (empty_view 7000) (fst j) = None)
      [(''m1'', ''j1'', ''{}''), (''m2'', ''j2'', ''{}''), (''m3'', ''j3'', ''{}'')]"
    by (simp add: empty_view_def)
  have run: "submit_all doc_redis ''dispatch:mail'' 2 60000
     [(''m1'', ''j1'', ''{}''), (''m2'', ''j2'', ''{}''), (''m3'', ''j3'', ''{}'')] (empty_view 7000) =
     (fst demo_submits, snd demo_submits)"
    by (simp add: demo_submits_def del: submit_all.simps)
  show "length (queue_of ''dispatch:mail'' (snd demo_submits)) = 2"
    using queue_capacity_is_exact [OF doc.redis_axioms _ e(2) _ _ n _ run]
    by (simp add: e(1))
qed

text \<open>DISPATCH_STATUS reports the length of the queue, the pending entries of the group (none
  when the group does not exist yet), and the age of the oldest entry on the server clock, never
  negative; an empty queue has no age.\<close>

theorem dispatch_status_is_exact:
  assumes "redis R view" and "queue_wf sk (view s)"
  shows "dispatch_status_script R sk g s = Some (RArr
    (case queue_of sk (view s) of
       [] \<Rightarrow> [RInt 0, RInt 0, RInt (- 1)]
     | e # es \<Rightarrow>
         [RInt (int (length (e # es))),
          RInt (case doc_xpending sk g (view s) of None \<Rightarrow> 0 | Some n \<Rightarrow> n),
          RInt (max 0 (clock_ms (view s) - sid_ms (fst e)))]))"
  by (rule redis.dispatch_status_on_view [OF assms])

theorem dispatch_status_is_exact_witness:
  "dispatch_status_script doc_redis ''dispatch:mail'' ''dispatchers''
     (doc_tick [] 250 (snd demo_enqueued)) = Some (RArr [RInt 1, RInt 0, RInt 250])"
proof -
  let ?v = "doc_tick [] 250 (snd demo_enqueued)"
  have w: "queue_wf ''dispatch:mail'' ?v" by code_simp
  have q: "queue_of ''dispatch:mail'' ?v =
     [(Sid 7000 0, [(''id'', ''j1''), (''payload'', ''{}''), (''created'', ''7000''), (''deadline'', ''7500'')])]"
    by code_simp
  have p: "doc_xpending ''dispatch:mail'' ''dispatchers'' ?v = None" by code_simp
  have c: "clock_ms (snd demo_enqueued) = 7000" by code_simp
  show ?thesis
    using dispatch_status_is_exact [OF doc.redis_axioms w] by (simp add: q p c)
qed

end
