(* ===== verification/Json.thy ===== *)
theory Json
  imports Prelude
begin

section \<open>JSON texts\<close>

text \<open>
  What \<open>dispatch.py\<close> uses of Python's \<open>json\<close>: \<open>dumps\<close> with its defaults (separators with a space,
  everything outside printable ASCII escaped) and \<open>loads\<close> (strict). A dict is an association list
  with distinct keys, a number its literal (\<open>repr\<close> of an int or of a finite float, which Python reads
  back as the same value). Characters are those of \<open>char\<close>, so texts hold code points below 256;
  \<open>loads\<close> refuses an escape beyond them. What \<open>dumps\<close> refuses (other Python objects) is not a value
  of the type. That a text written is read back is proved here once.
\<close>

datatype json = JNull | JBool bool | JNum string | JStr string | JArr "json list"
  | JObj "(string \<times> json) list"

subsection \<open>Writing\<close>

definition hex_digit :: "nat \<Rightarrow> char" where
  "hex_digit n = char_of (if n < 10 then 48 + n else 87 + n)"

definition esc_char :: "char \<Rightarrow> string" where
  "esc_char c =
     (let n = (of_char c :: nat)
      in if n = 34 \<or> n = 92 then [CHR 0x5C, c]
         else if n = 8 then [CHR 0x5C, CHR ''b''] else if n = 12 then [CHR 0x5C, CHR ''f'']
         else if n = 10 then [CHR 0x5C, CHR ''n''] else if n = 13 then [CHR 0x5C, CHR ''r'']
         else if n = 9 then [CHR 0x5C, CHR ''t'']
         else if 32 \<le> n \<and> n \<le> 126 then [c]
         else [CHR 0x5C, CHR ''u'', CHR ''0'', CHR ''0'', hex_digit (n div 16), hex_digit (n mod 16)])"

definition json_str :: "string \<Rightarrow> string" where
  "json_str s = CHR 0x22 # concat (map esc_char s) @ [CHR 0x22]"

fun commas :: "string list \<Rightarrow> string" where
  "commas [] = []"
| "commas [x] = x"
| "commas (x # y # ys) = x @ '', '' @ commas (y # ys)"

fun json_dumps :: "json \<Rightarrow> string" where
  "json_dumps JNull = ''null''"
| "json_dumps (JBool b) = (if b then ''true'' else ''false'')"
| "json_dumps (JNum t) = t"
| "json_dumps (JStr s) = json_str s"
| "json_dumps (JArr xs) = CHR ''['' # commas (map json_dumps xs) @ '']''"
| "json_dumps (JObj kvs) = CHR ''{'' # commas (map (\<lambda>(k, v). json_str k @ '': '' @ json_dumps v) kvs) @ ''}''"

subsection \<open>Reading\<close>

definition json_space :: "char \<Rightarrow> bool" where
  "json_space c \<longleftrightarrow> c \<in> {CHR 0x20, CHR 0x09, CHR 0x0A, CHR 0x0D}"

definition skip_ws :: "string \<Rightarrow> string" where
  "skip_ws = dropWhile json_space"

definition hex_val :: "char \<Rightarrow> nat option" where
  "hex_val c =
     (let n = (of_char c :: nat)
      in if 48 \<le> n \<and> n \<le> 57 then Some (n - 48)
         else if 97 \<le> n \<and> n \<le> 102 then Some (n - 87)
         else if 65 \<le> n \<and> n \<le> 70 then Some (n - 55) else None)"

text \<open>The character an escape stands for (after the backslash), and what follows it.\<close>

fun unescape :: "string \<Rightarrow> (char \<times> string) option" where
  "unescape [] = None"
| "unescape (c # cs) =
     (if c = CHR 0x22 \<or> c = CHR 0x5C \<or> c = CHR ''/'' then Some (c, cs)
      else if c = CHR ''b'' then Some (CHR 0x08, cs) else if c = CHR ''f'' then Some (CHR 0x0C, cs)
      else if c = CHR ''n'' then Some (CHR 0x0A, cs) else if c = CHR ''r'' then Some (CHR 0x0D, cs)
      else if c = CHR ''t'' then Some (CHR 0x09, cs)
      else if c = CHR ''u'' then
        (case cs of
           d1 # d2 # d3 # d4 # r \<Rightarrow>
             (case (hex_val d1, hex_val d2, hex_val d3, hex_val d4) of
                (Some a, Some b, Some x, Some y) \<Rightarrow>
                  if a = 0 \<and> b = 0 then Some (char_of (16 * x + y), r) else None
              | _ \<Rightarrow> None)
         | _ \<Rightarrow> None)
      else None)"

lemma unescape_shorter: "unescape cs = Some (c, r) \<Longrightarrow> length r < length cs"
  by (cases cs) (auto split: if_splits list.splits option.splits)

function parse_str :: "string \<Rightarrow> (string \<times> string) option" where
  "parse_str [] = None"
| "parse_str (c # cs) =
     (if c = CHR 0x22 then Some ([], cs)
      else if c = CHR 0x5C then
        (case unescape cs of None \<Rightarrow> None | Some (d, r) \<Rightarrow> map_option (apfst (Cons d)) (parse_str r))
      else if (of_char c :: nat) < 32 then None
      else map_option (apfst (Cons c)) (parse_str cs))"
  by pat_completeness auto
termination
  by (relation "measure length") (auto dest: unescape_shorter)

definition num_char :: "char \<Rightarrow> bool" where
  "num_char c \<longleftrightarrow> is_digit c \<or> c \<in> set ''+-.eE''"

definition exp_ok :: "string \<Rightarrow> bool" where
  "exp_ok t \<longleftrightarrow>
     (case t of [] \<Rightarrow> True
      | c # r \<Rightarrow> (c = CHR ''e'' \<or> c = CHR ''E'') \<and>
          (let ds = (case r of s # ds \<Rightarrow> if s = CHR ''+'' \<or> s = CHR ''-'' then ds else r | [] \<Rightarrow> r)
           in ds \<noteq> [] \<and> list_all is_digit ds))"

definition frac_ok :: "string \<Rightarrow> bool" where
  "frac_ok t \<longleftrightarrow>
     (case t of [] \<Rightarrow> True
      | c # r \<Rightarrow> if c = CHR ''.'' then takeWhile is_digit r \<noteq> [] \<and> exp_ok (dropWhile is_digit r)
                 else exp_ok t)"

definition json_num_ok :: "string \<Rightarrow> bool" where
  "json_num_ok t \<longleftrightarrow>
     (let u = (case t of c # cs \<Rightarrow> if c = CHR ''-'' then cs else t | [] \<Rightarrow> t);
          i = takeWhile is_digit u
      in i \<noteq> [] \<and> (hd i = CHR ''0'' \<longrightarrow> length i = 1) \<and> frac_ok (dropWhile is_digit u))"

text \<open>A key that comes again replaces the value, in the place of the first.\<close>

definition json_dict :: "(string \<times> json) list \<Rightarrow> (string \<times> json) list" where
  "json_dict kvs = fold (\<lambda>(k, v). dict_put k v) kvs []"

definition literal :: "string \<Rightarrow> 'a \<Rightarrow> string \<Rightarrow> ('a \<times> string) option" where
  "literal t a s = (if take (length t) s = t then Some (a, drop (length t) s) else None)"

text \<open>The number bounds the nesting and the members; the length of the text is enough.\<close>

fun parse_value :: "nat \<Rightarrow> string \<Rightarrow> (json \<times> string) option"
  and parse_elems :: "nat \<Rightarrow> string \<Rightarrow> (json list \<times> string) option"
  and parse_members :: "nat \<Rightarrow> string \<Rightarrow> ((string \<times> json) list \<times> string) option"
where
  "parse_value 0 s = None"
| "parse_value (Suc n) s =
     (case s of [] \<Rightarrow> None
      | c # cs \<Rightarrow>
          if c = CHR 0x22 then map_option (apfst JStr) (parse_str cs)
          else if c = CHR ''['' then
            (case skip_ws cs of
               [] \<Rightarrow> None
             | d # r \<Rightarrow> if d = CHR '']'' then Some (JArr [], r) else map_option (apfst JArr) (parse_elems n (d # r)))
          else if c = CHR ''{'' then
            (case skip_ws cs of
               [] \<Rightarrow> None
             | d # r \<Rightarrow> if d = CHR ''}'' then Some (JObj [], r)
                 else map_option (apfst (\<lambda>kvs. JObj (json_dict kvs))) (parse_members n (d # r)))
          else if c = CHR ''n'' then literal ''null'' JNull s
          else if c = CHR ''t'' then literal ''true'' (JBool True) s
          else if c = CHR ''f'' then literal ''false'' (JBool False) s
          else if json_num_ok (takeWhile num_char s)
          then Some (JNum (takeWhile num_char s), dropWhile num_char s) else None)"
| "parse_elems 0 s = None"
| "parse_elems (Suc n) s =
     (case parse_value n s of None \<Rightarrow> None
      | Some (v, r) \<Rightarrow>
          (case skip_ws r of
             [] \<Rightarrow> None
           | c # r \<Rightarrow> if c = CHR '']'' then Some ([v], r)
               else if c = CHR '','' then map_option (apfst (Cons v)) (parse_elems n (skip_ws r)) else None))"
| "parse_members 0 s = None"
| "parse_members (Suc n) s =
     (case s of [] \<Rightarrow> None
      | q # cs \<Rightarrow>
          if q \<noteq> CHR 0x22 then None
          else
            (case parse_str cs of None \<Rightarrow> None
             | Some (k, r) \<Rightarrow>
                 (case skip_ws r of
                    [] \<Rightarrow> None
                  | c # r \<Rightarrow>
                      if c \<noteq> CHR '':'' then None
                      else
                        (case parse_value n (skip_ws r) of None \<Rightarrow> None
                         | Some (v, r) \<Rightarrow>
                             (case skip_ws r of
                                [] \<Rightarrow> None
                              | c # r \<Rightarrow> if c = CHR ''}'' then Some ([(k, v)], r)
                                  else if c = CHR '','' then
                                    map_option (apfst (Cons (k, v))) (parse_members n (skip_ws r))
                                  else None)))))"

definition json_loads :: "string \<Rightarrow> json option" where
  "json_loads t =
     (case parse_value (Suc (length t)) (skip_ws t) of
        None \<Rightarrow> None | Some (v, r) \<Rightarrow> if skip_ws r = [] then Some v else None)"

fun json_ok :: "json \<Rightarrow> bool" where
  "json_ok (JNum t) = json_num_ok t"
| "json_ok (JArr xs) = list_all json_ok xs"
| "json_ok (JObj kvs) = (distinct (map fst kvs) \<and> list_all (\<lambda>(k, v). json_ok v) kvs)"
| "json_ok _ = True"

subsection \<open>A text that was written is read back\<close>

lemma hex_val_digit [simp]: "n < 16 \<Longrightarrow> hex_val (hex_digit n) = Some n"
  by (auto simp: hex_val_def hex_digit_def Let_def)

lemma char_of_split: "char_of (16 * ((of_char c :: nat) div 16) + of_char c mod 16) = c"
  by simp

lemma of_char_codes:
  "(of_char c :: nat) = 34 \<longleftrightarrow> c = CHR 0x22" "(of_char c :: nat) = 92 \<longleftrightarrow> c = CHR 0x5C"
  "(of_char c :: nat) = 8 \<longleftrightarrow> c = CHR 0x08" "(of_char c :: nat) = 12 \<longleftrightarrow> c = CHR 0x0C"
  "(of_char c :: nat) = 10 \<longleftrightarrow> c = CHR 0x0A" "(of_char c :: nat) = 13 \<longleftrightarrow> c = CHR 0x0D"
  "(of_char c :: nat) = 9 \<longleftrightarrow> c = CHR 0x09"
proof -
  have r: "(of_char c :: nat) = n \<longleftrightarrow> c = d" if "of_char d = n" for n d unfolding that [symmetric] by (rule of_char_eq_iff)
  show "(of_char c :: nat) = 34 \<longleftrightarrow> c = CHR 0x22" "(of_char c :: nat) = 92 \<longleftrightarrow> c = CHR 0x5C"
    "(of_char c :: nat) = 8 \<longleftrightarrow> c = CHR 0x08" "(of_char c :: nat) = 12 \<longleftrightarrow> c = CHR 0x0C"
    "(of_char c :: nat) = 10 \<longleftrightarrow> c = CHR 0x0A" "(of_char c :: nat) = 13 \<longleftrightarrow> c = CHR 0x0D"
    "(of_char c :: nat) = 9 \<longleftrightarrow> c = CHR 0x09"
    by (rule r, simp)+
qed

lemma parse_str_esc_char: "parse_str (esc_char c @ s) = map_option (apfst (Cons c)) (parse_str s)"
proof (cases "c \<in> {CHR 0x22, CHR 0x5C, CHR 0x08, CHR 0x0C, CHR 0x0A, CHR 0x0D, CHR 0x09}")
  case True
  then show ?thesis by (auto simp: esc_char_def)
next
  case False
  have d: "(of_char c :: nat) div 16 < 16" by (rule less_mult_imp_div_less) simp
  have h: "hex_val (CHR ''0'') = Some 0" by (simp add: hex_val_def)
  show ?thesis
  proof (cases "32 \<le> (of_char c :: nat) \<and> (of_char c :: nat) \<le> 126")
    case True
    with False have "esc_char c = [c]" by (simp add: esc_char_def Let_def of_char_codes)
    with False True show ?thesis by simp
  next
    case out: False
    with False have "esc_char c = [CHR 0x5C, CHR ''u'', CHR ''0'', CHR ''0'', hex_digit (of_char c div 16),
        hex_digit (of_char c mod 16)]"
      by (simp add: esc_char_def Let_def of_char_codes)
    then show ?thesis by (simp add: d h)
  qed
qed

lemma parse_str_written: "parse_str (concat (map esc_char t) @ CHR 0x22 # s) = Some (t, s)"
  by (induction t) (simp_all add: parse_str_esc_char)

lemma skip_ws_id: "s \<noteq> [] \<Longrightarrow> \<not> json_space (hd s) \<Longrightarrow> skip_ws (s @ r) = s @ r"
  by (cases s) (simp_all add: skip_ws_def)

lemma skip_ws_Cons [simp]: "skip_ws (c # s) = (if json_space c then skip_ws s else c # s)"
  by (simp add: skip_ws_def)

lemma digit_num_char: "is_digit c \<Longrightarrow> num_char c"
  by (simp add: num_char_def)

lemma list_all_take_drop: "list_all P (takeWhile Q xs) \<Longrightarrow> list_all P (dropWhile Q xs) \<Longrightarrow> list_all P xs"
  by (metis list_all_append takeWhile_dropWhile_id)

lemma list_all_digits: "list_all num_char (takeWhile is_digit xs)"
  by (auto simp: list_all_iff digit_num_char dest: set_takeWhileD)

lemma exp_ok_chars: "exp_ok t \<Longrightarrow> list_all num_char t"
  by (auto simp: exp_ok_def num_char_def Let_def list_all_iff split: list.splits if_splits)

lemma frac_ok_chars: "frac_ok t \<Longrightarrow> list_all num_char t"
proof (cases t)
  case (Cons c r)
  assume "frac_ok t"
  with Cons show ?thesis
    using list_all_take_drop [of num_char is_digit r] list_all_digits [of r] exp_ok_chars [of "dropWhile is_digit r"]
      exp_ok_chars [of t]
    by (auto simp: frac_ok_def num_char_def split: if_splits)
qed simp

lemma json_num_chars: "json_num_ok t \<Longrightarrow> list_all num_char t \<and> t \<noteq> [] \<and> (hd t = CHR ''-'' \<or> is_digit (hd t))"
proof -
  assume ok: "json_num_ok t"
  then obtain c cs where t: "t = c # cs" by (cases t) (simp_all add: json_num_ok_def)
  let ?u = "if c = CHR ''-'' then cs else t"
  have u: "takeWhile is_digit ?u \<noteq> [] \<and> frac_ok (dropWhile is_digit ?u)"
    using ok by (cases "c = CHR ''-''") (simp_all add: t json_num_ok_def Let_def)
  have "list_all num_char ?u" by (rule list_all_take_drop [OF list_all_digits frac_ok_chars [OF u [THEN conjunct2]]])
  with u show ?thesis by (auto simp: t num_char_def split: if_splits)
qed

lemma num_start:
  assumes "json_num_ok t"
  shows "\<not> json_space (hd t)" "hd t \<notin> {CHR '']'', CHR 0x22, CHR ''['', CHR ''{'', CHR ''n'', CHR ''t'', CHR ''f''}"
proof -
  have "\<not> json_space c \<and> c \<notin> {CHR '']'', CHR 0x22, CHR ''['', CHR ''{'', CHR ''n'', CHR ''t'', CHR ''f''}" if "is_digit c" for c
    using that by (auto simp: is_digit_def json_space_def)
  then show "\<not> json_space (hd t)" "hd t \<notin> {CHR '']'', CHR 0x22, CHR ''['', CHR ''{'', CHR ''n'', CHR ''t'', CHR ''f''}"
    using json_num_chars [OF assms] by (auto simp: json_space_def)
qed

text \<open>How a written value starts; what may follow it.\<close>

definition apart :: "string \<Rightarrow> bool" where
  "apart r \<longleftrightarrow> (case r of [] \<Rightarrow> True | c # cs \<Rightarrow> \<not> num_char c)"

lemma apart_Nil: "apart []"
  by (simp add: apart_def)

lemma dumps_start: "json_ok v \<Longrightarrow> json_dumps v \<noteq> [] \<and> \<not> json_space (hd (json_dumps v)) \<and> hd (json_dumps v) \<noteq> CHR '']''"
  by (cases v) (simp_all add: json_str_def num_start [simplified] json_num_chars, simp_all add: json_space_def)

lemma skip_ws_dumps: "json_ok v \<Longrightarrow> skip_ws (json_dumps v @ r) = json_dumps v @ r"
  using dumps_start by (intro skip_ws_id) auto

lemma takeWhile_apart: "list_all num_char t \<Longrightarrow> apart r \<Longrightarrow> takeWhile num_char (t @ r) = t \<and> dropWhile num_char (t @ r) = r"
  by (cases r) (auto simp: apart_def list_all_iff takeWhile_append dropWhile_append)

definition reads :: "json \<Rightarrow> bool" where
  "reads v \<longleftrightarrow> (\<forall>n r. length (json_dumps v) \<le> n \<longrightarrow> apart r \<longrightarrow> parse_value n (json_dumps v @ r) = Some (v, r))"

lemma not_num_chars [simp]: "\<not> num_char (CHR '','')" "\<not> num_char (CHR '']'')" "\<not> num_char (CHR ''}'')"
  by (simp_all add: num_char_def is_digit_def)

lemma json_spaces [simp]: "json_space (CHR '' '')" "\<not> json_space (CHR '','')" "\<not> json_space (CHR '']'')"
  "\<not> json_space (CHR ''}'')" "\<not> json_space (CHR '':'')" "\<not> json_space (CHR 0x22)"
  by (simp_all add: json_space_def)

lemma elems_read:
  assumes "xs \<noteq> []" and "list_all json_ok xs" and "\<And>v. v \<in> set xs \<Longrightarrow> reads v"
    and "length (commas (map json_dumps xs)) < n"
  shows "parse_elems n (commas (map json_dumps xs) @ CHR '']'' # r) = Some (xs, r)"
  using assms
proof (induction xs arbitrary: n rule: induct_list012)
  case (2 v)
  then obtain m where n: "n = Suc m" by (cases n) auto
  have "parse_value m (json_dumps v @ CHR '']'' # r) = Some (v, CHR '']'' # r)"
    using 2 by (auto simp: n reads_def apart_def)
  then show ?case by (simp add: n)
next
  case (3 v w xs)
  then obtain m where n: "n = Suc m" by (cases n) auto
  let ?rest = "commas (map json_dumps (w # xs)) @ CHR '']'' # r"
  have "parse_value m (json_dumps v @ CHR '','' # CHR '' '' # ?rest) = Some (v, CHR '','' # CHR '' '' # ?rest)"
    using 3 by (auto simp: n reads_def apart_def)
  moreover have "parse_elems m ?rest = Some (w # xs, r)" using 3 by (auto simp: n)
  moreover have "skip_ws ?rest = ?rest"
    using dumps_start [of w] 3(4) skip_ws_id [of "json_dumps w"] by (cases xs) simp_all
  ultimately show ?case by (simp add: n)
qed simp

abbreviation member_text :: "string \<times> json \<Rightarrow> string" where
  "member_text \<equiv> \<lambda>(k, v). json_str k @ '': '' @ json_dumps v"

lemma member_read:
  assumes "json_ok v" and "reads v" and "length (member_text (k, v)) \<le> Suc n" and "apart r"
  shows "parse_members (Suc n) (member_text (k, v) @ r) =
    (case skip_ws r of
       [] \<Rightarrow> None
     | c # r \<Rightarrow> if c = CHR ''}'' then Some ([(k, v)], r)
         else if c = CHR '','' then map_option (apfst (Cons (k, v))) (parse_members n (skip_ws r)) else None)"
proof -
  have "parse_value n (json_dumps v @ r) = Some (v, r)" using assms(2-4) by (auto simp: reads_def json_str_def)
  then show ?thesis by (simp add: json_str_def parse_str_written skip_ws_dumps [OF assms(1)])
qed

lemma members_read:
  assumes "kvs \<noteq> []" and "list_all (\<lambda>(k, v). json_ok v) kvs" and "\<And>v. v \<in> snd ` set kvs \<Longrightarrow> reads v"
    and "length (commas (map member_text kvs)) < n"
  shows "parse_members n (commas (map member_text kvs) @ CHR ''}'' # r) = Some (kvs, r)"
  using assms
proof (induction kvs arbitrary: n rule: induct_list012)
  case (2 kv)
  obtain k v m where n: "kv = (k, v)" "n = Suc m" using 2(4) by (cases kv; cases n) auto
  show ?case using member_read [of v k m "CHR ''}'' # r"] 2 by (simp add: n apart_def)
next
  case (3 kv kw kvs)
  obtain k v m where n: "kv = (k, v)" "n = Suc m" using 3(6) by (cases kv; cases n) auto
  let ?rest = "commas (map member_text (kw # kvs)) @ CHR ''}'' # r"
  have "skip_ws ?rest = ?rest" by (cases kw; cases kvs) (simp_all add: json_str_def)
  moreover have "parse_members m ?rest = Some (kw # kvs, r)" using 3 by (auto simp: n)
  ultimately show ?case
    using member_read [of v k m "CHR '','' # CHR '' '' # ?rest"] 3 by (simp add: n apart_def)
qed simp

lemma dict_put_new: "k \<notin> fst ` set kvs \<Longrightarrow> dict_put k v kvs = kvs @ [(k, v)]"
  by (induction kvs) auto

lemma json_dict_distinct: "distinct (map fst kvs) \<Longrightarrow> json_dict kvs = kvs"
proof -
  have "distinct (map fst (us @ kvs)) \<Longrightarrow> fold (\<lambda>(k, v). dict_put k v) kvs us = us @ kvs" for us
  proof (induction kvs arbitrary: us)
    case (Cons kv kvs)
    from Cons.IH [of "us @ [kv]"] Cons.prems show ?case by (cases kv) (simp add: dict_put_new)
  qed simp
  from this [of "[]"] show "distinct (map fst kvs) \<Longrightarrow> json_dict kvs = kvs" by (simp add: json_dict_def)
qed

lemma elems_start:
  assumes "xs \<noteq> []" and "list_all json_ok xs"
  obtains c cs where "commas (map json_dumps xs) = c # cs" "\<not> json_space c" "c \<noteq> CHR '']''"
proof -
  obtain v ys where xs: "xs = v # ys" using assms(1) by (cases xs) auto
  obtain c cs where "json_dumps v = c # cs" "\<not> json_space c" "c \<noteq> CHR '']''"
    using dumps_start [of v] assms(2) by (cases "json_dumps v") (auto simp: xs)
  then show thesis using that by (cases ys) (auto simp: xs)
qed

lemma members_start:
  assumes "kvs \<noteq> []"
  obtains cs where "commas (map member_text kvs) = CHR 0x22 # cs"
proof -
  obtain k v ys where "kvs = (k, v) # ys" using assms by (cases kvs) auto
  then show thesis using that by (cases ys) (auto simp: json_str_def)
qed

lemma parse_value_elems:
  assumes "xs \<noteq> []" and "list_all json_ok xs" and "\<And>v. v \<in> set xs \<Longrightarrow> reads v"
    and "length (json_dumps (JArr xs)) \<le> n"
  shows "parse_value n (json_dumps (JArr xs) @ r) = Some (JArr xs, r)"
proof -
  obtain m where m: "n = Suc m" using assms(4) by (cases n) auto
  have "parse_elems m (commas (map json_dumps xs) @ CHR '']'' # r) = Some (xs, r)"
    by (rule elems_read [OF assms(1-3)]) (use assms(4) in \<open>auto simp: m\<close>)
  moreover obtain c cs where "commas (map json_dumps xs) = c # cs" "\<not> json_space c" "c \<noteq> CHR '']''"
    using elems_start [OF assms(1,2)] by blast
  ultimately show ?thesis by (simp add: m)
qed

lemma parse_value_members:
  assumes "kvs \<noteq> []" and "json_ok (JObj kvs)" and "\<And>v. v \<in> snd ` set kvs \<Longrightarrow> reads v"
    and "length (json_dumps (JObj kvs)) \<le> n"
  shows "parse_value n (json_dumps (JObj kvs) @ r) = Some (JObj kvs, r)"
proof -
  obtain m where m: "n = Suc m" using assms(4) by (cases n) auto
  have "parse_members m (commas (map member_text kvs) @ CHR ''}'' # r) = Some (kvs, r)"
    by (rule members_read [OF assms(1) _ assms(3)]) (use assms(2,4) in \<open>auto simp: m\<close>)
  moreover obtain cs where "commas (map member_text kvs) = CHR 0x22 # cs"
    using members_start [OF assms(1)] by blast
  ultimately show ?thesis using assms(2) by (simp add: m json_dict_distinct)
qed

lemma dumps_reads: "json_ok v \<Longrightarrow> reads v"
proof (induction v)
  case (JNum t)
  show ?case unfolding reads_def
  proof (intro allI impI)
    fix n r assume "length (json_dumps (JNum t)) \<le> n" and r: "apart r"
    with JNum json_num_chars obtain m c cs where m: "n = Suc m" "t = c # cs" by (cases n; cases t) auto
    show "parse_value n (json_dumps (JNum t) @ r) = Some (JNum t, r)"
      using num_start [of t] takeWhile_apart [OF _ r, of t] json_num_chars [of t] JNum by (simp add: m)
  qed
next
  case (JStr t)
  have "parse_value n (json_dumps (JStr t) @ r) = Some (JStr t, r)" if "length (json_dumps (JStr t)) \<le> n" for n r
    using that by (cases n) (simp_all add: json_str_def parse_str_written)
  then show ?case by (simp add: reads_def)
next
  case (JArr xs)
  show ?case
  proof (cases "xs = []")
    case True
    have "parse_value n (json_dumps (JArr []) @ r) = Some (JArr [], r)" if "length (json_dumps (JArr [])) \<le> n" for n r
      using that by (cases n) simp_all
    then show ?thesis by (simp add: reads_def True)
  next
    case False
    with JArr show ?thesis unfolding reads_def
      by (intro allI impI parse_value_elems) (auto simp: reads_def list_all_iff)
  qed
next
  case (JObj kvs)
  show ?case
  proof (cases "kvs = []")
    case True
    have "parse_value n (json_dumps (JObj []) @ r) = Some (JObj [], r)" if "length (json_dumps (JObj [])) \<le> n" for n r
      using that by (cases n) simp_all
    then show ?thesis by (simp add: reads_def True)
  next
    case False
    have v: "reads v" if "v \<in> snd ` set kvs" for v
      using that JObj by (auto simp: list_all_iff)
    show ?thesis unfolding reads_def by (intro allI impI parse_value_members [OF False JObj(2) v])
  qed
next
  case JNull
  have "parse_value n (json_dumps JNull @ r) = Some (JNull, r)" if "length (json_dumps JNull) \<le> n" for n r
    using that by (cases n) (simp_all add: literal_def)
  then show ?case by (simp add: reads_def)
next
  case (JBool b)
  have "parse_value n (json_dumps (JBool b) @ r) = Some (JBool b, r)" if "length (json_dumps (JBool b)) \<le> n" for n r
    using that by (cases n; cases b) (simp_all add: literal_def)
  then show ?case by (simp add: reads_def)
qed

theorem loads_dumps: "json_ok v \<Longrightarrow> json_loads (json_dumps v) = Some v"
proof -
  assume ok: "json_ok v"
  have "parse_value (Suc (length (json_dumps v))) (json_dumps v @ []) = Some (v, [])"
    using dumps_reads [OF ok] le_SucI [OF le_refl] unfolding reads_def by (blast intro: apart_Nil)
  then show ?thesis using skip_ws_dumps [OF ok, of "[]"] by (simp add: json_loads_def skip_ws_def del: parse_value.simps)
qed

text \<open>The literal of an int is one \<open>dumps\<close> writes.\<close>

lemma nat_str_leading: "0 < n \<Longrightarrow> hd (nat_str n) \<noteq> CHR ''0''"
proof (induction n rule: nat_str.induct)
  case (1 n)
  have "(of_char (digit_char n) :: nat) \<noteq> of_char (CHR ''0'')" if "n < 10" "0 < n"
    using that by (simp add: of_char_digit)
  with 1 show ?case by (subst nat_str.simps) auto
qed

lemma json_num_int: "json_num_ok (int_str i)"
proof -
  have nat: "takeWhile is_digit (nat_str n) = nat_str n" "dropWhile is_digit (nat_str n) = []" for n
    using nat_str_digits [of n] by (simp_all add: list_all_iff)
  have zero: "hd (nat_str n) = CHR ''0'' \<Longrightarrow> length (nat_str n) = 1" for n
    using nat_str_leading [of n] by (cases "n = 0") (simp_all add: nat_str.simps [of 0])
  have u: "(case nat_str n of c # cs \<Rightarrow> if c = CHR ''-'' then cs else nat_str n | [] \<Rightarrow> nat_str n) = nat_str n" for n
    using nat_str_no_minus [of n] by (auto split: list.split)
  have "json_num_ok (nat_str n)" for n
    unfolding json_num_ok_def u Let_def nat using zero [of n] by (simp add: frac_ok_def)
  moreover have "json_num_ok (CHR ''-'' # nat_str n)" for n
    using zero [of n] by (simp add: json_num_ok_def Let_def nat frac_ok_def)
  ultimately show ?thesis by (simp add: int_str_def)
qed

end
