(* ===== verification/Errors.thy ===== *)
theory Errors
  imports Json
begin

section \<open>Exceptions and the backend-error boundary\<close>

text \<open>
  \<open>src/redis_semaphore/errors.py\<close>: the exception classes of the library, the translation of
  redis-py exceptions into them, and the context manager \<open>backend_errors\<close> through which every
  public method runs. An exception is a value of \<open>py_exn\<close>; a block that may raise has a result
  in \<open>py_exn + 'a\<close>. The texts of the library's messages are left out where no code reads them.
\<close>

subsection \<open>Exceptions raised outside the library\<close>

text \<open>
  An exception of redis-py or of the standard library is its class name, the names of its class
  and of all its base classes, and \<open>str(exc)\<close>. \<open>isinstance\<close> asks for a name in the base classes,
  so no class hierarchy of redis-py is fixed here.
\<close>

record raw_exn =
  exn_class :: string
  exn_bases :: "string list"
  exn_text :: string

definition isinstance :: "raw_exn \<Rightarrow> string \<Rightarrow> bool" where
  "isinstance e c \<longleftrightarrow> c \<in> set (exn_bases e)"

subsection \<open>Exceptions of the library\<close>

datatype backend_class = BackendError | TransientBackendError | PermanentBackendError
  | RedisConnectionError | CommandDeniedError

fun is_transient_class :: "backend_class \<Rightarrow> bool" where
  "is_transient_class BackendError = False"
| "is_transient_class TransientBackendError = True"
| "is_transient_class PermanentBackendError = False"
| "is_transient_class RedisConnectionError = True"
| "is_transient_class CommandDeniedError = False"

text \<open>\<open>isinstance(exc, PermanentBackendError)\<close>: the class itself and its subclass.\<close>

fun is_permanent_class :: "backend_class \<Rightarrow> bool" where
  "is_permanent_class PermanentBackendError = True"
| "is_permanent_class CommandDeniedError = True"
| "is_permanent_class _ = False"

record backend_error =
  be_class :: backend_class
  be_message :: string
  be_operation :: "string option"
  be_name :: "string option"
  be_original :: "raw_exn option"

definition is_transient :: "backend_error \<Rightarrow> bool" where
  "is_transient b = is_transient_class (be_class b)"

datatype sem_error =
    AcquireError
  | AcquireTimeoutError
  | RateLimitTimeoutError (rl_retry_after: real)
  | AlreadyAcquiredError
  | NotAcquiredError
  | LockLostError (lost_identifier: string)
  | MixedModeError
  | QueueFullError
  | JobTimeoutError
  | JobFailedError (jf_error_type: json) (jf_message: json) (jf_data: json)
  | Backend backend_error

text \<open>What a block can raise: an error of the library, an exception from outside, or one of the
  built-in exceptions the library raises itself.\<close>

datatype py_exn =
    SemError sem_error
  | RawExn raw_exn
  | PyValueError
  | PyTypeError
  | PyRuntimeError
  | PyOverflowError

subsection \<open>Translation of redis-py exceptions\<close>

definition starts_with :: "string \<Rightarrow> string \<Rightarrow> bool" where
  "starts_with t p \<longleftrightarrow> take (length p) t = p"

definition map_backend_error :: "raw_exn \<Rightarrow> string option \<Rightarrow> string option \<Rightarrow> backend_error" where
  "map_backend_error exc operation name =
     (let message = (if exn_text exc \<noteq> [] then exn_text exc else exn_class exc);
          mk = (\<lambda>c. \<lparr>be_class = c, be_message = message, be_operation = operation,
                      be_name = name, be_original = Some exc\<rparr>)
      in if isinstance exc ''NoPermissionError'' then mk CommandDeniedError
         else if isinstance exc ''ReadOnlyError'' then mk RedisConnectionError
         else if isinstance exc ''ResponseError'' \<and> starts_with message ''UNBLOCKED''
         then mk RedisConnectionError
         else if isinstance exc ''ConnectionError'' \<or> isinstance exc ''TimeoutError'' \<or>
                 isinstance exc ''OSError''
         then mk RedisConnectionError
         else if isinstance exc ''ResponseError'' then mk CommandDeniedError
         else mk PermanentBackendError)"

text \<open>The context manager: what the block raised, as the caller of the block sees it.\<close>

definition backend_errors :: "string \<Rightarrow> string option \<Rightarrow> py_exn + 'a \<Rightarrow> py_exn + 'a" where
  "backend_errors operation name body =
     (case body of
        Inr a \<Rightarrow> Inr a
      | Inl (SemError e) \<Rightarrow> Inl (SemError e)
      | Inl (RawExn exc) \<Rightarrow>
          if isinstance exc ''RedisError'' \<or> isinstance exc ''OSError''
          then Inl (SemError (Backend (map_backend_error exc (Some operation) name)))
          else Inl (RawExn exc)
      | Inl e \<Rightarrow> Inl e)"

text \<open>\<open>RequeueJob(delay)\<close>: a negative delay is refused.\<close>

definition requeue_job :: "real \<Rightarrow> py_exn + real" where
  "requeue_job delay = (if delay < 0 then Inl PyValueError else Inr delay)"

text \<open>\<open>JobFailedError(error_type, message, data)\<close>: data that Python takes for false is the empty dict.\<close>

fun json_truth :: "json \<Rightarrow> bool" where
  "json_truth JNull = False"
| "json_truth (JBool b) = b"
| "json_truth (JNum t) = list_ex (\<lambda>c. is_digit c \<and> c \<noteq> CHR ''0'') (takeWhile (\<lambda>c. c \<noteq> CHR ''e'' \<and> c \<noteq> CHR ''E'') t)"
| "json_truth (JStr t) = (t \<noteq> [])"
| "json_truth (JArr xs) = (xs \<noteq> [])"
| "json_truth (JObj kvs) = (kvs \<noteq> [])"

definition job_failed_error :: "json \<Rightarrow> json \<Rightarrow> json \<Rightarrow> sem_error" where
  "job_failed_error error_type message data =
     JobFailedError error_type message (if json_truth data then data else JObj [])"

text \<open>\<open>_is_permanent_backend_error\<close> of \<open>semaphore.py\<close>, the heartbeat's predicate.\<close>

definition is_permanent_backend_error :: "py_exn \<Rightarrow> bool" where
  "is_permanent_backend_error e =
     (case e of SemError (Backend b) \<Rightarrow> is_permanent_class (be_class b) | _ \<Rightarrow> False)"

text \<open>\<open>except Exception\<close> does not catch CancelledError.\<close>

definition is_exception :: "py_exn \<Rightarrow> bool" where
  "is_exception e \<longleftrightarrow> (case e of RawExn x \<Rightarrow> isinstance x ''Exception'' | _ \<Rightarrow> True)"

text \<open>What \<open>.get\<close> raises on a value that is not a dict.\<close>

definition attribute_error :: py_exn where
  "attribute_error = RawExn \<lparr>exn_class = ''AttributeError'', exn_bases = [''AttributeError'', ''Exception''], exn_text = []\<rparr>"

subsection \<open>Facts\<close>

lemma backend_errors_Inr [simp]: "backend_errors op nm (Inr a) = Inr a"
  by (simp add: backend_errors_def)

lemma backend_errors_eq_Inr [simp]: "backend_errors op nm b = Inr a \<longleftrightarrow> b = Inr a"
  by (auto simp: backend_errors_def split: sum.split py_exn.split)

lemma backend_errors_SemError [simp]:
  "backend_errors op nm (Inl (SemError e)) = Inl (SemError e)"
  by (simp add: backend_errors_def)

lemma map_backend_error_fields [simp]:
  "be_operation (map_backend_error e op nm) = op"
  "be_name (map_backend_error e op nm) = nm"
  "be_original (map_backend_error e op nm) = Some e"
  by (simp_all add: map_backend_error_def Let_def)

lemma mapped_transient_or_permanent:
  "is_permanent_class (be_class (map_backend_error e op nm)) \<longleftrightarrow>
     \<not> is_transient (map_backend_error e op nm)"
  by (simp add: map_backend_error_def Let_def is_transient_def)

text \<open>Which redis-py exceptions are worth a retry: exactly connection failures, timeouts,
  operating system errors, replica write rejections and server-side unblocks, and never an ACL
  rejection.\<close>

theorem transient_errors_exactly:
  "is_transient (map_backend_error exc operation name) \<longleftrightarrow>
     \<not> isinstance exc ''NoPermissionError'' \<and>
     (isinstance exc ''ReadOnlyError'' \<or> isinstance exc ''ConnectionError'' \<or>
      isinstance exc ''TimeoutError'' \<or> isinstance exc ''OSError'' \<or>
      (isinstance exc ''ResponseError'' \<and>
       starts_with (if exn_text exc \<noteq> [] then exn_text exc else exn_class exc) ''UNBLOCKED''))"
  by (simp add: map_backend_error_def Let_def is_transient_def)

text \<open>Nothing of redis-py leaves a public method: what leaves the block is the block's own
  value, an exception of the library (passed through unchanged if the block raised one), or an
  exception that is neither a redis-py error nor an operating system error.\<close>

theorem backend_errors_boundary:
  "case backend_errors operation name body of
     Inr a \<Rightarrow> body = Inr a
   | Inl (SemError e) \<Rightarrow> body = Inl (SemError e) \<or>
       (\<exists>exc. body = Inl (RawExn exc) \<and>
          e = Backend (map_backend_error exc (Some operation) name))
   | Inl (RawExn exc) \<Rightarrow> body = Inl (RawExn exc) \<and> \<not> isinstance exc ''RedisError'' \<and>
       \<not> isinstance exc ''OSError''
   | Inl e \<Rightarrow> body = Inl e"
  by (auto simp: backend_errors_def split: sum.split py_exn.split)

end
