(* ===== verification/ScriptRunner.thy ===== *)
theory ScriptRunner
  imports RateScripts DispatchScripts Errors
begin

section \<open>Calling the scripts: registry, adapter, typed helpers\<close>

text \<open>
  The rest of \<open>src/redis_semaphore/lua_scripts.py\<close>: the registry of scripts and their SHAs, the
  adapter that calls EVALSHA and falls back to EVAL, the typed helpers that lay out the arguments
  and read the replies. The redis-py client and SHA1 are parameters. A script call takes and
  returns the world \<open>'w\<close> the client acts on.
\<close>

subsection \<open>Python values of replies\<close>

datatype pyobj = PNone | PBool bool | PInt int | PFloat real | PStr string | PBytes string
  | PList "pyobj list"

text \<open>What redis-py makes of a reply; strings are decoded when the client is set to.\<close>

fun py_of_resp :: "bool \<Rightarrow> resp \<Rightarrow> pyobj" where
  "py_of_resp decode (RInt i) = PInt i"
| "py_of_resp decode (RBulk t) = (if decode then PStr t else PBytes t)"
| "py_of_resp decode RNil = PNone"
| "py_of_resp decode (RArr rs) = PList (map (py_of_resp decode) rs)"

text \<open>
  \<open>int(text)\<close>: surrounding white space, a sign, decimal digits with single underscores between
  them. Anything else is a \<open>ValueError\<close>.
\<close>

definition is_space :: "char \<Rightarrow> bool" where
  "is_space c \<longleftrightarrow> (of_char c :: nat) \<in> {9, 10, 11, 12, 13, 32}"

definition strip :: "string \<Rightarrow> string" where
  "strip t = rev (dropWhile is_space (rev (dropWhile is_space t)))"

fun digit_groups :: "string \<Rightarrow> bool" where
  "digit_groups [] = False"
| "digit_groups [c] = is_digit c"
| "digit_groups (c # d # ds) = (is_digit c \<and> (if d = CHR ''_'' then digit_groups ds else digit_groups (d # ds)))"

definition int_of_text :: "string \<Rightarrow> py_exn + int" where
  "int_of_text text =
     (let t = strip text;
          negative = (t \<noteq> [] \<and> hd t = CHR ''-'');
          ds = (if t \<noteq> [] \<and> (hd t = CHR ''-'' \<or> hd t = CHR ''+'') then tl t else t)
      in if digit_groups ds
         then Inr ((if negative then - 1 else 1) * int (digits_val (filter is_digit ds)))
         else Inl PyValueError)"

fun to_int :: "pyobj \<Rightarrow> py_exn + int" where
  "to_int (PBytes t) = (if t = [] then Inr 0 else int_of_text t)"
| "to_int (PStr t) = (if t = [] then Inr 0 else int_of_text t)"
| "to_int (PInt i) = Inr i"
| "to_int (PBool b) = Inr (if b then 1 else 0)"
| "to_int (PFloat x) = Inr (py_int x)"
| "to_int PNone = Inl PyTypeError"
| "to_int (PList xs) = Inl PyTypeError"

fun to_bool :: "pyobj \<Rightarrow> py_exn + bool" where
  "to_bool (PBytes t) = (if t = [] then Inr False else map_sum id (\<lambda>i. i \<noteq> 0) (int_of_text t))"
| "to_bool (PStr t) = (if t = [] then Inr False else map_sum id (\<lambda>i. i \<noteq> 0) (int_of_text t))"
| "to_bool (PInt i) = Inr (i \<noteq> 0)"
| "to_bool (PBool b) = Inr b"
| "to_bool (PFloat x) = Inr (x \<noteq> 0)"
| "to_bool PNone = Inr False"
| "to_bool (PList xs) = Inr (xs \<noteq> [])"

fun to_optional_int :: "pyobj \<Rightarrow> py_exn + int option" where
  "to_optional_int PNone = Inr None"
| "to_optional_int (PBytes t) = (if t = [] then Inr None else map_sum id Some (int_of_text t))"
| "to_optional_int (PStr t) = (if t = [] then Inr None else map_sum id Some (int_of_text t))"
| "to_optional_int (PInt i) = Inr (Some i)"
| "to_optional_int (PBool b) = Inr (Some (if b then 1 else 0))"
| "to_optional_int (PFloat x) = Inr (Some (py_int x))"
| "to_optional_int (PList xs) = Inl PyTypeError"

text \<open>\<open>bool(result)\<close>, which release uses on the raw reply.\<close>

fun py_truth :: "pyobj \<Rightarrow> bool" where
  "py_truth PNone = False"
| "py_truth (PBool b) = b"
| "py_truth (PInt i) = (i \<noteq> 0)"
| "py_truth (PFloat x) = (x \<noteq> 0)"
| "py_truth (PStr t) = (t \<noteq> [])"
| "py_truth (PBytes t) = (t \<noteq> [])"
| "py_truth (PList xs) = (xs \<noteq> [])"

text \<open>The text of an optional string reply; the representation of other types is a parameter.\<close>

fun to_optional_str :: "(pyobj \<Rightarrow> string) \<Rightarrow> pyobj \<Rightarrow> string option" where
  "to_optional_str repr PNone = None"
| "to_optional_str repr (PBytes t) = Some t"
| "to_optional_str repr (PStr t) = Some t"
| "to_optional_str repr v = Some (repr v)"

text \<open>Sequencing of steps that may raise, and reading a list until the first that raises.\<close>

definition py_bind :: "py_exn + 'a \<Rightarrow> ('a \<Rightarrow> py_exn + 'b) \<Rightarrow> py_exn + 'b" where
  "py_bind m f = (case m of Inl e \<Rightarrow> Inl e | Inr a \<Rightarrow> f a)"

fun py_map :: "('a \<Rightarrow> py_exn + 'b) \<Rightarrow> 'a list \<Rightarrow> py_exn + 'b list" where
  "py_map f [] = Inr []"
| "py_map f (x # xs) = py_bind (f x) (\<lambda>y. py_bind (py_map f xs) (\<lambda>ys. Inr (y # ys)))"

lemma py_bind_simps [simp]: "py_bind (Inl e) f = Inl e" "py_bind (Inr a) f = f a"
  by (simp_all add: py_bind_def)

fun parse_acquire_result :: "pyobj \<Rightarrow> py_exn + (bool \<times> int option \<times> int option \<times> int)" where
  "parse_acquire_result (PList [success_raw, fencing_raw, expires_raw, count_raw]) =
     py_bind (to_bool success_raw) (\<lambda>success.
     py_bind (to_optional_int fencing_raw) (\<lambda>fencing.
     py_bind (to_optional_int expires_raw) (\<lambda>expires.
     py_bind (to_int count_raw) (\<lambda>count. Inr (success, fencing, expires, count)))))"
| "parse_acquire_result _ = Inl PyValueError"

fun parse_status_result :: "pyobj \<Rightarrow> py_exn + (int \<times> bool \<times> int option)" where
  "parse_status_result (PList [count_raw, is_owner_raw, expires_raw]) =
     py_bind (to_int count_raw) (\<lambda>count.
     py_bind (to_bool is_owner_raw) (\<lambda>is_owner.
     py_bind (to_optional_int expires_raw) (\<lambda>expires. Inr (count, is_owner, expires))))"
| "parse_status_result _ = Inl PyValueError"

definition parse_rate_acquire_result ::
  "pyobj \<Rightarrow> nat \<Rightarrow> py_exn + (bool \<times> int \<times> int \<times> int list)" where
  "parse_rate_acquire_result result n =
     (case result of
        PList xs \<Rightarrow>
          if length xs \<noteq> 3 + n then Inl PyValueError
          else py_bind (to_bool (xs ! 0)) (\<lambda>success.
               py_bind (to_int (xs ! 1)) (\<lambda>retry_after_ms.
               py_bind (to_int (xs ! 2)) (\<lambda>now_ms.
               py_bind (py_map to_int (drop 3 xs)) (\<lambda>used. Inr (success, retry_after_ms, now_ms, used)))))
      | _ \<Rightarrow> Inl PyValueError)"

definition parse_int_list :: "pyobj \<Rightarrow> nat \<Rightarrow> py_exn + int list" where
  "parse_int_list result n =
     (case result of
        PList xs \<Rightarrow> if length xs \<noteq> n then Inl PyValueError else py_map to_int xs
      | _ \<Rightarrow> Inl PyValueError)"

subsection \<open>Scripts, registry, adapter\<close>

datatype lua_script = ACQUIRE_SCRIPT | RELEASE_SCRIPT | REFRESH_SCRIPT | CLEANUP_SCRIPT
  | STATUS_SCRIPT | RATE_ACQUIRE_SCRIPT | RATE_ADJUST_SCRIPT | RATE_STATUS_SCRIPT
  | DISPATCH_ENQUEUE_SCRIPT | DISPATCH_STATUS_SCRIPT

definition SCRIPTS :: "(string \<times> lua_script) list" where
  "SCRIPTS = [(''acquire'', ACQUIRE_SCRIPT), (''release'', RELEASE_SCRIPT),
     (''refresh'', REFRESH_SCRIPT), (''cleanup'', CLEANUP_SCRIPT), (''status'', STATUS_SCRIPT),
     (''rate_acquire'', RATE_ACQUIRE_SCRIPT), (''rate_adjust'', RATE_ADJUST_SCRIPT),
     (''rate_status'', RATE_STATUS_SCRIPT), (''dispatch_enqueue'', DISPATCH_ENQUEUE_SCRIPT),
     (''dispatch_status'', DISPATCH_STATUS_SCRIPT)]"

definition get_script :: "string \<Rightarrow> py_exn + lua_script" where
  "get_script name = (case map_of SCRIPTS name of None \<Rightarrow> Inl PyValueError | Some sc \<Rightarrow> Inr sc)"

definition get_sha :: "(lua_script \<Rightarrow> string) \<Rightarrow> string \<Rightarrow> py_exn + string" where
  "get_sha sha1 name =
     (case map_of (map (\<lambda>(n, sc). (n, sha1 sc)) SCRIPTS) name of
        None \<Rightarrow> Inl PyValueError | Some h \<Rightarrow> Inr h)"

definition script_for_sha :: "(lua_script \<Rightarrow> string) \<Rightarrow> string \<Rightarrow> py_exn + lua_script" where
  "script_for_sha sha1 h =
     (case find (\<lambda>sc. sha1 sc = h) (map snd SCRIPTS) of None \<Rightarrow> Inl PyValueError | Some sc \<Rightarrow> Inr sc)"

text \<open>A script argument: an integer is sent as its decimal text.\<close>

datatype script_arg = AInt int | AStr string

fun arg_text :: "script_arg \<Rightarrow> string" where
  "arg_text (AInt i) = int_str i"
| "arg_text (AStr t) = t"

text \<open>The client's two script calls: SHA or script, number of keys, keys and arguments.\<close>

record 'w script_client =
  cl_is_async :: bool
  cl_evalsha :: "string \<Rightarrow> nat \<Rightarrow> script_arg list \<Rightarrow> 'w \<Rightarrow> (py_exn + pyobj) \<times> 'w"
  cl_eval :: "lua_script \<Rightarrow> nat \<Rightarrow> script_arg list \<Rightarrow> 'w \<Rightarrow> (py_exn + pyobj) \<times> 'w"

fun is_no_script :: "py_exn \<Rightarrow> bool" where
  "is_no_script (RawExn e) = isinstance e ''NoScriptError''"
| "is_no_script _ = False"

text \<open>EVALSHA, and on NOSCRIPT EVAL with the script of that SHA.\<close>

definition evalsha_or_eval ::
  "(lua_script \<Rightarrow> string) \<Rightarrow> 'w script_client \<Rightarrow> string \<Rightarrow> nat \<Rightarrow> script_arg list \<Rightarrow> 'w \<Rightarrow> (py_exn + pyobj) \<times> 'w"
where
  "evalsha_or_eval sha1 C h numkeys args w =
     (case cl_evalsha C h numkeys args w of
        (Inr r, w) \<Rightarrow> (Inr r, w)
      | (Inl e, w) \<Rightarrow>
          if is_no_script e then
            (case script_for_sha sha1 h of
               Inl e' \<Rightarrow> (Inl e', w)
             | Inr sc \<Rightarrow> cl_eval C sc numkeys args w)
          else (Inl e, w))"

definition evalsha ::
  "(lua_script \<Rightarrow> string) \<Rightarrow> 'w script_client \<Rightarrow> string \<Rightarrow> nat \<Rightarrow> script_arg list \<Rightarrow> 'w \<Rightarrow> (py_exn + pyobj) \<times> 'w"
where
  "evalsha sha1 C h numkeys args w =
     (if cl_is_async C then (Inl PyRuntimeError, w) else evalsha_or_eval sha1 C h numkeys args w)"

definition aevalsha ::
  "(lua_script \<Rightarrow> string) \<Rightarrow> 'w script_client \<Rightarrow> string \<Rightarrow> nat \<Rightarrow> script_arg list \<Rightarrow> 'w \<Rightarrow> (py_exn + pyobj) \<times> 'w"
where
  "aevalsha sha1 C h numkeys args w =
     (if \<not> cl_is_async C then (Inl PyRuntimeError, w) else evalsha_or_eval sha1 C h numkeys args w)"

subsection \<open>Typed helpers\<close>

definition script_call ::
  "(lua_script \<Rightarrow> string) \<Rightarrow> (string \<Rightarrow> nat \<Rightarrow> script_arg list \<Rightarrow> 'w \<Rightarrow> (py_exn + pyobj) \<times> 'w) \<Rightarrow>
   string \<Rightarrow> key list \<Rightarrow> script_arg list \<Rightarrow> (pyobj \<Rightarrow> py_exn + 'a) \<Rightarrow> 'w \<Rightarrow> (py_exn + 'a) \<times> 'w"
where
  "script_call sha1 call name keys args parse w =
     (case get_sha sha1 name of
        Inl e \<Rightarrow> (Inl e, w)
      | Inr h \<Rightarrow>
          (case call h (length keys) (map AStr keys @ args) w of
             (Inl e, w) \<Rightarrow> (Inl e, w)
           | (Inr r, w) \<Rightarrow> (parse r, w)))"

text \<open>The time argument: milliseconds, or the empty string for server time.\<close>

definition now_arg :: "ms option \<Rightarrow> script_arg" where
  "now_arg now_ms = (case now_ms of None \<Rightarrow> AStr [] | Some n \<Rightarrow> AInt n)"

text \<open>\<open>_flatten\<close>\<close>

definition flatten :: "(int \<times> int \<times> int) list \<Rightarrow> script_arg list" where
  "flatten rows = concat (map (\<lambda>(a, b, c). [AInt a, AInt b, AInt c]) rows)"

definition runner_acquire where
  "runner_acquire sha1 C owners_key fencing_key identifier limit lock_timeout_ms now_ms =
     script_call sha1 (evalsha sha1 C) ''acquire'' [owners_key, fencing_key]
       [AStr identifier, AInt limit, AInt lock_timeout_ms, now_arg now_ms] parse_acquire_result"

definition runner_release where
  "runner_release sha1 C owners_key identifier =
     script_call sha1 (evalsha sha1 C) ''release'' [owners_key] [AStr identifier]
       (\<lambda>r. Inr (py_truth r))"

definition runner_refresh where
  "runner_refresh sha1 C owners_key identifier lock_timeout_ms now_ms =
     script_call sha1 (evalsha sha1 C) ''refresh'' [owners_key]
       [AStr identifier, AInt lock_timeout_ms, now_arg now_ms] to_int"

definition runner_acquire_async where
  "runner_acquire_async sha1 C owners_key fencing_key identifier limit lock_timeout_ms now_ms =
     script_call sha1 (aevalsha sha1 C) ''acquire'' [owners_key, fencing_key]
       [AStr identifier, AInt limit, AInt lock_timeout_ms, now_arg now_ms] parse_acquire_result"

definition runner_release_async where
  "runner_release_async sha1 C owners_key identifier =
     script_call sha1 (aevalsha sha1 C) ''release'' [owners_key] [AStr identifier]
       (\<lambda>r. Inr (py_truth r))"

definition runner_refresh_async where
  "runner_refresh_async sha1 C owners_key identifier lock_timeout_ms now_ms =
     script_call sha1 (aevalsha sha1 C) ''refresh'' [owners_key]
       [AStr identifier, AInt lock_timeout_ms, now_arg now_ms] to_int"

definition runner_cleanup where
  "runner_cleanup sha1 C owners_key now_ms =
     script_call sha1 (evalsha sha1 C) ''cleanup'' [owners_key] [now_arg now_ms] to_int"

definition runner_cleanup_async where
  "runner_cleanup_async sha1 C owners_key now_ms =
     script_call sha1 (aevalsha sha1 C) ''cleanup'' [owners_key] [now_arg now_ms] to_int"

definition runner_status where
  "runner_status sha1 C owners_key now_ms identifier =
     script_call sha1 (evalsha sha1 C) ''status'' [owners_key]
       [now_arg now_ms, AStr (case identifier of None \<Rightarrow> [] | Some x \<Rightarrow> x)] parse_status_result"

definition runner_status_async where
  "runner_status_async sha1 C owners_key now_ms identifier =
     script_call sha1 (aevalsha sha1 C) ''status'' [owners_key]
       [now_arg now_ms, AStr (case identifier of None \<Rightarrow> [] | Some x \<Rightarrow> x)] parse_status_result"

definition runner_rate_acquire where
  "runner_rate_acquire sha1 C keys identifier now_ms limits =
     script_call sha1 (evalsha sha1 C) ''rate_acquire'' keys
       (AStr identifier # now_arg now_ms # flatten limits)
       (\<lambda>r. parse_rate_acquire_result r (length limits))"

definition runner_rate_acquire_async where
  "runner_rate_acquire_async sha1 C keys identifier now_ms limits =
     script_call sha1 (aevalsha sha1 C) ''rate_acquire'' keys
       (AStr identifier # now_arg now_ms # flatten limits)
       (\<lambda>r. parse_rate_acquire_result r (length limits))"

definition runner_rate_adjust where
  "runner_rate_adjust sha1 C keys identifier now_ms acquired_at_ms changes =
     script_call sha1 (evalsha sha1 C) ''rate_adjust'' keys
       (AStr identifier # now_arg now_ms # AInt acquired_at_ms # flatten changes)
       (\<lambda>r. parse_int_list r (length changes))"

definition runner_rate_adjust_async where
  "runner_rate_adjust_async sha1 C keys identifier now_ms acquired_at_ms changes =
     script_call sha1 (aevalsha sha1 C) ''rate_adjust'' keys
       (AStr identifier # now_arg now_ms # AInt acquired_at_ms # flatten changes)
       (\<lambda>r. parse_int_list r (length changes))"

definition runner_rate_status where
  "runner_rate_status sha1 C keys now_ms windows_ms =
     script_call sha1 (evalsha sha1 C) ''rate_status'' keys (now_arg now_ms # map AInt windows_ms)
       (\<lambda>r. parse_int_list r (length windows_ms))"

definition runner_rate_status_async where
  "runner_rate_status_async sha1 C keys now_ms windows_ms =
     script_call sha1 (aevalsha sha1 C) ''rate_status'' keys (now_arg now_ms # map AInt windows_ms)
       (\<lambda>r. parse_int_list r (length windows_ms))"

definition runner_dispatch_enqueue where
  "runner_dispatch_enqueue sha1 C repr stream_key marker_key max_size marker_ttl_ms job_id payload timeout_ms =
     script_call sha1 (evalsha sha1 C) ''dispatch_enqueue'' [stream_key, marker_key]
       [AInt max_size, AInt marker_ttl_ms, now_arg timeout_ms, AStr job_id, AStr payload]
       (\<lambda>r. Inr (to_optional_str repr r))"

definition runner_dispatch_enqueue_async where
  "runner_dispatch_enqueue_async sha1 C repr stream_key marker_key max_size marker_ttl_ms job_id payload timeout_ms =
     script_call sha1 (aevalsha sha1 C) ''dispatch_enqueue'' [stream_key, marker_key]
       [AInt max_size, AInt marker_ttl_ms, now_arg timeout_ms, AStr job_id, AStr payload]
       (\<lambda>r. Inr (to_optional_str repr r))"

definition runner_dispatch_status where
  "runner_dispatch_status sha1 C stream_key grp =
     script_call sha1 (evalsha sha1 C) ''dispatch_status'' [stream_key] [AStr grp]
       (\<lambda>r. py_bind (parse_int_list r 3) (\<lambda>values. Inr (values ! 0, values ! 1, values ! 2)))"

definition runner_dispatch_status_async where
  "runner_dispatch_status_async sha1 C stream_key grp =
     script_call sha1 (aevalsha sha1 C) ''dispatch_status'' [stream_key] [AStr grp]
       (\<lambda>r. py_bind (parse_int_list r 3) (\<lambda>values. Inr (values ! 0, values ! 1, values ! 2)))"

subsection \<open>What the server runs for a call\<close>

text \<open>
  The scripts read \<open>KEYS\<close> and \<open>ARGV\<close> as texts: \<open>tonumber\<close> of the numbers, the empty string for
  server time, one triple of arguments for each pair of keys. \<open>None\<close> where a number is missing: the
  script raises a Lua error.
\<close>

definition lua_now :: "string \<Rightarrow> ms option option" where
  "lua_now a = (if a = [] then Some None else map_option Some (str_int a))"

fun lua_charges :: "key list \<Rightarrow> string list \<Rightarrow> rate_charge list option" where
  "lua_charges (lk # tk # ks) (lm # win # c # args) =
     (case (str_int lm, str_int win, str_int c, lua_charges ks args) of
        (Some lm, Some win, Some c, Some ls) \<Rightarrow>
          Some (\<lparr>log_key = lk, total_key = tk, window_ms = win, limit_units = lm, cost = c\<rparr> # ls)
      | _ \<Rightarrow> None)"
| "lua_charges [] args = Some []"
| "lua_charges _ _ = None"

fun lua_changes :: "key list \<Rightarrow> string list \<Rightarrow> rate_change list option" where
  "lua_changes (lk # tk # ks) (win # old # new # args) =
     (case (str_int win, str_int old, str_int new, lua_changes ks args) of
        (Some win, Some old, Some new, Some ls) \<Rightarrow>
          Some (\<lparr>log_key = lk, total_key = tk, window_ms = win, old_cost = old, new_cost = new\<rparr> # ls)
      | _ \<Rightarrow> None)"
| "lua_changes [] args = Some []"
| "lua_changes _ _ = None"

fun lua_windows :: "key list \<Rightarrow> string list \<Rightarrow> rate_keys list option" where
  "lua_windows (lk # tk # ks) (win # args) =
     (case (str_int win, lua_windows ks args) of
        (Some win, Some ls) \<Rightarrow> Some (\<lparr>log_key = lk, total_key = tk, window_ms = win\<rparr> # ls)
      | _ \<Rightarrow> None)"
| "lua_windows [] args = Some []"
| "lua_windows _ _ = None"

definition lua_run ::
  "'s redis_api \<Rightarrow> lua_script \<Rightarrow> key list \<Rightarrow> string list \<Rightarrow> 's \<Rightarrow> resp option \<times> 's" where
  "lua_run R sc keys argv s =
     (case (sc, keys, argv) of
        (ACQUIRE_SCRIPT, [ok, fk], [x, lm, lt, now]) \<Rightarrow>
          (case (str_int lm, str_int lt, lua_now now) of
             (Some lm, Some lt, Some now) \<Rightarrow> map_prod Some id (acquire_script R ok fk x lm lt now s)
           | _ \<Rightarrow> (None, s))
      | (RELEASE_SCRIPT, [ok], [x]) \<Rightarrow> map_prod Some id (release_script R ok x s)
      | (REFRESH_SCRIPT, [ok], [x, lt, now]) \<Rightarrow>
          (case (str_int lt, lua_now now) of
             (Some lt, Some now) \<Rightarrow> map_prod Some id (refresh_script R ok x lt now s)
           | _ \<Rightarrow> (None, s))
      | (CLEANUP_SCRIPT, [ok], [now]) \<Rightarrow>
          (case lua_now now of
             Some now \<Rightarrow> map_prod Some id (cleanup_script R ok now s) | None \<Rightarrow> (None, s))
      | (STATUS_SCRIPT, [ok], [now, x]) \<Rightarrow>
          (case lua_now now of
             Some now \<Rightarrow> map_prod Some id (status_script R ok now x s) | None \<Rightarrow> (None, s))
      | (RATE_ACQUIRE_SCRIPT, keys, x # now # args) \<Rightarrow>
          (case (lua_now now, lua_charges keys args) of
             (Some now, Some ls) \<Rightarrow> rate_acquire_script R ls x now s | _ \<Rightarrow> (None, s))
      | (RATE_ADJUST_SCRIPT, keys, x # now # adm # args) \<Rightarrow>
          (case (lua_now now, str_int adm, lua_changes keys args) of
             (Some now, Some adm, Some ls) \<Rightarrow> rate_adjust_script R ls x now adm s | _ \<Rightarrow> (None, s))
      | (RATE_STATUS_SCRIPT, keys, now # args) \<Rightarrow>
          (case (lua_now now, lua_windows keys args) of
             (Some now, Some ls) \<Rightarrow> rate_status_script R ls now s | _ \<Rightarrow> (None, s))
      | (DISPATCH_ENQUEUE_SCRIPT, [sk, mk], [mx, ttl, to, jid, pl]) \<Rightarrow>
          (case (str_int mx, str_int ttl) of
             (Some mx, Some ttl) \<Rightarrow>
               map_prod Some id (dispatch_enqueue_script R sk mk mx ttl (str_int to) jid pl s)
           | _ \<Rightarrow> (None, s))
      | (DISPATCH_STATUS_SCRIPT, [sk], [grp]) \<Rightarrow> (dispatch_status_script R sk grp s, s)
      | _ \<Rightarrow> (None, s))"

end
