(* ===== verification/RunnerProps.thy ===== *)
theory RunnerProps
  imports ScriptRunner SemSystem RateRuns
begin

section \<open>A script call reaches its script and comes back\<close>

text \<open>
  The interface \<open>script_server\<close> states what redis-py and the server promise for EVALSHA and EVAL.
  Over it, the typed helpers run exactly the script they name, on the keys and arguments they were
  given, and read its reply back, whether or not the server has the script in its cache and
  whether or not the client decodes replies.
\<close>

subsection \<open>Texts of integers\<close>

lemma digit_not_special [simp]:
  "is_digit c \<Longrightarrow> \<not> is_space c" "is_digit c \<Longrightarrow> c \<noteq> CHR ''_''" "is_digit c \<Longrightarrow> c \<noteq> CHR ''-''"
  "is_digit c \<Longrightarrow> c \<noteq> CHR ''+''"
  by (auto simp: is_digit_def is_space_def)

lemma dash_not_space [simp]: "\<not> is_space (CHR ''-'')"
  by (simp add: is_space_def)

lemma digit_groups_digits: "list_all is_digit ds \<Longrightarrow> ds \<noteq> [] \<Longrightarrow> digit_groups ds"
  by (induction ds rule: digit_groups.induct) auto

lemma dropWhile_hd: "\<not> P (hd xs) \<Longrightarrow> dropWhile P xs = xs"
  by (cases xs) auto

lemma strip_id:
  assumes "t \<noteq> []" and "\<not> is_space (hd t)" and "\<not> is_space (last t)"
  shows "strip t = t"
  using assms by (simp add: strip_def dropWhile_hd hd_rev)

lemma filter_digits: "list_all is_digit ds \<Longrightarrow> filter is_digit ds = ds"
  by (simp add: list_all_iff)

lemma int_of_text_int_str [simp]: "int_of_text (int_str i) = Inr i"
proof -
  obtain n where n: "n = nat_str (nat \<bar>i\<bar>)" by simp
  have d: "list_all is_digit n" "n \<noteq> []" using n by simp_all
  then have hl: "is_digit (hd n)" "is_digit (last n)" by (simp_all add: list_all_iff)
  have v: "int (digits_val n) = \<bar>i\<bar>" by (simp add: n)
  show ?thesis
  proof (cases "i < 0")
    case True
    have t: "int_str i = CHR ''-'' # n" using True by (simp add: int_str_def n)
    have "strip (int_str i) = int_str i"
      unfolding t using d hl by (intro strip_id) auto
    with d v True show ?thesis
      by (simp add: int_of_text_def Let_def t digit_groups_digits filter_digits)
  next
    case False
    have t: "int_str i = n" using False by (simp add: int_str_def n)
    have "strip (int_str i) = int_str i" unfolding t using d hl by (intro strip_id) auto
    with d hl v False show ?thesis
      by (simp add: int_of_text_def Let_def t digit_groups_digits filter_digits)
  qed
qed

lemma lua_now_arg [simp]: "lua_now (arg_text (now_arg na)) = Some na"
  by (simp add: lua_now_def now_arg_def split: option.split)

lemma to_int_py_of_resp [simp]: "to_int (py_of_resp d (RInt i)) = Inr i"
  by simp

lemma py_map_ints [simp]: "py_map to_int (map (py_of_resp d \<circ> RInt) xs) = Inr xs"
  by (induction xs) simp_all

lemma lua_charges_flatten:
  "lua_charges (limit_keys ls)
     (map arg_text (flatten (map (\<lambda>l. (limit_units l, window_ms l, cost l)) ls))) = Some ls"
  by (induction ls) (simp_all add: flatten_def)

lemma lua_changes_flatten:
  "lua_changes (limit_keys ls)
     (map arg_text (flatten (map (\<lambda>l. (window_ms l, old_cost l, new_cost l)) ls))) = Some ls"
  by (induction ls) (simp_all add: flatten_def)

lemma lua_windows_map:
  "lua_windows (limit_keys ls) (map arg_text (map AInt (map window_ms ls))) = Some (ls :: rate_keys list)"
  by (induction ls) simp_all

subsection \<open>The interface of client and server\<close>

text \<open>
  In a world in which the server is \<open>up\<close>, EVALSHA of a script's SHA either raises NoScriptError and
  leaves the store and the server as they were, or runs the script; EVAL runs it. What happens when a script raises a Lua error
  is left open.
\<close>

definition ran ::
  "'s redis_api \<Rightarrow> bool \<Rightarrow> lua_script \<Rightarrow> nat \<Rightarrow> script_arg list \<Rightarrow> 's \<Rightarrow> (py_exn + pyobj) \<Rightarrow> 's \<Rightarrow> bool" where
  "ran R decode sc n args s p s' \<longleftrightarrow>
     (case lua_run R sc (take n (map arg_text args)) (drop n (map arg_text args)) s of
        (Some r, s2) \<Rightarrow> p = Inr (py_of_resp decode r) \<and> s' = s2
      | (None, s2) \<Rightarrow> True)"

locale script_server =
  fixes C :: "'w script_client" and sha1 :: "lua_script \<Rightarrow> string" and R :: "'s redis_api"
    and store :: "'w \<Rightarrow> 's" and decode :: bool and up :: "'w \<Rightarrow> bool"
  assumes sha_inj: "sha1 a = sha1 b \<Longrightarrow> a = b"
    and evalsha_law: "up w \<Longrightarrow> cl_evalsha C (sha1 sc) n args w = (p, w') \<Longrightarrow>
      (\<exists>e. p = Inl (RawExn e) \<and> isinstance e ''NoScriptError'' \<and> store w' = store w \<and> up w') \<or>
      (\<forall>e. p = Inl e \<longrightarrow> \<not> is_no_script e) \<and> ran R decode sc n args (store w) p (store w')"
    and eval_law: "up w \<Longrightarrow> cl_eval C sc n args w = (p, w') \<Longrightarrow>
      ran R decode sc n args (store w) p (store w')"
begin

lemma get_sha_script: "map_of SCRIPTS name = Some sc \<Longrightarrow> get_sha sha1 name = Inr (sha1 sc)"
  by (simp add: get_sha_def map_of_map)

lemma script_for_sha_script: "script_for_sha sha1 (sha1 sc) = Inr sc"
proof -
  have "sc \<in> set (map snd SCRIPTS)" by (cases sc) (simp_all add: SCRIPTS_def)
  then have "find (\<lambda>c. sha1 c = sha1 sc) (map snd SCRIPTS) \<noteq> None"
    by (auto simp: find_None_iff)
  then obtain c where c: "find (\<lambda>c. sha1 c = sha1 sc) (map snd SCRIPTS) = Some c" by auto
  then have "sha1 c = sha1 sc" by (auto simp: find_Some_iff)
  with c sha_inj show ?thesis by (fastforce simp: script_for_sha_def)
qed

text \<open>The fallback is transparent: the named script runs, once.\<close>

lemma evalsha_or_eval_runs:
  assumes "up w" and "evalsha_or_eval sha1 C (sha1 sc) n args w = (p, w')"
  shows "ran R decode sc n args (store w) p (store w')"
proof -
  obtain q u where q: "cl_evalsha C (sha1 sc) n args w = (q, u)" by fastforce
  from evalsha_law [OF assms(1) q] show ?thesis
  proof
    assume "\<exists>e. q = Inl (RawExn e) \<and> isinstance e ''NoScriptError'' \<and> store u = store w \<and> up u"
    then obtain e where e: "q = Inl (RawExn e)" "isinstance e ''NoScriptError''" "store u = store w" "up u"
      by blast
    with assms(2) q have "cl_eval C sc n args u = (p, w')"
      by (simp add: evalsha_or_eval_def script_for_sha_script)
    from eval_law [OF e(4) this] e(3) show ?thesis by simp
  next
    assume "(\<forall>e. q = Inl e \<longrightarrow> \<not> is_no_script e) \<and> ran R decode sc n args (store w) q (store u)"
    with assms(2) q show ?thesis by (cases q) (auto simp: evalsha_or_eval_def)
  qed
qed

lemma call_runs:
  assumes up: "up w" and name: "map_of SCRIPTS name = Some sc"
    and call: "call = (if cl_is_async C then aevalsha sha1 C else evalsha sha1 C)"
    and run: "lua_run R sc keys (map arg_text args) (store w) = (Some r, s')"
  shows "\<exists>w'. script_call sha1 call name keys args parse w = (parse (py_of_resp decode r), w') \<and>
    store w' = s'"
proof -
  let ?args = "map AStr keys @ args"
  obtain p u where p: "evalsha_or_eval sha1 C (sha1 sc) (length keys) ?args w = (p, u)" by fastforce
  have t: "map arg_text ?args = keys @ map arg_text args" by (simp add: comp_def)
  have "ran R decode sc (length keys) ?args (store w) p (store u)"
    by (rule evalsha_or_eval_runs [OF up p])
  then have "p = Inr (py_of_resp decode r)" "store u = s'"
    unfolding ran_def t using run by simp_all
  with p show ?thesis
    by (simp add: script_call_def get_sha_script [OF name] call aevalsha_def evalsha_def)
qed

end

context script_server
begin

lemma acquire_runs:
  assumes "up w" and "acquire_script R ok fk x limit lt na (store w) = (grant_resp g, s')"
  shows "\<exists>w'. (if cl_is_async C then runner_acquire_async else runner_acquire) sha1 C ok fk x limit lt na w =
      (Inr (case g of Granted t e n \<Rightarrow> (True, Some t, Some e, n) | Busy n \<Rightarrow> (False, None, None, n)), w') \<and>
    store w' = s'"
proof -
  have run: "lua_run R ACQUIRE_SCRIPT [ok, fk] (map arg_text [AStr x, AInt limit, AInt lt, now_arg na])
      (store w) = (Some (grant_resp g), s')"
    using assms(2) by (simp add: lua_run_def)
  have n: "map_of SCRIPTS ''acquire'' = Some ACQUIRE_SCRIPT" by (simp add: SCRIPTS_def)
  have p: "parse_acquire_result (py_of_resp decode (grant_resp g)) =
      Inr (case g of Granted t e n \<Rightarrow> (True, Some t, Some e, n) | Busy n \<Rightarrow> (False, None, None, n))"
    by (cases g) simp_all
  from call_runs [OF assms(1) n refl run, of parse_acquire_result] p show ?thesis
    by (simp add: runner_acquire_async_def runner_acquire_def split: if_splits)
qed

lemma release_runs:
  assumes "up w" and "release_script R ok x (store w) = (RInt i, s')"
  shows "\<exists>w'. (if cl_is_async C then runner_release_async else runner_release) sha1 C ok x w =
      (Inr (i \<noteq> 0), w') \<and> store w' = s'"
proof -
  have run: "lua_run R RELEASE_SCRIPT [ok] (map arg_text [AStr x]) (store w) = (Some (RInt i), s')"
    using assms(2) by (simp add: lua_run_def)
  have n: "map_of SCRIPTS ''release'' = Some RELEASE_SCRIPT" by (simp add: SCRIPTS_def)
  from call_runs [OF assms(1) n refl run, of "\<lambda>r. Inr (py_truth r)"] show ?thesis
    by (simp add: runner_release_async_def runner_release_def split: if_splits)
qed

end

subsection \<open>A server with the documented behaviour\<close>

text \<open>The world is the store's view and the cached scripts; the SHA of a script is its name.\<close>

definition doc_sha1 :: "lua_script \<Rightarrow> string" where
  "doc_sha1 sc = the (map_of (map prod.swap SCRIPTS) sc)"

definition no_script :: raw_exn where
  "no_script = \<lparr>exn_class = ''NoScriptError'',
     exn_bases = [''NoScriptError'', ''ResponseError'', ''RedisError''], exn_text = ''NOSCRIPT''\<rparr>"

definition lua_error :: raw_exn where
  "lua_error = \<lparr>exn_class = ''ResponseError'', exn_bases = [''ResponseError'', ''RedisError''],
     exn_text = ''ERR''\<rparr>"

definition doc_eval ::
  "bool \<Rightarrow> lua_script \<Rightarrow> nat \<Rightarrow> script_arg list \<Rightarrow> rview \<times> lua_script list \<Rightarrow>
   (py_exn + pyobj) \<times> rview \<times> lua_script list" where
  "doc_eval decode sc n args w =
     (case lua_run doc_redis sc (take n (map arg_text args)) (drop n (map arg_text args)) (fst w) of
        (Some r, v) \<Rightarrow> (Inr (py_of_resp decode r), v, sc # snd w)
      | (None, v) \<Rightarrow> (Inl (RawExn lua_error), v, sc # snd w))"

definition doc_evalsha ::
  "bool \<Rightarrow> string \<Rightarrow> nat \<Rightarrow> script_arg list \<Rightarrow> rview \<times> lua_script list \<Rightarrow>
   (py_exn + pyobj) \<times> rview \<times> lua_script list" where
  "doc_evalsha decode h n args w =
     (case find (\<lambda>sc. doc_sha1 sc = h) (snd w) of
        None \<Rightarrow> (Inl (RawExn no_script), w)
      | Some sc \<Rightarrow>
          (case lua_run doc_redis sc (take n (map arg_text args)) (drop n (map arg_text args)) (fst w) of
             (Some r, v) \<Rightarrow> (Inr (py_of_resp decode r), v, snd w)
           | (None, v) \<Rightarrow> (Inl (RawExn lua_error), v, snd w)))"

definition doc_client :: "bool \<Rightarrow> bool \<Rightarrow> (rview \<times> lua_script list) script_client" where
  "doc_client is_async decode =
     \<lparr>cl_is_async = is_async, cl_evalsha = doc_evalsha decode, cl_eval = doc_eval decode\<rparr>"

lemma doc_sha1_inj: "doc_sha1 a = doc_sha1 b \<longleftrightarrow> a = b"
  by (cases a; cases b; simp add: doc_sha1_def SCRIPTS_def)

interpretation doc_server: script_server "doc_client is_async decode" doc_sha1 doc_redis fst decode
  "\<lambda>_. True"
proof (unfold_locales, goal_cases)
  case (1 a b)
  then show ?case by (simp add: doc_sha1_inj)
next
  case (2 w sc n args p w')
  then show ?case
    by (auto simp: doc_client_def doc_evalsha_def no_script_def lua_error_def isinstance_def ran_def find_Some_iff
        doc_sha1_inj split: option.splits prod.splits)
next
  case (3 w sc n args p w')
  then show ?case
    by (auto simp: doc_client_def doc_eval_def ran_def split: option.splits prod.splits)
qed

subsection \<open>Properties\<close>

text \<open>C24: acquire through the helper is ACQUIRE on the store: the arguments arrive, the reply is read
  back as the caller's tuple, whether the script was in the server's cache or had to be sent, and
  whether replies are decoded; the same for the asynchronous helper.\<close>

theorem runner_acquire_end_to_end:
  assumes "script_server C sha1 R store decode up" and "up w"
    and "acquire_script R ok fk x limit lt na (store w) = (grant_resp g, s')"
  shows "\<exists>w'. (if cl_is_async C then runner_acquire_async sha1 C ok fk x limit lt na w
      else runner_acquire sha1 C ok fk x limit lt na w) =
      (Inr (case g of Granted t e n \<Rightarrow> (True, Some t, Some e, n) | Busy n \<Rightarrow> (False, None, None, n)), w') \<and>
    store w' = s'"
  using script_server.acquire_runs [OF assms] by (simp add: if_distribR split: if_splits)

theorem runner_acquire_end_to_end_witness:
  "\<exists>w'. runner_acquire doc_sha1 (doc_client False True) ''s:owners'' ''s:fencing'' ''A'' 1 1000 None
     (empty_view 5000, []) = (Inr (True, Some 1, Some 6000, 1), w')"
proof -
  have a: "acquire_script doc_redis ''s:owners'' ''s:fencing'' ''A'' 1 1000 None (fst (empty_view 5000, [])) =
     (grant_resp (Granted 1 6000 1),
      snd (acquire_script doc_redis ''s:owners'' ''s:fencing'' ''A'' 1 1000 None (empty_view 5000)))"
    by (rule prod_eqI) (code_simp, simp)
  from runner_acquire_end_to_end [OF doc_server.script_server_axioms [of False True] _ a] show ?thesis
    by (simp add: doc_client_def) blast
qed

text \<open>A rate acquire through the helper is RATE_ACQUIRE on the limits the caller passed: keys and
  argument triples are laid out as the script reads them, for any number of limits.\<close>

theorem runner_rate_acquire_end_to_end:
  assumes "script_server C sha1 R store decode up" and "up w"
    and "rate_acquire_script R ls x na (store w) =
      (Some (RArr ([RInt ok, RInt wait, RInt now] @ map RInt used)), s')"
    and "length used = length ls"
  shows "\<exists>w'. (if cl_is_async C
      then runner_rate_acquire_async sha1 C (limit_keys ls) x na (map (\<lambda>l. (limit_units l, window_ms l, cost l)) ls) w
      else runner_rate_acquire sha1 C (limit_keys ls) x na (map (\<lambda>l. (limit_units l, window_ms l, cost l)) ls) w) =
      (Inr (ok \<noteq> 0, wait, now, used), w') \<and> store w' = s'"
proof -
  let ?fl = "flatten (map (\<lambda>l. (limit_units l, window_ms l, cost l)) ls)"
  have run: "lua_run R RATE_ACQUIRE_SCRIPT (limit_keys ls)
      (map arg_text (AStr x # now_arg na # ?fl)) (store w) =
      (Some (RArr ([RInt ok, RInt wait, RInt now] @ map RInt used)), s')"
    using assms(3) by (simp add: lua_run_def lua_charges_flatten)
  have n: "map_of SCRIPTS ''rate_acquire'' = Some RATE_ACQUIRE_SCRIPT" by (simp add: SCRIPTS_def)
  have p: "parse_rate_acquire_result (py_of_resp decode (RArr ([RInt ok, RInt wait, RInt now] @ map RInt used)))
      (length ls) = Inr (ok \<noteq> 0, wait, now, used)"
    using assms(4) by (simp add: parse_rate_acquire_result_def del: map_map) (simp add: comp_def [symmetric])
  from script_server.call_runs [OF assms(1,2) n refl run,
      of "\<lambda>r. parse_rate_acquire_result r (length ls)"] p show ?thesis
    by (simp add: runner_rate_acquire_async_def runner_rate_acquire_def split: if_splits)
qed

theorem runner_rate_acquire_end_to_end_witness:
  "\<exists>w'. runner_rate_acquire_async doc_sha1 (doc_client True False)
     [''l:log'', ''l:total''] ''A'' None [(5, 1000, 3)] (empty_view 5000, []) =
     (Inr (True, 0, 5000, [3]), w')"
proof -
  let ?ls = "[\<lparr>log_key = ''l:log'', total_key = ''l:total'', window_ms = 1000, limit_units = 5, cost = 3\<rparr>]"
  let ?w = "(empty_view 5000, []) :: rview \<times> lua_script list"
  have a: "rate_acquire_script doc_redis ?ls ''A'' None (fst ?w) =
     (Some (RArr ([RInt 1, RInt 0, RInt 5000] @ map RInt [3])),
      snd (rate_acquire_script doc_redis ?ls ''A'' None (empty_view 5000)))"
    by (rule prod_eqI) (code_simp, simp)
  from runner_rate_acquire_end_to_end [OF doc_server.script_server_axioms [of True False] _ a] show ?thesis
    by (simp add: doc_client_def) blast
qed

end
