(* ===== verification/Config.thy ===== *)
theory Config
  imports RateRuns Errors
begin

section \<open>Configuration types, their validation, and the names of the keys\<close>

text \<open>
  \<open>src/redis_semaphore/types.py\<close> (the enumerations, the configuration and result classes and what
  their \<open>__post_init__\<close> refuses) and the key names of \<open>base.py\<close> and \<open>rate_limiter.py\<close>. Python
  floats are real numbers here (no rounding error and no NaN); a dict is an association list in
  insertion order. A refused configuration is \<open>Inl PyValueError\<close>.
\<close>

subsection \<open>Enumerations\<close>

datatype lock_state = RELEASED | ACQUIRED | LOST
datatype acquire_mode = POLLING | BLPOP
datatype time_source = SERVER | CLIENT
datatype reacquire_policy = RENEW | FORBID

subsection \<open>Semaphore\<close>

record acquire_result =
  ar_success :: bool
  ar_identifier :: "ident option"
  ar_fencing_token :: "int option"
  ar_expires_at :: "real option"
  ar_used_slots :: "int option"

record semaphore_status =
  st_name :: string
  st_limit :: int
  st_used_slots :: int
  st_available :: int
  st_is_owner :: bool
  st_expires_at :: "real option"

record semaphore_config =
  sc_name :: string
  sc_limit :: int
  sc_lock_timeout :: real
  sc_acquire_timeout :: "real option"
  sc_retry_interval :: real
  sc_refresh_interval :: "real option"
  sc_namespace :: string
  sc_strict_mode :: bool
  sc_use_server_time :: bool
  sc_acquire_mode :: acquire_mode
  sc_retry_interval_max :: "real option"
  sc_retry_backoff_multiplier :: real
  sc_retry_jitter :: real
  sc_blpop_timeout :: real
  sc_refresh_retry_interval :: "real option"
  sc_time_source :: time_source
  sc_cluster_hash_tags :: bool
  sc_reacquire_policy :: reacquire_policy

definition semaphore_config_defaults :: "string \<Rightarrow> int \<Rightarrow> semaphore_config" where
  "semaphore_config_defaults name limit = \<lparr>
     sc_name = name, sc_limit = limit, sc_lock_timeout = 30, sc_acquire_timeout = None,
     sc_retry_interval = 1 / 10, sc_refresh_interval = None, sc_namespace = ''semaphore'',
     sc_strict_mode = False, sc_use_server_time = False, sc_acquire_mode = BLPOP,
     sc_retry_interval_max = None, sc_retry_backoff_multiplier = 2, sc_retry_jitter = 1 / 10,
     sc_blpop_timeout = 5, sc_refresh_retry_interval = None, sc_time_source = SERVER,
     sc_cluster_hash_tags = False, sc_reacquire_policy = RENEW\<rparr>"

text \<open>Where an optional value is set and satisfies a condition (\<open>x is not None and ...\<close>).\<close>

definition set_and :: "('a \<Rightarrow> bool) \<Rightarrow> 'a option \<Rightarrow> bool" where
  "set_and P x = (case x of None \<Rightarrow> False | Some a \<Rightarrow> P a)"

text \<open>The value of an accepted configuration says whether the deprecation warning is given.\<close>

definition semaphore_post_init :: "semaphore_config \<Rightarrow> py_exn + bool" where
  "semaphore_post_init c =
     (if sc_name c = [] then Inl PyValueError
      else if sc_limit c < 1 then Inl PyValueError
      else if sc_lock_timeout c \<le> 0 then Inl PyValueError
      else if set_and (\<lambda>t. t \<le> 0) (sc_acquire_timeout c) then Inl PyValueError
      else if sc_retry_interval c \<le> 0 then Inl PyValueError
      else if set_and (\<lambda>t. t \<le> 0) (sc_refresh_interval c) then Inl PyValueError
      else if set_and (\<lambda>t. t < sc_retry_interval c) (sc_retry_interval_max c) then Inl PyValueError
      else if sc_retry_backoff_multiplier c < 1 then Inl PyValueError
      else if \<not> (0 \<le> sc_retry_jitter c \<and> sc_retry_jitter c \<le> 1) then Inl PyValueError
      else if sc_blpop_timeout c \<le> 0 then Inl PyValueError
      else if set_and (\<lambda>t. t \<le> 0) (sc_refresh_retry_interval c) then Inl PyValueError
      else if sc_use_server_time c \<and> sc_time_source c = CLIENT then Inl PyValueError
      else Inr (sc_use_server_time c))"

subsection \<open>Rate limiter\<close>

record rate_limit =
  rl_name :: string
  rl_limit :: int
  rl_window :: real

definition rate_limit_post_init :: "rate_limit \<Rightarrow> py_exn + unit" where
  "rate_limit_post_init l =
     (if rl_name l = [] then Inl PyValueError
      else if CHR '':'' \<in> set (rl_name l) then Inl PyValueError
      else if rl_limit l < 1 then Inl PyValueError
      else if rl_window l < 1 / 1000 then Inl PyValueError
      else Inr ())"

record rate_limiter_config =
  rc_name :: string
  rc_limits :: "rate_limit list"
  rc_acquire_timeout :: "real option"
  rc_wait_jitter :: real
  rc_namespace :: string
  rc_time_source :: time_source
  rc_cluster_hash_tags :: bool

definition rate_limiter_post_init :: "rate_limiter_config \<Rightarrow> py_exn + unit" where
  "rate_limiter_post_init c =
     (if rc_name c = [] then Inl PyValueError
      else if rc_limits c = [] then Inl PyValueError
      else let names = map rl_name (rc_limits c)
      in if card (set names) \<noteq> length names then Inl PyValueError
      else if set_and (\<lambda>t. t \<le> 0) (rc_acquire_timeout c) then Inl PyValueError
      else if rc_wait_jitter c < 0 then Inl PyValueError
      else Inr ())"

text \<open>A configuration as the constructors build it: every limit and the whole are accepted.\<close>

definition rate_config_ok :: "rate_limiter_config \<Rightarrow> bool" where
  "rate_config_ok c \<longleftrightarrow>
     list_all (\<lambda>l. rate_limit_post_init l = Inr ()) (rc_limits c) \<and> rate_limiter_post_init c = Inr ()"

record rate_permit =
  rp_success :: bool
  rp_identifier :: "ident option"
  rp_costs :: "(string \<times> int) list"
  rp_acquired_at :: "real option"
  rp_retry_after :: "real option"
  rp_used :: "(string \<times> int) list"
  rp_limiter :: "string option"

record rate_limit_usage =
  ru_name :: string
  ru_limit :: int
  ru_window :: real
  ru_used :: int

definition usage_available :: "rate_limit_usage \<Rightarrow> int" where
  "usage_available u = max 0 (ru_limit u - ru_used u)"

record rate_limiter_status =
  rs_name :: string
  rs_usage :: "(string \<times> rate_limit_usage) list"

subsection \<open>Dispatch\<close>

record dispatch_config =
  dc_namespace :: string
  dc_group :: string
  dc_max_queue_size :: "int option"
  dc_leader_ttl :: real
  dc_election_interval :: "real option"
  dc_reclaim_idle :: real
  dc_reclaim_interval :: real
  dc_reply_ttl :: real
  dc_read_timeout :: real
  dc_max_queues_per_worker :: "int option"
  dc_max_admitted :: "int option"
  dc_cluster_hash_tags :: bool

definition dispatch_config_defaults :: dispatch_config where
  "dispatch_config_defaults = \<lparr>
     dc_namespace = ''dispatch'', dc_group = ''dispatchers'', dc_max_queue_size = None,
     dc_leader_ttl = 10, dc_election_interval = None, dc_reclaim_idle = 30,
     dc_reclaim_interval = 5, dc_reply_ttl = 60, dc_read_timeout = 1,
     dc_max_queues_per_worker = None, dc_max_admitted = None, dc_cluster_hash_tags = False\<rparr>"

definition dispatch_post_init :: "dispatch_config \<Rightarrow> py_exn + unit" where
  "dispatch_post_init c =
     (if dc_namespace c = [] then Inl PyValueError
      else if dc_group c = [] then Inl PyValueError
      else if set_and (\<lambda>n. n < 1) (dc_max_queue_size c) then Inl PyValueError
      else if set_and (\<lambda>n. n < 1) (dc_max_queues_per_worker c) then Inl PyValueError
      else if set_and (\<lambda>n. n < 1) (dc_max_admitted c) then Inl PyValueError
      else if set_and (\<lambda>t. t \<le> 0) (dc_election_interval c) then Inl PyValueError
      else if list_ex (\<lambda>t. t \<le> 0)
        [dc_leader_ttl c, dc_reclaim_idle c, dc_reclaim_interval c, dc_reply_ttl c, dc_read_timeout c]
      then Inl PyValueError
      else Inr ())"

record queue_status =
  qs_name :: string
  qs_length :: int
  qs_in_progress :: int
  qs_waiting :: int
  qs_oldest_age :: "real option"
  qs_has_leader :: bool

record worker_health =
  wh_worker_id :: string
  wh_running :: bool
  wh_stopping :: bool
  wh_leading :: "string list"
  wh_jobs_in_progress :: int
  wh_last_loop_age :: "real option"
  wh_last_error :: "string option"
  wh_last_error_age :: "real option"
  wh_healthy :: bool

subsection \<open>Key names\<close>

definition key_prefix :: "string \<Rightarrow> string \<Rightarrow> bool \<Rightarrow> string" where
  "key_prefix namespace name cluster_hash_tags =
     (let prefix = namespace @ '':'' @ name
      in if cluster_hash_tags then ''{'' @ prefix @ ''}'' else prefix)"

definition sem_key_prefix :: "semaphore_config \<Rightarrow> string" where
  "sem_key_prefix c = key_prefix (sc_namespace c) (sc_name c) (sc_cluster_hash_tags c)"

definition owners_key :: "semaphore_config \<Rightarrow> key" where
  "owners_key c = sem_key_prefix c @ '':owners''"

definition fencing_key :: "semaphore_config \<Rightarrow> key" where
  "fencing_key c = sem_key_prefix c @ '':fencing''"

definition queue_key :: "semaphore_config \<Rightarrow> key" where
  "queue_key c = sem_key_prefix c @ '':queue''"

definition rate_key_prefix :: "rate_limiter_config \<Rightarrow> string" where
  "rate_key_prefix c = key_prefix (rc_namespace c) (rc_name c) (rc_cluster_hash_tags c)"

definition rate_scope :: "rate_limiter_config \<Rightarrow> string" where
  "rate_scope c = rc_namespace c @ '':'' @ rc_name c"

definition rate_log_key :: "rate_limiter_config \<Rightarrow> string \<Rightarrow> key" where
  "rate_log_key c limit_name = rate_key_prefix c @ '':'' @ limit_name @ '':log''"

definition rate_total_key :: "rate_limiter_config \<Rightarrow> string \<Rightarrow> key" where
  "rate_total_key c limit_name = rate_key_prefix c @ '':'' @ limit_name @ '':total''"

definition rate_keys_of :: "rate_limiter_config \<Rightarrow> rate_limit list \<Rightarrow> key list" where
  "rate_keys_of c limits =
     concat (map (\<lambda>l. [rate_log_key c (rl_name l), rate_total_key c (rl_name l)]) limits)"

text \<open>\<open>round(x)\<close> of a float: the nearest integer, the even one on a tie.\<close>

definition py_round :: "real \<Rightarrow> int" where
  "py_round x =
     (let f = \<lfloor>x\<rfloor>; d = x - of_int f
      in if d < 1 / 2 then f else if 1 / 2 < d then f + 1 else if even f then f else f + 1)"

definition window_ms_of :: "rate_limit \<Rightarrow> ms" where
  "window_ms_of l = max 1 (py_round (rl_window l * 1000))"

text \<open>The time argument of the scripts; \<open>None\<close> is the empty string (server time).\<close>

definition now_ms_arg :: "time_source \<Rightarrow> real \<Rightarrow> ms option" where
  "now_ms_arg src time = (case src of SERVER \<Rightarrow> None | CLIENT \<Rightarrow> Some (py_int (time * 1000)))"

text \<open>The refresh intervals an object computes from its configuration.\<close>

definition refresh_interval :: "semaphore_config \<Rightarrow> real" where
  "refresh_interval c =
     (case sc_refresh_interval c of None \<Rightarrow> sc_lock_timeout c / 3 | Some i \<Rightarrow> i)"

definition refresh_retry_interval :: "semaphore_config \<Rightarrow> real" where
  "refresh_retry_interval c =
     (case sc_refresh_retry_interval c of None \<Rightarrow> min (refresh_interval c) 1 | Some i \<Rightarrow> i)"

end
