(* ===== verification/ConfigProps.thy ===== *)
theory ConfigProps
  imports Config
begin

section \<open>Properties of the configurations and the key names\<close>

text \<open>
  What an accepted configuration guarantees to the code that uses it: the ranges the scripts and
  the waiting loops rely on, and keys that are separate for separate limits and semaphores.
\<close>

subsection \<open>Accepted configurations\<close>

text \<open>A semaphore configuration is accepted exactly when every documented bound holds, and the
  deprecation warning is given exactly when the deprecated flag is set.\<close>

theorem semaphore_config_accepted_iff:
  "semaphore_post_init c = Inr w \<longleftrightarrow>
     sc_name c \<noteq> [] \<and> 1 \<le> sc_limit c \<and> 0 < sc_lock_timeout c \<and> 0 < sc_retry_interval c \<and>
     1 \<le> sc_retry_backoff_multiplier c \<and> 0 \<le> sc_retry_jitter c \<and> sc_retry_jitter c \<le> 1 \<and>
     0 < sc_blpop_timeout c \<and>
     (\<forall>t. sc_acquire_timeout c = Some t \<longrightarrow> 0 < t) \<and>
     (\<forall>t. sc_refresh_interval c = Some t \<longrightarrow> 0 < t) \<and>
     (\<forall>t. sc_refresh_retry_interval c = Some t \<longrightarrow> 0 < t) \<and>
     (\<forall>t. sc_retry_interval_max c = Some t \<longrightarrow> sc_retry_interval c \<le> t) \<and>
     \<not> (sc_use_server_time c \<and> sc_time_source c = CLIENT) \<and> w = sc_use_server_time c"
  by (auto simp: semaphore_post_init_def set_and_def not_less not_le split: option.splits if_splits)

theorem semaphore_config_accepted_iff_witness:
  "semaphore_post_init (semaphore_config_defaults ''payments'' 3) = Inr False \<and>
   semaphore_post_init (semaphore_config_defaults ''payments'' 0) \<noteq> Inr False"
  using semaphore_config_accepted_iff [of "semaphore_config_defaults ''payments'' 3" False]
    semaphore_config_accepted_iff [of "semaphore_config_defaults ''payments'' 0" False]
  by (simp add: semaphore_config_defaults_def)

text \<open>The refresh intervals an object computes from an accepted configuration are positive;
  with the defaults the heartbeat refreshes within a third of the lock timeout and retries at
  least that often.\<close>

theorem refresh_intervals_leave_time:
  assumes "semaphore_post_init c = Inr w"
  shows "0 < refresh_interval c \<and> 0 < refresh_retry_interval c \<and>
    (sc_refresh_interval c = None \<longrightarrow> 3 * refresh_interval c = sc_lock_timeout c) \<and>
    (sc_refresh_retry_interval c = None \<longrightarrow> refresh_retry_interval c \<le> refresh_interval c)"
  using assms
  by (auto simp: semaphore_post_init_def set_and_def refresh_interval_def refresh_retry_interval_def
      split: option.splits if_splits)

theorem refresh_intervals_leave_time_witness:
  "0 < refresh_retry_interval (semaphore_config_defaults ''payments'' 3) \<and>
   refresh_interval (semaphore_config_defaults ''payments'' 3) = 10"
  using refresh_intervals_leave_time [of "semaphore_config_defaults ''payments'' 3" False]
  by (simp add: semaphore_post_init_def set_and_def semaphore_config_defaults_def refresh_interval_def)

subsection \<open>Key names\<close>

lemma suffix_inject:
  assumes "xs @ [c] @ us = ys @ [c] @ vs" and "c \<notin> set us" and "c \<notin> set vs"
  shows "xs = ys \<and> us = vs"
proof -
  have "takeWhile (\<lambda>x. x \<noteq> c) (rev us @ [c] @ rev xs) = takeWhile (\<lambda>x. x \<noteq> c) (rev vs @ [c] @ rev ys)"
    using arg_cong [OF assms(1), of rev] by simp
  moreover have "takeWhile (\<lambda>x. x \<noteq> c) (rev us @ [c] @ rev xs) = rev us"
    "takeWhile (\<lambda>x. x \<noteq> c) (rev vs @ [c] @ rev ys) = rev vs"
    using assms(2,3) by (auto simp: takeWhile_append)
  ultimately have "us = vs" by simp
  with assms(1) show ?thesis by simp
qed

lemma key_prefix_inject: "key_prefix ns n b = key_prefix ns m b \<longleftrightarrow> n = m"
  by (simp add: key_prefix_def Let_def)

text \<open>The three keys of a semaphore are separate, and no key of one semaphore is a key of
  another one with the same namespace and tag setting, whatever their names contain.\<close>

theorem semaphore_keys_are_separate:
  assumes "sc_namespace c = sc_namespace d" and "sc_cluster_hash_tags c = sc_cluster_hash_tags d"
  shows "distinct [owners_key c, fencing_key c, queue_key c] \<and>
    (sc_name c \<noteq> sc_name d \<longrightarrow>
      set [owners_key c, fencing_key c, queue_key c] \<inter>
      set [owners_key d, fencing_key d, queue_key d] = {})"
proof -
  have inj: "p @ '':'' @ u = q @ '':'' @ v \<Longrightarrow> CHR '':'' \<notin> set u \<Longrightarrow> CHR '':'' \<notin> set v \<Longrightarrow>
      p = q \<and> u = v" for p q u v :: string
    by (rule suffix_inject) simp_all
  have k: "owners_key e = sem_key_prefix e @ '':'' @ ''owners''"
    "fencing_key e = sem_key_prefix e @ '':'' @ ''fencing''"
    "queue_key e = sem_key_prefix e @ '':'' @ ''queue''" for e
    by (simp_all add: owners_key_def fencing_key_def queue_key_def)
  have "sem_key_prefix c = sem_key_prefix d \<Longrightarrow> sc_name c = sc_name d"
    using assms by (simp add: sem_key_prefix_def key_prefix_inject)
  then show ?thesis
    unfolding k by (auto dest!: inj [rotated 2])
qed

theorem semaphore_keys_are_separate_witness:
  "owners_key (semaphore_config_defaults ''a'' 1) \<noteq> fencing_key (semaphore_config_defaults ''a:owners'' 1)"
proof -
  let ?c = "semaphore_config_defaults ''a'' 1" and ?d = "semaphore_config_defaults ''a:owners'' 1"
  have e: "sc_namespace ?c = sc_namespace ?d" "sc_cluster_hash_tags ?c = sc_cluster_hash_tags ?d"
    "sc_name ?c \<noteq> sc_name ?d"
    by (simp_all add: semaphore_config_defaults_def)
  from semaphore_keys_are_separate [OF e(1,2)] e(3) show ?thesis by auto
qed

text \<open>The charges a limiter sends: its keys, windows and limits, with a cost for each.\<close>

definition limiter_charges :: "rate_limiter_config \<Rightarrow> (string \<Rightarrow> int) \<Rightarrow> rate_charge list" where
  "limiter_charges c costs =
     map (\<lambda>l. \<lparr>log_key = rate_log_key c (rl_name l), total_key = rate_total_key c (rl_name l),
        window_ms = window_ms_of l, limit_units = rl_limit l, cost = costs (rl_name l)\<rparr>)
       (rc_limits c)"

lemma limit_keys_limiter: "limit_keys (limiter_charges c costs) = rate_keys_of c (rc_limits c)"
  by (simp add: limit_keys_def limiter_charges_def rate_keys_of_def comp_def)

lemma rate_key_inject:
  assumes "CHR '':'' \<notin> set m" and "CHR '':'' \<notin> set n"
    and "key_prefix ns x b @ '':'' @ m @ '':'' @ u = key_prefix ns y b @ '':'' @ n @ '':'' @ v"
    and "CHR '':'' \<notin> set u" and "CHR '':'' \<notin> set v"
  shows "x = y \<and> m = n \<and> u = v"
proof -
  from suffix_inject [of "key_prefix ns x b @ '':'' @ m" "CHR '':''" u "key_prefix ns y b @ '':'' @ n" v]
    assms(3-5)
  have "key_prefix ns x b @ '':'' @ m = key_prefix ns y b @ '':'' @ n" "u = v" by simp_all
  with suffix_inject [of "key_prefix ns x b" "CHR '':''" m "key_prefix ns y b" n] assms(1,2)
  show ?thesis by (simp add: key_prefix_inject)
qed

lemma distinct_concat_pairs:
  assumes "distinct xs" and "\<And>x. x \<in> set xs \<Longrightarrow> f x \<noteq> g x"
    and "\<And>x y. x \<in> set xs \<Longrightarrow> y \<in> set xs \<Longrightarrow> x \<noteq> y \<Longrightarrow>
      f x \<noteq> f y \<and> f x \<noteq> g y \<and> g x \<noteq> f y \<and> g x \<noteq> g y"
  shows "distinct (concat (map (\<lambda>x. [f x, g x]) xs))"
  using assms
proof (induction xs)
  case (Cons a xs)
  have "f a \<noteq> f y \<and> f a \<noteq> g y \<and> g a \<noteq> f y \<and> g a \<noteq> g y" if "y \<in> set xs" for y
    using Cons.prems(1) that by (intro Cons.prems(3)) auto
  then have "f a \<notin> set (concat (map (\<lambda>x. [f x, g x]) xs))"
    "g a \<notin> set (concat (map (\<lambda>x. [f x, g x]) xs))" by auto
  moreover have "distinct (concat (map (\<lambda>x. [f x, g x]) xs))"
    using Cons.prems by (intro Cons.IH) auto
  ultimately show ?case using Cons.prems(2) by simp
qed simp

text \<open>An accepted rate limiter configuration gives the scripts what they rely on: a separate log
  and total key for every limit, windows of at least a millisecond and limits of at least one
  unit.\<close>

theorem accepted_limits_suit_the_scripts:
  assumes "rate_config_ok c"
  shows "distinct (limit_keys (limiter_charges c costs)) \<and>
    list_all (\<lambda>l. 0 < window_ms l \<and> 1 \<le> limit_units l) (limiter_charges c costs)"
proof
  have "card (set (map rl_name (rc_limits c))) = length (map rl_name (rc_limits c))"
    and l: "\<forall>l \<in> set (rc_limits c). CHR '':'' \<notin> set (rl_name l) \<and> 1 \<le> rl_limit l"
    using assms
    by (auto simp: rate_config_ok_def rate_limiter_post_init_def rate_limit_post_init_def list_all_iff
        Let_def split: if_splits)
  then have names: "distinct (map rl_name (rc_limits c))" using card_distinct by blast
  show "distinct (limit_keys (limiter_charges c costs))"
    unfolding limit_keys_limiter rate_keys_of_def
  proof (rule distinct_concat_pairs)
    show "distinct (rc_limits c)" using names by (simp add: distinct_map)
  next
    fix x y assume xy: "x \<in> set (rc_limits c)" "y \<in> set (rc_limits c)" "x \<noteq> y"
    then have "rl_name x \<noteq> rl_name y" using names by (auto simp: distinct_map inj_on_def)
    with l xy show "rate_log_key c (rl_name x) \<noteq> rate_log_key c (rl_name y) \<and>
        rate_log_key c (rl_name x) \<noteq> rate_total_key c (rl_name y) \<and>
        rate_total_key c (rl_name x) \<noteq> rate_log_key c (rl_name y) \<and>
        rate_total_key c (rl_name x) \<noteq> rate_total_key c (rl_name y)"
      using rate_key_inject [of "rl_name x" "rl_name y" "rc_namespace c" "rc_name c"
          "rc_cluster_hash_tags c" _ "rc_name c"]
      by (simp add: rate_log_key_def rate_total_key_def rate_key_prefix_def)
  qed (simp add: rate_log_key_def rate_total_key_def)
  show "list_all (\<lambda>l. 0 < window_ms l \<and> 1 \<le> limit_units l) (limiter_charges c costs)"
    using l by (auto simp: limiter_charges_def list_all_iff window_ms_of_def less_max_iff_disj)
qed

definition demo_limiter :: rate_limiter_config where
  "demo_limiter = \<lparr>rc_name = ''cert:1'', rc_limits =
       [\<lparr>rl_name = ''requests'', rl_limit = 2, rl_window = 1\<rparr>,
        \<lparr>rl_name = ''tokens'', rl_limit = 100, rl_window = 2\<rparr>],
     rc_acquire_timeout = Some 30, rc_wait_jitter = 0, rc_namespace = ''ratelimit'',
     rc_time_source = SERVER, rc_cluster_hash_tags = False\<rparr>"

lemma demo_limiter_ok: "rate_config_ok demo_limiter"
  by (simp add: rate_config_ok_def demo_limiter_def rate_limit_post_init_def
      rate_limiter_post_init_def set_and_def Let_def)

theorem accepted_limits_suit_the_scripts_witness:
  "distinct (limit_keys (limiter_charges demo_limiter (\<lambda>_. 1))) \<and>
   hd (limit_keys (limiter_charges demo_limiter (\<lambda>_. 1))) = ''ratelimit:cert:1:requests:log''"
  using accepted_limits_suit_the_scripts [OF demo_limiter_ok]
  by (simp add: limit_keys_limiter rate_keys_of_def demo_limiter_def rate_log_key_def
      rate_key_prefix_def key_prefix_def)

text \<open>Limiters with the same namespace and tag setting never share a key unless they have the
  same name and the limit is the same: the colon that a limit's name may not contain makes the
  names unambiguous although a limiter's name may contain any number of colons.\<close>

theorem rate_keys_are_unambiguous:
  assumes "rate_config_ok c" and "rate_config_ok d" and "rc_namespace c = rc_namespace d"
    and "rc_cluster_hash_tags c = rc_cluster_hash_tags d"
    and "l \<in> set (rc_limits c)" and "m \<in> set (rc_limits d)"
    and "set [rate_log_key c (rl_name l), rate_total_key c (rl_name l)] \<inter>
      set [rate_log_key d (rl_name m), rate_total_key d (rl_name m)] \<noteq> {}"
  shows "rc_name c = rc_name d \<and> rl_name l = rl_name m"
proof -
  have "CHR '':'' \<notin> set (rl_name l)" "CHR '':'' \<notin> set (rl_name m)"
    using assms by (auto simp: rate_config_ok_def rate_limit_post_init_def list_all_iff split: if_splits)
  note inj = rate_key_inject [OF this, of "rc_namespace d" "rc_name c" "rc_cluster_hash_tags d" _ "rc_name d"]
  have k: "\<exists>u. CHR '':'' \<notin> set u \<and> k = rate_key_prefix e @ '':'' @ n @ '':'' @ u"
    if "k = rate_log_key e n \<or> k = rate_total_key e n" for e n k
    using that
  proof
    assume "k = rate_log_key e n"
    then show ?thesis by (intro exI [of _ "''log''"]) (simp add: rate_log_key_def)
  next
    assume "k = rate_total_key e n"
    then show ?thesis by (intro exI [of _ "''total''"]) (simp add: rate_total_key_def)
  qed
  obtain x where "x = rate_log_key c (rl_name l) \<or> x = rate_total_key c (rl_name l)"
    "x = rate_log_key d (rl_name m) \<or> x = rate_total_key d (rl_name m)"
    using assms(7) by auto
  with k obtain u v where "CHR '':'' \<notin> set u" "CHR '':'' \<notin> set v"
    "rate_key_prefix c @ '':'' @ rl_name l @ '':'' @ u = rate_key_prefix d @ '':'' @ rl_name m @ '':'' @ v"
    by metis
  then show ?thesis using inj assms(3,4) by (simp add: rate_key_prefix_def)
qed

theorem rate_keys_are_unambiguous_witness:
  "rate_log_key demo_limiter ''requests'' \<noteq> rate_log_key (demo_limiter\<lparr>rc_name := ''cert''\<rparr>) ''tokens''"
proof
  assume e: "rate_log_key demo_limiter ''requests'' = rate_log_key (demo_limiter\<lparr>rc_name := ''cert''\<rparr>) ''tokens''"
  have ok: "rate_config_ok (demo_limiter\<lparr>rc_name := ''cert''\<rparr>)"
    by (simp add: rate_config_ok_def demo_limiter_def rate_limit_post_init_def
        rate_limiter_post_init_def set_and_def Let_def)
  have "rc_name demo_limiter = rc_name (demo_limiter\<lparr>rc_name := ''cert''\<rparr>) \<and>
      rl_name (rc_limits demo_limiter ! 0) = rl_name (rc_limits demo_limiter ! 1)"
    by (rule rate_keys_are_unambiguous [OF demo_limiter_ok ok]) (use e in \<open>simp_all add: demo_limiter_def\<close>)
  then show False by (simp add: demo_limiter_def)
qed

end
