(* ===== verification/RateLimiter.thy ===== *)
theory RateLimiter
  imports ScriptRunner ConfigProps
begin

section \<open>The rate limiter's client\<close>

text \<open>
  The class \<open>RateLimiter\<close> of \<open>src/redis_semaphore/rate_limiter.py\<close>: costs and permits, the waiting
  loop of \<open>acquire\<close>, \<open>adjust\<close> and \<open>status\<close>. The script calls, the clocks, the random numbers, sleeping
  and the making of identifiers are parameters, a record of operations on a world \<open>'w\<close>. The waiting
  loop has no bound in the code: a result \<open>None\<close> stands for a loop that never ends.
\<close>

record 'w rl_env =
  e_rate_acquire :: "key list \<Rightarrow> ident \<Rightarrow> ms option \<Rightarrow> (int \<times> int \<times> int) list \<Rightarrow> 'w \<Rightarrow>
    (py_exn + bool \<times> int \<times> int \<times> int list) \<times> 'w"
  e_rate_acquire_async :: "key list \<Rightarrow> ident \<Rightarrow> ms option \<Rightarrow> (int \<times> int \<times> int) list \<Rightarrow> 'w \<Rightarrow>
    (py_exn + bool \<times> int \<times> int \<times> int list) \<times> 'w"
  e_rate_adjust :: "key list \<Rightarrow> ident \<Rightarrow> ms option \<Rightarrow> int \<Rightarrow> (int \<times> int \<times> int) list \<Rightarrow> 'w \<Rightarrow>
    (py_exn + int list) \<times> 'w"
  e_rate_adjust_async :: "key list \<Rightarrow> ident \<Rightarrow> ms option \<Rightarrow> int \<Rightarrow> (int \<times> int \<times> int) list \<Rightarrow> 'w \<Rightarrow>
    (py_exn + int list) \<times> 'w"
  e_rate_status :: "key list \<Rightarrow> ms option \<Rightarrow> int list \<Rightarrow> 'w \<Rightarrow> (py_exn + int list) \<times> 'w"
  e_rate_status_async :: "key list \<Rightarrow> ms option \<Rightarrow> int list \<Rightarrow> 'w \<Rightarrow> (py_exn + int list) \<times> 'w"
  e_time :: "'w \<Rightarrow> real"
  e_monotonic :: "'w \<Rightarrow> real"
  e_uniform :: "real \<Rightarrow> real \<Rightarrow> 'w \<Rightarrow> real \<times> 'w"
  e_sleep :: "real \<Rightarrow> 'w \<Rightarrow> 'w"
  e_asleep :: "real \<Rightarrow> 'w \<Rightarrow> 'w"
  e_uuid :: "'w \<Rightarrow> ident \<times> 'w"

subsection \<open>Costs\<close>

text \<open>A value given as a cost: an int, a bool (which Python counts as an int), or something else.\<close>

datatype cost_value = IntVal int | BoolVal bool | OtherVal
datatype cost_arg = CostAll cost_value | CostMap "(string \<times> cost_value) list"

fun check_int_cost :: "cost_value \<Rightarrow> py_exn + int" where
  "check_int_cost (IntVal i) = Inr i"
| "check_int_cost _ = Inl PyValueError"

definition limit_names :: "rate_limiter_config \<Rightarrow> string list" where
  "limit_names c = map rl_name (rc_limits c)"

definition check_names :: "rate_limiter_config \<Rightarrow> (string \<times> cost_value) list \<Rightarrow> py_exn + unit" where
  "check_names c costs =
     (if set (map fst costs) \<subseteq> set (limit_names c) then Inr () else Inl PyValueError)"

definition resolve_costs :: "rate_limiter_config \<Rightarrow> cost_arg \<Rightarrow> py_exn + (string \<times> int) list" where
  "resolve_costs c arg =
     py_bind (case arg of
          CostAll OtherVal \<Rightarrow> Inl PyTypeError
        | CostAll v \<Rightarrow> Inr (\<lambda>n. v)
        | CostMap costs \<Rightarrow>
            map_sum id (\<lambda>_ n. case map_of costs n of None \<Rightarrow> IntVal 1 | Some v \<Rightarrow> v) (check_names c costs))
       (\<lambda>value_of.
          py_map (\<lambda>l. py_bind (check_int_cost (value_of (rl_name l))) (\<lambda>value.
              if value < 0 then Inl PyValueError
              else if rl_limit l < value then Inl PyValueError
              else Inr (rl_name l, value)))
            (rc_limits c))"

definition resolve_adjustment ::
  "rate_limiter_config \<Rightarrow> rate_permit \<Rightarrow> cost_arg \<Rightarrow> py_exn + (string \<times> int) list" where
  "resolve_adjustment c permit arg =
     (if \<not> rp_success permit \<or> rp_identifier permit = None \<or> rp_acquired_at permit = None
      then Inl PyValueError
      else if rp_limiter permit \<noteq> Some (rate_scope c) then Inl PyValueError
      else if set (map fst (rp_costs permit)) \<noteq> set (limit_names c) then Inl PyValueError
      else py_bind (case arg of
          CostAll OtherVal \<Rightarrow> Inl PyTypeError
        | CostAll v \<Rightarrow> Inr (map (\<lambda>(n, _). (n, v)) (rp_costs permit))
        | CostMap costs \<Rightarrow>
            map_sum id (\<lambda>_. map (\<lambda>(n, old). (n, case map_of costs n of None \<Rightarrow> IntVal old | Some v \<Rightarrow> v))
              (rp_costs permit)) (check_names c costs))
       (\<lambda>new_costs.
          py_map (\<lambda>(n, v). py_bind (check_int_cost v) (\<lambda>value.
              if value < 0 then Inl PyValueError else Inr (n, value))) new_costs))"

subsection \<open>Acquire\<close>

definition build_permit ::
  "rate_limiter_config \<Rightarrow> (string \<times> int) list \<Rightarrow> ident \<Rightarrow> bool \<times> int \<times> int \<times> int list \<Rightarrow> py_exn + rate_permit"
where
  "build_permit c costs identifier reply =
     (case reply of (success, retry_after_ms, now_ms, used) \<Rightarrow>
        if length used \<noteq> length (rc_limits c) then Inl PyValueError
        else (let used_by_name = zip (limit_names c) used in
          if success then
            Inr \<lparr>rp_success = True, rp_identifier = Some identifier, rp_costs = costs,
                 rp_acquired_at = Some (of_int now_ms / 1000), rp_retry_after = None,
                 rp_used = used_by_name, rp_limiter = Some (rate_scope c)\<rparr>
          else
            Inr \<lparr>rp_success = False, rp_identifier = None, rp_costs = costs,
                 rp_acquired_at = None, rp_retry_after = Some (of_int retry_after_ms / 1000),
                 rp_used = used_by_name, rp_limiter = Some (rate_scope c)\<rparr>))"

definition next_wait ::
  "'w rl_env \<Rightarrow> rate_limiter_config \<Rightarrow> rate_permit \<Rightarrow> real \<Rightarrow> 'w \<Rightarrow> (py_exn + real) \<times> 'w" where
  "next_wait E c permit start w =
     (let retry_after = (case rp_retry_after permit of None \<Rightarrow> 0 | Some r \<Rightarrow> r);
          (delay, w) = (if 0 < rc_wait_jitter c
             then (let (u, w) = e_uniform E 0 (rc_wait_jitter c) w in (retry_after + u, w))
             else (retry_after, w))
      in case rc_acquire_timeout c of
           None \<Rightarrow> (Inr delay, w)
         | Some timeout \<Rightarrow>
             (let remaining = timeout - (e_monotonic E w - start)
              in if remaining < retry_after
                 then (Inl (SemError (RateLimitTimeoutError retry_after)), w)
                 else (Inr (min delay remaining), w)))"

definition acquire_limits :: "rate_limiter_config \<Rightarrow> (string \<times> int) list \<Rightarrow> (int \<times> int \<times> int) list" where
  "acquire_limits c costs =
     map (\<lambda>l. (rl_limit l, window_ms_of l, the (map_of costs (rl_name l)))) (rc_limits c)"

text \<open>One attempt, with the synchronous or the asynchronous script call.\<close>

definition try_acquire where
  "try_acquire E call c costs identifier w =
     (case call (rate_keys_of c (rc_limits c)) identifier (now_ms_arg (rc_time_source c) (e_time E w))
             (acquire_limits c costs) w of
        (Inl e, w) \<Rightarrow> (Inl e, w)
      | (Inr reply, w) \<Rightarrow> (build_permit c costs identifier reply, w))"

text \<open>One round of the waiting loop: what \<open>acquire\<close> returns or raises, or the world after the wait.\<close>

definition rate_round ::
  "'w rl_env \<Rightarrow> ('w \<Rightarrow> (py_exn + rate_permit) \<times> 'w) \<Rightarrow> (real \<Rightarrow> 'w \<Rightarrow> 'w) \<Rightarrow> rate_limiter_config \<Rightarrow>
   bool \<Rightarrow> real \<Rightarrow> 'w \<Rightarrow> ((py_exn + rate_permit) \<times> 'w) + 'w"
where
  "rate_round E attempt sleep c blocking start w =
     (case attempt w of
        (Inl e, w) \<Rightarrow> Inl (Inl e, w)
      | (Inr permit, w) \<Rightarrow>
          if rp_success permit \<or> \<not> blocking then Inl (Inr permit, w)
          else (case next_wait E c permit start w of
              (Inl e, w) \<Rightarrow> Inl (Inl e, w)
            | (Inr delay, w) \<Rightarrow> Inr (sleep delay w)))"

definition rate_acquire_with where
  "rate_acquire_with E call sleep c arg blocking w =
     (case resolve_costs c arg of
        Inl e \<Rightarrow> Some (Inl e, w)
      | Inr costs \<Rightarrow>
          (let (identifier, w) = e_uuid E w;
               start = e_monotonic E w
           in map_option (map_prod (backend_errors ''rate_acquire'' (Some (rc_name c))) id)
                (repeat_until (rate_round E (try_acquire E call c costs identifier) sleep c blocking start) w)))"

definition rate_acquire ::
  "'w rl_env \<Rightarrow> rate_limiter_config \<Rightarrow> cost_arg \<Rightarrow> bool \<Rightarrow> 'w \<Rightarrow> ((py_exn + rate_permit) \<times> 'w) option" where
  "rate_acquire E = rate_acquire_with E (e_rate_acquire E) (e_sleep E)"

definition rate_aacquire ::
  "'w rl_env \<Rightarrow> rate_limiter_config \<Rightarrow> cost_arg \<Rightarrow> bool \<Rightarrow> 'w \<Rightarrow> ((py_exn + rate_permit) \<times> 'w) option" where
  "rate_aacquire E = rate_acquire_with E (e_rate_acquire_async E) (e_asleep E)"

subsection \<open>Adjust\<close>

definition changed_limits :: "rate_limiter_config \<Rightarrow> rate_permit \<Rightarrow> (string \<times> int) list \<Rightarrow> rate_limit list" where
  "changed_limits c permit new_costs =
     filter (\<lambda>l. map_of new_costs (rl_name l) \<noteq> map_of (rp_costs permit) (rl_name l)) (rc_limits c)"

definition adjust_args ::
  "rate_limiter_config \<Rightarrow> rate_permit \<Rightarrow> (string \<times> int) list \<Rightarrow>
   rate_limit list \<times> key list \<times> (int \<times> int \<times> int) list" where
  "adjust_args c permit new_costs =
     (let limits = changed_limits c permit new_costs
      in (limits, rate_keys_of c limits,
          map (\<lambda>l. (window_ms_of l, the (map_of (rp_costs permit) (rl_name l)),
                    the (map_of new_costs (rl_name l)))) limits))"

text \<open>\<open>dict.update\<close> with pairs whose keys are in the dict keeps the order.\<close>

definition dict_update :: "(string \<times> 'v) list \<Rightarrow> (string \<times> 'v) list \<Rightarrow> (string \<times> 'v) list" where
  "dict_update d e =
     map (\<lambda>(k, v). (k, case map_of (rev e) k of None \<Rightarrow> v | Some v' \<Rightarrow> v')) d @
     filter (\<lambda>(k, v). k \<notin> fst ` set d) e"

definition apply_adjustment ::
  "rate_permit \<Rightarrow> (string \<times> int) list \<Rightarrow> rate_limit list \<Rightarrow> int list \<Rightarrow> (py_exn + rate_permit) \<times> rate_permit" where
  "apply_adjustment permit new_costs limits used =
     (let permit = permit\<lparr>rp_costs := dict_update (rp_costs permit) new_costs\<rparr>
      in if length used \<noteq> length limits then (Inl PyValueError, permit)
         else (let permit = permit\<lparr>rp_used := dict_update (rp_used permit) (zip (map rl_name limits) used)\<rparr>
               in (Inr permit, permit)))"

text \<open>
  The permit is an object the caller keeps: the result is the value or exception, the permit as it
  is after the call, and the world.
\<close>

definition adjust_with where
  "adjust_with E call c permit arg w =
     (case resolve_adjustment c permit arg of
        Inl e \<Rightarrow> (Inl e, permit, w)
      | Inr new_costs \<Rightarrow>
          (let (limits, keys, changes) = adjust_args c permit new_costs
           in if changes = [] then (Inr permit, permit, w)
              else (case call keys (case rp_identifier permit of None \<Rightarrow> [] | Some x \<Rightarrow> x)
                        (now_ms_arg (rc_time_source c) (e_time E w))
                        (py_round ((case rp_acquired_at permit of None \<Rightarrow> 0 | Some t \<Rightarrow> t) * 1000))
                        changes w of
                  (r, w) \<Rightarrow>
                    (case backend_errors ''rate_adjust'' (Some (rc_name c)) r of
                       Inl e \<Rightarrow> (Inl e, permit, w)
                     | Inr used \<Rightarrow>
                         (let (r, permit) = apply_adjustment permit new_costs limits used
                          in (r, permit, w))))))"

definition rate_adjust ::
  "'w rl_env \<Rightarrow> rate_limiter_config \<Rightarrow> rate_permit \<Rightarrow> cost_arg \<Rightarrow> 'w \<Rightarrow> (py_exn + rate_permit) \<times> rate_permit \<times> 'w"
where
  "rate_adjust E = adjust_with E (e_rate_adjust E)"

definition rate_aadjust ::
  "'w rl_env \<Rightarrow> rate_limiter_config \<Rightarrow> rate_permit \<Rightarrow> cost_arg \<Rightarrow> 'w \<Rightarrow> (py_exn + rate_permit) \<times> rate_permit \<times> 'w"
where
  "rate_aadjust E = adjust_with E (e_rate_adjust_async E)"

subsection \<open>Status\<close>

definition build_status :: "rate_limiter_config \<Rightarrow> int list \<Rightarrow> py_exn + rate_limiter_status" where
  "build_status c used =
     (if length used \<noteq> length (rc_limits c) then Inl PyValueError
      else Inr \<lparr>rs_name = rc_name c,
        rs_usage = map (\<lambda>(l, value). (rl_name l,
            \<lparr>ru_name = rl_name l, ru_limit = rl_limit l, ru_window = rl_window l, ru_used = value\<rparr>))
          (zip (rc_limits c) used)\<rparr>)"

definition status_with where
  "status_with E call c w =
     (case call (rate_keys_of c (rc_limits c)) (now_ms_arg (rc_time_source c) (e_time E w))
             (map window_ms_of (rc_limits c)) w of
        (r, w) \<Rightarrow>
          (case backend_errors ''rate_status'' (Some (rc_name c)) r of
             Inl e \<Rightarrow> (Inl e, w) | Inr used \<Rightarrow> (build_status c used, w)))"

definition rate_status ::
  "'w rl_env \<Rightarrow> rate_limiter_config \<Rightarrow> 'w \<Rightarrow> (py_exn + rate_limiter_status) \<times> 'w" where
  "rate_status E = status_with E (e_rate_status E)"

definition rate_astatus ::
  "'w rl_env \<Rightarrow> rate_limiter_config \<Rightarrow> 'w \<Rightarrow> (py_exn + rate_limiter_status) \<times> 'w" where
  "rate_astatus E = status_with E (e_rate_status_async E)"

end
