(* ===== verification/RateLimiterProps.thy ===== *)
theory RateLimiterProps
  imports RateLimiter
begin

section \<open>What the rate limiter's client promises\<close>

text \<open>
  The costs that reach the script, the time acquire takes, and that adjusting a permit twice to the
  same costs sends one script call.
\<close>

subsection \<open>Costs\<close>

lemma py_bind_Inr: "py_bind m f = Inr y \<longleftrightarrow> (\<exists>x. m = Inr x \<and> f x = Inr y)"
  by (cases m) auto

lemma py_map_Inr: "py_map f xs = Inr ys \<longleftrightarrow> list_all2 (\<lambda>x y. f x = Inr y) xs ys"
  by (induction xs arbitrary: ys) (auto simp: py_bind_Inr list_all2_Cons1)

text \<open>The value the caller asked for under a limit's name.\<close>

definition asked_cost :: "cost_arg \<Rightarrow> string \<Rightarrow> cost_value" where
  "asked_cost arg n =
     (case arg of CostAll v \<Rightarrow> v
      | CostMap m \<Rightarrow> (case map_of m n of None \<Rightarrow> IntVal 1 | Some v \<Rightarrow> v))"

lemma check_int_cost_Inr: "check_int_cost v = Inr i \<longleftrightarrow> v = IntVal i"
  by (cases v) auto

lemma resolve_costs_asked:
  assumes "resolve_costs c arg = Inr costs"
  shows "py_map (\<lambda>l. py_bind (check_int_cost (asked_cost arg (rl_name l))) (\<lambda>value.
      if value < 0 then Inl PyValueError
      else if rl_limit l < value then Inl PyValueError else Inr (rl_name l, value))) (rc_limits c) = Inr costs"
proof (cases arg)
  case (CostAll v)
  with assms show ?thesis
    by (cases v) (simp_all add: resolve_costs_def asked_cost_def)
next
  case (CostMap m)
  with assms show ?thesis
    by (simp add: resolve_costs_def asked_cost_def check_names_def split: if_splits)
qed

lemma resolve_costs_rows:
  assumes "resolve_costs c arg = Inr costs"
  shows "list_all2 (\<lambda>l (n, v). n = rl_name l \<and>
    (0 \<le> v \<and> v \<le> rl_limit l \<and> asked_cost arg (rl_name l) = IntVal v)) (rc_limits c) costs"
  using resolve_costs_asked [OF assms] unfolding py_map_Inr
  by (rule list_all2_mono) (auto simp: py_bind_Inr check_int_cost_Inr split: if_splits)

lemma rows_map_of:
  assumes "list_all2 (\<lambda>l (n, v). n = rl_name l \<and> P l v) ls costs" and "distinct (map rl_name ls)" and "l \<in> set ls"
  shows "\<exists>v. map_of costs (rl_name l) = Some v \<and> P l v"
  using assms
proof (induction ls costs rule: list_all2_induct)
  case (Cons k ks nv costs)
  then show ?case by (cases nv) (auto simp: image_iff)
qed simp

lemma config_ok_distinct: "rate_config_ok c \<Longrightarrow> distinct (map rl_name (rc_limits c))"
  by (simp add: rate_config_ok_def rate_limiter_post_init_def Let_def card_distinct split: if_splits)

text \<open>What acquire sends to the script suits it: for a configuration the constructors accept and costs
  that pass validation there is one triple per limit, in order, with the limit's units, a window of at
  least one millisecond and a cost between 0 and the limit, the one the caller asked for (1 where a
  mapping leaves a limit out).\<close>

theorem validated_costs_suit_the_script:
  assumes "rate_config_ok c" and "resolve_costs c arg = Inr costs"
  shows "list_all2 (\<lambda>l (units, window, cst). units = rl_limit l \<and> window = window_ms_of l \<and> 1 \<le> window \<and>
      0 \<le> cst \<and> cst \<le> units \<and> asked_cost arg (rl_name l) = IntVal cst)
    (rc_limits c) (acquire_limits c costs)"
proof -
  have "\<exists>v. map_of costs (rl_name l) = Some v \<and> (0 \<le> v \<and> v \<le> rl_limit l \<and> asked_cost arg (rl_name l) = IntVal v)"
    if "l \<in> set (rc_limits c)" for l
    by (rule rows_map_of [OF resolve_costs_rows [OF assms(2)] config_ok_distinct [OF assms(1)] that])
  then show ?thesis
    by (force simp: acquire_limits_def list.rel_map list_all2_same window_ms_of_def)
qed

definition demo_limits :: rate_limiter_config where
  "demo_limits = \<lparr>rc_name = ''api'',
     rc_limits = [\<lparr>rl_name = ''req'', rl_limit = 10, rl_window = 1\<rparr>, \<lparr>rl_name = ''tok'', rl_limit = 500, rl_window = 60\<rparr>],
     rc_acquire_timeout = Some 5, rc_wait_jitter = 0, rc_namespace = ''ratelimit'', rc_time_source = SERVER,
     rc_cluster_hash_tags = False\<rparr>"

lemma demo_limits_ok: "rate_config_ok demo_limits"
  by (simp add: rate_config_ok_def rate_limiter_post_init_def rate_limit_post_init_def demo_limits_def set_and_def)

theorem validated_costs_suit_the_script_witness:
  "acquire_limits demo_limits [(''req'', 1), (''tok'', 120)] = [(10, 1000, 1), (500, 60000, 120)] \<and>
   resolve_costs demo_limits (CostMap [(''tok'', IntVal 120)]) = Inr [(''req'', 1), (''tok'', 120)] \<and>
   asked_cost (CostMap [(''tok'', IntVal 120)]) ''req'' = IntVal 1"
proof -
  have r: "resolve_costs demo_limits (CostMap [(''tok'', IntVal 120)]) = Inr [(''req'', 1), (''tok'', 120)]"
    by (simp add: resolve_costs_def demo_limits_def check_names_def limit_names_def)
  have "acquire_limits demo_limits [(''req'', 1), (''tok'', 120)] = [(10, 1000, 1), (500, 60000, 120)]"
    by (simp add: acquire_limits_def demo_limits_def window_ms_of_def py_round_def Let_def)
  with validated_costs_suit_the_script [OF demo_limits_ok r] r show ?thesis
    by (simp add: demo_limits_def)
qed

subsection \<open>Time\<close>

text \<open>
  A call of the script takes between \<open>quick\<close> and \<open>slow\<close> seconds and never asks to wait a negative time;
  a sleep takes what was asked for and at most \<open>late\<close> more; nothing else takes time.
\<close>

definition rl_timely :: "'w rl_env \<Rightarrow> (key list \<Rightarrow> ident \<Rightarrow> ms option \<Rightarrow> (int \<times> int \<times> int) list \<Rightarrow> 'w \<Rightarrow>
    (py_exn + bool \<times> int \<times> int \<times> int list) \<times> 'w) \<Rightarrow> (real \<Rightarrow> 'w \<Rightarrow> 'w) \<Rightarrow> real \<Rightarrow> real \<Rightarrow> real \<Rightarrow> bool" where
  "rl_timely E call sleep quick slow late \<longleftrightarrow>
     (\<forall>k i n l w. e_monotonic E w + quick \<le> e_monotonic E (snd (call k i n l w)) \<and>
        e_monotonic E (snd (call k i n l w)) \<le> e_monotonic E w + slow \<and>
        (\<forall>s ra now u. fst (call k i n l w) = Inr (s, ra, now, u) \<longrightarrow> 0 \<le> ra)) \<and>
     (\<forall>d w. 0 \<le> d \<longrightarrow> e_monotonic E w \<le> e_monotonic E (sleep d w) \<and>
        e_monotonic E (sleep d w) \<le> e_monotonic E w + d + late) \<and>
     (\<forall>b w. 0 < b \<longrightarrow> 0 \<le> fst (e_uniform E 0 b w)) \<and>
     (\<forall>a b w. e_monotonic E (snd (e_uniform E a b w)) = e_monotonic E w) \<and>
     (\<forall>w. e_monotonic E (snd (e_uuid E w)) = e_monotonic E w)"

lemma next_wait_clock:
  assumes tm: "rl_timely E call sleep quick slow late" and T: "rc_acquire_timeout c = Some T"
    and ra: "0 \<le> (case rp_retry_after p of None \<Rightarrow> 0 | Some r \<Rightarrow> r)" and n: "next_wait E c p start w = (q, w')"
  shows "e_monotonic E w' = e_monotonic E w \<and>
    (\<forall>d. q = Inr d \<longrightarrow> 0 \<le> d \<and> d \<le> T - (e_monotonic E w - start)) \<and>
    (\<forall>e. q = Inl e \<longrightarrow> (\<exists>r. e = SemError (RateLimitTimeoutError r) \<and> T - (e_monotonic E w - start) < r))"
proof -
  let ?ra = "case rp_retry_after p of None \<Rightarrow> 0 | Some r \<Rightarrow> r"
  obtain delay w1 where d: "(if 0 < rc_wait_jitter c then (let (u, w) = e_uniform E 0 (rc_wait_jitter c) w in (?ra + u, w))
      else (?ra, w)) = (delay, w1)" by (rule prod.exhaust)
  have u: "0 < b \<Longrightarrow> 0 \<le> fst (e_uniform E 0 b w)" "e_monotonic E (snd (e_uniform E a b w)) = e_monotonic E w" for a b
    using tm by (simp_all add: rl_timely_def)
  have "?ra \<le> delay \<and> e_monotonic E w1 = e_monotonic E w"
    using d u(1) [of "rc_wait_jitter c"] u(2) [of 0 "rc_wait_jitter c"] by (auto split: if_splits prod.splits)
  moreover have "next_wait E c p start w =
      (let remaining = T - (e_monotonic E w1 - start)
       in if remaining < ?ra then (Inl (SemError (RateLimitTimeoutError ?ra)), w1) else (Inr (min delay remaining), w1))"
    using d by (cases "0 < rc_wait_jitter c"; cases "e_uniform E 0 (rc_wait_jitter c) w")
      (auto simp: next_wait_def Let_def T)
  ultimately show ?thesis using n ra by (auto simp: Let_def split: if_splits)
qed

lemma try_acquire_clock:
  assumes tm: "rl_timely E call sleep quick slow late" and t: "try_acquire E call c costs i w = (q, w')"
  shows "e_monotonic E w + quick \<le> e_monotonic E w' \<and> e_monotonic E w' \<le> e_monotonic E w + slow \<and>
    (\<forall>p. q = Inr p \<longrightarrow> 0 \<le> (case rp_retry_after p of None \<Rightarrow> 0 | Some r \<Rightarrow> r))"
proof -
  let ?call = "call (rate_keys_of c (rc_limits c)) i (now_ms_arg (rc_time_source c) (e_time E w)) (acquire_limits c costs) w"
  obtain p w1 where p: "?call = (p, w1)" by (rule prod.exhaust)
  have "e_monotonic E w + quick \<le> e_monotonic E (snd ?call)" "e_monotonic E (snd ?call) \<le> e_monotonic E w + slow"
    "\<And>s ra now u. fst ?call = Inr (s, ra, now, u) \<Longrightarrow> 0 \<le> ra"
    using tm unfolding rl_timely_def by blast+
  with p t show ?thesis
    by (auto simp: try_acquire_def build_permit_def Let_def split: sum.splits if_splits)
qed

lemma rate_round_clock:
  assumes tm: "rl_timely E call sleep quick slow late" and T: "rc_acquire_timeout c = Some T" "0 \<le> T"
    and late: "0 \<le> late" and v: "e_monotonic E v \<le> t0 + T + late"
  shows "case rate_round E (try_acquire E call c costs i) sleep c blocking t0 v of
      Inl (r, w') \<Rightarrow> e_monotonic E w' \<le> t0 + T + late + slow \<and> (\<forall>p. r = Inr p \<longrightarrow> rp_success p \<or> \<not> blocking)
    | Inr z \<Rightarrow> e_monotonic E v + quick \<le> e_monotonic E z \<and> e_monotonic E z \<le> t0 + T + late"
proof -
  obtain p v1 where p: "try_acquire E call c costs i v = (p, v1)" by (rule prod.exhaust)
  note c1 = try_acquire_clock [OF tm p]
  show ?thesis
  proof (cases p)
    case (Inl e)
    with p c1 v show ?thesis by (simp add: rate_round_def)
  next
    case (Inr pm)
    obtain d v2 where d: "next_wait E c pm t0 v1 = (d, v2)" by (rule prod.exhaust)
    show ?thesis
    proof (cases d)
      case (Inl e)
      with next_wait_clock [OF tm T(1) _ d] c1 Inr p d v show ?thesis by (auto simp: rate_round_def)
    next
      case (Inr d')
      have d': "0 \<le> d'" "d' \<le> T - (e_monotonic E v1 - t0)" "e_monotonic E v2 = e_monotonic E v1"
        using next_wait_clock [OF tm T(1) _ d] c1 \<open>p = Inr pm\<close> Inr by auto
      have "e_monotonic E v2 \<le> e_monotonic E (sleep d' v2)" "e_monotonic E (sleep d' v2) \<le> e_monotonic E v2 + d' + late"
        using tm d'(1) unfolding rl_timely_def by blast+
      with d' c1 v p \<open>p = Inr pm\<close> d Inr show ?thesis by (auto simp: rate_round_def)
    qed
  qed
qed

text \<open>C23: a rate acquire with a timeout ends, at most \<open>late + slow\<close> seconds after the timeout, whatever the store
  answers and however long it asks to wait; and a blocking call that returns a permit returns an
  admitted one.\<close>

theorem rate_acquire_returns_in_time:
  assumes tm: "rl_timely E call sleep quick slow late" and q: "0 < quick" and late: "0 \<le> late"
    and T: "rc_acquire_timeout c = Some T" "0 \<le> T"
  shows "\<exists>r w'. rate_acquire_with E call sleep c arg blocking w = Some (r, w') \<and>
    e_monotonic E w' \<le> e_monotonic E w + T + late + slow \<and>
    (\<forall>p. r = Inr p \<longrightarrow> rp_success p \<or> \<not> blocking)"
proof (cases "resolve_costs c arg")
  case (Inl e)
  have "quick \<le> slow" using tm unfolding rl_timely_def by (meson add_le_cancel_left order_trans)
  with Inl q late T show ?thesis by (simp add: rate_acquire_with_def)
next
  case (Inr costs)
  obtain i w1 where i: "e_uuid E w = (i, w1)" by (rule prod.exhaust)
  have w1: "e_monotonic E w1 = e_monotonic E w" using tm i unfolding rl_timely_def by (metis snd_conv)
  let ?t0 = "e_monotonic E w1"
  let ?round = "rate_round E (try_acquire E call c costs i) sleep c blocking ?t0"
  note clock = rate_round_clock [OF tm T late, where ?t0.0 = ?t0 and costs = costs and i = i and blocking = blocking]
  have "\<exists>r. repeat_until ?round w1 = Some r \<and> (e_monotonic E (snd r) \<le> ?t0 + T + late + slow \<and>
      (\<forall>p. fst r = Inr p \<longrightarrow> rp_success p \<or> \<not> blocking))"
  proof (rule repeat_until_ends [where P = "\<lambda>w. e_monotonic E w \<le> ?t0 + T + late"
        and f = "\<lambda>w. nat \<lfloor>(?t0 + T + late - e_monotonic E w) / quick\<rfloor>"], goal_cases)
    case 1
    show ?case using late T by simp
  next
    case (2 v z)
    with clock [OF 2(1)] rounds_left_less [OF q] show ?case by auto
  next
    case (3 v r)
    with clock [OF 3(1)] show ?case by (auto split: prod.splits)
  qed
  then show ?thesis using Inr i w1 by (auto simp: rate_acquire_with_def)
qed

text \<open>A store that always asks for two more seconds; a call takes ten milliseconds.\<close>

definition demo_rl :: "real rl_env" where
  "demo_rl = \<lparr>e_rate_acquire = (\<lambda>k i n l w. (Inr (False, 2000, 0, [10, 0]), w + 1 / 100)),
     e_rate_acquire_async = (\<lambda>k i n l w. (Inr (False, 2000, 0, [10, 0]), w + 1 / 100)),
     e_rate_adjust = (\<lambda>k i n a l w. (Inr [7], w)), e_rate_adjust_async = (\<lambda>k i n a l w. (Inr [7], w)),
     e_rate_status = (\<lambda>k n l w. (Inr [], w)), e_rate_status_async = (\<lambda>k n l w. (Inr [], w)),
     e_time = (\<lambda>w. w), e_monotonic = (\<lambda>w. w), e_uniform = (\<lambda>a b w. (a, w)),
     e_sleep = (\<lambda>d w. w + d), e_asleep = (\<lambda>d w. w + d), e_uuid = (\<lambda>w. (''u1'', w))\<rparr>"

theorem rate_acquire_returns_in_time_witness:
  "\<exists>r w'. rate_acquire demo_rl demo_limits (CostAll (IntVal 1)) True 0 = Some (r, w') \<and> w' \<le> 5 + 1 / 100"
proof -
  have t: "rl_timely demo_rl (e_rate_acquire demo_rl) (e_sleep demo_rl) (1 / 100) (1 / 100) 0"
    by (simp add: rl_timely_def demo_rl_def)
  have c: "rc_acquire_timeout demo_limits = Some 5" by (simp add: demo_limits_def)
  from rate_acquire_returns_in_time [OF t _ _ c, of "CostAll (IntVal 1)" True 0] show ?thesis
    by (auto simp: rate_acquire_def demo_rl_def)
qed

subsection \<open>Adjust\<close>

lemma dict_update_same_keys:
  assumes "map fst e = map fst d" and "distinct (map fst d)"
  shows "dict_update d e = e"
proof -
  have len: "length e = length d" using assms(1) by (metis length_map)
  have "map (\<lambda>(k, v). (k, case map_of (rev e) k of None \<Rightarrow> v | Some v' \<Rightarrow> v')) d = e"
  proof (rule nth_equalityI)
    fix i assume "i < length (map (\<lambda>(k, v). (k, case map_of (rev e) k of None \<Rightarrow> v | Some v' \<Rightarrow> v')) d)"
    then have i: "i < length d" "i < length e" using len by simp_all
    have "fst (e ! i) = fst (d ! i)" using assms(1) i by (metis nth_map)
    moreover have "map_of (rev e) (fst (e ! i)) = Some (snd (e ! i))"
      using assms i by (simp add: map_of_eq_Some_iff flip: rev_map)
    ultimately show "map (\<lambda>(k, v). (k, case map_of (rev e) k of None \<Rightarrow> v | Some v' \<Rightarrow> v')) d ! i = e ! i"
      using i by (simp add: case_prod_beta prod_eq_iff)
  qed (simp add: len)
  moreover have "filter (\<lambda>(k, v). k \<notin> fst ` set d) e = []"
    using arg_cong [OF assms(1), of set] by (force simp: filter_empty_conv)
  ultimately show ?thesis by (simp add: dict_update_def)
qed

text \<open>The new cost of one entry of a permit.\<close>

definition adjusted_cost :: "cost_arg \<Rightarrow> string \<times> int \<Rightarrow> cost_value" where
  "adjusted_cost arg p =
     (case arg of CostAll v \<Rightarrow> v
      | CostMap m \<Rightarrow> (case map_of m (fst p) of None \<Rightarrow> IntVal (snd p) | Some v \<Rightarrow> v))"

definition adjustable :: "rate_limiter_config \<Rightarrow> rate_permit \<Rightarrow> cost_arg \<Rightarrow> bool" where
  "adjustable c p arg \<longleftrightarrow> rp_success p \<and> rp_identifier p \<noteq> None \<and> rp_acquired_at p \<noteq> None \<and>
     rp_limiter p = Some (rate_scope c) \<and> set (map fst (rp_costs p)) = set (limit_names c) \<and>
     arg \<noteq> CostAll OtherVal \<and> (case arg of CostAll v \<Rightarrow> True | CostMap m \<Rightarrow> check_names c m = Inr ())"

lemma checked_cost_Inr:
  "py_bind (check_int_cost v) (\<lambda>value. if value < 0 then Inl PyValueError else Inr (n, value)) = Inr y \<longleftrightarrow>
     fst y = n \<and> 0 \<le> snd y \<and> v = IntVal (snd y)"
  by (cases v; cases y) auto

lemma rows_keys:
  "list_all2 (\<lambda>a b. fst b = fst a \<and> P a b) xs ys \<Longrightarrow> map fst ys = map fst xs"
  by (induction xs ys rule: list_all2_induct) auto

lemma resolve_adjustment_Inr:
  "resolve_adjustment c p arg = Inr new \<longleftrightarrow> adjustable c p arg \<and>
     list_all2 (\<lambda>a b. fst b = fst a \<and> 0 \<le> snd b \<and> adjusted_cost arg a = IntVal (snd b)) (rp_costs p) new"
proof -
  have m: "py_map (\<lambda>(n, v). py_bind (check_int_cost v) (\<lambda>value. if value < 0 then Inl PyValueError else Inr (n, value)))
      (map (\<lambda>a. (fst a, adjusted_cost arg a)) (rp_costs p)) = Inr new \<longleftrightarrow>
    list_all2 (\<lambda>a b. fst b = fst a \<and> 0 \<le> snd b \<and> adjusted_cost arg a = IntVal (snd b)) (rp_costs p) new"
    unfolding py_map_Inr list.rel_map prod.case checked_cost_Inr ..
  show ?thesis
  proof (cases arg)
    case (CostAll v)
    then show ?thesis using m
      by (cases v) (auto simp: resolve_adjustment_def adjustable_def adjusted_cost_def case_prod_beta')
  next
    case (CostMap cm)
    then show ?thesis using m
      by (cases "check_names c cm")
         (auto simp: resolve_adjustment_def adjustable_def adjusted_cost_def case_prod_beta' cong: option.case_cong)
  qed
qed

text \<open>Adjusting again to the same costs costs nothing: after an adjust that returned, the same adjust of the
  permit sends no script call, whatever script and world it would meet, and returns the permit as it is.\<close>

theorem repeated_adjust_sends_nothing:
  assumes "distinct (map fst (rp_costs p))" and "adjust_with E call c p arg w = (Inr q, p', w')"
  shows "q = p' \<and> adjust_with E' call' c p' arg w2 = (Inr p', p', w2)"
proof -
  obtain new where new: "resolve_adjustment c p arg = Inr new"
    using assms(2) by (cases "resolve_adjustment c p arg") (simp_all add: adjust_with_def)
  then have rows: "adjustable c p arg"
    "list_all2 (\<lambda>a b. fst b = fst a \<and> 0 \<le> snd b \<and> adjusted_cost arg a = IntVal (snd b)) (rp_costs p) new"
    by (simp_all add: resolve_adjustment_Inr)
  then have keys: "map fst new = map fst (rp_costs p)"
    using rows_keys [of "\<lambda>a b. 0 \<le> snd b \<and> adjusted_cost arg a = IntVal (snd b)"] by simp
  have upd: "dict_update (rp_costs p) new = new" by (rule dict_update_same_keys [OF keys assms(1)])
  obtain limits keys' changes where args: "adjust_args c p new = (limits, keys', changes)" by (rule prod_cases3)
  show ?thesis
  proof (cases "changes = []")
    case True
    with assms(2) new args show ?thesis by (auto simp: adjust_with_def)
  next
    case False
    obtain used where u: "apply_adjustment p new limits used = (Inr q, p')"
      using assms(2) new args False by (auto simp: adjust_with_def Let_def split: prod.splits sum.splits)
    then have p': "q = p'" "rp_costs p' = new" "rp_success p' = rp_success p" "rp_identifier p' = rp_identifier p"
        "rp_acquired_at p' = rp_acquired_at p" "rp_limiter p' = rp_limiter p"
      by (auto simp: apply_adjustment_def upd Let_def split: if_splits)
    have same: "adjusted_cost arg b = IntVal (snd b)" if "adjusted_cost arg a = IntVal (snd b)" "fst b = fst a" for a b
      using that by (auto simp: adjusted_cost_def split: cost_arg.splits option.splits)
    have "list_all2 (\<lambda>a b. fst b = fst a \<and> 0 \<le> snd b \<and> adjusted_cost arg a = IntVal (snd b)) new new"
      using rows(2) by (auto simp: list_all2_conv_all_nth intro: same)
    moreover have "adjustable c p' arg"
      using rows(1) p' arg_cong [OF keys, of set] by (simp add: adjustable_def)
    ultimately have "resolve_adjustment c p' arg = Inr new" using p' by (simp add: resolve_adjustment_Inr)
    then show ?thesis using p' by (simp add: adjust_with_def adjust_args_def changed_limits_def Let_def)
  qed
qed

definition demo_permit :: rate_permit where
  "demo_permit = \<lparr>rp_success = True, rp_identifier = Some ''u1'', rp_costs = [(''req'', 1), (''tok'', 120)],
     rp_acquired_at = Some 3, rp_retry_after = None, rp_used = [(''req'', 1), (''tok'', 120)],
     rp_limiter = Some (rate_scope demo_limits)\<rparr>"

theorem repeated_adjust_sends_nothing_witness:
  "rate_adjust demo_rl demo_limits demo_permit (CostMap [(''tok'', IntVal 80)]) 0 =
     (Inr (demo_permit\<lparr>rp_costs := [(''req'', 1), (''tok'', 80)], rp_used := [(''req'', 1), (''tok'', 7)]\<rparr>),
      demo_permit\<lparr>rp_costs := [(''req'', 1), (''tok'', 80)], rp_used := [(''req'', 1), (''tok'', 7)]\<rparr>, 0) \<and>
   (let p' = demo_permit\<lparr>rp_costs := [(''req'', 1), (''tok'', 80)], rp_used := [(''req'', 1), (''tok'', 7)]\<rparr>
    in rate_adjust demo_rl demo_limits p' (CostMap [(''tok'', IntVal 80)]) 1 = (Inr p', p', 1))"
proof -
  let ?p = "demo_permit\<lparr>rp_costs := [(''req'', 1), (''tok'', 80)], rp_used := [(''req'', 1), (''tok'', 7)]\<rparr>"
  have a: "adjust_with demo_rl (e_rate_adjust demo_rl) demo_limits demo_permit (CostMap [(''tok'', IntVal 80)]) 0 =
      (Inr ?p, ?p, 0)"
    by (simp add: adjust_with_def resolve_adjustment_def demo_permit_def demo_limits_def check_names_def limit_names_def
        adjust_args_def changed_limits_def apply_adjustment_def dict_update_def demo_rl_def insert_commute Let_def)
  have d: "distinct (map fst (rp_costs demo_permit))" by (simp add: demo_permit_def)
  from repeated_adjust_sends_nothing [OF d a] a show ?thesis by (simp add: rate_adjust_def Let_def)
qed

end
