(* ===== verification/Heartbeat.thy ===== *)
theory Heartbeat
  imports Errors
begin

section \<open>The heartbeat\<close>

text \<open>
  \<open>src/redis_semaphore/heartbeat.py\<close>: the object that refreshes a lock's expiry in the background
  and declares the lock lost when it cannot. Waiting, the clock, the refresh function and the
  callback are parameters on a world \<open>'x\<close> (for the semaphore: its object and the rest). The loop has
  no bound: \<open>None\<close> stands for a heartbeat that never ends. The asynchronous task is the same loop
  over another wait; a cancellation is a wait that says stop.
\<close>

record heartbeat =
  hb_interval :: real
  hb_identifier :: ident
  hb_lock_timeout :: "real option"
  hb_retry_step :: real
  hb_lock_lost :: bool
  hb_running :: bool

record 'x hb_env =
  hb_wait :: "real \<Rightarrow> 'x \<Rightarrow> bool \<times> 'x"
  hb_asleep :: "real \<Rightarrow> 'x \<Rightarrow> bool \<times> 'x"
  hb_monotonic :: "'x \<Rightarrow> real"
  hb_refresh :: "'x \<Rightarrow> (py_exn + bool) \<times> 'x"
  hb_on_lock_lost :: "(ident \<Rightarrow> 'x \<Rightarrow> 'x) option"
  hb_is_fatal_error :: "(py_exn \<Rightarrow> bool) option"

definition new_heartbeat :: "real \<Rightarrow> ident \<Rightarrow> real option \<Rightarrow> real option \<Rightarrow> heartbeat" where
  "new_heartbeat interval identifier lock_timeout retry_step =
     \<lparr>hb_interval = interval, hb_identifier = identifier, hb_lock_timeout = lock_timeout,
      hb_retry_step = (case retry_step of None \<Rightarrow> interval | Some r \<Rightarrow> r),
      hb_lock_lost = False, hb_running = False\<rparr>"

text \<open>\<open>start\<close>/\<open>astart\<close> and \<open>stop\<close>/\<open>astop\<close>/\<open>cancel_async\<close>: the thread or task is there, or not.\<close>

definition heartbeat_start :: "heartbeat \<Rightarrow> heartbeat" where
  "heartbeat_start H = (if hb_running H then H else H\<lparr>hb_lock_lost := False, hb_running := True\<rparr>)"

definition heartbeat_stop :: "heartbeat \<Rightarrow> heartbeat" where
  "heartbeat_stop H = H\<lparr>hb_running := False\<rparr>"

definition mark_lost :: "heartbeat \<Rightarrow> 'x hb_env \<Rightarrow> 'x \<Rightarrow> heartbeat \<times> 'x" where
  "mark_lost H E x =
     (H\<lparr>hb_lock_lost := True\<rparr>,
      case hb_on_lock_lost E of None \<Rightarrow> x | Some f \<Rightarrow> f (hb_identifier H) x)"

lemma lock_lost_mark_lost [simp]: "hb_lock_lost (fst (mark_lost H E x))"
  by (simp add: mark_lost_def)

definition fatal :: "'x hb_env \<Rightarrow> py_exn \<Rightarrow> bool" where
  "fatal E e = (case hb_is_fatal_error E of None \<Rightarrow> False | Some f \<Rightarrow> f e)"

text \<open>The loop, with the object and the world at its end. What is not an \<open>Exception\<close> ends it as it is: in the
  asynchronous task that is CancelledError, which is raised again.\<close>

partial_function (option) hb_loop ::
  "heartbeat \<Rightarrow> 'x hb_env \<Rightarrow> (real \<Rightarrow> 'x \<Rightarrow> bool \<times> 'x) \<Rightarrow> real option \<Rightarrow> real \<Rightarrow> 'x \<Rightarrow> (heartbeat \<times> 'x) option"
where
  "hb_loop H E wait deadline step x =
     (case wait step x of
        (stopped, y) \<Rightarrow>
          if stopped then Some (H, y)
          else (case hb_refresh E y of
              (Inl e, z) \<Rightarrow>
                if \<not> is_exception e then Some (H, z)
                else if fatal E e then Some (mark_lost H E z)
                else (case deadline of
                    None \<Rightarrow> hb_loop H E wait deadline step z
                  | Some d \<Rightarrow>
                      if d \<le> hb_monotonic E z then Some (mark_lost H E z)
                      else hb_loop H E wait deadline (min (hb_retry_step H) (d - hb_monotonic E z)) z)
            | (Inr success, z) \<Rightarrow>
                if \<not> success then Some (mark_lost H E z)
                else (case hb_lock_timeout H of
                    None \<Rightarrow> hb_loop H E wait deadline step z
                  | Some t \<Rightarrow> hb_loop H E wait (Some (hb_monotonic E y + t)) (hb_interval H) z)))"

declare hb_loop.simps [code]

definition heartbeat_loop :: "heartbeat \<Rightarrow> 'x hb_env \<Rightarrow> 'x \<Rightarrow> (heartbeat \<times> 'x) option" where
  "heartbeat_loop H E x =
     hb_loop H E (hb_wait E) (map_option (\<lambda>t. hb_monotonic E x + t) (hb_lock_timeout H)) (hb_interval H) x"

definition heartbeat_loop_async :: "heartbeat \<Rightarrow> 'x hb_env \<Rightarrow> 'x \<Rightarrow> (heartbeat \<times> 'x) option" where
  "heartbeat_loop_async H E x =
     hb_loop H E (hb_asleep E) (map_option (\<lambda>t. hb_monotonic E x + t) (hb_lock_timeout H)) (hb_interval H) x"

subsection \<open>Time\<close>

text \<open>
  A wait that nobody stops takes at least the time asked for and at most \<open>late\<close> more; a refresh that
  fails raises an \<open>Exception\<close> that is not fatal and takes at most \<open>slow\<close>.
\<close>

definition waits_on_time :: "'x hb_env \<Rightarrow> (real \<Rightarrow> 'x \<Rightarrow> bool \<times> 'x) \<Rightarrow> real \<Rightarrow> bool" where
  "waits_on_time E wait late \<longleftrightarrow> (\<forall>s x. 0 \<le> s \<longrightarrow> \<not> fst (wait s x) \<and>
     hb_monotonic E x + s \<le> hb_monotonic E (snd (wait s x)) \<and>
     hb_monotonic E (snd (wait s x)) \<le> hb_monotonic E x + s + late)"

definition refresh_fails :: "'x hb_env \<Rightarrow> real \<Rightarrow> bool" where
  "refresh_fails E slow \<longleftrightarrow> (\<forall>x. \<exists>e. fst (hb_refresh E x) = Inl e \<and> is_exception e \<and> \<not> fatal E e \<and>
     hb_monotonic E x \<le> hb_monotonic E (snd (hb_refresh E x)) \<and>
     hb_monotonic E (snd (hb_refresh E x)) \<le> hb_monotonic E x + slow)"

lemma hb_loop_gives_up:
  assumes wait: "waits_on_time E wait late" and fails: "refresh_fails E slow"
    and r: "0 < hb_retry_step H" and s: "0 \<le> step" "hb_monotonic E x + step \<le> d"
    and n: "step = hb_retry_step H \<or> step = d - hb_monotonic E x \<or> m = Suc n"
      "d - hb_monotonic E x \<le> of_nat n * hb_retry_step H" and m: "n \<le> m"
  shows "\<exists>y. hb_loop H E wait (Some d) step x = Some (mark_lost H E y) \<and>
    d \<le> hb_monotonic E y \<and> hb_monotonic E y \<le> d + late + slow"
  using s n m
proof (induction m arbitrary: n step x rule: less_induct)
  case (less m)
  obtain y where y: "wait step x = (False, y)" and ty: "hb_monotonic E x + step \<le> hb_monotonic E y"
    "hb_monotonic E y \<le> hb_monotonic E x + step + late"
    using wait less.prems(1) unfolding waits_on_time_def by (metis (full_types) prod.collapse)
  obtain e z where z: "hb_refresh E y = (Inl e, z)" "is_exception e" "\<not> fatal E e" and tz: "hb_monotonic E y \<le> hb_monotonic E z"
    "hb_monotonic E z \<le> hb_monotonic E y + slow"
    using fails unfolding refresh_fails_def by (metis prod.collapse)
  let ?now = "hb_monotonic E z"
  show ?case
  proof (cases "d \<le> ?now")
    case True
    have "hb_loop H E wait (Some d) step x = Some (mark_lost H E z)"
      using y z True by (subst hb_loop.simps) (simp add: Let_def)
    with True ty tz less.prems(2) show ?thesis by (intro exI [of _ z]) auto
  next
    case False
    let ?step = "min (hb_retry_step H) (d - ?now)"
    have rec: "hb_loop H E wait (Some d) step x = hb_loop H E wait (Some d) ?step z"
      using y z False by (subst hb_loop.simps) (simp add: Let_def)
    have "step \<noteq> d - hb_monotonic E x" using False ty tz by auto
    with less.prems(3) consider "step = hb_retry_step H" | "m = Suc n" by auto
    then obtain k where k: "k < m" "d - ?now \<le> of_nat k * hb_retry_step H"
    proof cases
      case 1
      have "0 < d - hb_monotonic E x" using False ty tz less.prems(1) by linarith
      then have "n \<noteq> 0" using less.prems(4) by (cases n) auto
      then obtain k where "n = Suc k" using not0_implies_Suc by blast
      with 1 less.prems(4,5) ty tz that [of k] show thesis by (auto simp: algebra_simps)
    next
      case 2
      with less.prems(1,4) ty tz that [of n] show thesis by auto
    qed
    have "\<exists>y. hb_loop H E wait (Some d) ?step z = Some (mark_lost H E y) \<and>
        d \<le> hb_monotonic E y \<and> hb_monotonic E y \<le> d + late + slow"
      using False r k(2) by (intro less.IH [OF k(1), where n = k]) (auto simp: min_def)
    then show ?thesis by (simp add: rec)
  qed
qed

text \<open>C26: a heartbeat that cannot refresh gives the lock up in time: if from its start every refresh
  fails with errors worth a retry, the loop ends with the lock declared lost, not before the lock
  timeout has passed since the start, and not later than the delay of one wait and one refresh
  after it, whatever the retry step is.\<close>

theorem heartbeat_gives_up_in_time:
  assumes "waits_on_time E (hb_wait E) late" and "refresh_fails E slow"
    and "0 < hb_retry_step H" and "hb_lock_timeout H = Some t" and "0 \<le> hb_interval H" and "hb_interval H \<le> t"
  shows "\<exists>y. heartbeat_loop H E x = Some (mark_lost H E y) \<and>
    hb_monotonic E x + t \<le> hb_monotonic E y \<and>
    hb_monotonic E y \<le> hb_monotonic E x + t + late + slow"
proof -
  obtain n where n: "t \<le> of_nat n * hb_retry_step H"
    using reals_Archimedean3 [OF assms(3)] by (metis less_eq_real_def)
  show ?thesis
    using hb_loop_gives_up [OF assms(1-3,5), of x "hb_monotonic E x + t" "Suc n" n] assms(4,6) n
    by (simp add: heartbeat_loop_def)
qed

text \<open>A clock in seconds, a refresh that takes a tenth of a second and finds no connection.\<close>

definition demo_hb :: "real hb_env" where
  "demo_hb = \<lparr>hb_wait = (\<lambda>s x. (False, x + s)), hb_asleep = (\<lambda>s x. (False, x + s)),
     hb_monotonic = (\<lambda>x. x),
     hb_refresh = (\<lambda>x. (Inl (RawExn \<lparr>exn_class = ''ConnectionError'', exn_bases = [''Exception''], exn_text = []\<rparr>), x + 1 / 10)),
     hb_on_lock_lost = None, hb_is_fatal_error = None\<rparr>"

theorem heartbeat_gives_up_in_time_witness:
  "\<exists>h y. heartbeat_loop (new_heartbeat 10 ''A'' (Some 30) (Some 1)) demo_hb 0 = Some (h, y) \<and>
     hb_lock_lost h \<and> 30 \<le> y \<and> y \<le> 30 + 1 / 10"
proof -
  let ?H = "new_heartbeat 10 ''A'' (Some 30) (Some 1)"
  have w: "waits_on_time demo_hb (hb_wait demo_hb) 0"
    by (simp add: waits_on_time_def demo_hb_def)
  have f: "refresh_fails demo_hb (1 / 10)"
    by (simp add: refresh_fails_def demo_hb_def fatal_def is_exception_def isinstance_def)
  have h: "0 < hb_retry_step ?H" "hb_lock_timeout ?H = Some 30" "0 \<le> hb_interval ?H" "hb_interval ?H \<le> 30"
    by (simp_all add: new_heartbeat_def)
  have m: "mark_lost ?H demo_hb y = (?H\<lparr>hb_lock_lost := True\<rparr>, y)" "hb_monotonic demo_hb y = y" for y
    by (simp_all add: mark_lost_def demo_hb_def)
  from heartbeat_gives_up_in_time [OF w f h, of 0] show ?thesis by (auto simp: m)
qed

text \<open>A heartbeat whose refreshes all succeed never declares the lock lost: if its loop ends, it
  was stopped, and it leaves the mark of the heartbeat as it was.\<close>

theorem refreshed_lock_is_never_lost:
  fixes E :: "'x hb_env"
  assumes "\<forall>x. fst (hb_refresh E x) = Inr True"
    and "heartbeat_loop H E x = Some (h, y)"
  shows "hb_lock_lost h = hb_lock_lost H"
proof -
  have "(\<forall>x. fst (hb_refresh E x) = Inr True) \<longrightarrow> fst r = H"
    if "hb_loop H E wait d s x = Some r" for wait d s x r
  proof (rule hb_loop.raw_induct [where P = "\<lambda>H E wait d s x r. (\<forall>x. fst (hb_refresh E x) = Inr True) \<longrightarrow> fst r = H"
          and ?xa = "(((((H, E), wait), d), s), x)" and y = r, unfolded prod.case, OF _ that])
    fix f :: "heartbeat \<Rightarrow> 'x hb_env \<Rightarrow> (real \<Rightarrow> 'x \<Rightarrow> bool \<times> 'x) \<Rightarrow> real option \<Rightarrow> real \<Rightarrow> 'x \<Rightarrow>
        (heartbeat \<times> 'x) option"
      and H E wait d s x r
    assume IH: "\<And>H E wait d s x r. f H E wait d s x = Some r \<Longrightarrow>
        (\<forall>x. fst (hb_refresh E x) = Inr True) \<longrightarrow> fst r = H"
    assume r: "(case wait s x of (stopped, y) \<Rightarrow>
        if stopped then Some (H, y)
        else (case hb_refresh E y of
            (Inl e, z) \<Rightarrow>
              if \<not> is_exception e then Some (H, z)
              else if fatal E e then Some (mark_lost H E z)
              else (case d of None \<Rightarrow> f H E wait d s z
                | Some d' \<Rightarrow> if d' \<le> hb_monotonic E z then Some (mark_lost H E z)
                    else f H E wait d (min (hb_retry_step H) (d' - hb_monotonic E z)) z)
          | (Inr success, z) \<Rightarrow>
              if \<not> success then Some (mark_lost H E z)
              else (case hb_lock_timeout H of None \<Rightarrow> f H E wait d s z
                | Some t \<Rightarrow> f H E wait (Some (hb_monotonic E y + t)) (hb_interval H) z))) = Some r"
    show "(\<forall>x. fst (hb_refresh E x) = Inr True) \<longrightarrow> fst r = H"
    proof
      assume ok: "\<forall>x. fst (hb_refresh E x) = Inr True"
      obtain st y where y: "wait s x = (st, y)" by fastforce
      obtain z where z: "hb_refresh E y = (Inr True, z)" using ok by (metis prod.collapse)
      from r ok y z IH show "fst r = H" by (auto split: if_splits option.splits)
    qed
  qed
  with assms show ?thesis unfolding heartbeat_loop_def by fastforce
qed

definition live_hb :: "nat hb_env" where
  "live_hb = \<lparr>hb_wait = (\<lambda>s x. (3 \<le> x, x)), hb_asleep = (\<lambda>s x. (3 \<le> x, x)),
     hb_monotonic = (\<lambda>x. of_nat x), hb_refresh = (\<lambda>x. (Inr True, Suc x)),
     hb_on_lock_lost = None, hb_is_fatal_error = None\<rparr>"

theorem refreshed_lock_is_never_lost_witness:
  "\<exists>h y. heartbeat_loop (new_heartbeat 1 ''A'' (Some 3) None) live_hb 0 = Some (h, y) \<and> \<not> hb_lock_lost h"
proof -
  let ?H = "new_heartbeat 1 ''A'' (Some 3) None"
  have e: "heartbeat_loop ?H live_hb 0 = Some (?H, 3)"
    by (simp add: heartbeat_loop_def hb_loop.simps live_hb_def new_heartbeat_def)
  have "hb_lock_lost ?H = hb_lock_lost ?H"
    by (rule refreshed_lock_is_never_lost [OF _ e]) (simp add: live_hb_def)
  with e show ?thesis by (auto simp: new_heartbeat_def)
qed

end
