(* ===== verification/Metrics.thy ===== *)
theory Metrics
  imports Prelude
begin

section \<open>Metrics\<close>

text \<open>
  \<open>src/redis_semaphore/metrics.py\<close>: the calls of the collector protocol as a datatype, and the
  Prometheus collector as a function from a call to its gauges, counters and histograms. A label set
  that was never used has no sample. The library's components only see whether the collector is
  enabled and send it calls, so a collector of the application's own is a parameter there.
\<close>

datatype metric_call =
    SetSlotsUsed string string int int
  | SetWaiting string string int
  | ObserveWaitSeconds string string real string
  | IncAcquire string string string
  | IncQueueTotal string string
  | IncLockLost string string
  | IncDispatchJob string string string

record prometheus =
  pm_slots_used :: "string \<times> string \<Rightarrow> real option"
  pm_waiting :: "string \<times> string \<Rightarrow> real option"
  pm_acquire_total :: "string \<times> string \<times> string \<Rightarrow> nat"
  pm_queue_total :: "string \<times> string \<Rightarrow> nat"
  pm_wait_seconds :: "string \<times> string \<times> string \<Rightarrow> real list"
  pm_lock_lost :: "string \<times> string \<Rightarrow> nat"
  pm_dispatch_jobs :: "string \<times> string \<times> string \<Rightarrow> nat"

definition new_prometheus :: prometheus where
  "new_prometheus = \<lparr>pm_slots_used = (\<lambda>_. None), pm_waiting = (\<lambda>_. None), pm_acquire_total = (\<lambda>_. 0),
     pm_queue_total = (\<lambda>_. 0), pm_wait_seconds = (\<lambda>_. []), pm_lock_lost = (\<lambda>_. 0), pm_dispatch_jobs = (\<lambda>_. 0)\<rparr>"

definition inc :: "('a \<Rightarrow> nat) \<Rightarrow> 'a \<Rightarrow> 'a \<Rightarrow> nat" where
  "inc f x = f(x := Suc (f x))"

fun prometheus_call :: "metric_call \<Rightarrow> prometheus \<Rightarrow> prometheus" where
  "prometheus_call (SetSlotsUsed name namespace used limit) P =
     P\<lparr>pm_slots_used := (pm_slots_used P)((name, namespace) := Some (of_int used))\<rparr>"
| "prometheus_call (SetWaiting name namespace waiting) P =
     P\<lparr>pm_waiting := (pm_waiting P)((name, namespace) := Some (of_int waiting))\<rparr>"
| "prometheus_call (ObserveWaitSeconds name namespace wait_seconds result) P =
     P\<lparr>pm_wait_seconds := (pm_wait_seconds P)
       ((name, namespace, result) := pm_wait_seconds P (name, namespace, result) @ [wait_seconds])\<rparr>"
| "prometheus_call (IncAcquire name namespace result) P =
     P\<lparr>pm_acquire_total := inc (pm_acquire_total P) (name, namespace, result)\<rparr>"
| "prometheus_call (IncQueueTotal name namespace) P =
     P\<lparr>pm_queue_total := inc (pm_queue_total P) (name, namespace)\<rparr>"
| "prometheus_call (IncLockLost name namespace) P =
     P\<lparr>pm_lock_lost := inc (pm_lock_lost P) (name, namespace)\<rparr>"
| "prometheus_call (IncDispatchJob q namespace result) P =
     P\<lparr>pm_dispatch_jobs := inc (pm_dispatch_jobs P) (q, namespace, result)\<rparr>"

text \<open>The collector in use when none was set: disabled, and every call does nothing.\<close>

definition noop_enabled :: bool where
  "noop_enabled = False"

definition noop_call :: "metric_call \<Rightarrow> 'w \<Rightarrow> 'w" where
  "noop_call m w = w"

end
