(* ===== verification/SemaphoreClient.thy ===== *)
theory SemaphoreClient
  imports ScriptRunner Config Heartbeat Metrics
begin

section \<open>The semaphore's client\<close>

text \<open>
  The classes \<open>Semaphore\<close> and \<open>Mutex\<close> of \<open>src/redis_semaphore/semaphore.py\<close>, with the state of
  their base class (\<open>base.py\<close>): the object's fields are the record \<open>sem_obj\<close>, what the object
  reaches outside itself is the record \<open>sem_env\<close> of operations on a world \<open>'w\<close>, and a method takes and
  returns the object and the world. The waiting loop of \<open>acquire\<close> has no bound in the code:
  \<open>None\<close> stands for a call that never returns. Log messages are left out; the sequential view of
  one method at a time leaves out what a heartbeat thread does in the middle of another method's
  step.
\<close>

subsection \<open>State\<close>

datatype api_mode = NONE | SYNC | ASYNC

record sem_obj =
  so_config :: semaphore_config
  so_identifier :: "ident option"
  so_fencing_token :: "int option"
  so_expires_at :: "real option"
  so_state :: lock_state
  so_mode :: api_mode
  so_waiting :: int
  so_heartbeat :: "heartbeat option"
  so_async_heartbeat :: "heartbeat option"
  so_lock_lost_event :: bool
  so_async_lock_lost_event :: "bool option"
  so_blpop_wait_cap :: "real option"

record acq_state =
  aq_start_time :: real
  aq_wait_start :: "real option"
  aq_waiting_registered :: bool
  aq_attempts :: nat

text \<open>
  What the methods use: the script client, clocks, random numbers and identifiers, sleeping, BLPOP
  (its reply is not used, only what it raises), a pipeline of list commands, the metrics collector
  and the application's callback; \<open>s_hb_wait\<close> and \<open>s_event_wait\<close> are waits during which others may act
  on the object, and \<open>s_event_wait_forever\<close> is one without a timeout, which may never end.
\<close>

datatype pipe_cmd = LPush key string | LTrim key int int | PExpire key int

record 'w sem_env =
  s_sha1 :: "lua_script \<Rightarrow> string"
  s_client :: "'w script_client"
  s_time :: "'w \<Rightarrow> real"
  s_time_ns :: "'w \<Rightarrow> int"
  s_monotonic :: "'w \<Rightarrow> real"
  s_uniform :: "real \<Rightarrow> real \<Rightarrow> 'w \<Rightarrow> real \<times> 'w"
  s_uuid_hex :: "'w \<Rightarrow> string \<times> 'w"
  s_sleep :: "real \<Rightarrow> 'w \<Rightarrow> 'w"
  s_asleep :: "real \<Rightarrow> 'w \<Rightarrow> 'w"
  s_blpop :: "key \<Rightarrow> real \<Rightarrow> 'w \<Rightarrow> raw_exn option \<times> 'w"
  s_ablpop :: "key \<Rightarrow> real \<Rightarrow> 'w \<Rightarrow> raw_exn option \<times> 'w"
  s_pipeline :: "pipe_cmd list \<Rightarrow> 'w \<Rightarrow> raw_exn option \<times> 'w"
  s_apipeline :: "pipe_cmd list \<Rightarrow> 'w \<Rightarrow> raw_exn option \<times> 'w"
  s_metrics_enabled :: bool
  s_metric :: "metric_call \<Rightarrow> 'w \<Rightarrow> 'w"
  s_on_lock_lost :: "(ident \<Rightarrow> 'w \<Rightarrow> 'w) option"
  s_hb_wait :: "real \<Rightarrow> sem_obj \<times> 'w \<Rightarrow> bool \<times> sem_obj \<times> 'w"
  s_hb_asleep :: "real \<Rightarrow> sem_obj \<times> 'w \<Rightarrow> bool \<times> sem_obj \<times> 'w"
  s_event_wait :: "real \<Rightarrow> sem_obj \<times> 'w \<Rightarrow> bool \<times> sem_obj \<times> 'w"
  s_event_wait_forever :: "sem_obj \<times> 'w \<Rightarrow> (sem_obj \<times> 'w) option"

definition emit :: "'w sem_env \<Rightarrow> metric_call \<Rightarrow> 'w \<Rightarrow> 'w" where
  "emit E m w = (if s_metrics_enabled E then s_metric E m w else w)"

subsection \<open>Construction\<close>

text \<open>
  The client's \<open>get_connection_kwargs\<close> is absent, raises, or returns something; the connection
  keywords are a dict or not (\<open>None\<close>). \<open>float(x)\<close> of an arbitrary value is a parameter.
\<close>

datatype 'a probe = Absent | Raises | Returns 'a

definition client_socket_timeout ::
  "(pyobj \<Rightarrow> real option) \<Rightarrow> (string \<times> pyobj) list option probe \<Rightarrow> (string \<times> pyobj) list option \<Rightarrow> real option" where
  "client_socket_timeout to_float get_kwargs pool_kwargs =
     (let kwargs = (case get_kwargs of Returns k \<Rightarrow> k | _ \<Rightarrow> None);
          kwargs = (case kwargs of None \<Rightarrow> pool_kwargs | Some d \<Rightarrow> Some d)
      in case kwargs of
           None \<Rightarrow> None
         | Some d \<Rightarrow>
             (case map_of d ''socket_timeout'' of
                None \<Rightarrow> None | Some PNone \<Rightarrow> None | Some v \<Rightarrow> to_float v))"

definition blpop_socket_timeout_fraction :: real where
  "blpop_socket_timeout_fraction = 8 / 10"

definition compute_blpop_wait_cap :: "real option \<Rightarrow> real option" where
  "compute_blpop_wait_cap socket_timeout =
     (case socket_timeout of
        None \<Rightarrow> None
      | Some t \<Rightarrow> if t \<le> 0 then None else Some (t * blpop_socket_timeout_fraction))"

definition new_semaphore :: "semaphore_config \<Rightarrow> real option \<Rightarrow> sem_obj" where
  "new_semaphore c socket_timeout =
     \<lparr>so_config = c, so_identifier = None, so_fencing_token = None, so_expires_at = None,
      so_state = RELEASED, so_mode = NONE, so_waiting = 0, so_heartbeat = None,
      so_async_heartbeat = None, so_lock_lost_event = False, so_async_lock_lost_event = None,
      so_blpop_wait_cap = compute_blpop_wait_cap socket_timeout\<rparr>"

text \<open>A mutex: the other parameters with their defaults as \<open>c\<close>, and the limit one.\<close>

definition mutex_defaults :: "string \<Rightarrow> semaphore_config" where
  "mutex_defaults name = (semaphore_config_defaults name 1)\<lparr>sc_namespace := ''mutex''\<rparr>"

definition new_mutex :: "semaphore_config \<Rightarrow> real option \<Rightarrow> py_exn + sem_obj" where
  "new_mutex c socket_timeout =
     (let config = c\<lparr>sc_limit := 1\<rparr>
      in py_bind (semaphore_post_init config) (\<lambda>_. Inr (new_semaphore config socket_timeout)))"

definition generate_identifier :: "'w sem_env \<Rightarrow> 'w \<Rightarrow> ident \<times> 'w" where
  "generate_identifier E w =
     (let (hex, w) = s_uuid_hex E w in (hex @ '':'' @ int_str (s_time_ns E w), w))"

definition lock_timeout_ms :: "sem_obj \<Rightarrow> int" where
  "lock_timeout_ms S = py_int (sc_lock_timeout (so_config S) * 1000)"

definition sem_now_arg :: "'w sem_env \<Rightarrow> sem_obj \<Rightarrow> 'w \<Rightarrow> ms option" where
  "sem_now_arg E S w = now_ms_arg (sc_time_source (so_config S)) (s_time E w)"

subsection \<open>Checks\<close>

definition check_mode :: "sem_obj \<Rightarrow> api_mode \<Rightarrow> py_exn + unit" where
  "check_mode S required =
     (if so_mode S = NONE then Inr ()
      else if so_mode S \<noteq> required then Inl (SemError MixedModeError)
      else Inr ())"

definition check_lock_lost :: "sem_obj \<Rightarrow> py_exn + unit" where
  "check_lock_lost S =
     (if so_state S = LOST \<and> sc_strict_mode (so_config S)
      then Inl (SemError (LockLostError (case so_identifier S of
          None \<Rightarrow> ''unknown'' | Some i \<Rightarrow> if i = [] then ''unknown'' else i)))
      else Inr ())"

definition check_reacquire :: "sem_obj \<Rightarrow> py_exn + unit" where
  "check_reacquire S =
     (if so_state S = ACQUIRED \<and> sc_reacquire_policy (so_config S) = FORBID
      then Inl (SemError AlreadyAcquiredError) else Inr ())"

subsection \<open>Counting the waiters\<close>

definition increment_waiting :: "'w sem_env \<Rightarrow> sem_obj \<Rightarrow> 'w \<Rightarrow> sem_obj \<times> 'w" where
  "increment_waiting E S w =
     (let S = S\<lparr>so_waiting := so_waiting S + 1\<rparr>;
          c = so_config S;
          w = emit E (SetWaiting (sc_name c) (sc_namespace c) (so_waiting S)) w
      in (S, emit E (IncQueueTotal (sc_name c) (sc_namespace c)) w))"

definition decrement_waiting :: "'w sem_env \<Rightarrow> sem_obj \<Rightarrow> 'w \<Rightarrow> sem_obj \<times> 'w" where
  "decrement_waiting E S w =
     (if 0 < so_waiting S then
        (let S = S\<lparr>so_waiting := so_waiting S - 1\<rparr>; c = so_config S
         in (S, emit E (SetWaiting (sc_name c) (sc_namespace c) (so_waiting S)) w))
      else (S, w))"

text \<open>What success and timeout do for an acquire that waited.\<close>

definition observe_wait :: "'w sem_env \<Rightarrow> sem_obj \<Rightarrow> acq_state \<Rightarrow> string \<Rightarrow> 'w \<Rightarrow> 'w" where
  "observe_wait E S st result w =
     (case aq_wait_start st of
        None \<Rightarrow> w
      | Some t0 \<Rightarrow> emit E (ObserveWaitSeconds (sc_name (so_config S)) (sc_namespace (so_config S))
                           (s_monotonic E w - t0) result) w)"

definition leave_wait :: "'w sem_env \<Rightarrow> acq_state \<Rightarrow> string \<Rightarrow> sem_obj \<Rightarrow> 'w \<Rightarrow> sem_obj \<times> 'w" where
  "leave_wait E st result S w =
     (let (S, w) = (if aq_waiting_registered st
            then (let (S, w) = decrement_waiting E S w in (S, observe_wait E S st result w))
            else (S, w))
      in (S, emit E (IncAcquire (sc_name (so_config S)) (sc_namespace (so_config S)) result) w))"

subsection \<open>The heartbeat of the object\<close>

definition set_lost :: "api_mode \<Rightarrow> sem_obj \<Rightarrow> sem_obj" where
  "set_lost m S =
     S\<lparr>so_state := LOST, so_lock_lost_event := True,
       so_async_lock_lost_event :=
         (if m = ASYNC then map_option (\<lambda>_. True) (so_async_lock_lost_event S)
          else so_async_lock_lost_event S)\<rparr>"

definition on_lost :: "'w sem_env \<Rightarrow> api_mode \<Rightarrow> ident \<Rightarrow> sem_obj \<times> 'w \<Rightarrow> sem_obj \<times> 'w" where
  "on_lost E m identifier x =
     (case x of (S, w) \<Rightarrow>
        if so_state S \<noteq> ACQUIRED then (S, w)
        else (let S = set_lost m S;
                  w = (case s_on_lock_lost E of None \<Rightarrow> w | Some f \<Rightarrow> f identifier w)
              in (S, emit E (IncLockLost (sc_name (so_config S)) (sc_namespace (so_config S))) w)))"

definition call_refresh where
  "call_refresh E m S identifier w =
     (if m = ASYNC then runner_refresh_async else runner_refresh) (s_sha1 E) (s_client E)
       (owners_key (so_config S)) identifier (lock_timeout_ms S) (sem_now_arg E S w) w"

definition heartbeat_refresh :: "'w sem_env \<Rightarrow> api_mode \<Rightarrow> sem_obj \<times> 'w \<Rightarrow> (py_exn + bool) \<times> sem_obj \<times> 'w" where
  "heartbeat_refresh E m x =
     (case x of (S, w) \<Rightarrow>
        if so_identifier S = None \<or> so_state S \<noteq> ACQUIRED then (Inr False, S, w)
        else (case call_refresh E m S (the (so_identifier S)) w of
            (Inl e, w) \<Rightarrow> (backend_errors ''refresh'' (Some (sc_name (so_config S))) (Inl e), S, w)
          | (Inr new_expires_ms, w) \<Rightarrow>
              if new_expires_ms \<noteq> 0
              then (Inr True, S\<lparr>so_expires_at := Some (of_int new_expires_ms / 1000)\<rparr>, w)
              else (Inr False, S, w)))"

text \<open>What a heartbeat started for the object is given to work with.\<close>

definition sem_hb_env :: "'w sem_env \<Rightarrow> api_mode \<Rightarrow> (sem_obj \<times> 'w) hb_env" where
  "sem_hb_env E m =
     \<lparr>hb_wait = s_hb_wait E, hb_asleep = s_hb_asleep E, hb_monotonic = (\<lambda>(S, w). s_monotonic E w),
      hb_refresh = heartbeat_refresh E m, hb_on_lock_lost = Some (on_lost E m),
      hb_is_fatal_error = Some is_permanent_backend_error\<rparr>"

definition sem_new_heartbeat :: "sem_obj \<Rightarrow> ident \<Rightarrow> heartbeat" where
  "sem_new_heartbeat S identifier =
     new_heartbeat (refresh_interval (so_config S)) identifier (Some (sc_lock_timeout (so_config S)))
       (Some (refresh_retry_interval (so_config S)))"

definition start_heartbeat :: "sem_obj \<Rightarrow> (py_exn + unit) \<times> sem_obj" where
  "start_heartbeat S =
     (if so_heartbeat S \<noteq> None then (Inr (), S)
      else (case so_identifier S of
          None \<Rightarrow> (Inl (SemError AcquireError), S)
        | Some i \<Rightarrow> (Inr (), S\<lparr>so_heartbeat := Some (heartbeat_start (sem_new_heartbeat S i))\<rparr>)))"

definition start_heartbeat_async :: "sem_obj \<Rightarrow> (py_exn + unit) \<times> sem_obj" where
  "start_heartbeat_async S =
     (if so_async_heartbeat S \<noteq> None then (Inr (), S)
      else (case so_identifier S of
          None \<Rightarrow> (Inl (SemError AcquireError), S)
        | Some i \<Rightarrow> (Inr (), S\<lparr>so_async_heartbeat := Some (heartbeat_start (sem_new_heartbeat S i))\<rparr>)))"

text \<open>Stopping ends the thread or task and drops the object's reference to it.\<close>

definition stop_heartbeat :: "sem_obj \<Rightarrow> sem_obj" where
  "stop_heartbeat S = S\<lparr>so_heartbeat := None\<rparr>"

definition cancel_async_heartbeat :: "sem_obj \<Rightarrow> sem_obj" where
  "cancel_async_heartbeat S = S\<lparr>so_async_heartbeat := None\<rparr>"

definition stop_heartbeat_async :: "sem_obj \<Rightarrow> sem_obj" where
  "stop_heartbeat_async S = S\<lparr>so_async_heartbeat := None\<rparr>"

definition sem_del :: "sem_obj \<Rightarrow> sem_obj" where
  "sem_del S = cancel_async_heartbeat (stop_heartbeat S)"

text \<open>Process exit, on the objects that are still alive.\<close>

definition cleanup_all_semaphores :: "sem_obj list \<Rightarrow> sem_obj list" where
  "cleanup_all_semaphores Ss = map (\<lambda>S. cancel_async_heartbeat (stop_heartbeat S)) Ss"

definition stop_heartbeat_of :: "api_mode \<Rightarrow> sem_obj \<Rightarrow> sem_obj" where
  "stop_heartbeat_of m S = (if m = ASYNC then stop_heartbeat_async S else stop_heartbeat S)"

subsection \<open>The outcome of one attempt to acquire\<close>

definition finalize_acquire ::
  "'w sem_env \<Rightarrow> int option \<Rightarrow> int option \<Rightarrow> acq_state \<Rightarrow> api_mode \<Rightarrow> int \<Rightarrow> sem_obj \<Rightarrow> 'w \<Rightarrow>
   acquire_result \<times> sem_obj \<times> 'w" where
  "finalize_acquire E fencing expires st m used S w =
     (let S = S\<lparr>so_fencing_token := (case fencing of None \<Rightarrow> None | Some f \<Rightarrow> if f = 0 then None else Some f),
                so_expires_at := (case expires of None \<Rightarrow> None
                                  | Some e \<Rightarrow> if e = 0 then None else Some (of_int e / 1000)),
                so_state := ACQUIRED, so_mode := m\<rparr>;
          (S, w) = leave_wait E st ''success'' S w
      in (\<lparr>ar_success = True, ar_identifier = so_identifier S, ar_fencing_token = so_fencing_token S,
           ar_expires_at = so_expires_at S, ar_used_slots = Some used\<rparr>, S, w))"

definition handle_acquire_success where
  "handle_acquire_success E fencing expires used st S w =
     (let (result, S, w) = finalize_acquire E fencing expires st SYNC used S w
      in if 0 < refresh_interval (so_config S)
         then (case start_heartbeat S of (Inl e, S) \<Rightarrow> (Inl e, S, w) | (Inr _, S) \<Rightarrow> (Inr result, S, w))
         else (Inr result, S, w))"

definition handle_acquire_success_async where
  "handle_acquire_success_async E fencing expires used st S w =
     (let (result, S, w) = finalize_acquire E fencing expires st ASYNC used S w
      in if 0 < refresh_interval (so_config S)
         then (case start_heartbeat_async S of (Inl e, S) \<Rightarrow> (Inl e, S, w) | (Inr _, S) \<Rightarrow> (Inr result, S, w))
         else (Inr result, S, w))"

definition handle_non_blocking_failure :: "'w sem_env \<Rightarrow> int \<Rightarrow> sem_obj \<Rightarrow> 'w \<Rightarrow> acquire_result \<times> 'w" where
  "handle_non_blocking_failure E used S w =
     (\<lparr>ar_success = False, ar_identifier = None, ar_fencing_token = None, ar_expires_at = None,
       ar_used_slots = Some used\<rparr>,
      emit E (IncAcquire (sc_name (so_config S)) (sc_namespace (so_config S)) ''busy'') w)"

definition handle_timeout :: "'w sem_env \<Rightarrow> acq_state \<Rightarrow> sem_obj \<Rightarrow> 'w \<Rightarrow> (py_exn + acquire_result) \<times> sem_obj \<times> 'w" where
  "handle_timeout E st S w =
     (let (S, w) = leave_wait E st ''timeout'' S w in (Inl (SemError AcquireTimeoutError), S, w))"

subsection \<open>Waiting\<close>

definition check_timeout :: "'w sem_env \<Rightarrow> sem_obj \<Rightarrow> acq_state \<Rightarrow> 'w \<Rightarrow> bool" where
  "check_timeout E S st w =
     (case sc_acquire_timeout (so_config S) of
        None \<Rightarrow> False | Some t \<Rightarrow> t \<le> s_monotonic E w - aq_start_time st)"

definition remaining_time :: "'w sem_env \<Rightarrow> sem_obj \<Rightarrow> acq_state \<Rightarrow> 'w \<Rightarrow> real option" where
  "remaining_time E S st w =
     map_option (\<lambda>t. max 0 (t - (s_monotonic E w - aq_start_time st))) (sc_acquire_timeout (so_config S))"

definition cap :: "real option \<Rightarrow> real \<Rightarrow> real" where
  "cap bound x = (case bound of None \<Rightarrow> x | Some b \<Rightarrow> min x b)"

text \<open>
  \<open>x ** n\<close> of a float and a non-negative int. It is the one place where the range of a float shows:
  where the power is beyond it, Python raises OverflowError.
\<close>

definition py_pow :: "real \<Rightarrow> nat \<Rightarrow> py_exn + real" where
  "py_pow x n = (if 2 ^ 1024 \<le> x ^ n then Inl PyOverflowError else Inr (x ^ n))"

definition next_retry_interval ::
  "'w sem_env \<Rightarrow> sem_obj \<Rightarrow> acq_state \<Rightarrow> 'w \<Rightarrow> (py_exn + real) \<times> acq_state \<times> 'w" where
  "next_retry_interval E S st w =
     (let c = so_config S; base = sc_retry_interval c
      in case (case sc_retry_interval_max c of
             None \<Rightarrow> Inr base
           | Some mx \<Rightarrow> map_sum id (\<lambda>multiplier. min (base * multiplier) mx)
                          (py_pow (sc_retry_backoff_multiplier c) (aq_attempts st))) of
           Inl e \<Rightarrow> (Inl e, st, w)
         | Inr interval \<Rightarrow>
             (let st = st\<lparr>aq_attempts := aq_attempts st + 1\<rparr>
              in if 0 < sc_retry_jitter c
                 then (let (jitter, w) = s_uniform E 0 (sc_retry_jitter c * interval) w
                       in (Inr (interval + jitter), st, w))
                 else (Inr interval, st, w)))"

definition wait_polling_with where
  "wait_polling_with E sleep S st w =
     (case next_retry_interval E S st w of
        (Inl e, st, w) \<Rightarrow> (Inl e, st, w)
      | (Inr interval, st, w) \<Rightarrow>
          (case remaining_time E S st w of
             None \<Rightarrow> (Inr (), st, sleep interval w)
           | Some remaining \<Rightarrow>
               (let interval = min interval remaining
                in if interval \<le> 0 then (Inr (), st, w) else (Inr (), st, sleep interval w))))"

definition wait_polling :: "'w sem_env \<Rightarrow> sem_obj \<Rightarrow> acq_state \<Rightarrow> 'w \<Rightarrow> (py_exn + unit) \<times> acq_state \<times> 'w" where
  "wait_polling E = wait_polling_with E (s_sleep E)"

definition wait_polling_async :: "'w sem_env \<Rightarrow> sem_obj \<Rightarrow> acq_state \<Rightarrow> 'w \<Rightarrow> (py_exn + unit) \<times> acq_state \<times> 'w" where
  "wait_polling_async E = wait_polling_with E (s_asleep E)"

definition blpop_timeout_for :: "'w sem_env \<Rightarrow> sem_obj \<Rightarrow> acq_state \<Rightarrow> 'w \<Rightarrow> real" where
  "blpop_timeout_for E S st w =
     (let timeout = cap (so_blpop_wait_cap S) (sc_blpop_timeout (so_config S));
          remaining = remaining_time E S st w;
          timeout = cap remaining timeout
      in if timeout < 1 / 100
         then (if set_and (\<lambda>r. r < 1 / 100) remaining then 0 else 1 / 100)
         else timeout)"

definition on_transient_wait_error :: "sem_obj \<Rightarrow> real" where
  "on_transient_wait_error S = min (sc_retry_interval (so_config S)) 1"

definition wait_blpop_with where
  "wait_blpop_with E blpop sleep S st w =
     (let timeout = blpop_timeout_for E S st w
      in if timeout \<le> 0 then (Inr (), st, w)
         else (case blpop (queue_key (so_config S)) timeout w of
             (None, w) \<Rightarrow> (Inr (), st, w)
           | (Some exc, w) \<Rightarrow>
               if isinstance exc ''RedisError'' \<or> isinstance exc ''OSError''
               then (let mapped = map_backend_error exc (Some ''wait'') (Some (sc_name (so_config S)))
                     in if \<not> is_transient mapped then (Inl (SemError (Backend mapped)), st, w)
                        else (let pause = cap (remaining_time E S st w) (on_transient_wait_error S)
                              in if 0 < pause then (Inr (), st, sleep pause w) else (Inr (), st, w)))
               else (Inl (RawExn exc), st, w)))"

definition wait_blpop :: "'w sem_env \<Rightarrow> sem_obj \<Rightarrow> acq_state \<Rightarrow> 'w \<Rightarrow> (py_exn + unit) \<times> acq_state \<times> 'w" where
  "wait_blpop E = wait_blpop_with E (s_blpop E) (s_sleep E)"

definition wait_blpop_async :: "'w sem_env \<Rightarrow> sem_obj \<Rightarrow> acq_state \<Rightarrow> 'w \<Rightarrow> (py_exn + unit) \<times> acq_state \<times> 'w" where
  "wait_blpop_async E = wait_blpop_with E (s_ablpop E) (s_asleep E)"

definition wait_for_slot :: "'w sem_env \<Rightarrow> sem_obj \<Rightarrow> acq_state \<Rightarrow> 'w \<Rightarrow> (py_exn + unit) \<times> acq_state \<times> 'w" where
  "wait_for_slot E S =
     (if sc_acquire_mode (so_config S) = BLPOP then wait_blpop E S else wait_polling E S)"

definition wait_for_slot_async :: "'w sem_env \<Rightarrow> sem_obj \<Rightarrow> acq_state \<Rightarrow> 'w \<Rightarrow> (py_exn + unit) \<times> acq_state \<times> 'w" where
  "wait_for_slot_async E S =
     (if sc_acquire_mode (so_config S) = BLPOP then wait_blpop_async E S else wait_polling_async E S)"

subsection \<open>Acquire\<close>

definition call_acquire where
  "call_acquire E m S identifier w =
     (if m = ASYNC then runner_acquire_async else runner_acquire) (s_sha1 E) (s_client E)
       (owners_key (so_config S)) (fencing_key (so_config S)) identifier (sc_limit (so_config S))
       (lock_timeout_ms S) (sem_now_arg E S w) w"

text \<open>An acquire that was denied counts as waiting from its first denial.\<close>

definition register_waiting ::
  "'w sem_env \<Rightarrow> sem_obj \<Rightarrow> acq_state \<Rightarrow> 'w \<Rightarrow> sem_obj \<times> acq_state \<times> 'w" where
  "register_waiting E S st w =
     (if aq_waiting_registered st then (S, st, w)
      else (let wait_start = s_monotonic E w; (S, w) = increment_waiting E S w
            in (S, st\<lparr>aq_wait_start := Some wait_start, aq_waiting_registered := True\<rparr>, w)))"

text \<open>One round of the loop: the result of the call (\<open>Inl\<close>), or the state the next round starts from.\<close>

type_synonym 'w acq_round = "((py_exn + acquire_result) \<times> sem_obj \<times> 'w) + (acq_state \<times> sem_obj \<times> 'w)"

definition acquire_round ::
  "'w sem_env \<Rightarrow> api_mode \<Rightarrow> bool \<Rightarrow> ident \<Rightarrow> acq_state \<times> sem_obj \<times> 'w \<Rightarrow> 'w acq_round" where
  "acquire_round E m blocking identifier x =
     (case x of (st, S, w) \<Rightarrow>
        (case call_acquire E m S identifier w of
           (Inl e, w) \<Rightarrow> Inl (Inl e, S, w)
         | (Inr (success, fencing, expires, used), w) \<Rightarrow>
             (let c = so_config S;
                  w = emit E (SetSlotsUsed (sc_name c) (sc_namespace c) used (sc_limit c)) w
              in if success then
                   Inl ((if m = ASYNC then handle_acquire_success_async else handle_acquire_success)
                          E fencing expires used st S w)
                 else if \<not> blocking then
                   (let (result, w) = handle_non_blocking_failure E used S w in Inl (Inr result, S, w))
                 else
                   (let (S, st, w) = register_waiting E S st w
                    in if check_timeout E S st w then Inl (handle_timeout E st S w)
                       else (case (if m = ASYNC then wait_for_slot_async else wait_for_slot) E S st w of
                           (Inl e, st, w) \<Rightarrow> Inl (Inl e, S, w)
                         | (Inr _, st, w) \<Rightarrow> Inr (st, S, w))))))"

definition acquire_checks :: "sem_obj \<Rightarrow> api_mode \<Rightarrow> py_exn + unit" where
  "acquire_checks S m =
     py_bind (check_mode S m) (\<lambda>_. py_bind (check_lock_lost S) (\<lambda>_. check_reacquire S))"

definition ensure_identifier :: "'w sem_env \<Rightarrow> sem_obj \<Rightarrow> 'w \<Rightarrow> ident \<times> sem_obj \<times> 'w" where
  "ensure_identifier E S w =
     (case so_identifier S of
        Some i \<Rightarrow> (i, S, w)
      | None \<Rightarrow> (let (i, w) = generate_identifier E w in (i, S\<lparr>so_identifier := Some i\<rparr>, w)))"

definition new_acq_state :: "'w sem_env \<Rightarrow> 'w \<Rightarrow> acq_state" where
  "new_acq_state E w =
     \<lparr>aq_start_time = s_monotonic E w, aq_wait_start = None, aq_waiting_registered = False, aq_attempts = 0\<rparr>"

definition acquire_with where
  "acquire_with E m blocking S w =
     (case acquire_checks S m of
        Inl e \<Rightarrow> Some (Inl e, S, w)
      | Inr _ \<Rightarrow>
          (case ensure_identifier E S w of
             (identifier, S, w) \<Rightarrow>
               repeat_until (acquire_round E m blocking identifier) (new_acq_state E w, S, w)))"

text \<open>What leaves a public method goes through \<open>backend_errors\<close>.\<close>

definition boundary :: "string \<Rightarrow> sem_obj \<Rightarrow> (py_exn + 'a) \<times> 'x \<Rightarrow> (py_exn + 'a) \<times> 'x" where
  "boundary operation S = map_prod (backend_errors operation (Some (sc_name (so_config S)))) id"

definition acquire_body :: "'w sem_env \<Rightarrow> bool \<Rightarrow> sem_obj \<Rightarrow> 'w \<Rightarrow> ((py_exn + acquire_result) \<times> sem_obj \<times> 'w) option" where
  "acquire_body E = acquire_with E SYNC"

definition aacquire_body :: "'w sem_env \<Rightarrow> bool \<Rightarrow> sem_obj \<Rightarrow> 'w \<Rightarrow> ((py_exn + acquire_result) \<times> sem_obj \<times> 'w) option" where
  "aacquire_body E = acquire_with E ASYNC"

definition sem_acquire :: "'w sem_env \<Rightarrow> bool \<Rightarrow> sem_obj \<Rightarrow> 'w \<Rightarrow> ((py_exn + acquire_result) \<times> sem_obj \<times> 'w) option" where
  "sem_acquire E blocking S w = map_option (boundary ''acquire'' S) (acquire_body E blocking S w)"

definition sem_aacquire :: "'w sem_env \<Rightarrow> bool \<Rightarrow> sem_obj \<Rightarrow> 'w \<Rightarrow> ((py_exn + acquire_result) \<times> sem_obj \<times> 'w) option" where
  "sem_aacquire E blocking S w = map_option (boundary ''acquire'' S) (aacquire_body E blocking S w)"

subsection \<open>Release\<close>

definition queue_ttl_ms :: "sem_obj \<Rightarrow> int" where
  "queue_ttl_ms S = py_int (sc_lock_timeout (so_config S) * 1000)"

definition notify_cmds :: "sem_obj \<Rightarrow> pipe_cmd list" where
  "notify_cmds S =
     (let q = queue_key (so_config S)
      in [LPush q ''1'', LTrim q 0 (sc_limit (so_config S) - 1), PExpire q (queue_ttl_ms S)])"

text \<open>What the pipeline raises is dropped.\<close>

definition notify_waiters :: "'w sem_env \<Rightarrow> sem_obj \<Rightarrow> 'w \<Rightarrow> 'w" where
  "notify_waiters E S w = snd (s_pipeline E (notify_cmds S) w)"

definition notify_waiters_async :: "'w sem_env \<Rightarrow> sem_obj \<Rightarrow> 'w \<Rightarrow> 'w" where
  "notify_waiters_async E S w = snd (s_apipeline E (notify_cmds S) w)"

definition reset_state :: "sem_obj \<Rightarrow> sem_obj" where
  "reset_state S =
     S\<lparr>so_state := RELEASED, so_identifier := None, so_fencing_token := None, so_expires_at := None,
       so_mode := NONE, so_lock_lost_event := False,
       so_async_lock_lost_event := map_option (\<lambda>_. False) (so_async_lock_lost_event S)\<rparr>"

definition call_release where
  "call_release E m S identifier w =
     (if m = ASYNC then runner_release_async else runner_release) (s_sha1 E) (s_client E)
       (owners_key (so_config S)) identifier w"

definition release_with where
  "release_with E m S w =
     (case so_identifier S of
        None \<Rightarrow> (Inl (SemError NotAcquiredError), S, w)
      | Some identifier \<Rightarrow>
          (case check_mode S m of
             Inl e \<Rightarrow> (Inl e, S, w)
           | Inr _ \<Rightarrow>
               (let S = stop_heartbeat_of m S
                in case call_release E m S identifier w of
                     (Inl e, w) \<Rightarrow> (Inl e, S, w)
                   | (Inr released, w) \<Rightarrow>
                       (let S = reset_state S;
                            w = (if released
                                 then (if m = ASYNC then notify_waiters_async else notify_waiters) E S w
                                 else w)
                        in (Inr released, S, w)))))"

definition release_body :: "'w sem_env \<Rightarrow> sem_obj \<Rightarrow> 'w \<Rightarrow> (py_exn + bool) \<times> sem_obj \<times> 'w" where
  "release_body E = release_with E SYNC"

definition arelease_body :: "'w sem_env \<Rightarrow> sem_obj \<Rightarrow> 'w \<Rightarrow> (py_exn + bool) \<times> sem_obj \<times> 'w" where
  "arelease_body E = release_with E ASYNC"

definition sem_release :: "'w sem_env \<Rightarrow> sem_obj \<Rightarrow> 'w \<Rightarrow> (py_exn + bool) \<times> sem_obj \<times> 'w" where
  "sem_release E S w = boundary ''release'' S (release_body E S w)"

definition sem_arelease :: "'w sem_env \<Rightarrow> sem_obj \<Rightarrow> 'w \<Rightarrow> (py_exn + bool) \<times> sem_obj \<times> 'w" where
  "sem_arelease E S w = boundary ''release'' S (arelease_body E S w)"

subsection \<open>Status and cleanup\<close>

definition build_sem_status :: "sem_obj \<Rightarrow> int \<Rightarrow> bool \<Rightarrow> int option \<Rightarrow> semaphore_status" where
  "build_sem_status S used is_owner expires_ms =
     \<lparr>st_name = sc_name (so_config S), st_limit = sc_limit (so_config S), st_used_slots = used,
      st_available = max 0 (sc_limit (so_config S) - used), st_is_owner = is_owner,
      st_expires_at = map_option (\<lambda>e. of_int e / 1000) expires_ms\<rparr>"

definition status_of where
  "status_of call E S w =
     boundary ''status'' S
       (map_prod (map_sum id (\<lambda>(used, is_owner, expires_ms). build_sem_status S used is_owner expires_ms)) id
         (call (s_sha1 E) (s_client E) (owners_key (so_config S)) (sem_now_arg E S w) (so_identifier S) w))"

definition sem_status :: "'w sem_env \<Rightarrow> sem_obj \<Rightarrow> 'w \<Rightarrow> (py_exn + semaphore_status) \<times> 'w" where
  "sem_status = status_of runner_status"

definition sem_astatus :: "'w sem_env \<Rightarrow> sem_obj \<Rightarrow> 'w \<Rightarrow> (py_exn + semaphore_status) \<times> 'w" where
  "sem_astatus = status_of runner_status_async"

definition sem_cleanup :: "'w sem_env \<Rightarrow> sem_obj \<Rightarrow> 'w \<Rightarrow> (py_exn + int) \<times> 'w" where
  "sem_cleanup E S w =
     boundary ''cleanup'' S
       (runner_cleanup (s_sha1 E) (s_client E) (owners_key (so_config S)) (sem_now_arg E S w) w)"

definition sem_acleanup :: "'w sem_env \<Rightarrow> sem_obj \<Rightarrow> 'w \<Rightarrow> (py_exn + int) \<times> 'w" where
  "sem_acleanup E S w =
     boundary ''cleanup'' S
       (runner_cleanup_async (s_sha1 E) (s_client E) (owners_key (so_config S)) (sem_now_arg E S w) w)"

subsection \<open>Refresh\<close>

definition refresh_with where
  "refresh_with E m S w =
     (if so_identifier S = None \<or> so_state S \<noteq> ACQUIRED then (Inr False, S, w)
      else (case call_refresh E m S (the (so_identifier S)) w of
          (Inl e, w) \<Rightarrow> (Inl e, S, w)
        | (Inr new_expires_ms, w) \<Rightarrow>
            if new_expires_ms \<noteq> 0
            then (Inr True, S\<lparr>so_expires_at := Some (of_int new_expires_ms / 1000)\<rparr>, w)
            else (let S = stop_heartbeat_of m (set_lost m S)
                  in (map_sum id (\<lambda>_. False) (check_lock_lost S), S, w))))"

definition refresh_body :: "'w sem_env \<Rightarrow> sem_obj \<Rightarrow> 'w \<Rightarrow> (py_exn + bool) \<times> sem_obj \<times> 'w" where
  "refresh_body E = refresh_with E SYNC"

definition arefresh_body :: "'w sem_env \<Rightarrow> sem_obj \<Rightarrow> 'w \<Rightarrow> (py_exn + bool) \<times> sem_obj \<times> 'w" where
  "arefresh_body E = refresh_with E ASYNC"

definition sem_refresh :: "'w sem_env \<Rightarrow> sem_obj \<Rightarrow> 'w \<Rightarrow> (py_exn + bool) \<times> sem_obj \<times> 'w" where
  "sem_refresh E S w = boundary ''refresh'' S (refresh_body E S w)"

definition sem_arefresh :: "'w sem_env \<Rightarrow> sem_obj \<Rightarrow> 'w \<Rightarrow> (py_exn + bool) \<times> sem_obj \<times> 'w" where
  "sem_arefresh E S w = boundary ''refresh'' S (arefresh_body E S w)"

subsection \<open>Waiting for the loss of the lock\<close>

text \<open>The event wait ends with the event set (True) or the time over; others may act meanwhile.\<close>

definition wait_for_lock_lost :: "'w sem_env \<Rightarrow> real option \<Rightarrow> sem_obj \<times> 'w \<Rightarrow> (bool \<times> sem_obj \<times> 'w) option" where
  "wait_for_lock_lost E timeout x =
     (if so_lock_lost_event (fst x) then Some (True, x)
      else (case timeout of
              None \<Rightarrow> map_option (\<lambda>y. (True, y)) (s_event_wait_forever E x)
            | Some t \<Rightarrow> Some (s_event_wait E t x)))"

definition await_round ::
  "'w sem_env \<Rightarrow> real option \<Rightarrow> sem_obj \<times> 'w \<Rightarrow> (bool \<times> sem_obj \<times> 'w) + (sem_obj \<times> 'w)" where
  "await_round E deadline x =
     (let step = (case deadline of None \<Rightarrow> 1 | Some d \<Rightarrow> min 1 (d - s_monotonic E (snd x)))
      in if deadline \<noteq> None \<and> step \<le> 0 then Inl (False, x)
        else if set_and (\<lambda>b. b) (so_async_lock_lost_event (fst x)) then Inl (True, x)
        else (case s_event_wait E step x of
            (woken, y) \<Rightarrow>
              if woken then Inl (True, y)
              else if so_lock_lost_event (fst y) then Inl (True, y)
              else Inr y))"

definition make_async_event :: "sem_obj \<Rightarrow> sem_obj" where
  "make_async_event S =
     (if so_async_lock_lost_event S = None
      then S\<lparr>so_async_lock_lost_event := Some (so_lock_lost_event S)\<rparr> else S)"

definition await_lock_lost :: "'w sem_env \<Rightarrow> real option \<Rightarrow> sem_obj \<times> 'w \<Rightarrow> (bool \<times> sem_obj \<times> 'w) option" where
  "await_lock_lost E timeout x =
     (case x of (S, w) \<Rightarrow>
        if so_lock_lost_event S then Some (True, S, w)
        else repeat_until (await_round E (map_option (\<lambda>t. s_monotonic E w + t) timeout))
               (make_async_event S, w))"

subsection \<open>Context manager\<close>

definition sem_enter :: "'w sem_env \<Rightarrow> sem_obj \<Rightarrow> 'w \<Rightarrow> ((py_exn + unit) \<times> sem_obj \<times> 'w) option" where
  "sem_enter E S w =
     map_option (map_prod (\<lambda>r. py_bind r (\<lambda>a. if ar_success a then Inr () else Inl (SemError AcquireError))) id)
       (sem_acquire E True S w)"

definition sem_aenter :: "'w sem_env \<Rightarrow> sem_obj \<Rightarrow> 'w \<Rightarrow> ((py_exn + unit) \<times> sem_obj \<times> 'w) option" where
  "sem_aenter E S w =
     map_option (map_prod (\<lambda>r. py_bind r (\<lambda>a. if ar_success a then Inr () else Inl (SemError AcquireError))) id)
       (sem_aacquire E True S w)"

definition sem_exit :: "'w sem_env \<Rightarrow> sem_obj \<Rightarrow> 'w \<Rightarrow> (py_exn + unit) \<times> sem_obj \<times> 'w" where
  "sem_exit E S w = map_prod (map_sum id (\<lambda>_. ())) id (sem_release E S w)"

definition sem_aexit :: "'w sem_env \<Rightarrow> sem_obj \<Rightarrow> 'w \<Rightarrow> (py_exn + unit) \<times> sem_obj \<times> 'w" where
  "sem_aexit E S w = map_prod (map_sum id (\<lambda>_. ())) id (sem_arelease E S w)"

end
