(* ===== verification/SemaphoreSim.thy ===== *)
theory SemaphoreSim
  imports RunnerProps SemaphoreClient
begin

section \<open>A simulated world for semaphore objects\<close>

text \<open>
  An environment in which everything a semaphore object uses is a function: the documented store and
  its cached scripts, and a clock of the process in milliseconds. A script call takes a millisecond,
  a sleep what was asked for (the server's clock moves along), BLPOP takes an element of the list or
  the whole timeout. The witnesses evaluate the methods in it; the interpretation shows that it keeps
  the contract \<open>script_server\<close>.
\<close>

type_synonym sim = "(rview \<times> lua_script list) \<times> ms"

definition sim_client :: "bool \<Rightarrow> bool \<Rightarrow> sim script_client" where
  "sim_client is_async decode =
     \<lparr>cl_is_async = is_async,
      cl_evalsha = (\<lambda>h n args (x, t). case doc_evalsha decode h n args x of (p, x) \<Rightarrow> (p, (x, t + 1))),
      cl_eval = (\<lambda>sc n args (x, t). case doc_eval decode sc n args x of (p, x) \<Rightarrow> (p, (x, t + 1)))\<rparr>"

definition sim_store :: "sim \<Rightarrow> rview" where
  "sim_store w = fst (fst w)"

definition sim_start :: "ms \<Rightarrow> sim" where
  "sim_start n = ((empty_view n, []), 0)"

definition sim_sleep :: "key list \<Rightarrow> real \<Rightarrow> sim \<Rightarrow> sim" where
  "sim_sleep ks d w =
     (case w of ((v, scripts), t) \<Rightarrow>
        (let n = max 0 \<lceil>d * 1000\<rceil> in ((doc_tick ks n v, scripts), t + n)))"

definition sim_blpop :: "key list \<Rightarrow> key \<Rightarrow> real \<Rightarrow> sim \<Rightarrow> raw_exn option \<times> sim" where
  "sim_blpop ks k timeout w =
     (case w of ((v, scripts), t) \<Rightarrow>
        if rlists v k \<noteq> [] then (None, ((v\<lparr>rlists := (rlists v)(k := tl (rlists v k))\<rparr>, scripts), t))
        else (None, sim_sleep ks timeout w))"

fun sim_pipe_cmd :: "pipe_cmd \<Rightarrow> rview \<Rightarrow> rview" where
  "sim_pipe_cmd (LPush k x) v = doc_lpush k x v"
| "sim_pipe_cmd (LTrim k a b) v = doc_ltrim k b v"
| "sim_pipe_cmd (PExpire k n) v = snd (doc_pexpire k n v)"

definition sim_pipeline :: "pipe_cmd list \<Rightarrow> sim \<Rightarrow> raw_exn option \<times> sim" where
  "sim_pipeline cmds w = (case w of ((v, scripts), t) \<Rightarrow> (None, ((fold sim_pipe_cmd cmds v, scripts), t)))"

definition sim_keys :: "semaphore_config \<Rightarrow> key list" where
  "sim_keys c = [owners_key c, fencing_key c, queue_key c]"

definition sim_env :: "bool \<Rightarrow> semaphore_config \<Rightarrow> sim sem_env" where
  "sim_env is_async c =
     \<lparr>s_sha1 = doc_sha1, s_client = sim_client is_async True,
      s_time = (\<lambda>w. of_int (clock_ms (sim_store w)) / 1000),
      s_time_ns = (\<lambda>w. clock_ms (sim_store w) * 1000000),
      s_monotonic = (\<lambda>w. of_int (snd w) / 1000),
      s_uniform = (\<lambda>a b w. (a, w)), s_uuid_hex = (\<lambda>w. (''0a'', w)),
      s_sleep = sim_sleep (sim_keys c), s_asleep = sim_sleep (sim_keys c),
      s_blpop = sim_blpop (sim_keys c), s_ablpop = sim_blpop (sim_keys c),
      s_pipeline = sim_pipeline, s_apipeline = sim_pipeline,
      s_metrics_enabled = False, s_metric = (\<lambda>m w. w), s_on_lock_lost = None,
      s_hb_wait = (\<lambda>d (S, w). (False, S, sim_sleep (sim_keys c) d w)),
      s_hb_asleep = (\<lambda>d (S, w). (False, S, sim_sleep (sim_keys c) d w)),
      s_event_wait = (\<lambda>d (S, w). (so_lock_lost_event S, S, sim_sleep (sim_keys c) d w)),
      s_event_wait_forever = (\<lambda>x. None)\<rparr>"

interpretation sim_server: script_server "sim_client is_async decode" doc_sha1 doc_redis sim_store decode
  "\<lambda>_. True"
proof (unfold_locales, goal_cases)
  case (1 a b)
  then show ?case by (simp add: doc_sha1_inj)
next
  case (2 w sc n args p w')
  obtain x t where w: "w = (x, t)" by (cases w)
  with 2(2) obtain x' where x: "doc_evalsha decode (doc_sha1 sc) n args x = (p, x')" "w' = (x', t + 1)"
    by (auto simp: sim_client_def split: prod.splits)
  then have "cl_evalsha (doc_client is_async decode) (doc_sha1 sc) n args x = (p, x')" by (simp add: doc_client_def)
  from doc_server.evalsha_law [OF TrueI this] w x(2) show ?case by (auto simp: sim_store_def)
next
  case (3 w sc n args p w')
  obtain x t where w: "w = (x, t)" by (cases w)
  with 3(2) obtain x' where x: "doc_eval decode sc n args x = (p, x')" "w' = (x', t + 1)"
    by (auto simp: sim_client_def split: prod.splits)
  then have "cl_eval (doc_client is_async decode) sc n args x = (p, x')" by (simp add: doc_client_def)
  from doc_server.eval_law [OF TrueI this] w x(2) show ?case by (auto simp: sim_store_def)
qed

end
