(* ===== verification/SemaphoreProps.thy ===== *)
theory SemaphoreProps
  imports SemaphoreSim
begin

section \<open>What a semaphore object promises\<close>

text \<open>
  Lemmas on what each method does to the object, the invariant of its state over any sequence of
  calls and heartbeat events, and the behaviour of acquire, release and the waits.
\<close>

subsection \<open>Effects of the steps of acquire on the object\<close>

definition waiting_left :: "acq_state \<Rightarrow> sem_obj \<Rightarrow> int" where
  "waiting_left st S =
     (if aq_waiting_registered st \<and> 0 < so_waiting S then so_waiting S - 1 else so_waiting S)"

lemma fst_leave_wait [simp]: "fst (leave_wait E st result S w) = S\<lparr>so_waiting := waiting_left st S\<rparr>"
  by (simp add: leave_wait_def decrement_waiting_def waiting_left_def Let_def split: prod.split)

lemma fst_register_waiting [simp]:
  "fst (register_waiting E S st w) =
     S\<lparr>so_waiting := so_waiting S + (if aq_waiting_registered st then 0 else 1)\<rparr>"
  by (simp add: register_waiting_def increment_waiting_def Let_def)

lemma register_waiting_state [simp]:
  "aq_waiting_registered (fst (snd (register_waiting E S st w)))"
  "aq_start_time (fst (snd (register_waiting E S st w))) = aq_start_time st"
  "aq_attempts (fst (snd (register_waiting E S st w))) = aq_attempts st"
  by (simp_all add: register_waiting_def increment_waiting_def Let_def)

text \<open>The object after a successful attempt.\<close>

definition granted_obj :: "int option \<Rightarrow> int option \<Rightarrow> acq_state \<Rightarrow> api_mode \<Rightarrow> sem_obj \<Rightarrow> sem_obj" where
  "granted_obj fencing expires st m S =
     S\<lparr>so_fencing_token := (case fencing of None \<Rightarrow> None | Some f \<Rightarrow> if f = 0 then None else Some f),
       so_expires_at := (case expires of None \<Rightarrow> None | Some e \<Rightarrow> if e = 0 then None else Some (of_int e / 1000)),
       so_state := ACQUIRED, so_mode := m, so_waiting := waiting_left st S\<rparr>"

definition with_heartbeat :: "api_mode \<Rightarrow> sem_obj \<Rightarrow> sem_obj" where
  "with_heartbeat m S =
     (if 0 < refresh_interval (so_config S)
      then snd ((if m = ASYNC then start_heartbeat_async else start_heartbeat) S) else S)"

definition granted_result :: "sem_obj \<Rightarrow> int \<Rightarrow> acquire_result" where
  "granted_result S used =
     \<lparr>ar_success = True, ar_identifier = so_identifier S, ar_fencing_token = so_fencing_token S,
      ar_expires_at = so_expires_at S, ar_used_slots = Some used\<rparr>"

lemma finalize_acquire_eq:
  "\<exists>T. finalize_acquire E fencing expires st m used S w =
     (granted_result (granted_obj fencing expires st m S) used, granted_obj fencing expires st m S,
      snd (leave_wait E st ''success'' T w))"
  unfolding finalize_acquire_def Let_def case_prod_beta fst_leave_wait
  by (rule exI) (simp add: granted_obj_def granted_result_def waiting_left_def)

lemma start_heartbeat_ok:
  "so_identifier S \<noteq> None \<Longrightarrow> start_heartbeat S = (Inr (), snd (start_heartbeat S))"
  "so_identifier S \<noteq> None \<Longrightarrow> start_heartbeat_async S = (Inr (), snd (start_heartbeat_async S))"
  by (auto simp: start_heartbeat_def start_heartbeat_async_def)

lemma handle_acquire_success_eq:
  assumes "so_identifier S \<noteq> None" and "m \<noteq> NONE"
  shows "\<exists>T. (if m = ASYNC then handle_acquire_success_async else handle_acquire_success)
           E fencing expires used st S w =
         (Inr (granted_result (granted_obj fencing expires st m S) used),
          with_heartbeat m (granted_obj fencing expires st m S), snd (leave_wait E st ''success'' T w))"
proof -
  let ?G = "granted_obj fencing expires st m S"
  obtain T where T: "finalize_acquire E fencing expires st m used S w =
      (granted_result ?G used, ?G, snd (leave_wait E st ''success'' T w))"
    using finalize_acquire_eq [of E fencing expires st m used S w] by blast
  have "so_identifier ?G \<noteq> None" using assms(1) by (simp add: granted_obj_def)
  then obtain S1 S2 where h: "start_heartbeat ?G = (Inr (), S1)" "start_heartbeat_async ?G = (Inr (), S2)"
    using start_heartbeat_ok by blast
  from assms(2) T h have "(if m = ASYNC then handle_acquire_success_async else handle_acquire_success)
           E fencing expires used st S w =
         (Inr (granted_result ?G used), with_heartbeat m ?G, snd (leave_wait E st ''success'' T w))"
    by (cases m) (simp_all add: handle_acquire_success_def handle_acquire_success_async_def with_heartbeat_def)
  then show ?thesis by blast
qed

text \<open>The waits change the attempt counter of the acquire state and nothing else of it.\<close>

definition wait_slot where
  "wait_slot E m = (if m = ASYNC then wait_for_slot_async E else wait_for_slot E)"

definition same_wait :: "acq_state \<Rightarrow> acq_state \<Rightarrow> bool" where
  "same_wait st st' \<longleftrightarrow> aq_start_time st' = aq_start_time st \<and> aq_wait_start st' = aq_wait_start st \<and>
     aq_waiting_registered st' = aq_waiting_registered st"

lemma same_wait_refl [simp]: "same_wait st st"
  by (simp add: same_wait_def)

lemma next_retry_state: "same_wait st (fst (snd (next_retry_interval E S st w)))"
  by (simp add: next_retry_interval_def Let_def same_wait_def split: sum.split prod.split)

lemma wait_polling_state: "same_wait st (fst (snd (wait_polling_with E sleep S st w)))"
  using next_retry_state [of st E S w]
  by (cases "next_retry_interval E S st w")
     (simp add: wait_polling_with_def Let_def split: sum.split option.split)

lemma wait_blpop_state: "fst (snd (wait_blpop_with E blpop sleep S st w)) = st"
  by (simp add: wait_blpop_with_def Let_def split: option.split prod.split)

lemma wait_slot_state: "same_wait st (fst (snd (wait_slot E m S st w)))"
  by (simp add: wait_slot_def wait_for_slot_def wait_for_slot_async_def wait_polling_def wait_polling_async_def
      wait_blpop_def wait_blpop_async_def wait_polling_state wait_blpop_state)

text \<open>What one round of acquire does: the call failed, the slot was granted, the semaphore was busy and
  the caller does not wait, the time was over, the wait failed, or the wait ended.\<close>

lemma acquire_round_cases:
  assumes x: "so_identifier S = Some x" and m: "m \<noteq> NONE"
  obtains (failed) e w1 where "call_acquire E m S x w = (Inl e, w1)"
      "acquire_round E m blocking x (st, S, w) = Inl (Inl e, S, w1)"
  | (granted) f e u w1 w2 T where "call_acquire E m S x w = (Inr (True, f, e, u), w1)"
      "acquire_round E m blocking x (st, S, w) =
         Inl (Inr (granted_result (granted_obj f e st m S) u), with_heartbeat m (granted_obj f e st m S), w2)"
      "w2 = snd (leave_wait E st ''success'' T
         (emit E (SetSlotsUsed (sc_name (so_config S)) (sc_namespace (so_config S)) u (sc_limit (so_config S))) w1))"
  | (busy) f e u w1 w2 a where "\<not> blocking" "call_acquire E m S x w = (Inr (False, f, e, u), w1)"
      "\<not> ar_success a" "acquire_round E m blocking x (st, S, w) = Inl (Inr a, S, w2)"
  | (waits) f e u w1 w2 S' st' where "blocking" "call_acquire E m S x w = (Inr (False, f, e, u), w1)"
      "register_waiting E S st
         (emit E (SetSlotsUsed (sc_name (so_config S)) (sc_namespace (so_config S)) u (sc_limit (so_config S))) w1) =
         (S', st', w2)"
      "acquire_round E m blocking x (st, S, w) =
         (if check_timeout E S' st' w2 then Inl (handle_timeout E st' S' w2)
          else (case wait_slot E m S' st' w2 of
              (Inl e, st', w) \<Rightarrow> Inl (Inl e, S', w) | (Inr _, st', w) \<Rightarrow> Inr (st', S', w)))"
proof (cases "call_acquire E m S x w")
  case (Pair r w1)
  show thesis
  proof (cases r)
    case (Inl e)
    with Pair show thesis by (intro failed [of e w1]) (simp_all add: acquire_round_def)
  next
    case (Inr q)
    obtain s f e u where q: "q = (s, f, e, u)" by (cases q)
    let ?w = "emit E (SetSlotsUsed (sc_name (so_config S)) (sc_namespace (so_config S)) u (sc_limit (so_config S))) w1"
    consider "s" | "\<not> s" "\<not> blocking" | "\<not> s" "blocking" by blast
    then show thesis
    proof cases
      case 1
      obtain T where "(if m = ASYNC then handle_acquire_success_async else handle_acquire_success) E f e u st S ?w =
          (Inr (granted_result (granted_obj f e st m S) u), with_heartbeat m (granted_obj f e st m S),
           snd (leave_wait E st ''success'' T ?w))"
        using handle_acquire_success_eq [of S m E f e u st ?w] m x by auto
      with 1 Pair Inr q show thesis
        by (intro granted [of f e u w1 _ T]) (simp_all add: acquire_round_def Let_def)
    next
      case 2
      with Pair Inr q show thesis
        by (intro busy [of f e u w1 "fst (handle_non_blocking_failure E u S ?w)" "snd (handle_non_blocking_failure E u S ?w)"])
           (simp_all add: acquire_round_def handle_non_blocking_failure_def Let_def)
    next
      case 3
      obtain S' st' w2 where rw: "register_waiting E S st ?w = (S', st', w2)" by (cases "register_waiting E S st ?w")
      with 3 Pair Inr q show thesis
        by (intro waits [of f e u w1 S' st' w2]) (simp_all add: acquire_round_def Let_def wait_slot_def)
    qed
  qed
qed

subsection \<open>The invariant of the object\<close>

definition sem_ok :: "sem_obj \<Rightarrow> bool" where
  "sem_ok S \<longleftrightarrow>
     (if so_state S = RELEASED
      then so_mode S = NONE \<and> so_fencing_token S = None \<and> so_expires_at S = None
      else so_identifier S \<noteq> None \<and> so_mode S \<noteq> NONE) \<and>
     (\<forall>h. so_heartbeat S = Some h \<longrightarrow> so_mode S = SYNC \<and> so_identifier S = Some (hb_identifier h)) \<and>
     (\<forall>h. so_async_heartbeat S = Some h \<longrightarrow> so_mode S = ASYNC \<and> so_identifier S = Some (hb_identifier h)) \<and>
     (so_state S = LOST \<longrightarrow> so_lock_lost_event S) \<and> 0 \<le> so_waiting S"

lemma sem_ok_waiting: "sem_ok S \<Longrightarrow> 0 \<le> n \<Longrightarrow> sem_ok (S\<lparr>so_waiting := n\<rparr>)"
  by (simp add: sem_ok_def)

lemma waiting_left_nonneg: "0 \<le> so_waiting S \<Longrightarrow> 0 \<le> waiting_left st S"
  by (simp add: waiting_left_def)

lemma sem_ok_nonneg: "sem_ok S \<Longrightarrow> 0 \<le> so_waiting S"
  by (simp add: sem_ok_def)

lemma sem_ok_granted:
  assumes "sem_ok S" and "so_identifier S = Some x" and "so_mode S = NONE \<or> so_mode S = m" and "m \<noteq> NONE"
  shows "sem_ok (with_heartbeat m (granted_obj f e st m S))"
  using assms waiting_left_nonneg [OF sem_ok_nonneg [OF assms(1)], of st]
  by (cases m) (auto simp: sem_ok_def granted_obj_def with_heartbeat_def start_heartbeat_def
      start_heartbeat_async_def sem_new_heartbeat_def new_heartbeat_def heartbeat_start_def)

lemma acquire_round_ok:
  assumes ok: "sem_ok S" "so_identifier S = Some x" "so_mode S = NONE \<or> so_mode S = m" and m: "m \<noteq> NONE"
  shows "acquire_round E m blocking x (st, S, w) = Inl (r, S', w') \<Longrightarrow> sem_ok S'"
    and "acquire_round E m blocking x (st, S, w) = Inr (st', S', w') \<Longrightarrow>
      sem_ok S' \<and> so_identifier S' = Some x \<and> so_mode S' = so_mode S"
proof -
  let ?round = "acquire_round E m blocking x (st, S, w)"
  have "(\<forall>r S' w'. ?round = Inl (r, S', w') \<longrightarrow> sem_ok S') \<and>
    (\<forall>st' S' w'. ?round = Inr (st', S', w') \<longrightarrow>
      sem_ok S' \<and> so_identifier S' = Some x \<and> so_mode S' = so_mode S)"
  proof (rule acquire_round_cases [OF ok(2) m, of E w blocking st], goal_cases)
    case (2 f e u w1 w2 T)
    then show ?case using sem_ok_granted [OF ok m] by simp
  next
    case (4 f e u w1 w2 S1 st1)
    have S1: "S1 = S\<lparr>so_waiting := so_waiting S + (if aq_waiting_registered st then 0 else 1)\<rparr>"
      using fst_register_waiting 4(3) by (metis fst_conv)
    then have o1: "sem_ok S1" "so_identifier S1 = Some x" "so_mode S1 = so_mode S"
      using ok by (simp_all add: sem_ok_waiting sem_ok_nonneg)
    have "fst (snd (handle_timeout E st1 S1 w2)) = S1\<lparr>so_waiting := waiting_left st1 S1\<rparr>"
      by (simp add: handle_timeout_def case_prod_beta)
    with o1(1) have o2: "sem_ok (fst (snd (handle_timeout E st1 S1 w2)))"
      by (simp add: sem_ok_waiting waiting_left_nonneg sem_ok_nonneg)
    show ?case using 4(4) o1 o2 by (auto split: if_splits sum.splits prod.splits)
  qed (use ok in \<open>auto\<close>)
  then show "?round = Inl (r, S', w') \<Longrightarrow> sem_ok S'"
    and "?round = Inr (st', S', w') \<Longrightarrow> sem_ok S' \<and> so_identifier S' = Some x \<and> so_mode S' = so_mode S"
    by blast+
qed

lemma ensure_identifier_ok:
  assumes "ensure_identifier E S w = (x, T, w1)" and "sem_ok S"
  shows "so_identifier T = Some x \<and> sem_ok T \<and> so_mode T = so_mode S \<and> so_state T = so_state S \<and>
    so_waiting T = so_waiting S \<and> so_config T = so_config S"
proof (cases "so_identifier S")
  case None
  with assms(2) have "so_state S = RELEASED" by (auto simp: sem_ok_def split: if_splits)
  with None assms show ?thesis by (auto simp: ensure_identifier_def sem_ok_def split: prod.splits)
next
  case (Some i)
  with assms show ?thesis by (simp add: ensure_identifier_def)
qed

lemma acquire_with_ok:
  assumes run: "acquire_with E m blocking S w = Some (r, S', w')" and ok: "sem_ok S" and m: "m \<noteq> NONE"
  shows "sem_ok S'"
proof (cases "acquire_checks S m")
  case (Inl e)
  with run ok show ?thesis by (simp add: acquire_with_def)
next
  case (Inr u)
  then have mode: "so_mode S = NONE \<or> so_mode S = m"
    by (auto simp: acquire_checks_def check_mode_def split: if_splits)
  obtain x T w1 where i: "ensure_identifier E S w = (x, T, w1)" by (cases "ensure_identifier E S w")
  from ensure_identifier_ok [OF i ok] have x: "so_identifier T = Some x" "sem_ok T" "so_mode T = so_mode S"
    by blast+
  from run Inr i have rep: "repeat_until (acquire_round E m blocking x) (new_acq_state E w1, T, w1) = Some (r, S', w')"
    by (simp add: acquire_with_def)
  let ?P = "\<lambda>(st, T, w). sem_ok T \<and> so_identifier T = Some x \<and> (so_mode T = NONE \<or> so_mode T = m)"
  have "(\<lambda>(r, S, w). sem_ok S) (r, S', w')"
  proof (rule repeat_until_invariant [OF rep, where P = ?P], goal_cases)
    case 1
    with x mode show ?case by simp
  next
    case (2 y z)
    then show ?case
      using acquire_round_ok(2) [OF _ _ _ m, of "fst (snd y)" x E blocking "fst y" "snd (snd y)" "fst z" "fst (snd z)" "snd (snd z)"]
      by (cases y; cases z) auto
  next
    case (3 y q)
    then show ?case
      using acquire_round_ok(1) [OF _ _ _ m, of "fst (snd y)" x E blocking "fst y" "snd (snd y)" "fst q" "fst (snd q)" "snd (snd q)"]
      by (cases y; cases q) auto
  qed
  then show ?thesis by simp
qed

lemma release_with_ok:
  assumes "sem_ok S" and "m \<noteq> NONE"
  shows "sem_ok (fst (snd (release_with E m S w)))"
  using assms
  by (cases m) (auto simp: release_with_def check_mode_def stop_heartbeat_of_def stop_heartbeat_def
      stop_heartbeat_async_def reset_state_def Let_def sem_ok_def split: option.splits prod.splits sum.splits if_splits)

lemma refresh_with_ok: "sem_ok S \<Longrightarrow> sem_ok (fst (snd (refresh_with E m S w)))"
  by (auto simp: refresh_with_def stop_heartbeat_of_def stop_heartbeat_def stop_heartbeat_async_def set_lost_def
      Let_def sem_ok_def split: prod.splits sum.splits if_splits)

lemma heartbeat_refresh_ok: "sem_ok S \<Longrightarrow> sem_ok (fst (snd (heartbeat_refresh E m (S, w))))"
  by (auto simp: heartbeat_refresh_def sem_ok_def split: prod.splits sum.splits if_splits)

lemma on_lost_ok: "sem_ok S \<Longrightarrow> sem_ok (fst (on_lost E m i (S, w)))"
  by (auto simp: on_lost_def set_lost_def Let_def sem_ok_def)

subsection \<open>Any sequence of calls and heartbeat events\<close>

lemma sem_acquire_Some:
  "sem_acquire E b S w = Some (r, S', w') \<longleftrightarrow>
     (\<exists>q. acquire_with E SYNC b S w = Some (q, S', w') \<and> r = backend_errors ''acquire'' (Some (sc_name (so_config S))) q)"
  "sem_aacquire E b S w = Some (r, S', w') \<longleftrightarrow>
     (\<exists>q. acquire_with E ASYNC b S w = Some (q, S', w') \<and> r = backend_errors ''acquire'' (Some (sc_name (so_config S))) q)"
  by (auto simp: sem_acquire_def sem_aacquire_def acquire_body_def aacquire_body_def boundary_def)

inductive obj_step :: "'w sem_env \<Rightarrow> sem_obj \<times> 'w \<Rightarrow> sem_obj \<times> 'w \<Rightarrow> bool" for E where
  obj_acquire: "sem_acquire E b S w = Some (r, S', w') \<Longrightarrow> obj_step E (S, w) (S', w')"
| obj_aacquire: "sem_aacquire E b S w = Some (r, S', w') \<Longrightarrow> obj_step E (S, w) (S', w')"
| obj_release: "sem_release E S w = (r, S', w') \<Longrightarrow> obj_step E (S, w) (S', w')"
| obj_arelease: "sem_arelease E S w = (r, S', w') \<Longrightarrow> obj_step E (S, w) (S', w')"
| obj_refresh: "sem_refresh E S w = (r, S', w') \<Longrightarrow> obj_step E (S, w) (S', w')"
| obj_arefresh: "sem_arefresh E S w = (r, S', w') \<Longrightarrow> obj_step E (S, w) (S', w')"
| obj_heartbeat: "heartbeat_refresh E m (S, w) = (r, S', w') \<Longrightarrow> obj_step E (S, w) (S', w')"
| obj_lost: "on_lost E m i (S, w) = (S', w') \<Longrightarrow> obj_step E (S, w) (S', w')"
| obj_await: "obj_step E (S, w) (make_async_event S, w)"
| obj_del: "obj_step E (S, w) (sem_del S, w)"
| obj_world: "obj_step E (S, w) (S, w')"

lemma boundary_snd [simp]: "snd (boundary operation S p) = snd p"
  by (simp add: boundary_def)

lemmas sem_methods =
  sem_release_def sem_arelease_def release_body_def arelease_body_def
  sem_refresh_def sem_arefresh_def refresh_body_def arefresh_body_def

lemma make_async_event_ok: "sem_ok S \<Longrightarrow> sem_ok (make_async_event S)"
  by (simp add: make_async_event_def) (simp add: sem_ok_def)

text \<open>The object after a method, from the method's body.\<close>

lemma method_object:
  "sem_release E S w = (r, S', w') \<Longrightarrow> S' = fst (snd (release_with E SYNC S w))"
  "sem_arelease E S w = (r, S', w') \<Longrightarrow> S' = fst (snd (release_with E ASYNC S w))"
  "sem_refresh E S w = (r, S', w') \<Longrightarrow> S' = fst (snd (refresh_with E SYNC S w))"
  "sem_arefresh E S w = (r, S', w') \<Longrightarrow> S' = fst (snd (refresh_with E ASYNC S w))"
  by (auto simp: sem_methods dest!: arg_cong [where f = "\<lambda>p. fst (snd p)"])

lemma obj_step_ok:
  assumes "obj_step E (S, w) (S', w')" and "sem_ok S"
  shows "sem_ok S'"
  using assms(1)
proof (cases rule: obj_step.cases)
  case (obj_acquire b r)
  then obtain q where "acquire_with E SYNC b S w = Some (q, S', w')" by (auto simp: sem_acquire_Some)
  from acquire_with_ok [OF this assms(2)] show ?thesis by simp
next
  case (obj_aacquire b r)
  then obtain q where "acquire_with E ASYNC b S w = Some (q, S', w')" by (auto simp: sem_acquire_Some)
  from acquire_with_ok [OF this assms(2)] show ?thesis by simp
next
  case (obj_heartbeat m r)
  then show ?thesis using heartbeat_refresh_ok [OF assms(2), of E m w] by simp
next
  case (obj_lost m i)
  then show ?thesis using on_lost_ok [OF assms(2), of E m i w] by simp
next
  case (obj_release r)
  from method_object(1) [OF obj_release] show ?thesis by (simp add: release_with_ok [OF assms(2), of SYNC E w])
next
  case (obj_arelease r)
  from method_object(2) [OF obj_arelease] show ?thesis by (simp add: release_with_ok [OF assms(2), of ASYNC E w])
next
  case (obj_refresh r)
  from method_object(3) [OF obj_refresh] show ?thesis by (simp add: refresh_with_ok [OF assms(2), of E SYNC w])
next
  case (obj_arefresh r)
  from method_object(4) [OF obj_arefresh] show ?thesis by (simp add: refresh_with_ok [OF assms(2), of E ASYNC w])
next
  case obj_await
  with make_async_event_ok [OF assms(2)] show ?thesis by simp
next
  case obj_del
  with assms(2) show ?thesis
    by (simp add: sem_ok_def sem_del_def stop_heartbeat_def cancel_async_heartbeat_def)
next
  case obj_world
  with assms(2) show ?thesis by simp
qed

text \<open>C3: the state of a semaphore object stays consistent over any sequence of calls of its methods,
  heartbeat refreshes, losses and changes outside it: only a released object has no mode, token and
  expiry; an acquired or lost one has an identifier; a heartbeat exists only for the API the slot was
  acquired with and refreshes the identifier the object holds; a loss is signalled; the count of
  waiters is not negative.\<close>

theorem semaphore_object_stays_consistent:
  assumes "(obj_step E)\<^sup>*\<^sup>* (new_semaphore c socket_timeout, w) (S, w')"
  shows "sem_ok S"
  using assms
proof (induction "(S, w')" arbitrary: S w' rule: rtranclp_induct)
  case base
  then show ?case by (simp add: sem_ok_def new_semaphore_def)
next
  case (step y)
  then show ?case by (cases y) (blast intro: obj_step_ok)
qed

text \<open>A granted call makes acquire return, whatever the world is.\<close>

lemma acquire_with_granted:
  assumes "acquire_checks S m = Inr ()" and "m \<noteq> NONE" and "ensure_identifier E S w = (x, T, w1)"
    and "so_identifier T = Some x" and "call_acquire E m T x w1 = (Inr (True, f, e, u), w2)"
  shows "\<exists>w'. acquire_with E m b S w =
    Some (Inr (granted_result (granted_obj f e (new_acq_state E w1) m T) u),
          with_heartbeat m (granted_obj f e (new_acq_state E w1) m T), w')"
  by (rule acquire_round_cases [OF assms(4,2), of E w1 b "new_acq_state E w1"])
     (use assms in \<open>auto simp: acquire_with_def\<close>)

definition demo_sem :: semaphore_config where
  "demo_sem = semaphore_config_defaults ''db'' 1"

lemma sim_store_start [simp]: "sim_store (sim_start n) = empty_view n"
  by (simp add: sim_store_def sim_start_def)

lemma sim_is_async [simp]: "cl_is_async (sim_client is_async decode) = is_async"
  by (simp add: sim_client_def)

text \<open>In the simulated world a first acquire gets the slot.\<close>

definition demo_result :: acquire_result where
  "demo_result = \<lparr>ar_success = True, ar_identifier = Some ''0a:5000000000'', ar_fencing_token = Some 1,
     ar_expires_at = Some 35, ar_used_slots = Some 1\<rparr>"

definition demo_held :: sem_obj where
  "demo_held = (new_semaphore demo_sem None)\<lparr>so_identifier := Some ''0a:5000000000'', so_fencing_token := Some 1,
     so_expires_at := Some 35, so_state := ACQUIRED, so_mode := SYNC,
     so_heartbeat := Some \<lparr>hb_interval = 10, hb_identifier = ''0a:5000000000'', hb_lock_timeout = Some 30,
       hb_retry_step = 1, hb_lock_lost = False, hb_running = True\<rparr>\<rparr>"

lemma demo_acquired:
  "\<exists>w'. sem_acquire (sim_env False demo_sem) b (new_semaphore demo_sem None) (sim_start 5000) =
     Some (Inr demo_result, demo_held, w')"
proof -
  let ?E = "sim_env False demo_sem" and ?S = "new_semaphore demo_sem None" and ?x = "''0a:5000000000''"
  let ?T = "?S\<lparr>so_identifier := Some ?x\<rparr>"
  have i: "int_str 5000000000 = ''5000000000''" by code_simp
  have en: "ensure_identifier ?E ?S (sim_start 5000) = (?x, ?T, sim_start 5000)"
    by (simp add: ensure_identifier_def generate_identifier_def sim_env_def new_semaphore_def sim_store_def
        sim_start_def i)
  have a: "acquire_script doc_redis ''semaphore:db:owners'' ''semaphore:db:fencing'' ?x 1 30000 None
      (empty_view 5000) = (grant_resp (Granted 1 35000 1),
       snd (acquire_script doc_redis ''semaphore:db:owners'' ''semaphore:db:fencing'' ?x 1 30000 None (empty_view 5000)))"
    by (rule prod_eqI) (code_simp, simp)
  have k: "owners_key demo_sem = ''semaphore:db:owners''" "fencing_key demo_sem = ''semaphore:db:fencing''"
    "lock_timeout_ms ?T = 30000"
    by (simp_all add: demo_sem_def semaphore_config_defaults_def owners_key_def fencing_key_def sem_key_prefix_def
        key_prefix_def lock_timeout_ms_def new_semaphore_def py_int_def)
  have c: "call_acquire ?E SYNC ?T ?x (sim_start 5000) = runner_acquire doc_sha1 (sim_client False True)
      ''semaphore:db:owners'' ''semaphore:db:fencing'' ?x 1 30000 None (sim_start 5000)"
    using k by (simp add: call_acquire_def sim_env_def new_semaphore_def demo_sem_def semaphore_config_defaults_def
        sem_now_arg_def now_ms_arg_def)
  obtain w2 where ca: "call_acquire ?E SYNC ?T ?x (sim_start 5000) = (Inr (True, Some 1, Some 35000, 1), w2)"
    unfolding c using sim_server.acquire_runs [OF TrueI, of "''semaphore:db:owners''" "''semaphore:db:fencing''" ?x 1
        30000 None "sim_start 5000" "Granted 1 35000 1", where is_async = False and decode = True, unfolded sim_store_start, OF a]
    by auto
  have ch: "acquire_checks ?S SYNC = Inr ()"
    by (simp add: acquire_checks_def check_mode_def check_lock_lost_def check_reacquire_def new_semaphore_def)
  have g: "\<exists>w'. acquire_with ?E SYNC b ?S (sim_start 5000) =
      Some (Inr (granted_result (granted_obj (Some 1) (Some 35000) (new_acq_state ?E (sim_start 5000)) SYNC ?T) 1),
        with_heartbeat SYNC (granted_obj (Some 1) (Some 35000) (new_acq_state ?E (sim_start 5000)) SYNC ?T), w')"
    by (rule acquire_with_granted [OF ch _ en _ ca]) simp_all
  have r: "granted_result (granted_obj (Some 1) (Some 35000) (new_acq_state ?E (sim_start 5000)) SYNC ?T) 1 =
      demo_result"
    by (simp add: granted_result_def granted_obj_def demo_result_def)
  have o: "with_heartbeat SYNC (granted_obj (Some 1) (Some 35000) (new_acq_state ?E (sim_start 5000)) SYNC ?T) =
      demo_held"
    by (simp add: granted_obj_def with_heartbeat_def start_heartbeat_def demo_held_def
        sem_new_heartbeat_def new_heartbeat_def heartbeat_start_def refresh_interval_def refresh_retry_interval_def
        waiting_left_def new_acq_state_def new_semaphore_def demo_sem_def semaphore_config_defaults_def)
  show ?thesis using g unfolding r o by (auto simp: sem_acquire_Some)
qed

theorem semaphore_object_stays_consistent_witness:
  "\<exists>w'. (obj_step (sim_env False demo_sem))\<^sup>*\<^sup>* (new_semaphore demo_sem None, sim_start 5000) (demo_held, w') \<and>
     so_state demo_held = ACQUIRED \<and> sem_ok demo_held"
proof -
  obtain w' where "sem_acquire (sim_env False demo_sem) True (new_semaphore demo_sem None) (sim_start 5000) =
      Some (Inr demo_result, demo_held, w')"
    using demo_acquired by blast
  then have steps: "(obj_step (sim_env False demo_sem))\<^sup>*\<^sup>* (new_semaphore demo_sem None, sim_start 5000) (demo_held, w')"
    by (intro r_into_rtranclp obj_acquire)
  have a: "so_state demo_held = ACQUIRED" by (simp add: demo_held_def)
  from steps a semaphore_object_stays_consistent [OF steps] show ?thesis by (intro exI [of _ w'] conjI)
qed

subsection \<open>Release\<close>

lemma map_prod_eq_pair: "map_prod f id p = (r, y) \<longleftrightarrow> (\<exists>q. p = (q, y) \<and> r = f q)"
  by (cases p) auto

lemma backend_errors_Inl: "\<exists>e'. backend_errors operation name (Inl e) = Inl e'"
  by (simp add: backend_errors_def split: py_exn.split)

lemma release_with_object:
  assumes "release_with E m S w = (q, S', w')"
  shows "q = Inr b \<Longrightarrow> S' = reset_state (stop_heartbeat_of m S) \<and> (so_mode S = NONE \<or> so_mode S = m)"
    and "q = Inl e \<Longrightarrow> S' = S \<or> S' = stop_heartbeat_of m S"
  using assms
  by (auto simp: release_with_def check_mode_def Let_def split: option.splits prod.splits sum.splits if_splits)

text \<open>C12: release: when it returns, with whatever answer, the object has given everything up (no
  identifier, token, expiry, heartbeat or signalled loss) and a next acquire through either API passes
  its checks; when it raises, the object still knows its slot, so that the caller can retry.\<close>

theorem release_gives_up_or_keeps:
  assumes "sem_ok S" and "sem_release E S w = (r, S', w') \<or> sem_arelease E S w = (r, S', w')"
  shows "case r of
      Inr b \<Rightarrow> so_state S' = RELEASED \<and> so_identifier S' = None \<and> so_fencing_token S' = None \<and>
        so_expires_at S' = None \<and> so_heartbeat S' = None \<and> so_async_heartbeat S' = None \<and>
        \<not> so_lock_lost_event S' \<and> (\<forall>m. acquire_checks S' m = Inr ())
    | Inl e \<Rightarrow> so_state S' = so_state S \<and> so_identifier S' = so_identifier S \<and>
        so_fencing_token S' = so_fencing_token S \<and> so_expires_at S' = so_expires_at S \<and> so_mode S' = so_mode S"
proof -
  have h: "so_mode S \<noteq> SYNC \<Longrightarrow> so_heartbeat S = None" "so_mode S \<noteq> ASYNC \<Longrightarrow> so_async_heartbeat S = None"
    using assms(1) by (auto simp: sem_ok_def)
  obtain m q where m: "m = SYNC \<or> m = ASYNC" and q: "release_with E m S w = (q, S', w')"
    and r: "r = backend_errors ''release'' (Some (sc_name (so_config S))) q"
    using assms(2) by (auto simp: sem_methods boundary_def map_prod_eq_pair)
  show ?thesis
  proof (cases q)
    case (Inl e)
    with release_with_object(2) [OF q] obtain e' where "r = Inl e'" "S' = S \<or> S' = stop_heartbeat_of m S"
      using backend_errors_Inl r by blast
    then show ?thesis by (auto simp: stop_heartbeat_of_def stop_heartbeat_def stop_heartbeat_async_def)
  next
    case (Inr b)
    with release_with_object(1) [OF q] have "r = Inr b" "S' = reset_state (stop_heartbeat_of m S)"
      "so_mode S = NONE \<or> so_mode S = m"
      by (simp_all add: r)
    with h m show ?thesis
      by (auto simp: stop_heartbeat_of_def stop_heartbeat_def stop_heartbeat_async_def reset_state_def
          acquire_checks_def check_mode_def check_lock_lost_def check_reacquire_def)
  qed
qed

text \<open>Releasing what was never acquired is refused and changes nothing.\<close>

theorem release_gives_up_or_keeps_witness:
  "sem_release (sim_env False demo_sem) (new_semaphore demo_sem None) (sim_start 5000) =
     (Inl (SemError NotAcquiredError), new_semaphore demo_sem None, sim_start 5000) \<and>
   so_mode (new_semaphore demo_sem None) = NONE"
proof -
  have ok: "sem_ok (new_semaphore demo_sem None)" by (simp add: sem_ok_def new_semaphore_def)
  have r: "sem_release (sim_env False demo_sem) (new_semaphore demo_sem None) (sim_start 5000) =
     (Inl (SemError NotAcquiredError), new_semaphore demo_sem None, sim_start 5000)"
    by (simp add: sem_methods release_with_def new_semaphore_def boundary_def)
  from release_gives_up_or_keeps [OF ok, OF disjI1, OF r] r show ?thesis by (simp add: new_semaphore_def)
qed

subsection \<open>The waits\<close>

lemma remaining_time_nonneg: "remaining_time E S st w = Some r \<Longrightarrow> 0 \<le> r"
  by (auto simp: remaining_time_def)

lemma blpop_timeout_le_left:
  "remaining_time E S st w = Some r \<Longrightarrow> blpop_timeout_for E S st w \<le> r"
  using remaining_time_nonneg [of E S st w r]
  by (auto simp: blpop_timeout_for_def Let_def cap_def set_and_def split: option.split)

text \<open>The timeout given to BLPOP: it is 0 (the wait is skipped) exactly when less than a hundredth of a
  second is left for the acquire, otherwise it is at least that hundredth, so that no server takes it
  for 0 (which would block forever); and it never exceeds what is left, nor the configured timeout
  and the cap from the client's socket timeout where these are a hundredth or more.\<close>

theorem blpop_timeout_bounds:
  "let t = blpop_timeout_for E S st w; left = remaining_time E S st w
   in (t = 0 \<longleftrightarrow> (\<exists>r. left = Some r \<and> r < 1 / 100)) \<and> (t = 0 \<or> 1 / 100 \<le> t) \<and>
      (case left of None \<Rightarrow> True | Some r \<Rightarrow> t \<le> r) \<and>
      t \<le> max (1 / 100) (sc_blpop_timeout (so_config S)) \<and>
      (case so_blpop_wait_cap S of None \<Rightarrow> True | Some k \<Rightarrow> t \<le> max (1 / 100) k)"
  using remaining_time_nonneg [of E S st w]
  by (auto simp: blpop_timeout_for_def Let_def cap_def set_and_def split: option.split)

end
