(* ===== verification/SemaphoreFleet.thy ===== *)
theory SemaphoreFleet
  imports SemaphoreProps SemSystem
begin

section \<open>Many semaphore objects on one store\<close>

text \<open>
  Any number of objects of one configuration, in any number of processes, with their rounds of
  acquire, releases, refreshes and heartbeats in any order, on one store that they reach over a
  connection that can fail before or after a script has run. The clock is the server's. What holds
  for the store (\<open>SemSystem\<close>) is carried over to what the objects believe: an object that is
  acquired, whose expiry has not passed and that has not tried to release owns a slot in the store.
\<close>

subsection \<open>A connection that can fail\<close>

definition maybe_ran ::
  "'s redis_api \<Rightarrow> lua_script \<Rightarrow> nat \<Rightarrow> script_arg list \<Rightarrow> 's \<Rightarrow> 's \<Rightarrow> bool" where
  "maybe_ran R sc n args s s' \<longleftrightarrow>
     s' = s \<or> s' = snd (lua_run R sc (take n (map arg_text args)) (drop n (map arg_text args)) s)"

locale lossy_server = script_server C sha1 R store decode up
  for C :: "'w script_client" and sha1 :: "lua_script \<Rightarrow> string" and R :: "'s redis_api"
    and store :: "'w \<Rightarrow> 's" and decode :: bool and up :: "'w \<Rightarrow> bool" +
  assumes lost_evalsha: "\<not> up w \<Longrightarrow> cl_evalsha C (sha1 sc) n args w = (p, w') \<Longrightarrow>
      (\<exists>e. p = Inl e \<and> \<not> is_no_script e) \<and> maybe_ran R sc n args (store w) (store w')"
begin

text \<open>A call by name either gives the script's reply, or raises, with the script run or not.\<close>

lemma call_outcome:
  assumes name: "map_of SCRIPTS name = Some sc"
    and call: "call = (if cl_is_async C then aevalsha sha1 C else evalsha sha1 C)"
    and run: "lua_run R sc keys (map arg_text args) (store w) = (Some r, s')"
    and p: "script_call sha1 call name keys args parse w = (p, w')"
  shows "p = parse (py_of_resp decode r) \<and> store w' = s' \<or>
    (\<exists>e. p = Inl e) \<and> (store w' = store w \<or> store w' = s')"
proof (cases "up w")
  case True
  from call_runs [OF True name call run, of parse] p show ?thesis by auto
next
  case False
  let ?args = "map AStr keys @ args"
  have t: "map arg_text ?args = keys @ map arg_text args" by (simp add: comp_def)
  obtain q u where q: "cl_evalsha C (sha1 sc) (length keys) ?args w = (q, u)" by (rule prod.exhaust)
  from lost_evalsha [OF False q] obtain e where e: "q = Inl e" "\<not> is_no_script e"
    and m: "maybe_ran R sc (length keys) ?args (store w) (store u)" by blast
  from m have "store u = store w \<or> store u = s'" unfolding maybe_ran_def t by (simp add: run)
  moreover have "script_call sha1 call name keys args parse w = (Inl e, u)"
    using q e by (simp add: script_call_def get_sha_script [OF name] call aevalsha_def evalsha_def evalsha_or_eval_def)
  ultimately show ?thesis using p by auto
qed

end

subsection \<open>What a script does to its caller's lease\<close>

context sem_keys
begin

lemma acquire_lease:
  assumes "sem_inv ok fk limit (view s)" and "0 < lt"
    and "acquire_script R ok fk x limit lt None s = (r, s')"
  shows "clock_ms (view s') = clock_ms (view s)"
    and "owners ok (view s) x = Some e \<Longrightarrow> clock_ms (view s) < e \<Longrightarrow>
      owners ok (view s') x = Some (clock_ms (view s) + lt)"
    and "\<exists>g. r = grant_resp g \<and> (\<forall>t ex n. g = Granted t ex n \<longrightarrow>
      ex = clock_ms (view s) + lt \<and> owners ok (view s') x = Some ex)"
proof -
  have wf: "sem_wf ok fk (view s)" using assms(1) by (simp add: sem_inv_def)
  note c = lease.store_reply(1) [OF wf assms(2), of x None] lease.store_abs(1) [OF wf assms(2), of x None]
  have now: "script_now None (view s) = clock_ms (view s)" by (simp add: script_now_def)
  have o: "owners ok (view s') = holders (snd (lease_acquire limit lt (clock_ms (view s)) x (sem_abs ok fk (view s))))"
    using arg_cong [OF c(2), of holders] assms(3) by (simp add: now)
  have r: "r = grant_resp (fst (lease_acquire limit lt (clock_ms (view s)) x (sem_abs ok fk (view s))))"
    using c(1) assms(3) by (simp add: now)
  show "clock_ms (view s') = clock_ms (view s)"
    using map_prod_snd [OF acquire_on_view [OF wf assms(2), of x limit None]] assms(3) by simp
  show "owners ok (view s') x = Some (clock_ms (view s) + lt)"
    if "owners ok (view s) x = Some e" "clock_ms (view s) < e"
    using that by (simp add: o lease_acquire_def Let_def dom_def)
  show "\<exists>g. r = grant_resp g \<and> (\<forall>t ex n. g = Granted t ex n \<longrightarrow>
      ex = clock_ms (view s) + lt \<and> owners ok (view s') x = Some ex)"
    by (rule exI, rule conjI, rule r) (auto simp: o lease_acquire_def Let_def split: if_splits)
qed

lemma refresh_lease:
  assumes "sem_inv ok fk limit (view s)" and "0 < lt"
    and "refresh_script R ok x lt None s = (r, s')"
  shows "clock_ms (view s') = clock_ms (view s)"
    and "owners ok (view s) x = Some e \<Longrightarrow> clock_ms (view s) < e \<Longrightarrow>
      owners ok (view s') x = Some (clock_ms (view s) + lt)"
    and "\<exists>i. r = RInt i \<and> (i \<noteq> 0 \<longrightarrow> i = clock_ms (view s) + lt \<and> owners ok (view s') x = Some i)"
proof -
  have wf: "sem_wf ok fk (view s)" using assms(1) by (simp add: sem_inv_def)
  note c = lease.store_reply(3) [OF wf assms(2), of x None] lease.store_abs(3) [OF wf assms(2), of x None]
  have now: "script_now None (view s) = clock_ms (view s)" by (simp add: script_now_def)
  have o: "owners ok (view s') = holders (snd (lease_refresh lt (clock_ms (view s)) x (sem_abs ok fk (view s))))"
    using arg_cong [OF c(2), of holders] assms(3) by (simp add: now)
  have z: "z_wf (zsets (view s) ok)" using wf by (simp add: sem_wf_def)
  show "clock_ms (view s') = clock_ms (view s)"
    using map_prod_snd [OF refresh_on_view [OF z assms(2), of x None]] assms(3) by simp
  show "owners ok (view s') x = Some (clock_ms (view s) + lt)"
    if "owners ok (view s) x = Some e" "clock_ms (view s) < e"
    using that by (simp add: o lease_refresh_def)
  show "\<exists>i. r = RInt i \<and> (i \<noteq> 0 \<longrightarrow> i = clock_ms (view s) + lt \<and> owners ok (view s') x = Some i)"
    using c(1) assms(3) by (auto simp: o now lease_refresh_def split: option.splits if_splits)
qed

end

lemma sem_run_append:
  "sem_run R view ok fk limit s' tr' s'' \<Longrightarrow> sem_run R view ok fk limit s tr s' \<Longrightarrow>
    sem_run R view ok fk limit s (tr @ tr') s''"
proof (induction rule: sem_run.induct)
  case (run_snoc s' tr' t e u)
  then show ?case using sem_run.run_snoc [where tr = "tr @ tr'"] by fastforce
qed simp

lemma sem_run_one: "sem_step R view ok fk limit s e s' \<Longrightarrow> sem_run R view ok fk limit s [e] s'"
  using sem_run.run_snoc [OF sem_run.run_Nil] by fastforce

subsection \<open>Everything else a method does leaves the semaphore's keys alone\<close>

definition quiet :: "('w \<Rightarrow> 'w \<Rightarrow> bool) \<Rightarrow> 'w sem_env \<Rightarrow> semaphore_config \<Rightarrow> bool" where
  "quiet calm E c \<longleftrightarrow> reflp calm \<and> transp calm \<and>
     (\<forall>d w. calm w (s_sleep E d w) \<and> calm w (s_asleep E d w)) \<and>
     (\<forall>d w. calm w (snd (s_blpop E (queue_key c) d w)) \<and> calm w (snd (s_ablpop E (queue_key c) d w))) \<and>
     (\<forall>S w. so_config S = c \<longrightarrow> calm w (snd (s_pipeline E (notify_cmds S) w)) \<and>
        calm w (snd (s_apipeline E (notify_cmds S) w))) \<and>
     (\<forall>a b w. calm w (snd (s_uniform E a b w))) \<and> (\<forall>k w. calm w (s_metric E k w)) \<and>
     (\<forall>f i w. s_on_lock_lost E = Some f \<longrightarrow> calm w (f i w))"

lemma calm_refl: "quiet calm E c \<Longrightarrow> calm w w"
  by (simp add: quiet_def reflp_def)

lemma calm_trans: "quiet calm E c \<Longrightarrow> calm u v \<Longrightarrow> calm v w \<Longrightarrow> calm u w"
  unfolding quiet_def by (meson transpD)

lemma calm_emit: "quiet calm E c \<Longrightarrow> calm w (emit E k w)"
  by (simp add: emit_def quiet_def reflp_def)

lemma calm_next_retry: "quiet calm E c \<Longrightarrow> calm w (snd (snd (next_retry_interval E S st w)))"
  by (auto simp: next_retry_interval_def quiet_def reflp_def Let_def split: sum.split prod.split)
     (metis snd_conv)

lemma calm_wait_polling:
  assumes q: "quiet calm E c" and "\<And>d w. calm w (sleep d w)"
  shows "calm w (snd (snd (wait_polling_with E sleep S st w)))"
proof -
  obtain r st1 w1 where n: "next_retry_interval E S st w = (r, st1, w1)" by (rule prod_cases3)
  have "calm w w1" using calm_next_retry [OF q, of w S st] n by simp
  moreover have "calm w (sleep d w1)" for d using calm_trans [OF q \<open>calm w w1\<close> assms(2)] .
  ultimately show ?thesis
    by (simp add: wait_polling_with_def n Let_def split: sum.split option.split)
qed

lemma calm_wait_blpop:
  assumes q: "quiet calm E c" and "\<And>d w. calm w (sleep d w)" and "\<And>d w. calm w (snd (blpop (queue_key c) d w))"
    and "so_config S = c"
  shows "calm w (snd (snd (wait_blpop_with E blpop sleep S st w)))"
proof -
  obtain x w1 where b: "blpop (queue_key c) (blpop_timeout_for E S st w) w = (x, w1)" by (rule prod.exhaust)
  have "calm w w1" using assms(3) [of w "blpop_timeout_for E S st w"] b by simp
  moreover have "calm w (sleep d w1)" for d using calm_trans [OF q \<open>calm w w1\<close> assms(2)] .
  ultimately show ?thesis
    by (simp add: wait_blpop_with_def assms(4) b calm_refl [OF q] Let_def split: option.split)
qed

lemma calm_wait_slot:
  assumes q: "quiet calm E c" and "so_config S = c"
  shows "calm w (snd (snd (wait_slot E m S st w)))"
proof -
  have s: "calm w (s_sleep E d w)" "calm w (s_asleep E d w)" "calm w (snd (s_blpop E (queue_key c) d w))"
    "calm w (snd (s_ablpop E (queue_key c) d w))" for d w
    using q by (simp_all add: quiet_def)
  show ?thesis
    by (simp add: wait_slot_def wait_for_slot_def wait_for_slot_async_def wait_polling_def wait_polling_async_def
        wait_blpop_def wait_blpop_async_def calm_wait_polling [OF q] calm_wait_blpop [OF q _ _ assms(2)] s)
qed

lemma calm_waiting:
  assumes q: "quiet calm E c"
  shows "calm w (snd (snd (register_waiting E S st w)))" and "calm w (snd (leave_wait E st r S w))"
proof -
  note e = calm_emit [OF q] calm_refl [OF q] calm_trans [OF q calm_emit [OF q] calm_emit [OF q]]
  show "calm w (snd (snd (register_waiting E S st w)))"
    by (simp add: register_waiting_def increment_waiting_def Let_def e)
  have "calm w (snd (decrement_waiting E S w))" by (simp add: decrement_waiting_def Let_def e)
  moreover have "calm w (observe_wait E S st r w)" for S w by (simp add: observe_wait_def e split: option.split)
  ultimately show "calm w (snd (leave_wait E st r S w))"
    by (auto simp: leave_wait_def Let_def split: prod.split) (metis calm_emit [OF q] calm_trans [OF q] snd_conv)+
qed

text \<open>A round of acquire is its call, then quiet; the object is as before but for the count of waiters, or
  it has the slot the call granted.\<close>

fun round_object :: "'w acq_round \<Rightarrow> sem_obj" where
  "round_object (Inl (r, S, w)) = S" | "round_object (Inr (st, S, w)) = S"

fun round_world :: "'w acq_round \<Rightarrow> 'w" where
  "round_world (Inl (r, S, w)) = w" | "round_world (Inr (st, S, w)) = w"

fun round_success :: "'w acq_round \<Rightarrow> bool" where
  "round_success (Inl (Inr a, S, w)) = ar_success a" | "round_success _ = False"

lemma acquire_round_split:
  assumes q: "quiet calm E c" and c: "so_config S = c" and x: "so_identifier S = Some x" and m: "m \<noteq> NONE"
  obtains (granted) f e u w1 where "call_acquire E m S x w = (Inr (True, f, e, u), w1)"
      "round_success (acquire_round E m blocking x (st, S, w))"
      "calm w1 (round_world (acquire_round E m blocking x (st, S, w)))"
      "round_object (acquire_round E m blocking x (st, S, w)) = with_heartbeat m (granted_obj f e st m S)"
  | (other) p w1 n where "call_acquire E m S x w = (p, w1)"
      "\<not> round_success (acquire_round E m blocking x (st, S, w))"
      "calm w1 (round_world (acquire_round E m blocking x (st, S, w)))"
      "round_object (acquire_round E m blocking x (st, S, w)) = S\<lparr>so_waiting := n\<rparr>"
proof (rule acquire_round_cases [OF x m, of E w blocking st], goal_cases)
  case (1 e w1)
  show thesis
    by (rule other [OF 1(3), of "so_waiting S"]) (simp_all add: 1(4) calm_refl [OF q])
next
  case (2 f e u w1 w2 T)
  show thesis
    by (rule granted [OF 2(3)])
       (simp_all add: 2 granted_result_def calm_trans [OF q calm_emit [OF q] calm_waiting(2) [OF q]])
next
  case (3 f e u w1 w2 a)
  then have "w2 = snd (handle_non_blocking_failure E u S (emit E (SetSlotsUsed (sc_name (so_config S))
      (sc_namespace (so_config S)) u (sc_limit (so_config S))) w1))"
    by (auto simp: acquire_round_def Let_def handle_non_blocking_failure_def)
  then have "calm w1 w2"
    by (simp add: handle_non_blocking_failure_def calm_trans [OF q calm_emit [OF q] calm_emit [OF q]])
  with 3 show thesis by (intro other [OF 3(4), of "so_waiting S"]) simp_all
next
  case (4 f e u w1 w2 S1 st1)
  let ?w = "emit E (SetSlotsUsed (sc_name (so_config S)) (sc_namespace (so_config S)) u (sc_limit (so_config S))) w1"
  obtain n where S1: "S1 = S\<lparr>so_waiting := n\<rparr>" and "calm ?w w2"
    using fst_register_waiting [of E S st ?w] calm_waiting(1) [OF q, of ?w S st] unfolding 4(5) by auto
  then have w2: "calm w1 w2" using calm_trans [OF q calm_emit [OF q]] by blast
  obtain r st2 w3 where r: "wait_slot E m S1 st1 w2 = (r, st2, w3)" by (rule prod_cases3)
  have w3: "calm w1 w3"
    using calm_trans [OF q w2 calm_wait_slot [OF q, of S1 w2 m st1]] r c by (simp add: S1)
  have t: "calm w1 (snd (snd (handle_timeout E st1 S1 w2)))"
    using calm_trans [OF q w2 calm_waiting(2) [OF q]] by (simp add: handle_timeout_def case_prod_beta)
  let ?k = "waiting_left st1 S1"
  have k: "handle_timeout E st1 S1 w2 = (Inl (SemError AcquireTimeoutError), S\<lparr>so_waiting := ?k\<rparr>,
      snd (snd (handle_timeout E st1 S1 w2)))"
    by (simp add: handle_timeout_def case_prod_beta prod_eq_iff S1)
  show thesis
  proof (cases "check_timeout E S1 st1 w2")
    case True
    then have "acquire_round E m blocking x (st, S, w) = Inl (Inl (SemError AcquireTimeoutError), S\<lparr>so_waiting := ?k\<rparr>,
      snd (snd (handle_timeout E st1 S1 w2)))" using 4(6) k by simp
    with t show thesis by (intro other [OF 4(4), of ?k]) simp_all
  next
    case False
    with 4(6) r w3 show thesis by (intro other [OF 4(4), of n]; cases r) (simp_all add: S1)
  qed
qed

subsection \<open>The fleet\<close>

text \<open>
  The world, the objects by number, the objects that have asked the server to release their slot since
  they last acquired, and the identifiers in use so far. A fresh identifier is one nobody has used
  (\<open>uuid4\<close> with the time). The rounds of an acquire are steps of their own, with what others do in
  between; a round can happen wherever the mode check at its start allows it.
\<close>

record 'w fleet =
  fl_world :: 'w
  fl_objs :: "nat \<Rightarrow> sem_obj"
  fl_gone :: "nat \<Rightarrow> bool"
  fl_used :: "ident set"

definition put_obj :: "nat \<Rightarrow> sem_obj \<Rightarrow> bool \<Rightarrow> 'w \<Rightarrow> 'w fleet \<Rightarrow> 'w fleet" where
  "put_obj i S gone w F =
     F\<lparr>fl_world := w, fl_objs := (fl_objs F)(i := S), fl_gone := (fl_gone F)(i := gone)\<rparr>"

inductive fleet_step :: "'w sem_env \<Rightarrow> ('w \<Rightarrow> 'w \<Rightarrow> bool) \<Rightarrow> 'w fleet \<Rightarrow> 'w fleet \<Rightarrow> bool"
  for E calm
where
  fl_begin: "S = fl_objs F i \<Longrightarrow> so_identifier S = None \<Longrightarrow> x \<notin> fl_used F \<Longrightarrow> calm (fl_world F) w' \<Longrightarrow>
    fleet_step E calm F
      ((put_obj i (S\<lparr>so_identifier := Some x\<rparr>) (fl_gone F i) w' F)\<lparr>fl_used := insert x (fl_used F)\<rparr>)"
| fl_round: "S = fl_objs F i \<Longrightarrow> so_identifier S = Some x \<Longrightarrow> so_mode S = NONE \<or> so_mode S = m \<Longrightarrow> m \<noteq> NONE \<Longrightarrow>
    y = acquire_round E m blocking x (st, S, fl_world F) \<Longrightarrow>
    fleet_step E calm F (put_obj i (round_object y) (fl_gone F i \<and> \<not> round_success y) (round_world y) F)"
| fl_release: "S = fl_objs F i \<Longrightarrow> m \<noteq> NONE \<Longrightarrow> release_with E m S (fl_world F) = (r, S', w') \<Longrightarrow>
    fleet_step E calm F (put_obj i S' (fl_gone F i \<or> so_identifier S \<noteq> None \<and> check_mode S m = Inr ()) w' F)"
| fl_refresh: "S = fl_objs F i \<Longrightarrow> refresh_with E m S (fl_world F) = (r, S', w') \<Longrightarrow>
    fleet_step E calm F (put_obj i S' (fl_gone F i) w' F)"
| fl_heartbeat: "S = fl_objs F i \<Longrightarrow> heartbeat_refresh E m (S, fl_world F) = (r, S', w') \<Longrightarrow>
    fleet_step E calm F (put_obj i S' (fl_gone F i) w' F)"
| fl_lost: "S = fl_objs F i \<Longrightarrow> on_lost E m x (S, fl_world F) = (S', w') \<Longrightarrow>
    fleet_step E calm F (put_obj i S' (fl_gone F i) w' F)"
| fl_pass: "calm (fl_world F) w' \<Longrightarrow> fleet_step E calm F (F\<lparr>fl_world := w'\<rparr>)"

text \<open>An object that believes it holds a slot whose time has not passed at \<open>now\<close>.\<close>

definition believes :: "ms \<Rightarrow> sem_obj \<Rightarrow> bool" where
  "believes now S \<longleftrightarrow> so_state S = ACQUIRED \<and>
     (case so_expires_at S of None \<Rightarrow> False | Some t \<Rightarrow> of_int now < t * 1000)"

locale sem_fleet = lossy_server C sha1 R store decode up + sem_keys R view "owners_key c" "fencing_key c" "sc_limit c"
  for C :: "'w script_client" and sha1 :: "lua_script \<Rightarrow> string" and R :: "'s redis_api"
    and store :: "'w \<Rightarrow> 's" and decode :: bool and up :: "'w \<Rightarrow> bool" and view :: "'s \<Rightarrow> rview"
    and c :: semaphore_config +
  fixes E :: "'w sem_env" and calm :: "'w \<Rightarrow> 'w \<Rightarrow> bool"
  assumes env: "s_client E = C" "s_sha1 E = sha1"
    and conf: "0 < py_int (sc_lock_timeout c * 1000)" "sc_time_source c = SERVER" "1 \<le> sc_limit c"
    and quiet: "quiet calm E c"
    and calm_env: "calm w w' \<Longrightarrow> env_step [owners_key c, fencing_key c] (view (store w)) (view (store w'))"
begin

abbreviation V :: "'w \<Rightarrow> rview" where "V w \<equiv> view (store w)"
abbreviation lt :: ms where "lt \<equiv> py_int (sc_lock_timeout c * 1000)"

text \<open>The store is in order.\<close>

definition ordered :: "'w \<Rightarrow> bool" where
  "ordered w \<longleftrightarrow> sem_inv (owners_key c) (fencing_key c) (sc_limit c) (V w) \<and> ttl_covers (owners_key c) (V w)"

text \<open>From \<open>w\<close> to \<open>w'\<close> only \<open>x\<close> acted on the semaphore, if anybody did.\<close>

definition only :: "ident \<Rightarrow> 'w \<Rightarrow> 'w \<Rightarrow> bool" where
  "only x w w' \<longleftrightarrow> (\<exists>tr. sem_run R view (owners_key c) (fencing_key c) (sc_limit c) (store w) tr (store w') \<and>
     list_all server_timed tr \<and> (\<forall>y. y \<noteq> x \<longrightarrow> list_all (\<lambda>e. \<not> touches y e) tr))"

lemma keys_differ: "owners_key c \<noteq> fencing_key c"
  by (simp add: owners_key_def fencing_key_def)

lemma alone_refl: "store w' = store w \<Longrightarrow> only x w w'"
  unfolding only_def by (rule exI [of _ "[]"]) (simp add: sem_run.run_Nil)

lemma alone_trans: "only x u v \<Longrightarrow> only x v w \<Longrightarrow> only x u w"
  unfolding only_def by (elim exE conjE, rule_tac x = "tr @ tra" in exI) (simp add: sem_run_append)

lemma only_calm: "calm w w' \<Longrightarrow> only x w w'"
  unfolding only_def by (rule exI [of _ "[EvEnv]"]) (simp add: sem_run_one sem_step.step_env calm_env)

lemma only_ordered:
  assumes "only x w w'" and "ordered w"
  shows "ordered w'" and "clock_ms (V w) \<le> clock_ms (V w')"
    and "y \<noteq> x \<Longrightarrow> owners (owners_key c) (V w) y = Some d \<Longrightarrow> clock_ms (V w') < d \<Longrightarrow>
      owners (owners_key c) (V w') y = Some d"
proof -
  obtain tr where tr: "sem_run R view (owners_key c) (fencing_key c) (sc_limit c) (store w) tr (store w')"
    "list_all server_timed tr" "\<forall>y. y \<noteq> x \<longrightarrow> list_all (\<lambda>e. \<not> touches y e) tr"
    using assms(1) unfolding only_def by blast
  have o: "sem_inv (owners_key c) (fencing_key c) (sc_limit c) (V w)" "ttl_covers (owners_key c) (V w)"
    using assms(2) by (simp_all add: ordered_def)
  have lim: "0 \<le> sc_limit c" using conf(3) by simp
  show "ordered w'"
    using run_inv [OF tr(1) keys_differ lim o(1)] run_lease [OF tr(1) keys_differ lim o tr(2)]
    by (simp add: ordered_def)
  show "clock_ms (V w) \<le> clock_ms (V w')" using run_lease [OF tr(1) keys_differ lim o tr(2)] by blast
  show "y \<noteq> x \<Longrightarrow> owners (owners_key c) (V w) y = Some d \<Longrightarrow> clock_ms (V w') < d \<Longrightarrow>
      owners (owners_key c) (V w') y = Some d"
    using run_lease [OF tr(1) keys_differ lim o tr(2), of y d] tr(3) by blast
qed

text \<open>In a quiet time an owner with time left stays, whoever it is.\<close>

lemma calm_owner:
  assumes "calm w w'" and "ordered w" and "owners (owners_key c) (V w) y = Some d" and "clock_ms (V w') < d"
  shows "owners (owners_key c) (V w') y = Some d"
proof -
  obtain x where "x \<noteq> y" by (metis list.distinct(1) not_Cons_self2)
  with only_ordered(3) [OF only_calm [OF assms(1)] assms(2)] assms(3,4) show ?thesis by metis
qed

text \<open>The object's belief is backed by the store.\<close>

definition backed :: "ident \<Rightarrow> sem_obj \<Rightarrow> 'w \<Rightarrow> bool" where
  "backed x S w \<longleftrightarrow>
     (so_state S = ACQUIRED \<longrightarrow> (\<forall>t. so_expires_at S = Some t \<longrightarrow>
        t * 1000 \<le> of_int (clock_ms (V w) + lt) \<and>
        (of_int (clock_ms (V w)) < t * 1000 \<longrightarrow>
          (\<exists>e. owners (owners_key c) (V w) x = Some e \<and> t * 1000 \<le> of_int e))))"

lemma backed_kept:
  assumes "backed x S w" and "clock_ms (V w) \<le> clock_ms (V w')"
    and "\<And>d. owners (owners_key c) (V w) x = Some d \<Longrightarrow> clock_ms (V w') < d \<Longrightarrow>
      owners (owners_key c) (V w') x = Some d"
  shows "backed x S w'"
  unfolding backed_def
proof (intro impI allI)
  fix t
  assume "so_state S = ACQUIRED" "so_expires_at S = Some t"
  with assms(1) have t: "t * 1000 \<le> of_int (clock_ms (V w) + lt)"
    and o: "of_int (clock_ms (V w)) < t * 1000 \<longrightarrow> (\<exists>e. owners (owners_key c) (V w) x = Some e \<and> t * 1000 \<le> of_int e)"
    unfolding backed_def by blast+
  have le: "real_of_int (clock_ms (V w)) \<le> of_int (clock_ms (V w'))" using assms(2) by simp
  have "\<exists>e. owners (owners_key c) (V w') x = Some e \<and> t * 1000 \<le> of_int e" if l: "of_int (clock_ms (V w')) < t * 1000"
  proof -
    from l le o obtain e where e: "owners (owners_key c) (V w) x = Some e" "t * 1000 \<le> of_int e" by auto
    with l have "clock_ms (V w') < e" by linarith
    with assms(3) [OF e(1)] e(2) show ?thesis by blast
  qed
  with t le show "t * 1000 \<le> of_int (clock_ms (V w') + lt) \<and>
      (of_int (clock_ms (V w')) < t * 1000 \<longrightarrow> (\<exists>e. owners (owners_key c) (V w') x = Some e \<and> t * 1000 \<le> of_int e))"
    by auto
qed

lemma backed_other:
  assumes "only y w w'" and "x \<noteq> y" and "ordered w" and "backed x S w"
  shows "backed x S w'"
  by (rule backed_kept [OF assms(4) only_ordered(2) [OF assms(1,3)] only_ordered(3) [OF assms(1,3,2)]])

lemma backed_calm: "calm w w' \<Longrightarrow> ordered w \<Longrightarrow> backed x S w \<Longrightarrow> backed x S w'"
  using only_ordered(2) [OF only_calm] calm_owner backed_kept by blast

text \<open>A renewed lease backs what an older one backed.\<close>

lemma backed_renewed:
  assumes "backed x S w" and "clock_ms (V w') = clock_ms (V w)"
    and "\<And>e. owners (owners_key c) (V w) x = Some e \<Longrightarrow> clock_ms (V w) < e \<Longrightarrow>
      owners (owners_key c) (V w') x = Some (clock_ms (V w) + lt)"
  shows "backed x S w'"
  unfolding backed_def
proof (intro impI allI)
  fix t
  assume "so_state S = ACQUIRED" "so_expires_at S = Some t"
  with assms(1) have t: "t * 1000 \<le> of_int (clock_ms (V w) + lt)"
    and o: "of_int (clock_ms (V w)) < t * 1000 \<longrightarrow> (\<exists>e. owners (owners_key c) (V w) x = Some e \<and> t * 1000 \<le> of_int e)"
    unfolding backed_def by blast+
  have "\<exists>e. owners (owners_key c) (V w') x = Some e \<and> t * 1000 \<le> of_int e" if l: "of_int (clock_ms (V w)) < t * 1000"
  proof -
    from l o obtain e where e: "owners (owners_key c) (V w) x = Some e" "t * 1000 \<le> of_int e" by auto
    with l have "clock_ms (V w) < e" by linarith
    with assms(3) [OF e(1)] t show ?thesis by blast
  qed
  with t show "t * 1000 \<le> of_int (clock_ms (V w') + lt) \<and>
      (of_int (clock_ms (V w')) < t * 1000 \<longrightarrow> (\<exists>e. owners (owners_key c) (V w') x = Some e \<and> t * 1000 \<le> of_int e))"
    by (simp add: assms(2))
qed

lemma ordered_inv: "ordered w \<Longrightarrow> sem_inv (owners_key c) (fencing_key c) (sc_limit c) (V w)"
  by (simp add: ordered_def)

lemma acquire_call:
  assumes o: "ordered w" and S: "so_config S = c" and call: "call_acquire E m S x w = (p, w1)"
  shows "only x w w1" and "backed x T w \<Longrightarrow> backed x T w1"
    and "p = Inr (True, f, e, u) \<Longrightarrow> clock_ms (V w1) = clock_ms (V w) \<and> e = Some (clock_ms (V w) + lt) \<and>
      owners (owners_key c) (V w1) x = Some (clock_ms (V w) + lt)"
proof -
  obtain r s' where a: "acquire_script R (owners_key c) (fencing_key c) x (sc_limit c) lt None (store w) = (r, s')"
    by (rule prod.exhaust)
  note l = acquire_lease [OF ordered_inv [OF o] conf(1) a]
  have step: "sem_step R view (owners_key c) (fencing_key c) (sc_limit c) (store w) (EvAcquire x lt None r) s'"
    by (rule step_acquire [OF conf(1) a])
  have run: "lua_run R ACQUIRE_SCRIPT [owners_key c, fencing_key c]
      (map arg_text [AStr x, AInt (sc_limit c), AInt lt, now_arg None]) (store w) = (Some r, s')"
    using a by (simp add: lua_run_def)
  have n: "map_of SCRIPTS ''acquire'' = Some ACQUIRE_SCRIPT" by (simp add: SCRIPTS_def)
  have "p = parse_acquire_result (py_of_resp decode r) \<and> store w1 = s' \<or>
      (\<exists>e. p = Inl e) \<and> (store w1 = store w \<or> store w1 = s')"
  proof (cases "(m = ASYNC) = cl_is_async C")
    case True
    then show ?thesis
      using call_outcome [OF n refl run, of parse_acquire_result p w1] call S
      by (simp add: call_acquire_def runner_acquire_def runner_acquire_async_def env conf lock_timeout_ms_def
          sem_now_arg_def now_ms_arg_def split: if_splits)
  next
    case False
    then have "p = Inl PyRuntimeError" "w1 = w"
      using call S get_sha_script [OF n]
      by (auto simp: call_acquire_def runner_acquire_def runner_acquire_async_def script_call_def env evalsha_def
          aevalsha_def split: if_splits)
    then show ?thesis by simp
  qed
  note out = this
  have "only x w w1" if "store w1 = s'"
    unfolding only_def that by (rule exI, rule conjI, rule sem_run_one, rule step) auto
  then show "only x w w1" using out alone_refl by blast
  have "backed x T w1" if "backed x T w" "store w1 = s'"
    by (rule backed_renewed [OF that(1)]) (use l(1,2) that(2) in simp_all)
  moreover have "backed x T w1" if "backed x T w" "store w1 = store w"
    using that by (simp add: backed_def)
  ultimately show "backed x T w \<Longrightarrow> backed x T w1" using out by blast
  show "clock_ms (V w1) = clock_ms (V w) \<and> e = Some (clock_ms (V w) + lt) \<and>
      owners (owners_key c) (V w1) x = Some (clock_ms (V w) + lt)" if "p = Inr (True, f, e, u)"
  proof -
    have s: "store w1 = s'" and pr: "parse_acquire_result (py_of_resp decode r) = Inr (True, f, e, u)"
      using out that by auto
    from l(3) obtain g where g: "r = grant_resp g" "\<forall>t ex n. g = Granted t ex n \<longrightarrow>
        ex = clock_ms (V w) + lt \<and> owners (owners_key c) (view s') x = Some ex" by blast
    with pr s l(1) show ?thesis by (cases g; cases decode) auto
  qed
qed

lemma refresh_call:
  assumes o: "ordered w" and S: "so_config S = c" and call: "call_refresh E m S x w = (p, w1)"
  shows "only x w w1" and "backed x T w \<Longrightarrow> backed x T w1"
    and "p = Inr i \<Longrightarrow> i \<noteq> 0 \<Longrightarrow> clock_ms (V w1) = clock_ms (V w) \<and> i = clock_ms (V w) + lt \<and>
      owners (owners_key c) (V w1) x = Some i"
proof -
  obtain r s' where a: "refresh_script R (owners_key c) x lt None (store w) = (r, s')"
    by (rule prod.exhaust)
  note l = refresh_lease [OF ordered_inv [OF o] conf(1) a]
  have step: "sem_step R view (owners_key c) (fencing_key c) (sc_limit c) (store w) (EvRefresh x lt None r) s'"
    by (rule step_refresh [OF conf(1) a])
  have run: "lua_run R REFRESH_SCRIPT [owners_key c]
      (map arg_text [AStr x, AInt lt, now_arg None]) (store w) = (Some r, s')"
    using a by (simp add: lua_run_def)
  have n: "map_of SCRIPTS ''refresh'' = Some REFRESH_SCRIPT" by (simp add: SCRIPTS_def)
  have "p = to_int (py_of_resp decode r) \<and> store w1 = s' \<or>
      (\<exists>e. p = Inl e) \<and> (store w1 = store w \<or> store w1 = s')"
  proof (cases "(m = ASYNC) = cl_is_async C")
    case True
    then show ?thesis
      using call_outcome [OF n refl run, of to_int p w1] call S
      by (simp add: call_refresh_def runner_refresh_def runner_refresh_async_def env conf lock_timeout_ms_def
          sem_now_arg_def now_ms_arg_def split: if_splits)
  next
    case False
    then have "p = Inl PyRuntimeError" "w1 = w"
      using call S get_sha_script [OF n]
      by (auto simp: call_refresh_def runner_refresh_def runner_refresh_async_def script_call_def env evalsha_def
          aevalsha_def split: if_splits)
    then show ?thesis by simp
  qed
  note out = this
  have "only x w w1" if "store w1 = s'"
    unfolding only_def that by (rule exI, rule conjI, rule sem_run_one, rule step) auto
  then show "only x w w1" using out alone_refl by blast
  have "backed x T w1" if "backed x T w" "store w1 = s'"
    by (rule backed_renewed [OF that(1)]) (use l(1,2) that(2) in simp_all)
  moreover have "backed x T w1" if "backed x T w" "store w1 = store w"
    using that by (simp add: backed_def)
  ultimately show "backed x T w \<Longrightarrow> backed x T w1" using out by blast
  show "clock_ms (V w1) = clock_ms (V w) \<and> i = clock_ms (V w) + lt \<and>
      owners (owners_key c) (V w1) x = Some i" if "p = Inr i" "i \<noteq> 0"
    using out that l(1,3) by auto
qed

lemma release_call:
  assumes S: "so_config S = c" and call: "call_release E m S x w = (p, w1)"
  shows "only x w w1"
proof -
  obtain r s' where a: "release_script R (owners_key c) x (store w) = (r, s')" by (rule prod.exhaust)
  have run: "lua_run R RELEASE_SCRIPT [owners_key c] (map arg_text [AStr x]) (store w) = (Some r, s')"
    using a by (simp add: lua_run_def)
  have n: "map_of SCRIPTS ''release'' = Some RELEASE_SCRIPT" by (simp add: SCRIPTS_def)
  have "store w1 = s' \<or> store w1 = store w"
  proof (cases "(m = ASYNC) = cl_is_async C")
    case True
    then show ?thesis
      using call_outcome [OF n refl run, of "\<lambda>r. Inr (py_truth r)" p w1] call S
      by (auto simp: call_release_def runner_release_def runner_release_async_def env split: if_splits)
  next
    case False
    then show ?thesis
      using call S get_sha_script [OF n]
      by (auto simp: call_release_def runner_release_def runner_release_async_def script_call_def env evalsha_def
          aevalsha_def split: if_splits)
  qed
  moreover have "only x w w1" if "store w1 = s'"
    unfolding only_def that by (rule exI, rule conjI, rule sem_run_one, rule step_release [OF a]) auto
  ultimately show ?thesis using alone_refl by blast
qed

text \<open>The invariant of the fleet.\<close>

definition fleet_inv :: "'w fleet \<Rightarrow> bool" where
  "fleet_inv F \<longleftrightarrow> ordered (fl_world F) \<and>
     (\<forall>i. so_config (fl_objs F i) = c \<and> sem_ok (fl_objs F i)) \<and>
     (\<forall>i x. so_identifier (fl_objs F i) = Some x \<longrightarrow> x \<in> fl_used F \<and>
        (\<forall>j. so_identifier (fl_objs F j) = Some x \<longrightarrow> j = i) \<and>
        (\<not> fl_gone F i \<longrightarrow> backed x (fl_objs F i) (fl_world F)))"

text \<open>A step in which object \<open>i\<close>, and only it, acted for its identifier.\<close>

lemma fleet_inv_put:
  assumes inv: "fleet_inv F" and x: "so_identifier (fl_objs F i) = Some x" and o: "only x (fl_world F) w'"
    and S': "so_config S' = c" "sem_ok S'" "so_identifier S' = Some x \<or> so_identifier S' = None"
    and b: "so_identifier S' = Some x \<Longrightarrow> \<not> gone \<Longrightarrow> backed x S' w'"
  shows "fleet_inv (put_obj i S' gone w' F)"
proof -
  have ord: "ordered (fl_world F)" using inv by (simp add: fleet_inv_def)
  have other: "backed y (fl_objs F j) w'" if "so_identifier (fl_objs F j) = Some y" "j \<noteq> i" "\<not> fl_gone F j" for j y
  proof -
    have "y \<noteq> x" using inv that(1,2) x unfolding fleet_inv_def by metis
    moreover have "backed y (fl_objs F j) (fl_world F)" using inv that unfolding fleet_inv_def by blast
    ultimately show ?thesis using backed_other [OF o _ ord] by blast
  qed
  have "ordered w'" by (rule only_ordered(1) [OF o ord])
  with inv x S' b other show ?thesis
    unfolding fleet_inv_def put_obj_def by (auto split: if_splits)
qed

lemma fleet_inv_calm:
  assumes inv: "fleet_inv F" and "calm (fl_world F) w'"
  shows "fleet_inv (F\<lparr>fl_world := w'\<rparr>)"
proof -
  have ord: "ordered (fl_world F)" using inv by (simp add: fleet_inv_def)
  have "ordered w'" by (rule only_ordered(1) [OF only_calm [OF assms(2)] ord])
  with inv backed_calm [OF assms(2) ord] show ?thesis unfolding fleet_inv_def by auto
qed

lemma backed_waiting [simp]: "backed x (S\<lparr>so_waiting := n\<rparr>) w = backed x S w"
  by (simp add: backed_def)

lemma step_begin:
  assumes inv: "fleet_inv F" and "so_identifier (fl_objs F i) = None" and x: "x \<notin> fl_used F"
    and calm: "calm (fl_world F) w'"
  shows "fleet_inv ((put_obj i ((fl_objs F i)\<lparr>so_identifier := Some x\<rparr>) (fl_gone F i) w' F)
    \<lparr>fl_used := insert x (fl_used F)\<rparr>)"
proof -
  have ok: "sem_ok (fl_objs F i)" using inv by (simp add: fleet_inv_def)
  with assms(2) have r: "so_state (fl_objs F i) = RELEASED" by (auto simp: sem_ok_def split: if_splits)
  with ok assms(2) have "sem_ok ((fl_objs F i)\<lparr>so_identifier := Some x\<rparr>)" by (auto simp: sem_ok_def)
  moreover have "backed x ((fl_objs F i)\<lparr>so_identifier := Some x\<rparr>) w'" by (simp add: backed_def r)
  ultimately show ?thesis
    using fleet_inv_calm [OF inv calm] x assms(2) unfolding fleet_inv_def put_obj_def by (auto split: if_splits)
qed

lemma step_round:
  assumes inv: "fleet_inv F" and x: "so_identifier (fl_objs F i) = Some x"
    and mode: "so_mode (fl_objs F i) = NONE \<or> so_mode (fl_objs F i) = m" and m: "m \<noteq> NONE"
    and y: "y = acquire_round E m blocking x (st, fl_objs F i, fl_world F)"
  shows "fleet_inv (put_obj i (round_object y) (fl_gone F i \<and> \<not> round_success y) (round_world y) F)"
proof -
  let ?S = "fl_objs F i" and ?w = "fl_world F"
  have S: "so_config ?S = c" "sem_ok ?S" and ord: "ordered ?w" using inv by (simp_all add: fleet_inv_def)
  have b: "\<not> fl_gone F i \<Longrightarrow> backed x ?S ?w" using inv x unfolding fleet_inv_def by blast
  have ok: "sem_ok (round_object y)"
  proof (cases y)
    case (Inl a)
    then show ?thesis
      using acquire_round_ok(1) [OF S(2) x mode m, of E blocking st ?w "fst a" "fst (snd a)" "snd (snd a)"] y by (cases a) auto
  next
    case (Inr a)
    then show ?thesis
      using acquire_round_ok(2) [OF S(2) x mode m, of E blocking st ?w "fst a" "fst (snd a)" "snd (snd a)"] y by (cases a) auto
  qed
  show ?thesis
  proof (rule acquire_round_split [OF quiet S(1) x m, of ?w blocking st], goal_cases)
    case (1 f e u w1)
    note call = acquire_call [OF ord S(1) 1(1)]
    have o: "only x ?w (round_world y)" using alone_trans [OF call(1) only_calm] 1(3) y by blast
    have obj: "so_identifier (round_object y) = Some x" "so_config (round_object y) = c"
      "so_expires_at (round_object y) = (if clock_ms (V ?w) + lt = 0 then None else Some (of_int (clock_ms (V ?w) + lt) / 1000))"
      using 1(4) x S(1) call(3) [OF refl] y
      by (simp_all add: granted_obj_def with_heartbeat_def start_heartbeat_def start_heartbeat_async_def)
    have "backed x (round_object y) w1"
      using call(3) [OF refl] obj(3) by (auto simp: backed_def split: if_splits)
    then have "backed x (round_object y) (round_world y)"
      using backed_calm [of w1 "round_world y"] 1(3) y only_ordered(1) [OF call(1) ord] by blast
    with fleet_inv_put [OF inv x o obj(2) ok] obj(1) show ?case by blast
  next
    case (2 p w1 n)
    note call = acquire_call [OF ord S(1) 2(1)]
    have o: "only x ?w (round_world y)" using alone_trans [OF call(1) only_calm] 2(3) y by blast
    have obj: "round_object y = ?S\<lparr>so_waiting := n\<rparr>" using 2(4) y by simp
    have "backed x ?S (round_world y)" if "\<not> fl_gone F i"
      using backed_calm [of w1 "round_world y", OF _ only_ordered(1) [OF call(1) ord] call(2) [OF b [OF that]]] 2(3) y
      by blast
    then have "backed x (round_object y) (round_world y)" if "\<not> fl_gone F i"
      unfolding obj backed_waiting using that .
    with fleet_inv_put [OF inv x o _ ok] obj x S(1) 2(2) y show ?case by simp
  qed
qed

lemma put_same: "put_obj i (fl_objs F i) (fl_gone F i) (fl_world F) F = F"
  by (simp add: put_obj_def)

lemma step_release:
  assumes inv: "fleet_inv F" and m: "m \<noteq> NONE" and r: "release_with E m (fl_objs F i) (fl_world F) = (r, S', w')"
  shows "fleet_inv (put_obj i S' (fl_gone F i \<or> so_identifier (fl_objs F i) \<noteq> None \<and>
    check_mode (fl_objs F i) m = Inr ()) w' F)"
proof -
  let ?S = "fl_objs F i" and ?w = "fl_world F"
  have S: "so_config ?S = c" "sem_ok ?S" using inv by (simp_all add: fleet_inv_def)
  have ok: "sem_ok S'" using release_with_ok [OF S(2) m, of E ?w] r by simp
  show ?thesis
  proof (cases "so_identifier ?S")
    case None
    then have "S' = ?S" "w' = ?w" using r by (auto simp: release_with_def)
    with None inv show ?thesis by (simp add: put_same)
  next
    case (Some x)
    show ?thesis
    proof (cases "check_mode ?S m")
      case (Inl e)
      then have "S' = ?S" "w' = ?w" using Some r by (auto simp: release_with_def)
      with Some Inl inv show ?thesis by (simp add: put_same)
    next
      case (Inr u)
      let ?T = "stop_heartbeat_of m ?S"
      have T: "so_config ?T = c" "so_identifier ?T = Some x"
        using S(1) Some by (simp_all add: stop_heartbeat_of_def stop_heartbeat_def stop_heartbeat_async_def)
      obtain p w1 where p: "call_release E m ?T x ?w = (p, w1)" by (rule prod.exhaust)
      note o1 = release_call [OF T(1) p]
      have "only x ?w w' \<and> so_config S' = c \<and> (so_identifier S' = Some x \<or> so_identifier S' = None)"
      proof (cases p)
        case (Inl e)
        with Some Inr p r T o1 show ?thesis by (auto simp: release_with_def Let_def)
      next
        case b: (Inr b)
        have n: "calm w1 (snd (s_pipeline E (notify_cmds (reset_state ?T)) w1))"
          "calm w1 (snd (s_apipeline E (notify_cmds (reset_state ?T)) w1))"
          using quiet T(1) unfolding quiet_def by (simp_all add: reset_state_def)
        have "S' = reset_state ?T" "w' = w1 \<or> calm w1 w'"
          using Some Inr p r b n by (auto simp: release_with_def Let_def notify_waiters_def notify_waiters_async_def split: if_splits)
        then show ?thesis using o1 T alone_trans [OF o1 only_calm] by (auto simp: reset_state_def)
      qed
      then show ?thesis using fleet_inv_put [OF inv Some _ _ ok, of w' True] Inr Some by simp
    qed
  qed
qed

lemma step_refresh:
  assumes inv: "fleet_inv F" and r: "refresh_with E m (fl_objs F i) (fl_world F) = (r, S', w') \<or>
    heartbeat_refresh E m (fl_objs F i, fl_world F) = (r, S', w')"
  shows "fleet_inv (put_obj i S' (fl_gone F i) w' F)"
proof -
  let ?S = "fl_objs F i" and ?w = "fl_world F"
  have S: "so_config ?S = c" "sem_ok ?S" and ord: "ordered ?w" using inv by (simp_all add: fleet_inv_def)
  have ok: "sem_ok S'"
    using refresh_with_ok [OF S(2), of E m ?w] heartbeat_refresh_ok [OF S(2), of E m ?w] r by auto
  show ?thesis
  proof (cases "so_identifier ?S = None \<or> so_state ?S \<noteq> ACQUIRED")
    case True
    then have "S' = ?S \<and> w' = ?w" using r by (auto simp: refresh_with_def heartbeat_refresh_def)
    with inv show ?thesis by (simp add: put_same)
  next
    case False
    then obtain x where x: "so_identifier ?S = Some x" and a: "so_state ?S = ACQUIRED" by auto
    have b: "\<not> fl_gone F i \<Longrightarrow> backed x ?S ?w" using inv x unfolding fleet_inv_def by blast
    obtain p w1 where p: "call_refresh E m ?S x ?w = (p, w1)" by (rule prod.exhaust)
    note call = refresh_call [OF ord S(1) p]
    have w: "w' = w1" and o: "S' = ?S \<or> (\<exists>j. p = Inr j \<and> j \<noteq> 0 \<and> S' = ?S\<lparr>so_expires_at := Some (of_int j / 1000)\<rparr>) \<or>
        S' = stop_heartbeat_of m (set_lost m ?S)"
      using r p x a by (auto simp: refresh_with_def heartbeat_refresh_def Let_def split: sum.splits if_splits)
    have "so_config S' = c" "so_identifier S' = Some x"
      using o S(1) x by (auto simp: stop_heartbeat_of_def stop_heartbeat_def stop_heartbeat_async_def set_lost_def)
    moreover have "backed x S' w'" if "\<not> fl_gone F i"
      using o
    proof (elim disjE exE conjE)
      assume "S' = ?S"
      then show ?thesis using call(2) [OF b [OF that]] w by simp
    next
      fix j assume "p = Inr j" "j \<noteq> 0" "S' = ?S\<lparr>so_expires_at := Some (of_int j / 1000)\<rparr>"
      then show ?thesis using call(3) [of j] w by (auto simp: backed_def)
    next
      assume "S' = stop_heartbeat_of m (set_lost m ?S)"
      then show ?thesis
        by (simp add: backed_def stop_heartbeat_of_def stop_heartbeat_def stop_heartbeat_async_def set_lost_def)
    qed
    ultimately show ?thesis using fleet_inv_put [OF inv x _ _ ok] call(1) w by blast
  qed
qed

lemma step_lost:
  assumes inv: "fleet_inv F" and r: "on_lost E m z (fl_objs F i, fl_world F) = (S', w')"
  shows "fleet_inv (put_obj i S' (fl_gone F i) w' F)"
proof -
  let ?S = "fl_objs F i" and ?w = "fl_world F"
  have S: "so_config ?S = c" "sem_ok ?S" using inv by (simp_all add: fleet_inv_def)
  show ?thesis
  proof (cases "so_state ?S = ACQUIRED")
    case False
    then have "S' = ?S" "w' = ?w" using r by (auto simp: on_lost_def)
    with inv show ?thesis by (simp add: put_same)
  next
    case True
    with S(2) obtain x where x: "so_identifier ?S = Some x" by (auto simp: sem_ok_def)
    have ok: "sem_ok S'" using on_lost_ok [OF S(2), of E m z ?w] r by simp
    have S': "S' = set_lost m ?S" using r True by (simp add: on_lost_def Let_def)
    have "calm ?w (case s_on_lock_lost E of None \<Rightarrow> ?w | Some f \<Rightarrow> f z ?w)"
      using quiet calm_refl [OF quiet] by (auto simp: quiet_def split: option.split)
    then have "calm ?w w'"
      using r True calm_trans [OF quiet _ calm_emit [OF quiet]] by (auto simp: on_lost_def Let_def)
    then have "only x ?w w'" by (rule only_calm)
    from fleet_inv_put [OF inv x this _ ok] show ?thesis using S(1) x by (simp add: S' set_lost_def backed_def)
  qed
qed

lemma fleet_step_inv:
  assumes "fleet_step E calm F F'" and inv: "fleet_inv F"
  shows "fleet_inv F'"
  using assms(1)
proof (cases rule: fleet_step.cases)
  case (fl_begin S i x w')
  with step_begin [OF inv] show ?thesis by simp
next
  case (fl_round S i x m y blocking st)
  with step_round [OF inv] show ?thesis by simp
next
  case (fl_release S i m r S' w')
  from step_release [OF inv fl_release(3) fl_release(4) [unfolded fl_release(2)]]
  show ?thesis unfolding fl_release(1,2) .
next
  case (fl_refresh S i m r S' w')
  then show ?thesis using step_refresh [OF inv, of m i r S' w'] by simp
next
  case (fl_heartbeat S i m r S' w')
  then show ?thesis using step_refresh [OF inv, of m i r S' w'] by simp
next
  case (fl_lost S i m z S' w')
  with step_lost [OF inv] show ?thesis by simp
next
  case (fl_pass w')
  with fleet_inv_calm [OF inv] show ?thesis by simp
qed

text \<open>What the invariant says about the objects that believe they hold a slot.\<close>

definition holding :: "'w fleet \<Rightarrow> nat set" where
  "holding F = {i. believes (clock_ms (V (fl_world F))) (fl_objs F i) \<and> \<not> fl_gone F i}"

lemma fleet_inv_limit:
  assumes inv: "fleet_inv F"
  shows "finite (holding F) \<and> int (card (holding F)) \<le> sc_limit c"
proof -
  let ?w = "fl_world F" and ?id = "\<lambda>i. the (so_identifier (fl_objs F i))"
  have b: "lease_bounded (sc_limit c) (sem_abs (owners_key c) (fencing_key c) (V ?w))"
    using inv by (simp add: fleet_inv_def ordered_def sem_inv_def)
  have id: "\<exists>x. so_identifier (fl_objs F i) = Some x \<and> x \<in> dom (owners (owners_key c) (V ?w))" if "i \<in> holding F" for i
  proof -
    from that have h: "so_state (fl_objs F i) = ACQUIRED" "\<not> fl_gone F i"
      and "\<exists>t. so_expires_at (fl_objs F i) = Some t \<and> of_int (clock_ms (V ?w)) < t * 1000"
      by (auto simp: holding_def believes_def split: option.splits)
    then obtain t where t: "so_expires_at (fl_objs F i) = Some t" "of_int (clock_ms (V ?w)) < t * 1000" by blast
    have "sem_ok (fl_objs F i)" using inv by (simp add: fleet_inv_def)
    with h(1) obtain x where x: "so_identifier (fl_objs F i) = Some x" by (auto simp: sem_ok_def)
    with inv h(2) have "backed x (fl_objs F i) ?w" unfolding fleet_inv_def by blast
    with h(1) t x show ?thesis by (auto simp: backed_def)
  qed
  have inj: "inj_on ?id (holding F)"
  proof (rule inj_onI)
    fix i j assume "i \<in> holding F" "j \<in> holding F" and e: "?id i = ?id j"
    then obtain x where "so_identifier (fl_objs F i) = Some x" "so_identifier (fl_objs F j) = Some x"
      using id by (metis option.sel)
    then show "i = j" using inv unfolding fleet_inv_def by metis
  qed
  have sub: "?id ` holding F \<subseteq> dom (owners (owners_key c) (V ?w))" using id by force
  have fin: "finite (dom (owners (owners_key c) (V ?w)))" "int (card (dom (owners (owners_key c) (V ?w)))) \<le> sc_limit c"
    using b by (simp_all add: lease_bounded_def)
  have "finite (holding F)" using finite_imageD [OF finite_subset [OF sub fin(1)] inj] .
  moreover have "card (holding F) \<le> card (dom (owners (owners_key c) (V ?w)))"
    using card_mono [OF fin(1) sub] card_image [OF inj] by simp
  ultimately show ?thesis using fin(2) by simp
qed

lemma fleet_inv_start:
  assumes "sem_unused (owners_key c) (fencing_key c) (V (fl_world F))"
    and "\<And>i. \<exists>t. fl_objs F i = new_semaphore c t"
  shows "fleet_inv F"
proof -
  have "so_config (fl_objs F i) = c \<and> sem_ok (fl_objs F i) \<and> so_identifier (fl_objs F i) = None" for i
    using assms(2) [of i] by (auto simp: new_semaphore_def sem_ok_def)
  moreover have "ordered (fl_world F)"
    using sem_inv_unused [OF assms(1)] conf(3) assms(1) by (simp add: ordered_def ttl_covers_def sem_unused_def)
  ultimately show ?thesis by (simp add: fleet_inv_def)
qed

lemma fleet_reachable_inv:
  assumes "(fleet_step E calm)\<^sup>*\<^sup>* F0 F" and "fleet_inv F0"
  shows "fleet_inv F"
  using assms by (induction rule: rtranclp_induct) (auto intro: fleet_step_inv)

end

end
