(* ===== verification/SemaphoreAcquire.thy ===== *)
theory SemaphoreAcquire
  imports SemaphoreProps
begin

section \<open>Acquire: outcome, time, and the backoff\<close>

text \<open>
  What a call of acquire can end with and what it leaves in the object; that with a timeout it ends,
  and when; and where the exponential backoff leaves the range of a float.
\<close>

subsection \<open>Outcome\<close>

text \<open>The result of an acquire against the object it started from. A failed call or wait leaves the
  caller counted as a waiter if it had been waiting.\<close>

definition acquire_outcome :: "api_mode \<Rightarrow> bool \<Rightarrow> sem_obj \<Rightarrow> (py_exn + acquire_result) \<Rightarrow> sem_obj \<Rightarrow> bool" where
  "acquire_outcome m blocking S r S' \<longleftrightarrow>
     (case r of
        Inr a \<Rightarrow>
          so_waiting S' = so_waiting S \<and>
          (if ar_success a then
             so_state S' = ACQUIRED \<and> so_mode S' = m \<and> so_identifier S' \<noteq> None \<and>
             ar_identifier a = so_identifier S' \<and> ar_fencing_token a = so_fencing_token S' \<and>
             ar_expires_at a = so_expires_at S'
           else \<not> blocking \<and> so_state S' = so_state S \<and> so_mode S' = so_mode S \<and>
             so_fencing_token S' = so_fencing_token S \<and> so_expires_at S' = so_expires_at S)
      | Inl e \<Rightarrow>
          so_state S' = so_state S \<and> so_mode S' = so_mode S \<and> so_fencing_token S' = so_fencing_token S \<and>
          so_expires_at S' = so_expires_at S \<and>
          (if e = SemError AcquireTimeoutError then so_waiting S' = so_waiting S
           else so_waiting S' = so_waiting S \<or> so_waiting S' = so_waiting S + 1))"

text \<open>Between the rounds: only the count of waiters differs, by one once the caller waits.\<close>

definition between_rounds :: "bool \<Rightarrow> sem_obj \<Rightarrow> ident \<Rightarrow> acq_state \<times> sem_obj \<times> 'w \<Rightarrow> bool" where
  "between_rounds blocking S x y \<longleftrightarrow>
     (case y of (st, T, w) \<Rightarrow> (aq_waiting_registered st \<longrightarrow> blocking) \<and>
        T = S\<lparr>so_identifier := Some x, so_waiting := so_waiting S + (if aq_waiting_registered st then 1 else 0)\<rparr>)"

lemma wait_slot_registered:
  "aq_waiting_registered (fst (snd (wait_slot E m S st w))) = aq_waiting_registered st"
  using wait_slot_state [of st E m S w] by (simp add: same_wait_def)

lemma timeout_not_raised:
  "wait_slot E m S st w = (Inl e, st', w') \<Longrightarrow> e \<noteq> SemError AcquireTimeoutError"
  by (auto simp: wait_slot_def wait_for_slot_def wait_for_slot_async_def wait_polling_def wait_polling_async_def
      wait_blpop_def wait_blpop_async_def wait_polling_with_def wait_blpop_with_def next_retry_interval_def
      py_pow_def Let_def split: if_splits option.splits prod.splits sum.splits)

definition own_errors :: "'w sem_env \<Rightarrow> bool" where
  "own_errors E \<longleftrightarrow> (\<forall>m S x w. fst (call_acquire E m S x w) \<noteq> Inl (SemError AcquireTimeoutError))"

lemma with_heartbeat_fields [simp]:
  "so_waiting (with_heartbeat m S) = so_waiting S" "so_state (with_heartbeat m S) = so_state S"
  "so_mode (with_heartbeat m S) = so_mode S" "so_identifier (with_heartbeat m S) = so_identifier S"
  "so_fencing_token (with_heartbeat m S) = so_fencing_token S" "so_expires_at (with_heartbeat m S) = so_expires_at S"
  by (simp_all add: with_heartbeat_def start_heartbeat_def start_heartbeat_async_def split: option.split)

lemma waiting_left_between:
  "0 \<le> so_waiting S \<Longrightarrow>
    waiting_left st (S\<lparr>so_identifier := i, so_waiting := so_waiting S + (if aq_waiting_registered st then 1 else 0)\<rparr>) =
      so_waiting S"
  by (simp add: waiting_left_def)

lemma round_outcome:
  assumes b: "between_rounds blocking S x (st, T, w)" and n: "0 \<le> so_waiting S" and m: "m \<noteq> NONE" and own: "own_errors E"
  shows "(\<forall>r S' w'. acquire_round E m blocking x (st, T, w) = Inl (r, S', w') \<longrightarrow> acquire_outcome m blocking S r S') \<and>
    (\<forall>y. acquire_round E m blocking x (st, T, w) = Inr y \<longrightarrow>
      between_rounds blocking S x y \<and> aq_waiting_registered (fst y))"
proof -
  have T: "T = S\<lparr>so_identifier := Some x, so_waiting := so_waiting S + (if aq_waiting_registered st then 1 else 0)\<rparr>"
    using b by (simp add: between_rounds_def)
  then have x: "so_identifier T = Some x" by simp
  show ?thesis
  proof (rule acquire_round_cases [OF x m, of E w blocking st], goal_cases)
    case (1 e w1)
    have "e \<noteq> SemError AcquireTimeoutError" using own 1(1) unfolding own_errors_def by (metis fst_conv)
    with 1 show ?case by (auto simp: acquire_outcome_def T)
  next
    case (2 f e u w1 w2 V)
    then show ?case
      using waiting_left_between [OF n, of st "Some x"]
      by (simp add: acquire_outcome_def granted_result_def granted_obj_def T)
  next
    case (3 f e u w1 w2 a)
    with b have "\<not> aq_waiting_registered st" by (auto simp: between_rounds_def)
    with 3 show ?case by (simp add: acquire_outcome_def T)
  next
    case (4 f e u w1 w2 S1 st1)
    let ?w = "emit E (SetSlotsUsed (sc_name (so_config T)) (sc_namespace (so_config T)) u (sc_limit (so_config T))) w1"
    have "S1 = fst (register_waiting E T st ?w)" "st1 = fst (snd (register_waiting E T st ?w))"
      unfolding 4(3) by simp_all
    then have S1: "S1 = S\<lparr>so_identifier := Some x, so_waiting := so_waiting S + 1\<rparr>"
      and r1: "aq_waiting_registered st1"
      by (simp_all only: fst_register_waiting register_waiting_state) (simp add: T)
    obtain q st2 w3 where q: "wait_slot E m S1 st1 w2 = (q, st2, w3)" by (cases "wait_slot E m S1 st1 w2")
    have r2: "aq_waiting_registered st2"
      using wait_slot_registered [of E m S1 st1 w2] q r1 by simp
    have t: "fst (snd (handle_timeout E st1 S1 w2)) = S\<lparr>so_identifier := Some x, so_waiting := so_waiting S\<rparr>"
      "fst (handle_timeout E st1 S1 w2) = Inl (SemError AcquireTimeoutError)"
      using n r1 by (simp_all add: handle_timeout_def case_prod_beta waiting_left_def S1)
    show ?case
    proof (cases "check_timeout E S1 st1 w2")
      case True
      with 4(4) t show ?thesis by (auto simp: acquire_outcome_def prod_eq_iff)
    next
      case False
      with 4(4) q r2 timeout_not_raised [of E m S1 st1 w2 _ st2 w3] show ?thesis
        by (cases q) (auto simp: acquire_outcome_def between_rounds_def S1 4(1))
    qed
  qed
qed

lemma acquire_with_cases:
  assumes "acquire_with E m blocking S w = Some (r, S', w')"
  obtains (refused) e where "r = Inl e" "S' = S" "w' = w" "acquire_checks S m = Inl e"
  | (tried) x T w1 where "acquire_checks S m = Inr ()" "ensure_identifier E S w = (x, T, w1)"
      "repeat_until (acquire_round E m blocking x) (new_acq_state E w1, T, w1) = Some (r, S', w')"
  using assms by (cases "acquire_checks S m"; cases "ensure_identifier E S w") (auto simp: acquire_with_def)

lemma ensure_identifier_object:
  "ensure_identifier E S w = (x, T, w1) \<Longrightarrow> T = S\<lparr>so_identifier := Some x\<rparr>"
  by (auto simp: ensure_identifier_def split: option.splits prod.splits)

lemma acquire_with_outcome:
  assumes run: "acquire_with E m blocking S w = Some (r, S', w')" and n: "0 \<le> so_waiting S"
    and m: "m \<noteq> NONE" and own: "own_errors E"
  shows "acquire_outcome m blocking S r S'"
  using run
proof (cases rule: acquire_with_cases)
  case (refused e)
  then show ?thesis
    by (auto simp: acquire_outcome_def acquire_checks_def check_mode_def check_lock_lost_def check_reacquire_def
        py_bind_def split: if_splits sum.splits)
next
  case (tried x T w1)
  have "(\<lambda>(r, S', w'). acquire_outcome m blocking S r S') (r, S', w')"
  proof (rule repeat_until_invariant [OF tried(3), where P = "between_rounds blocking S x"], goal_cases)
    case 1
    show ?case
      using ensure_identifier_object [OF tried(2)] by (simp add: between_rounds_def new_acq_state_def)
  next
    case (2 y z)
    then show ?case
      using round_outcome [OF _ n m own, of blocking x "fst y" "fst (snd y)" "snd (snd y)"] by auto
  next
    case (3 y q)
    then show ?case
      using round_outcome [OF _ n m own, of blocking x "fst y" "fst (snd y)" "snd (snd y)"] by auto
  qed
  then show ?thesis by simp
qed

lemma backend_errors_timeout [simp]:
  "backend_errors operation name q = Inl (SemError AcquireTimeoutError) \<longleftrightarrow> q = Inl (SemError AcquireTimeoutError)"
  by (auto simp: backend_errors_def split: sum.split py_exn.split)

lemma acquire_outcome_boundary:
  "acquire_outcome m blocking S (backend_errors operation name q) S' \<longleftrightarrow> acquire_outcome m blocking S q S'"
proof (cases q)
  case (Inl e)
  then obtain e' where e: "backend_errors operation name q = Inl e'" using backend_errors_Inl by blast
  have "e' = SemError AcquireTimeoutError \<longleftrightarrow> e = SemError AcquireTimeoutError"
    using backend_errors_timeout [of operation name q] unfolding e by (simp add: Inl)
  with e Inl show ?thesis by (simp add: acquire_outcome_def)
qed (simp add: acquire_outcome_def)

text \<open>C10: how an acquire ends, through either API: a success leaves the object acquired, with the
  identifier, token and expiry of the result and the API's mode; an unsuccessful result comes only from a
  non-blocking call and leaves the object's state; an exception leaves the object's state too. The
  count of waiters is what it was, except that an exception other than the timeout can leave it one
  higher.\<close>

theorem acquire_ends_as_promised:
  assumes "0 \<le> so_waiting S" and "own_errors E"
    and "m = SYNC \<and> sem_acquire E blocking S w = Some (r, S', w') \<or>
         m = ASYNC \<and> sem_aacquire E blocking S w = Some (r, S', w')"
  shows "acquire_outcome m blocking S r S'"
proof -
  obtain q where q: "acquire_with E m blocking S w = Some (q, S', w')" and m: "m \<noteq> NONE"
    and r: "r = backend_errors ''acquire'' (Some (sc_name (so_config S))) q"
    using assms(3) by (auto simp: sem_acquire_Some)
  from acquire_with_outcome [OF q assms(1) m assms(2)] show ?thesis by (simp add: r acquire_outcome_boundary)
qed

text \<open>The exception that leaks: a call that fails after a denied one.\<close>

lemma failed_call_leaves_caller_counted:
  assumes "acquire_checks S m = Inr ()" and "m \<noteq> NONE" and "ensure_identifier E S w = (x, T, w1)"
    and "acquire_round E m True x (new_acq_state E w1, T, w1) = Inr (st, T2, w2)"
    and "call_acquire E m T2 x w2 = (Inl e, w3)" and "own_errors E" and "0 \<le> so_waiting S"
  shows "acquire_with E m True S w = Some (Inl e, S\<lparr>so_identifier := Some x, so_waiting := so_waiting S + 1\<rparr>, w3)"
proof -
  have T: "T = S\<lparr>so_identifier := Some x\<rparr>" using assms(3) by (rule ensure_identifier_object)
  have "between_rounds True S x (new_acq_state E w1, T, w1)"
    by (simp add: between_rounds_def new_acq_state_def T)
  with round_outcome [OF this assms(7,2,6)] assms(4)
  have "between_rounds True S x (st, T2, w2)" "aq_waiting_registered st" by auto
  then have T2: "T2 = S\<lparr>so_identifier := Some x, so_waiting := so_waiting S + 1\<rparr>"
    by (simp add: between_rounds_def)
  have "acquire_round E m True x (st, T2, w2) = Inl (Inl e, T2, w3)"
    using assms(5) by (simp add: acquire_round_def)
  then show ?thesis using assms(1,3,4) by (simp add: acquire_with_def repeat_until_Inr T2)
qed

subsection \<open>Time\<close>

text \<open>
  An environment in which a script call takes between \<open>quick\<close> and \<open>slow\<close> seconds, a sleep takes at
  least the time asked for, sleep and BLPOP at most \<open>late\<close> more, and nothing else takes time.
\<close>

definition waits_for :: "'w sem_env \<Rightarrow> real \<Rightarrow> (real \<Rightarrow> 'w \<Rightarrow> 'w) \<Rightarrow> bool" where
  "waits_for E late f \<longleftrightarrow> (\<forall>d w. 0 \<le> d \<longrightarrow> s_monotonic E w \<le> s_monotonic E (f d w) \<and>
     s_monotonic E (f d w) \<le> s_monotonic E w + d + late)"

definition timely :: "'w sem_env \<Rightarrow> api_mode \<Rightarrow> real \<Rightarrow> real \<Rightarrow> real \<Rightarrow> bool" where
  "timely E m quick slow late \<longleftrightarrow>
     (\<forall>S x w. s_monotonic E w + quick \<le> s_monotonic E (snd (call_acquire E m S x w)) \<and>
        s_monotonic E (snd (call_acquire E m S x w)) \<le> s_monotonic E w + slow) \<and>
     waits_for E late (s_sleep E) \<and> waits_for E late (s_asleep E) \<and>
     (\<forall>k. waits_for E late (\<lambda>d w. snd (s_blpop E k d w)) \<and> waits_for E late (\<lambda>d w. snd (s_ablpop E k d w))) \<and>
     (\<forall>a b w. s_monotonic E (snd (s_uniform E a b w)) = s_monotonic E w) \<and>
     (\<forall>w. s_monotonic E (snd (s_uuid_hex E w)) = s_monotonic E w) \<and>
     (\<forall>k w. s_monotonic E (s_metric E k w) = s_monotonic E w)"

lemma waits_forD:
  "waits_for E late f \<Longrightarrow> 0 \<le> d \<Longrightarrow> s_monotonic E w \<le> s_monotonic E (f d w)"
  "waits_for E late f \<Longrightarrow> 0 \<le> d \<Longrightarrow> s_monotonic E (f d w) \<le> s_monotonic E w + d + late"
  by (simp_all add: waits_for_def)

lemma next_retry_clock:
  "timely E m quick slow late \<Longrightarrow> s_monotonic E (snd (snd (next_retry_interval E S st w))) = s_monotonic E w"
  by (simp add: timely_def next_retry_interval_def Let_def split: sum.split prod.split) (metis snd_conv)

lemma emit_clock: "timely E m quick slow late \<Longrightarrow> s_monotonic E (emit E k w) = s_monotonic E w"
  by (simp add: timely_def emit_def)

lemma waiting_clock:
  assumes "timely E m quick slow late"
  shows "s_monotonic E (snd (snd (register_waiting E S st w))) = s_monotonic E w"
    and "s_monotonic E (snd (leave_wait E st r S w)) = s_monotonic E w"
  using emit_clock [OF assms]
  by (simp_all add: register_waiting_def increment_waiting_def leave_wait_def decrement_waiting_def
      observe_wait_def Let_def split: prod.split option.split)

text \<open>A wait that starts before the deadline ends at most \<open>late\<close> after it.\<close>

lemma wait_polling_clock:
  assumes tm: "timely E m quick slow late" and T: "sc_acquire_timeout (so_config S) = Some T" and late: "0 \<le> late"
    and "waits_for E late sleep" and "aq_start_time st = t0" and "s_monotonic E w < t0 + T"
    and "wait_polling_with E sleep S st w = (r, st', w')"
  shows "s_monotonic E w \<le> s_monotonic E w' \<and> s_monotonic E w' \<le> t0 + T + late"
proof -
  obtain q st1 w1 where n: "next_retry_interval E S st w = (q, st1, w1)" by (cases "next_retry_interval E S st w")
  have c: "s_monotonic E w1 = s_monotonic E w" using next_retry_clock [OF tm, of S st w] n by simp
  have "aq_start_time st1 = t0" using next_retry_state [of st E S w] n assms(5) by (simp add: same_wait_def)
  then have r: "remaining_time E S st1 w1 = Some (T - (s_monotonic E w - t0))"
    using assms(6) T c by (simp add: remaining_time_def)
  show ?thesis
  proof (cases q)
    case (Inl e)
    with assms n c late show ?thesis by (auto simp: wait_polling_with_def)
  next
    case (Inr i)
    obtain d where d: "d = min i (T - (s_monotonic E w - t0))" by simp
    then have "d \<le> T - (s_monotonic E w - t0)" by simp
    moreover from Inr assms(7) n r d have "w' = (if d \<le> 0 then w1 else sleep d w1)"
      by (auto simp: wait_polling_with_def Let_def split: if_splits)
    ultimately show ?thesis
      using waits_forD [OF assms(4), of d w1] c assms(6) late by (cases "d \<le> 0") auto
  qed
qed

lemma wait_blpop_clock:
  assumes tm: "timely E m quick slow late" and T: "sc_acquire_timeout (so_config S) = Some T" and late: "0 \<le> late"
    and "waits_for E late sleep" and "\<And>k. waits_for E late (\<lambda>d w. snd (blpop k d w))"
    and "aq_start_time st = t0" and "s_monotonic E w < t0 + T"
    and "wait_blpop_with E blpop sleep S st w = (r, st', w')"
  shows "s_monotonic E w \<le> s_monotonic E w' \<and> s_monotonic E w' \<le> t0 + T + late"
proof -
  let ?t = "blpop_timeout_for E S st w"
  have "remaining_time E S st w = Some (T - (s_monotonic E w - t0))"
    using assms(6,7) T by (simp add: remaining_time_def)
  then have tb: "?t \<le> T - (s_monotonic E w - t0)"
    using blpop_timeout_le_left [of E S st w] by simp
  show ?thesis
  proof (cases "?t \<le> 0")
    case True
    with assms(7,8) late show ?thesis by (auto simp: wait_blpop_with_def Let_def)
  next
    case False
    obtain x w1 where b: "blpop (queue_key (so_config S)) ?t w = (x, w1)" by fastforce
    have c: "s_monotonic E w \<le> s_monotonic E w1" "s_monotonic E w1 \<le> t0 + T + late"
      using waits_forD [OF assms(5) [of "queue_key (so_config S)"], of ?t w] False tb b by auto
    let ?p = "min (on_transient_wait_error S) (max 0 (T - (s_monotonic E w1 - t0)))"
    have "w' = w1 \<or> 0 < ?p \<and> w' = sleep ?p w1"
      using assms(6,8) b False T
      by (auto simp: wait_blpop_with_def Let_def remaining_time_def cap_def split: option.splits if_splits)
    with waits_forD [OF assms(4), of ?p w1] c late show ?thesis by auto
  qed
qed

lemma wait_slot_clock:
  assumes tm: "timely E m quick slow late" and T: "sc_acquire_timeout (so_config S) = Some T" and late: "0 \<le> late"
    and "aq_start_time st = t0" and "s_monotonic E w < t0 + T" and "wait_slot E m S st w = (r, st', w')"
  shows "s_monotonic E w \<le> s_monotonic E w' \<and> s_monotonic E w' \<le> t0 + T + late"
proof -
  have s: "waits_for E late (s_sleep E)" "waits_for E late (s_asleep E)"
    "waits_for E late (\<lambda>d w. snd (s_blpop E k d w))" "waits_for E late (\<lambda>d w. snd (s_ablpop E k d w))" for k
    using tm by (simp_all add: timely_def)
  show ?thesis
    using assms wait_polling_clock [OF tm T late s(1) assms(4,5)] wait_polling_clock [OF tm T late s(2) assms(4,5)]
      wait_blpop_clock [OF tm T late s(1,3) assms(4,5)] wait_blpop_clock [OF tm T late s(2,4) assms(4,5)]
    by (simp add: wait_slot_def wait_for_slot_def wait_for_slot_async_def wait_polling_def wait_polling_async_def
        wait_blpop_def wait_blpop_async_def split: if_splits)
qed

definition timed_between :: "real \<Rightarrow> real \<Rightarrow> ident \<Rightarrow> acq_state \<times> sem_obj \<times> 'w \<Rightarrow> bool" where
  "timed_between t0 T x y \<longleftrightarrow>
     (case y of (st, S, w) \<Rightarrow> so_identifier S = Some x \<and> aq_start_time st = t0 \<and>
        sc_acquire_timeout (so_config S) = Some T)"

lemma acquire_round_clock:
  assumes tm: "timely E m quick slow late" and late: "0 \<le> late" and m: "m \<noteq> NONE"
    and b: "timed_between t0 T x (st, S, w)" and w: "s_monotonic E w \<le> t0 + T + late" and q: "0 \<le> slow"
  shows "(\<forall>r S' w'. acquire_round E m blocking x (st, S, w) = Inl (r, S', w') \<longrightarrow>
      s_monotonic E w' \<le> t0 + T + late + slow) \<and>
    (\<forall>st' S' w'. acquire_round E m blocking x (st, S, w) = Inr (st', S', w') \<longrightarrow>
      timed_between t0 T x (st', S', w') \<and> s_monotonic E w + quick \<le> s_monotonic E w' \<and>
      s_monotonic E w' \<le> t0 + T + late)"
proof -
  have x: "so_identifier S = Some x" and t0: "aq_start_time st = t0"
    and T: "sc_acquire_timeout (so_config S) = Some T"
    using b by (simp_all add: timed_between_def)
  have call: "s_monotonic E w + quick \<le> s_monotonic E w1" "s_monotonic E w1 \<le> s_monotonic E w + slow"
    if "call_acquire E m S x w = (p, w1)" for p w1
    using tm that unfolding timely_def by (metis snd_conv)+
  note clocks = emit_clock [OF tm] waiting_clock [OF tm]
  show ?thesis
  proof (rule acquire_round_cases [OF x m, of E w blocking st], goal_cases)
    case (1 e w1)
    with call [OF 1(1)] w show ?case by auto
  next
    case (2 f e u w1 w2 V)
    with call [OF 2(1)] w show ?case by (auto simp: clocks)
  next
    case (3 f e u w1 w2 a)
    then have "w2 = snd (handle_non_blocking_failure E u S (emit E (SetSlotsUsed (sc_name (so_config S))
        (sc_namespace (so_config S)) u (sc_limit (so_config S))) w1))"
      by (auto simp: acquire_round_def Let_def handle_non_blocking_failure_def)
    then have "s_monotonic E w2 = s_monotonic E w1" by (simp add: handle_non_blocking_failure_def clocks)
    with 3 call [OF 3(2)] w show ?case by auto
  next
    case (4 f e u w1 w2 S1 st1)
    let ?w = "emit E (SetSlotsUsed (sc_name (so_config S)) (sc_namespace (so_config S)) u (sc_limit (so_config S))) w1"
    have rw: "S1 = fst (register_waiting E S st ?w)" "st1 = fst (snd (register_waiting E S st ?w))"
      "w2 = snd (snd (register_waiting E S st ?w))"
      unfolding 4(3) by simp_all
    then have S1: "so_identifier S1 = Some x" "sc_acquire_timeout (so_config S1) = Some T" "aq_start_time st1 = t0"
      and c: "s_monotonic E w2 = s_monotonic E w1"
      using x T t0 by (simp_all add: clocks)
    obtain r st2 w3 where r: "wait_slot E m S1 st1 w2 = (r, st2, w3)" by (cases "wait_slot E m S1 st1 w2")
    show ?case
    proof (cases "check_timeout E S1 st1 w2")
      case True
      have "s_monotonic E (snd (snd (handle_timeout E st1 S1 w2))) = s_monotonic E w2"
        by (simp add: handle_timeout_def case_prod_beta clocks)
      with True 4(4) c call [OF 4(2)] w show ?thesis by auto
    next
      case False
      then have "s_monotonic E w2 < t0 + T" using S1 by (simp add: check_timeout_def)
      note wc = wait_slot_clock [OF tm S1(2) late S1(3) this r]
      have "aq_start_time st2 = t0"
        using wait_slot_state [of st1 E m S1 w2] r S1(3) by (simp add: same_wait_def)
      with False 4(4) r wc c call [OF 4(2)] S1 q show ?thesis
        by (cases r) (auto simp: timed_between_def)
    qed
  qed
qed

lemma acquire_with_in_time:
  assumes tm: "timely E m quick slow late" and q: "0 < quick" and late: "0 \<le> late" and m: "m \<noteq> NONE"
    and T: "sc_acquire_timeout (so_config S) = Some T" "0 \<le> T"
  shows "\<exists>r S' w'. acquire_with E m blocking S w = Some (r, S', w') \<and>
    s_monotonic E w' \<le> s_monotonic E w + T + late + slow"
proof (cases "acquire_checks S m")
  case (Inl e)
  have "quick \<le> slow" using tm unfolding timely_def by (meson add_le_cancel_left order_trans)
  with Inl q late T show ?thesis by (simp add: acquire_with_def)
next
  case (Inr u)
  have slow: "0 \<le> slow" using tm q unfolding timely_def by (meson add_le_cancel_left order_trans less_imp_le)
  obtain x V w1 where i: "ensure_identifier E S w = (x, V, w1)" by (cases "ensure_identifier E S w")
  have w1: "s_monotonic E w1 = s_monotonic E w"
    using i tm by (auto simp: ensure_identifier_def generate_identifier_def timely_def split: option.splits prod.splits)
      (metis snd_conv)
  have V: "so_identifier V = Some x" "sc_acquire_timeout (so_config V) = Some T"
    using ensure_identifier_object [OF i] T by simp_all
  let ?t0 = "s_monotonic E w"
  let ?P = "\<lambda>y. timed_between ?t0 T x y \<and> s_monotonic E (snd (snd y)) \<le> ?t0 + T + late"
  let ?f = "\<lambda>y. nat \<lfloor>(?t0 + T + late - s_monotonic E (snd (snd y))) / quick\<rfloor>"
  have "\<exists>r. repeat_until (acquire_round E m blocking x) (new_acq_state E w1, V, w1) = Some r \<and>
      s_monotonic E (snd (snd r)) \<le> ?t0 + T + late + slow"
  proof (rule repeat_until_ends [where P = ?P and f = ?f], goal_cases)
    case 1
    with V w1 late T show ?case by (simp add: timed_between_def new_acq_state_def)
  next
    case (2 y z)
    obtain st S2 w2 where y: "y = (st, S2, w2)" by (cases y)
    obtain st' S3 w3 where z: "z = (st', S3, w3)" by (cases z)
    from acquire_round_clock [OF tm late m, of ?t0 T x st S2 w2 blocking] 2 slow
    have c: "timed_between ?t0 T x z" "s_monotonic E w2 + quick \<le> s_monotonic E w3"
      "s_monotonic E w3 \<le> ?t0 + T + late"
      by (auto simp: y z)
    then show ?case using rounds_left_less [OF q] by (simp add: y z)
  next
    case (3 y r)
    obtain st S2 w2 where y: "y = (st, S2, w2)" by (cases y)
    obtain q S3 w3 where r: "r = (q, S3, w3)" by (cases r)
    from acquire_round_clock [OF tm late m, of ?t0 T x st S2 w2 blocking] 3 slow show ?case
      by (auto simp: y r)
  qed
  then show ?thesis using Inr i by (auto simp: acquire_with_def)
qed

definition acquire_api where
  "acquire_api E m = (if m = ASYNC then sem_aacquire E else sem_acquire E)"

text \<open>C11: an acquire with a timeout returns in time, whatever the strategy, the answers of the store and the
  errors on the way: if script calls take between \<open>quick > 0\<close> and \<open>slow\<close> seconds and waits end at most
  \<open>late\<close> after their time, the call ends, at most \<open>late + slow\<close> after its timeout.\<close>

theorem acquire_returns_in_time:
  assumes "timely E m quick slow late" and "m \<noteq> NONE" and "0 < quick" and "0 \<le> late"
    and "sc_acquire_timeout (so_config S) = Some T" and "0 \<le> T"
  shows "\<exists>r S' w'. acquire_api E m blocking S w = Some (r, S', w') \<and>
      s_monotonic E w' \<le> s_monotonic E w + T + late + slow"
  using acquire_with_in_time [OF assms(1,3,4,2,5,6), of blocking w] assms(2)
  by (cases m) (auto simp: acquire_api_def sem_acquire_Some)

text \<open>The simulated world is timely: a call takes one or two milliseconds, a sleep is rounded up to one.\<close>

lemma sim_call_time:
  assumes "call_acquire (sim_env is_async c) (if is_async then ASYNC else SYNC) S x w = (p, w')"
  shows "snd w' = snd w + 1 \<or> snd w' = snd w + 2"
proof -
  let ?C = "sim_client is_async True"
  have one: "snd (snd (cl_evalsha ?C h n args w)) = snd w + 1" "snd (snd (cl_eval ?C sc n args w)) = snd w + 1"
    for h n args sc w
    by (simp_all add: sim_client_def split: prod.split)
  have "snd (snd (evalsha_or_eval doc_sha1 ?C (doc_sha1 sc) n args w)) \<in> {snd w + 1, snd w + 2}" for sc n args w
    using one(1) [of "doc_sha1 sc" n args w] one(2) [of sc n args]
    by (auto simp: evalsha_or_eval_def sim_server.script_for_sha_script split: prod.split sum.split)
  note t = this
  have "snd (snd (script_call doc_sha1 (if is_async then aevalsha doc_sha1 ?C else evalsha doc_sha1 ?C)
      ''acquire'' keys args parse w)) \<in> {snd w + 1, snd w + 2}" for keys args parse w
  proof -
    obtain p w' where e: "evalsha_or_eval doc_sha1 ?C (doc_sha1 ACQUIRE_SCRIPT) (length keys) (map AStr keys @ args) w = (p, w')"
      by (rule prod.exhaust)
    have "snd (snd (script_call doc_sha1 (if is_async then aevalsha doc_sha1 ?C else evalsha doc_sha1 ?C)
      ''acquire'' keys args parse w)) = snd w'"
      using e by (cases p; cases is_async) (simp_all add: script_call_def sim_server.get_sha_script [of _ ACQUIRE_SCRIPT] SCRIPTS_def
          aevalsha_def evalsha_def)
    with t [of ACQUIRE_SCRIPT "length keys" "map AStr keys @ args" w] e show ?thesis by simp
  qed
  note sc = this
  have "snd (snd (call_acquire (sim_env is_async c) (if is_async then ASYNC else SYNC) S x w)) \<in> {snd w + 1, snd w + 2}"
    using sc unfolding call_acquire_def runner_acquire_def runner_acquire_async_def
    by (cases is_async) (simp_all add: sim_env_def)
  with assms show ?thesis by simp
qed

lemma sim_sleep_time:
  "0 \<le> d \<Longrightarrow> snd w \<le> snd (sim_sleep ks d w) \<and> real_of_int (snd (sim_sleep ks d w)) \<le> real_of_int (snd w) + d * 1000 + 1"
  by (simp add: sim_sleep_def Let_def split: prod.split)

lemma sim_timely: "timely (sim_env is_async c) (if is_async then ASYNC else SYNC) (1 / 1000) (2 / 1000) (1 / 1000)"
proof -
  have call: "snd w + 1 \<le> snd (snd (call_acquire (sim_env is_async c) (if is_async then ASYNC else SYNC) S x w)) \<and>
      snd (snd (call_acquire (sim_env is_async c) (if is_async then ASYNC else SYNC) S x w)) \<le> snd w + 2" for S x w
    using sim_call_time [of is_async c S x w, OF prod.collapse [symmetric]] by auto
  have mono: "s_monotonic (sim_env is_async c) w = real_of_int (snd w) / 1000" for w by (simp add: sim_env_def)
  have s: "waits_for (sim_env is_async c) (1 / 1000) (sim_sleep (sim_keys c))"
    using sim_sleep_time [of _ _ "sim_keys c"] by (auto simp: waits_for_def mono) 
  have b: "waits_for (sim_env is_async c) (1 / 1000) (\<lambda>d w. snd (sim_blpop (sim_keys c) k d w))" for k
    using s by (auto simp: waits_for_def mono sim_blpop_def split: prod.splits)
  have c: "real_of_int (snd w) / 1000 + 1 / 1000 \<le> real_of_int (snd (snd (call_acquire (sim_env is_async c)
        (if is_async then ASYNC else SYNC) S x w))) / 1000"
    "real_of_int (snd (snd (call_acquire (sim_env is_async c) (if is_async then ASYNC else SYNC) S x w))) / 1000 \<le>
      real_of_int (snd w) / 1000 + 2 / 1000" for S x w
    using call [of w S x] by linarith+
  have f: "s_sleep (sim_env is_async c) = sim_sleep (sim_keys c)" "s_asleep (sim_env is_async c) = sim_sleep (sim_keys c)"
    "s_blpop (sim_env is_async c) = sim_blpop (sim_keys c)" "s_ablpop (sim_env is_async c) = sim_blpop (sim_keys c)"
    "s_uniform (sim_env is_async c) = (\<lambda>a b w. (a, w))" "s_uuid_hex (sim_env is_async c) = (\<lambda>w. (''0a'', w))"
    "s_metric (sim_env is_async c) = (\<lambda>m w. w)"
    by (simp_all add: sim_env_def)
  show ?thesis unfolding timely_def mono f using c s b by simp
qed

definition demo_timed :: semaphore_config where
  "demo_timed = demo_sem\<lparr>sc_acquire_timeout := Some 1\<rparr>"

theorem acquire_returns_in_time_witness:
  "\<exists>r S' w'. sem_acquire (sim_env False demo_timed) True (new_semaphore demo_timed None) (sim_start 5000) = Some (r, S', w') \<and>
     real_of_int (snd w') / 1000 \<le> 1003 / 1000"
proof -
  have t: "timely (sim_env False demo_timed) SYNC (1 / 1000) (2 / 1000) (1 / 1000)"
    using sim_timely [of False] by simp
  have c: "sc_acquire_timeout (so_config (new_semaphore demo_timed None)) = Some 1"
    by (simp add: new_semaphore_def demo_timed_def)
  from acquire_returns_in_time [OF t _ _ _ c, of True "sim_start 5000"]
  show ?thesis by (simp add: acquire_api_def sim_env_def sim_start_def)
qed

subsection \<open>The backoff leaves the range of a float\<close>

lemma busy_polling_round:
  assumes "sc_acquire_mode (so_config S) = POLLING" and "sc_retry_interval_max (so_config S) = Some mx"
    and "2 ^ 1024 \<le> sc_retry_backoff_multiplier (so_config S) ^ n"
    and "sc_acquire_timeout (so_config S) = None" and "m \<noteq> NONE"
    and "\<forall>S x w. \<exists>f e u w'. call_acquire E m S x w = (Inr (False, f, e, u), w')"
    and y: "so_config T = so_config S" "so_identifier T = Some x" "aq_attempts st \<le> n"
  shows "acquire_round E m True x (st, T, w) = Inl r \<Longrightarrow> fst r = Inl PyOverflowError"
    and "acquire_round E m True x (st, T, w) = Inr (st', T', w') \<Longrightarrow>
      so_config T' = so_config S \<and> so_identifier T' = Some x \<and> aq_attempts st' \<le> n \<and>
      n - aq_attempts st' < n - aq_attempts st"
proof -
  obtain f e u w1 where c: "call_acquire E m T x w = (Inr (False, f, e, u), w1)" using assms(6) by metis
  let ?w = "emit E (SetSlotsUsed (sc_name (so_config T)) (sc_namespace (so_config T)) u (sc_limit (so_config T))) w1"
  obtain S1 st1 w2 where rw: "register_waiting E T st ?w = (S1, st1, w2)" by (rule prod_cases3)
  have "S1 = fst (register_waiting E T st ?w)" "st1 = fst (snd (register_waiting E T st ?w))" by (simp_all add: rw)
  then have S1: "so_config S1 = so_config S" "so_identifier S1 = Some x" "aq_attempts st1 = aq_attempts st"
    using y by simp_all
  obtain q st2 w3 where q: "wait_slot E m S1 st1 w2 = (q, st2, w3)" by (rule prod_cases3)
  have nt: "\<not> check_timeout E S1 st1 w2" using S1 assms(4) by (simp add: check_timeout_def)
  have round: "acquire_round E m True x (st, T, w) =
      (case q of Inl e \<Rightarrow> Inl (Inl e, S1, w3) | Inr _ \<Rightarrow> Inr (st2, S1, w3))"
    using c rw q nt by (cases "m = ASYNC"; cases q) (simp_all add: acquire_round_def Let_def wait_slot_def)
  have w: "wait_slot E m S1 st1 w2 = wait_polling_with E (if m = ASYNC then s_asleep E else s_sleep E) S1 st1 w2"
    using S1 assms(1) by (simp add: wait_slot_def wait_for_slot_def wait_for_slot_async_def wait_polling_def wait_polling_async_def)
  have rt: "remaining_time E S1 a b = None" for a b using S1 assms(4) by (simp add: remaining_time_def)
  have qs: "(\<forall>e. q = Inl e \<longrightarrow> e = PyOverflowError) \<and>
      (\<forall>u. q = Inr u \<longrightarrow> aq_attempts st2 = aq_attempts st + 1 \<and> aq_attempts st \<noteq> n)"
    using q S1 assms(2,3)
    by (auto simp: w wait_polling_with_def next_retry_interval_def py_pow_def Let_def rt split: if_splits prod.splits)
  show "acquire_round E m True x (st, T, w) = Inl r \<Longrightarrow> fst r = Inl PyOverflowError"
    using round qs by (auto split: sum.splits)
  show "acquire_round E m True x (st, T, w) = Inr (st', T', w') \<Longrightarrow>
      so_config T' = so_config S \<and> so_identifier T' = Some x \<and> aq_attempts st' \<le> n \<and>
      n - aq_attempts st' < n - aq_attempts st"
    using round qs S1 y(3) by (auto split: sum.splits)
qed

text \<open>C28: an acquire that polls with exponential backoff and no timeout on a semaphore that stays busy does
  not wait for ever: when the multiplier's power leaves the range of a float (for the default
  multiplier 2 at the 1024th round) it ends with OverflowError, although the interval itself is capped
  by \<open>retry_interval_max\<close>.\<close>

theorem capped_backoff_overflows:
  assumes "sc_acquire_mode (so_config S) = POLLING" and "sc_retry_interval_max (so_config S) = Some mx"
    and "2 ^ 1024 \<le> sc_retry_backoff_multiplier (so_config S) ^ n"
    and "sc_acquire_timeout (so_config S) = None" and "acquire_checks S m = Inr ()" and "m \<noteq> NONE"
    and "\<forall>S x w. \<exists>f e u w'. call_acquire E m S x w = (Inr (False, f, e, u), w')"
  shows "\<exists>S' w'. acquire_api E m True S w = Some (Inl PyOverflowError, S', w')"
proof -
  obtain x V w1 where i: "ensure_identifier E S w = (x, V, w1)" by (rule prod_cases3)
  let ?P = "\<lambda>(st, T, w). so_config T = so_config S \<and> so_identifier T = Some x \<and> aq_attempts st \<le> n"
  have "\<exists>r. repeat_until (acquire_round E m True x) (new_acq_state E w1, V, w1) = Some r \<and> fst r = Inl PyOverflowError"
  proof (rule repeat_until_ends [where P = ?P and f = "\<lambda>y. n - aq_attempts (fst y)"], goal_cases)
    case 1
    show ?case using ensure_identifier_object [OF i] by (simp add: new_acq_state_def)
  next
    case (2 y z)
    obtain st T w2 where y: "y = (st, T, w2)" by (rule prod_cases3)
    obtain st' T' w3 where z: "z = (st', T', w3)" by (rule prod_cases3)
    from 2 have "so_config T = so_config S" "so_identifier T = Some x" "aq_attempts st \<le> n"
      and r: "acquire_round E m True x (st, T, w2) = Inr (st', T', w3)" by (simp_all add: y z)
    from busy_polling_round(2) [OF assms(1-4,6,7) this] show ?case by (simp add: y z)
  next
    case (3 y r)
    obtain st T w2 where y: "y = (st, T, w2)" by (rule prod_cases3)
    from 3 have "so_config T = so_config S" "so_identifier T = Some x" "aq_attempts st \<le> n"
      and r: "acquire_round E m True x (st, T, w2) = Inl r" by (simp_all add: y)
    from busy_polling_round(1) [OF assms(1-4,6,7) this] show ?case .
  qed
  then obtain S' w' where "acquire_with E m True S w = Some (Inl PyOverflowError, S', w')"
    using assms(5) i by (auto simp: acquire_with_def)
  then show ?thesis using assms(6)
    by (cases m) (force simp: acquire_api_def sem_acquire_Some backend_errors_def)+
qed

text \<open>A server that always gives the same answer: busy, or a slot.\<close>

definition reply_env :: "semaphore_config \<Rightarrow> pyobj \<Rightarrow> sim sem_env" where
  "reply_env c reply = (sim_env False c)\<lparr>s_client := \<lparr>cl_is_async = False,
     cl_evalsha = (\<lambda>h n args w. (Inr reply, w)), cl_eval = (\<lambda>sc n args w. (Inr reply, w))\<rparr>\<rparr>"

definition busy_env :: "semaphore_config \<Rightarrow> sim sem_env" where
  "busy_env c = reply_env c (PList [PInt 0, PBytes [], PBytes [], PInt 1])"

lemma reply_call:
  "call_acquire (reply_env c reply) SYNC S x w = (parse_acquire_result reply, w)"
  using sim_server.get_sha_script [of "''acquire''" ACQUIRE_SCRIPT]
  by (simp add: call_acquire_def runner_acquire_def script_call_def SCRIPTS_def evalsha_def evalsha_or_eval_def
      reply_env_def sim_env_def)

lemma busy_call: "call_acquire (busy_env c) SYNC S x w = (Inr (False, None, None, 1), w)"
  by (simp add: busy_env_def reply_call)

lemma demo_checks: "acquire_checks (new_semaphore c t) m = Inr ()"
  by (simp add: acquire_checks_def check_mode_def check_lock_lost_def check_reacquire_def new_semaphore_def)

definition demo_backoff :: semaphore_config where
  "demo_backoff = demo_sem\<lparr>sc_acquire_mode := POLLING, sc_retry_interval_max := Some 1\<rparr>"

theorem capped_backoff_overflows_witness:
  "\<exists>S' w'. sem_acquire (busy_env demo_backoff) True (new_semaphore demo_backoff None) (sim_start 5000) =
     Some (Inl PyOverflowError, S', w') \<and> semaphore_post_init demo_backoff = Inr False"
proof -
  let ?S = "new_semaphore demo_backoff None"
  have c: "so_config ?S = demo_backoff" by (simp add: new_semaphore_def)
  have d: "sc_acquire_mode demo_backoff = POLLING" "sc_retry_interval_max demo_backoff = Some 1"
    "sc_retry_backoff_multiplier demo_backoff = 2" "sc_acquire_timeout demo_backoff = None"
    by (simp_all add: demo_backoff_def demo_sem_def semaphore_config_defaults_def)
  have "\<exists>S' w'. acquire_api (busy_env demo_backoff) SYNC True ?S (sim_start 5000) = Some (Inl PyOverflowError, S', w')"
    by (rule capped_backoff_overflows [where n = 1024 and mx = 1])
       (simp_all add: c d busy_call demo_checks)
  then show ?thesis
    by (simp add: acquire_api_def semaphore_post_init_def demo_backoff_def demo_sem_def semaphore_config_defaults_def
        set_and_def)
qed

lemma sim_own_errors: "own_errors (busy_env c)"
proof -
  have "fst (call_acquire (busy_env c) m S x w) \<noteq> Inl (SemError AcquireTimeoutError)" for m S x w
    using sim_server.get_sha_script [of "''acquire''" ACQUIRE_SCRIPT]
    by (cases "m = ASYNC") (simp_all add: call_acquire_def runner_acquire_def runner_acquire_async_def script_call_def
        SCRIPTS_def evalsha_def aevalsha_def evalsha_or_eval_def busy_env_def reply_env_def sim_env_def)
  then show ?thesis by (simp add: own_errors_def)
qed

theorem acquire_ends_as_promised_witness:
  "\<exists>a S' w'. sem_acquire (busy_env demo_sem) False (new_semaphore demo_sem None) (sim_start 5000) = Some (Inr a, S', w') \<and>
     so_state S' = RELEASED \<and> so_waiting S' = 0"
proof -
  let ?S = "new_semaphore demo_sem None" and ?E = "busy_env demo_sem"
  obtain x T w1 where i: "ensure_identifier ?E ?S (sim_start 5000) = (x, T, w1)" by (rule prod_cases3)
  have "\<exists>a S' w'. acquire_with ?E SYNC False ?S (sim_start 5000) = Some (Inr a, S', w') \<and> \<not> ar_success a"
    using i by (simp add: acquire_with_def acquire_round_def busy_call demo_checks handle_non_blocking_failure_def Let_def)
  then obtain a S' w' where r: "sem_acquire ?E False ?S (sim_start 5000) = Some (Inr a, S', w')" "\<not> ar_success a"
    by (auto simp: sem_acquire_Some)
  have "acquire_outcome SYNC False ?S (Inr a) S'"
    by (rule acquire_ends_as_promised [OF _ sim_own_errors disjI1, OF _ conjI [OF refl r(1)]]) (simp add: new_semaphore_def)
  with r show ?thesis by (auto simp: acquire_outcome_def new_semaphore_def)
qed

subsection \<open>Acquiring again after a loss\<close>

text \<open>C29: after a loss the heartbeat found, an object that is not in strict mode can acquire again, but no new
  heartbeat starts: the object keeps the one whose loop has ended, so nothing refreshes the new lease;
  and the loss stays signalled.\<close>

theorem reacquire_after_loss_starts_no_heartbeat:
  assumes "sem_ok S" and "so_state S = ACQUIRED" and "so_heartbeat S = Some h"
    and "\<not> sc_strict_mode (so_config S)" and "on_lost E SYNC i (S, w) = (L, w1)"
    and "\<forall>x w. \<exists>f e u w'. call_acquire E SYNC L x w = (Inr (True, f, e, u), w')"
  shows "\<exists>a S' w'. sem_acquire E b L w1 = Some (Inr a, S', w') \<and> ar_success a \<and> so_state S' = ACQUIRED \<and>
    so_heartbeat S' = Some h \<and> so_lock_lost_event S'"
proof -
  have L: "L = set_lost SYNC S" using assms(2,5) by (simp add: on_lost_def Let_def)
  have mode: "so_mode S = SYNC" and "so_identifier S = Some (hb_identifier h)" using assms(1,3) by (auto simp: sem_ok_def)
  then have x: "so_identifier L = Some (hb_identifier h)" by (simp add: L set_lost_def)
  have c: "acquire_checks L SYNC = Inr ()"
    using mode assms(4)
    by (simp add: acquire_checks_def check_mode_def check_lock_lost_def check_reacquire_def L set_lost_def)
  have e: "ensure_identifier E L w1 = (hb_identifier h, L, w1)" using x by (simp add: ensure_identifier_def)
  obtain f ex u w2 where g: "call_acquire E SYNC L (hb_identifier h) w1 = (Inr (True, f, ex, u), w2)"
    using assms(6) by metis
  let ?G = "granted_obj f ex (new_acq_state E w1) SYNC L"
  obtain w' where "acquire_with E SYNC b L w1 = Some (Inr (granted_result ?G u), with_heartbeat SYNC ?G, w')"
    using acquire_with_granted [OF c _ e x g, of b] by auto
  moreover have "so_heartbeat ?G = Some h" "so_lock_lost_event ?G" "so_state ?G = ACQUIRED"
    using assms(3) by (simp_all add: granted_obj_def L set_lost_def)
  then have "with_heartbeat SYNC ?G = ?G" by (simp add: with_heartbeat_def start_heartbeat_def)
  ultimately show ?thesis
    using \<open>so_heartbeat ?G = Some h\<close> \<open>so_lock_lost_event ?G\<close> \<open>so_state ?G = ACQUIRED\<close>
    by (auto simp: sem_acquire_Some granted_result_def)
qed

theorem reacquire_after_loss_starts_no_heartbeat_witness:
  "\<exists>a S' w'. sem_acquire (reply_env demo_sem (PList [PInt 1, PInt 7, PInt 65000, PInt 1])) True (set_lost SYNC demo_held)
     (sim_start 5000) = Some (Inr a, S', w') \<and> so_state S' = ACQUIRED \<and> so_heartbeat S' = so_heartbeat demo_held"
proof -
  let ?E = "reply_env demo_sem (PList [PInt 1, PInt 7, PInt 65000, PInt 1])"
  have f: "so_config demo_held = demo_sem" "so_mode demo_held = SYNC" "so_state demo_held = ACQUIRED"
    "so_fencing_token demo_held = Some 1" "so_waiting demo_held = 0" "so_async_heartbeat demo_held = None"
    "so_identifier demo_held = Some ''0a:5000000000''"
    by (simp_all add: demo_held_def new_semaphore_def)
  obtain h where h: "so_heartbeat demo_held = Some h" "hb_identifier h = ''0a:5000000000''"
    by (auto simp: demo_held_def)
  have ok: "sem_ok demo_held" using f h by (simp add: sem_ok_def)
  have l: "on_lost ?E SYNC ''0a'' (demo_held, sim_start 5000) = (set_lost SYNC demo_held, sim_start 5000)"
    using f by (simp add: on_lost_def emit_def reply_env_def sim_env_def)
  have n: "\<not> sc_strict_mode (so_config demo_held)" by (simp add: f demo_sem_def semaphore_config_defaults_def)
  from reacquire_after_loss_starts_no_heartbeat [OF ok f(3) h(1) n l, of True] h show ?thesis
    by (simp add: reply_call) metis
qed

end
