(* ===== verification/FleetProps.thy ===== *)
theory FleetProps
  imports SemProps SemaphoreFleet SemaphoreAcquire
begin

section \<open>What a fleet of semaphore objects guarantees\<close>

text \<open>
  The contracts of \<open>SemaphoreFleet\<close> hold in the simulated world with a connection that breaks: at any
  moment the next script call may be set to fail, before it reaches the server or after it has run
  there. The property says what the users of the objects rely on.
\<close>

subsection \<open>A simulated connection that breaks\<close>

datatype fault = RequestLost | ReplyLost

type_synonym flaky = "sim \<times> fault option"

definition connection_lost :: raw_exn where
  "connection_lost = \<lparr>exn_class = ''ConnectionError'', exn_bases = [''ConnectionError'', ''RedisError''],
     exn_text = ''connection lost''\<rparr>"

definition flaky_evalsha ::
  "bool \<Rightarrow> bool \<Rightarrow> string \<Rightarrow> nat \<Rightarrow> script_arg list \<Rightarrow> flaky \<Rightarrow> (py_exn + pyobj) \<times> flaky" where
  "flaky_evalsha is_async decode h n args x =
     (case x of
        (w, None) \<Rightarrow> (case cl_evalsha (sim_client is_async decode) h n args w of (p, w) \<Rightarrow> (p, (w, None)))
      | (w, Some RequestLost) \<Rightarrow> (Inl (RawExn connection_lost), (w, None))
      | (w, Some ReplyLost) \<Rightarrow>
          (Inl (RawExn connection_lost), (snd (cl_evalsha (sim_client is_async decode) h n args w), None)))"

definition flaky_client :: "bool \<Rightarrow> bool \<Rightarrow> flaky script_client" where
  "flaky_client is_async decode =
     \<lparr>cl_is_async = is_async, cl_evalsha = flaky_evalsha is_async decode,
      cl_eval = (\<lambda>sc n args (w, f). case cl_eval (sim_client is_async decode) sc n args w of (p, w) \<Rightarrow> (p, (w, f)))\<rparr>"

definition flaky_store :: "flaky \<Rightarrow> rview" where
  "flaky_store x = sim_store (fst x)"

definition connected :: "flaky \<Rightarrow> bool" where
  "connected x \<longleftrightarrow> snd x = None"

text \<open>Everything else is as in the simulated world.\<close>

definition flaky_env :: "bool \<Rightarrow> semaphore_config \<Rightarrow> flaky sem_env" where
  "flaky_env is_async c =
     (let E = sim_env is_async c in
      \<lparr>s_sha1 = doc_sha1, s_client = flaky_client is_async True,
       s_time = s_time E \<circ> fst, s_time_ns = s_time_ns E \<circ> fst, s_monotonic = s_monotonic E \<circ> fst,
       s_uniform = (\<lambda>a b x. (a, x)), s_uuid_hex = (\<lambda>x. (''0a'', x)),
       s_sleep = (\<lambda>d. apfst (s_sleep E d)), s_asleep = (\<lambda>d. apfst (s_asleep E d)),
       s_blpop = (\<lambda>k d (w, f). map_prod id (\<lambda>w. (w, f)) (s_blpop E k d w)),
       s_ablpop = (\<lambda>k d (w, f). map_prod id (\<lambda>w. (w, f)) (s_ablpop E k d w)),
       s_pipeline = (\<lambda>cs (w, f). map_prod id (\<lambda>w. (w, f)) (s_pipeline E cs w)),
       s_apipeline = (\<lambda>cs (w, f). map_prod id (\<lambda>w. (w, f)) (s_apipeline E cs w)),
       s_metrics_enabled = False, s_metric = (\<lambda>m x. x), s_on_lock_lost = None,
       s_hb_wait = (\<lambda>d (S, x). (False, S, apfst (s_sleep E d) x)),
       s_hb_asleep = (\<lambda>d (S, x). (False, S, apfst (s_sleep E d) x)),
       s_event_wait = (\<lambda>d (S, x). (so_lock_lost_event S, S, apfst (s_sleep E d) x)),
       s_event_wait_forever = (\<lambda>x. None)\<rparr>)"

interpretation flaky: lossy_server "flaky_client is_async decode" doc_sha1 doc_redis flaky_store decode connected
proof (unfold_locales, goal_cases)
  case (1 a b)
  then show ?case by (simp add: doc_sha1_inj)
next
  case (2 x sc n args p x')
  then obtain w w' where "x = (w, None)" "cl_evalsha (sim_client is_async decode) (doc_sha1 sc) n args w = (p, w')"
    "x' = (w', None)"
    by (cases x) (auto simp: flaky_client_def flaky_evalsha_def connected_def split: prod.splits)
  with sim_server.evalsha_law [OF TrueI, of is_async decode sc n args w p w'] show ?case
    by (simp add: flaky_store_def connected_def)
next
  case (3 x sc n args p x')
  then obtain w w' where "x = (w, None)" "cl_eval (sim_client is_async decode) sc n args w = (p, w')" "x' = (w', None)"
    by (cases x) (auto simp: flaky_client_def connected_def split: prod.splits)
  with sim_server.eval_law [OF TrueI, of is_async decode sc n args w p w'] show ?case
    by (simp add: flaky_store_def)
next
  case (4 x sc n args p x')
  then obtain w f where x: "x = (w, Some f)" by (cases x) (auto simp: connected_def)
  obtain q w' where q: "cl_evalsha (sim_client is_async decode) (doc_sha1 sc) n args w = (q, w')" by (rule prod.exhaust)
  have "maybe_ran doc_redis sc n args (sim_store w) (sim_store w')"
    using q by (cases w)
      (auto simp: maybe_ran_def sim_client_def sim_store_def doc_evalsha_def find_Some_iff doc_sha1_inj
        split: prod.splits option.splits)
  with 4 q show ?case
    by (cases f) (auto simp: x flaky_client_def flaky_evalsha_def flaky_store_def connection_lost_def
        isinstance_def maybe_ran_def)
qed

text \<open>What leaves the semaphore's keys to themselves; the connection may break or recover meanwhile.\<close>

definition flaky_calm :: "semaphore_config \<Rightarrow> flaky \<Rightarrow> flaky \<Rightarrow> bool" where
  "flaky_calm c x x' \<longleftrightarrow> env_step [owners_key c, fencing_key c] (flaky_store x) (flaky_store x')"

lemma flaky_calm_refl: "flaky_calm c x x"
  by (simp add: flaky_calm_def env_step_def same_key_def)

lemma flaky_calm_trans: "flaky_calm c x y \<Longrightarrow> flaky_calm c y z \<Longrightarrow> flaky_calm c x z"
  by (auto simp: flaky_calm_def env_step_def same_key_def gone_key_def split: option.splits)

lemma queue_key_apart: "queue_key c \<noteq> owners_key c" "queue_key c \<noteq> fencing_key c"
  by (simp_all add: queue_key_def owners_key_def fencing_key_def)

lemma flaky_calm_queue:
  assumes "clock_ms (sim_store w') = clock_ms (sim_store w)"
    and "\<And>k. k \<noteq> queue_key c \<Longrightarrow> same_key k (sim_store w) (sim_store w')"
  shows "flaky_calm c (w, f) (w', f')"
  using assms(1) assms(2) [of "owners_key c"] assms(2) [of "fencing_key c"] queue_key_apart [of c]
  by (simp add: flaky_calm_def env_step_def flaky_store_def)

lemma flaky_calm_sleep: "flaky_calm c (w, f) (sim_sleep ks d w, f')"
  by (cases w) (simp add: flaky_calm_def flaky_store_def sim_sleep_def sim_store_def Let_def env_step_doc_tick split: prod.split)

lemma flaky_calm_blpop: "flaky_calm c (w, f) (snd (sim_blpop ks (queue_key c) d w), f')"
proof -
  obtain v scripts t where w: "w = ((v, scripts), t)" by (metis prod.collapse)
  show ?thesis
  proof (cases "rlists v (queue_key c) = []")
    case True
    then show ?thesis using flaky_calm_sleep [of c w f ks d f'] by (simp add: w sim_blpop_def)
  next
    case False
    then show ?thesis
      by (intro flaky_calm_queue) (simp_all add: w sim_blpop_def sim_store_def same_key_def clock_ms_def)
  qed
qed

lemma flaky_calm_pipeline: "so_config S = c \<Longrightarrow> flaky_calm c (w, f) (snd (sim_pipeline (notify_cmds S) w), f')"
  by (cases w; cases "fst w", intro flaky_calm_queue)
     (simp_all add: sim_pipeline_def sim_store_def notify_cmds_def Let_def same_key_def clock_ms_def
       doc_lpush_def doc_ltrim_def doc_pexpire_def del_view_def)

lemma flaky_quiet: "quiet (flaky_calm c) (flaky_env is_async c) c"
  using flaky_calm_sleep flaky_calm_blpop flaky_calm_pipeline
  by (auto simp: quiet_def flaky_env_def sim_env_def Let_def reflp_def flaky_calm_refl split_def apfst_def map_prod_def
      intro!: transpI intro: flaky_calm_trans)

lemma flaky_fleet:
  assumes "0 < py_int (sc_lock_timeout c * 1000)" and "sc_time_source c = SERVER" and "1 \<le> sc_limit c"
  shows "sem_fleet (flaky_client is_async True) doc_sha1 doc_redis flaky_store True connected (\<lambda>v. v) c
    (flaky_env is_async c) (flaky_calm c)"
proof (intro sem_fleet.intro sem_fleet_axioms.intro)
  show "lossy_server (flaky_client is_async True) doc_sha1 doc_redis flaky_store True connected"
    by (rule flaky.lossy_server_axioms)
  show "sem_keys doc_redis (\<lambda>v. v)" by (rule sem_keysI [OF doc.redis_axioms])
qed (use assms in \<open>simp_all add: flaky_quiet flaky_calm_def\<close>, simp_all add: flaky_env_def Let_def)

interpretation demo_fleet: sem_fleet "flaky_client False True" doc_sha1 doc_redis flaky_store True connected "\<lambda>v. v"
  demo_sem "flaky_env False demo_sem" "flaky_calm demo_sem"
  by (rule flaky_fleet) (simp_all add: demo_sem_def semaphore_config_defaults_def py_int_def)

text \<open>C2: however many objects of a semaphore there are, in however many processes, and however their
  rounds of acquire, releases, refreshes and heartbeats interleave on a connection that loses requests
  and replies: of the objects on which no release was tried since they last acquired, at most \<open>limit\<close> believe
  to hold a slot whose time has not passed. The objects on which a release was tried are not counted
  (\<open>fl_gone\<close>): when the reply to a release is lost, \<open>release\<close> raises and the object still says that it holds
  the slot, which the server has given up and may have granted to another.\<close>

theorem clients_never_exceed_limit:
  assumes "sem_fleet C sha1 R store decode up view c E calm"
    and "sem_unused (owners_key c) (fencing_key c) (view (store (fl_world F0)))"
    and "\<And>i. \<exists>t. fl_objs F0 i = new_semaphore c t"
    and "(fleet_step E calm)\<^sup>*\<^sup>* F0 F"
  shows "finite {i. believes (clock_ms (view (store (fl_world F)))) (fl_objs F i) \<and> \<not> fl_gone F i} \<and>
    int (card {i. believes (clock_ms (view (store (fl_world F)))) (fl_objs F i) \<and> \<not> fl_gone F i}) \<le> sc_limit c"
  using sem_fleet.fleet_inv_limit [OF assms(1) sem_fleet.fleet_reachable_inv
      [OF assms(1,4) sem_fleet.fleet_inv_start [OF assms(1-3)]]]
  unfolding sem_fleet.holding_def [OF assms(1)] .

text \<open>One object acquires, a second one starts to.\<close>

definition demo_start :: "flaky fleet" where
  "demo_start = \<lparr>fl_world = (sim_start 5000, None), fl_objs = (\<lambda>i. new_semaphore demo_sem None),
     fl_gone = (\<lambda>i. False), fl_used = {}\<rparr>"

lemma demo_flaky_acquire:
  "\<exists>w. call_acquire (flaky_env False demo_sem) SYNC ((new_semaphore demo_sem None)\<lparr>so_identifier := Some ''A''\<rparr>) ''A''
      (sim_start 5000, None) = (Inr (True, Some 1, Some 35000, 1), w) \<and> clock_ms (flaky_store w) = 5000"
proof -
  let ?v = "snd (acquire_script doc_redis ''semaphore:db:owners'' ''semaphore:db:fencing'' ''A'' 1 30000 None (empty_view 5000))"
  have a: "acquire_script doc_redis ''semaphore:db:owners'' ''semaphore:db:fencing'' ''A'' 1 30000 None
      (flaky_store (sim_start 5000, None)) = (grant_resp (Granted 1 35000 1), ?v)"
    unfolding flaky_store_def fst_conv sim_store_start by (rule prod_eqI) (code_simp, simp)
  have k: "clock_ms ?v = 5000" by code_simp
  have c: "call_acquire (flaky_env False demo_sem) SYNC ((new_semaphore demo_sem None)\<lparr>so_identifier := Some ''A''\<rparr>) ''A''
      (sim_start 5000, None) = runner_acquire doc_sha1 (flaky_client False True)
      ''semaphore:db:owners'' ''semaphore:db:fencing'' ''A'' 1 30000 None (sim_start 5000, None)"
    by (simp add: call_acquire_def flaky_env_def Let_def new_semaphore_def demo_sem_def semaphore_config_defaults_def
        owners_key_def fencing_key_def sem_key_prefix_def key_prefix_def lock_timeout_ms_def py_int_def
        sem_now_arg_def now_ms_arg_def)
  have "connected (sim_start 5000, None)" by (simp add: connected_def)
  from flaky.acquire_runs [OF this a, where is_async = False and decode = True] k
  show ?thesis unfolding c by (auto simp: flaky_client_def)
qed

theorem clients_never_exceed_limit_witness:
  "\<exists>F. (fleet_step (flaky_env False demo_sem) (flaky_calm demo_sem))\<^sup>*\<^sup>* demo_start F \<and>
     believes (clock_ms (flaky_store (fl_world F))) (fl_objs F 0) \<and> \<not> fl_gone F 0 \<and>
     card {i. believes (clock_ms (flaky_store (fl_world F))) (fl_objs F i) \<and> \<not> fl_gone F i} \<le> 1"
proof -
  let ?E = "flaky_env False demo_sem" and ?calm = "flaky_calm demo_sem"
  let ?T = "(new_semaphore demo_sem None)\<lparr>so_identifier := Some ''A''\<rparr>" and ?w0 = "(sim_start 5000, None)"
  let ?st = "new_acq_state ?E ?w0"
  obtain w where c: "call_acquire ?E SYNC ?T ''A'' ?w0 = (Inr (True, Some 1, Some 35000, 1), w)"
    and k: "clock_ms (flaky_store w) = 5000" using demo_flaky_acquire by blast
  let ?F1 = "(put_obj 0 ?T False ?w0 demo_start)\<lparr>fl_used := {''A''}\<rparr>"
  let ?y = "acquire_round ?E SYNC True ''A'' (?st, ?T, ?w0)"
  let ?F2 = "put_obj 0 (round_object ?y) False (round_world ?y) ?F1"
  have "fleet_step ?E ?calm demo_start ?F1"
    using fl_begin [of "fl_objs demo_start 0" demo_start 0 "''A''" ?calm ?w0 ?E]
    by (simp add: demo_start_def flaky_calm_refl new_semaphore_def)
  moreover have "fleet_step ?E ?calm ?F1 ?F2"
    using fl_round [of "fl_objs ?F1 0" ?F1 0 "''A''" SYNC ?y ?E True ?st ?calm]
    by (simp add: put_obj_def demo_start_def new_semaphore_def)
  ultimately have run: "(fleet_step ?E ?calm)\<^sup>*\<^sup>* demo_start ?F2" by auto
  have quiet: "emit ?E q v = v" for q v by (simp add: emit_def flaky_env_def Let_def)
  have "so_state (round_object ?y) = ACQUIRED \<and> so_expires_at (round_object ?y) = Some 35 \<and> round_world ?y = w"
    by (rule acquire_round_cases [of ?T "''A''" SYNC ?E ?w0 True ?st])
      (simp_all add: c quiet leave_wait_def new_acq_state_def granted_obj_def with_heartbeat_def start_heartbeat_def)
  then have b: "believes (clock_ms (flaky_store (fl_world ?F2))) (fl_objs ?F2 0)" "\<not> fl_gone ?F2 0"
    using k by (simp_all add: put_obj_def believes_def)
  have "sem_unused (owners_key demo_sem) (fencing_key demo_sem) (flaky_store (fl_world demo_start))"
    by (simp add: demo_start_def flaky_store_def sem_unused_empty)
  with run b clients_never_exceed_limit [OF demo_fleet.sem_fleet_axioms _ _ run] show ?thesis
    by (intro exI [of _ ?F2]) (auto simp: demo_start_def demo_sem_def semaphore_config_defaults_def)
qed

end
