(* ===== verification/DispatchQueue.thy ===== *)
theory DispatchQueue
  imports SemaphoreClient
begin

section \<open>Jobs, keys and the producer side of the dispatch queues\<close>

text \<open>
  The first part of \<open>src/redis_semaphore/dispatch.py\<close>: the job object, the key layout, the helpers,
  and the class \<open>DispatchQueue\<close> with its synchronous and asynchronous methods. A method submits
  through the enqueue script and then waits for the reply list in rounds of BLMOVE. The client's
  commands, the clock, the sleeps and the job ids are parameters. Payloads and results are values that
  \<open>json.dumps\<close> accepts.
\<close>

definition max_block :: real where "max_block = 5"
definition min_block :: real where "min_block = 1 / 100"
definition leadership_check :: real where "leadership_check = 1"
definition wait_error_budget :: real where "wait_error_budget = 10"
definition wait_error_pause :: real where "wait_error_pause = 1 / 2"

subsection \<open>Job\<close>

text \<open>\<open>jb_settled\<close> is the event that lets the queue move on.\<close>

record job =
  jb_queue :: string
  jb_entry_id :: string
  jb_id :: string
  jb_payload :: json
  jb_created :: real
  jb_deadline :: "real option"
  jb_reclaimed :: bool
  jb_clock_offset :: real
  jb_admitted :: bool
  jb_settled :: bool

definition new_job ::
  "string \<Rightarrow> string \<Rightarrow> string \<Rightarrow> json \<Rightarrow> real \<Rightarrow> real option \<Rightarrow> bool \<Rightarrow> real \<Rightarrow> job" where
  "new_job queue entry_id i payload created deadline reclaimed clock_offset =
     \<lparr>jb_queue = queue, jb_entry_id = entry_id, jb_id = i, jb_payload = payload, jb_created = created,
      jb_deadline = deadline, jb_reclaimed = reclaimed, jb_clock_offset = clock_offset,
      jb_admitted = False, jb_settled = False\<rparr>"

definition admit :: "job \<Rightarrow> job" where
  "admit j = j\<lparr>jb_admitted := True, jb_settled := True\<rparr>"

text \<open>\<open>now\<close> is \<open>time.time()\<close>.\<close>

definition job_remaining :: "real \<Rightarrow> job \<Rightarrow> real option" where
  "job_remaining now j =
     (case jb_deadline j of None \<Rightarrow> None | Some d \<Rightarrow> Some (d - (now + jb_clock_offset j)))"

subsection \<open>Keys\<close>

definition dispatch_prefix :: "dispatch_config \<Rightarrow> string \<Rightarrow> string" where
  "dispatch_prefix c queue =
     (let prefix = dc_namespace c @ '':'' @ queue
      in if dc_cluster_hash_tags c then ''{'' @ prefix @ ''}'' else prefix)"

definition stream_key :: "dispatch_config \<Rightarrow> string \<Rightarrow> key" where
  "stream_key c queue = dispatch_prefix c queue @ '':stream''"

definition reply_key :: "dispatch_config \<Rightarrow> string \<Rightarrow> string \<Rightarrow> key" where
  "reply_key c queue job_id = dispatch_prefix c queue @ '':reply:'' @ job_id"

definition submit_marker_key :: "dispatch_config \<Rightarrow> string \<Rightarrow> string \<Rightarrow> key" where
  "submit_marker_key c queue job_id = dispatch_prefix c queue @ '':submit:'' @ job_id"

definition leader_name :: "string \<Rightarrow> string" where
  "leader_name queue = queue @ '':leader''"

definition leader_owners_key :: "dispatch_config \<Rightarrow> string \<Rightarrow> key" where
  "leader_owners_key c queue =
     (let prefix = dc_namespace c @ '':'' @ leader_name queue;
          prefix = (if dc_cluster_hash_tags c then ''{'' @ prefix @ ''}'' else prefix)
      in prefix @ '':owners'')"

subsection \<open>Helpers\<close>

definition block_cap :: "real option \<Rightarrow> real" where
  "block_cap socket_timeout =
     (case socket_timeout of
        None \<Rightarrow> max_block
      | Some t \<Rightarrow> if t \<le> 0 then max_block else min max_block (t * blpop_socket_timeout_fraction))"

text \<open>The start of the failure streak, or the error that ends the wait; \<open>now\<close> is the monotonic clock.\<close>

definition tolerate_wait_error :: "raw_exn \<Rightarrow> string \<Rightarrow> real option \<Rightarrow> real \<Rightarrow> py_exn + real" where
  "tolerate_wait_error exc queue failing_since now =
     (let mapped = map_backend_error exc (Some ''dispatch_wait'') (Some queue);
          since = (case failing_since of None \<Rightarrow> now | Some t \<Rightarrow> t)
      in if \<not> is_transient mapped \<or> wait_error_budget \<le> now - since
         then Inl (SemError (Backend mapped)) else Inr since)"

definition pause_after_error :: "real option \<Rightarrow> real \<Rightarrow> real" where
  "pause_after_error give_up now =
     (case give_up of None \<Rightarrow> wait_error_pause | Some g \<Rightarrow> max 0 (min wait_error_pause (g - now)))"

definition check_queue_name :: "string \<Rightarrow> py_exn + unit" where
  "check_queue_name queue = (if queue = [] then Inl PyValueError else Inr ())"

text \<open>A custom collector may lack the hook: then nothing is recorded.\<close>

definition record_job :: "bool \<Rightarrow> bool \<Rightarrow> (metric_call \<Rightarrow> 'w \<Rightarrow> 'w) \<Rightarrow> string \<Rightarrow> string \<Rightarrow> string \<Rightarrow> 'w \<Rightarrow> 'w" where
  "record_job enabled has_hook metric queue namespace result w =
     (if \<not> enabled then w else if has_hook then metric (IncDispatchJob queue namespace result) w else w)"

definition get_or :: "(string \<times> json) list \<Rightarrow> string \<Rightarrow> json \<Rightarrow> json" where
  "get_or d k v = (case map_of d k of None \<Rightarrow> v | Some x \<Rightarrow> x)"

definition parse_reply :: "string \<Rightarrow> py_exn + json" where
  "parse_reply raw =
     (case json_loads raw of
        None \<Rightarrow> Inl PyValueError
      | Some (JObj d) \<Rightarrow>
          if json_truth (get_or d ''ok'' JNull) then Inr (get_or d ''result'' JNull)
          else Inl (SemError (job_failed_error (get_or d ''error_type'' (JStr ''Error''))
                 (get_or d ''message'' (JStr [])) (get_or d ''data'' JNull)))
      | Some v \<Rightarrow> Inl attribute_error)"

subsection \<open>The environment of a queue\<close>

record 'w queue_env =
  q_is_async :: bool
  q_sha1 :: "lua_script \<Rightarrow> string"
  q_client :: "'w script_client"
  q_repr :: "pyobj \<Rightarrow> string"
  q_socket_timeout :: "real option"
  q_monotonic :: "'w \<Rightarrow> real"
  q_uuid_hex :: "'w \<Rightarrow> string \<times> 'w"
  q_sleep :: "real \<Rightarrow> 'w \<Rightarrow> 'w"
  q_asleep :: "real \<Rightarrow> 'w \<Rightarrow> 'w"
  q_blmove :: "key \<Rightarrow> key \<Rightarrow> real \<Rightarrow> 'w \<Rightarrow> (raw_exn + string option) \<times> 'w"
  q_ablmove :: "key \<Rightarrow> key \<Rightarrow> real \<Rightarrow> 'w \<Rightarrow> (raw_exn + string option) \<times> 'w"
  q_delete :: "key \<Rightarrow> 'w \<Rightarrow> raw_exn option \<times> 'w"
  q_adelete :: "key \<Rightarrow> 'w \<Rightarrow> raw_exn option \<times> 'w"
  q_xlen :: "key \<Rightarrow> 'w \<Rightarrow> (raw_exn + int) \<times> 'w"
  q_axlen :: "key \<Rightarrow> 'w \<Rightarrow> (raw_exn + int) \<times> 'w"

definition require_sync :: "'w queue_env \<Rightarrow> py_exn + unit" where
  "require_sync E = (if q_is_async E then Inl (SemError MixedModeError) else Inr ())"

definition require_async :: "'w queue_env \<Rightarrow> py_exn + unit" where
  "require_async E = (if \<not> q_is_async E then Inl (SemError MixedModeError) else Inr ())"

definition check_args :: "string \<Rightarrow> real option \<Rightarrow> py_exn + unit" where
  "check_args queue timeout =
     py_bind (check_queue_name queue) (\<lambda>_.
       if set_and (\<lambda>t. t \<le> 0) timeout then Inl PyValueError else Inr ())"

text \<open>What both APIs treat as an error of the backend.\<close>

definition redis_or_os :: "raw_exn \<Rightarrow> bool" where
  "redis_or_os e \<longleftrightarrow> isinstance e ''RedisError'' \<or> isinstance e ''OSError''"

subsection \<open>Submitting\<close>

text \<open>One round of the wait; its state is the start of the failure streak.\<close>

definition wait_round ::
  "'w queue_env \<Rightarrow> (key \<Rightarrow> key \<Rightarrow> real \<Rightarrow> 'w \<Rightarrow> (raw_exn + string option) \<times> 'w) \<Rightarrow>
   (key \<Rightarrow> 'w \<Rightarrow> raw_exn option \<times> 'w) \<Rightarrow> (real \<Rightarrow> 'w \<Rightarrow> 'w) \<Rightarrow> string \<Rightarrow> key \<Rightarrow> real option \<Rightarrow>
   real option \<times> 'w \<Rightarrow> ((py_exn + json) \<times> 'w) + (real option \<times> 'w)" where
  "wait_round E blmove delete sleep queue rkey give_up x =
     (case x of (failing_since, w) \<Rightarrow>
        (let cap = block_cap (q_socket_timeout E);
             block = (case give_up of None \<Rightarrow> cap | Some g \<Rightarrow> min cap (g - q_monotonic E w))
         in if give_up \<noteq> None \<and> block \<le> 0 then Inl (Inl (SemError JobTimeoutError), w)
            else
              (let block = (if give_up \<noteq> None then max block min_block else block)
               in case blmove rkey rkey block w of
                    (Inl exc, w) \<Rightarrow>
                      if redis_or_os exc then
                        (case tolerate_wait_error exc queue failing_since (q_monotonic E w) of
                           Inl e \<Rightarrow> Inl (Inl e, w)
                         | Inr since \<Rightarrow> Inr (Some since, sleep (pause_after_error give_up (q_monotonic E w)) w))
                      else Inl (Inl (RawExn exc), w)
                  | (Inr None, w) \<Rightarrow> Inr (None, w)
                  | (Inr (Some reply), w) \<Rightarrow>
                      (case delete rkey w of
                         (None, w) \<Rightarrow> Inl (parse_reply reply, w)
                       | (Some exc, w) \<Rightarrow>
                           if redis_or_os exc then Inl (parse_reply reply, w) else Inl (Inl (RawExn exc), w)))))"

text \<open>The waiting loop may not end: without a timeout for want of a reply.\<close>

definition submit_with where
  "submit_with E enqueue blmove delete sleep c queue payload timeout w =
     (let (job_id, w) = q_uuid_hex E w
      in case enqueue (stream_key c queue) (submit_marker_key c queue job_id)
             (case dc_max_queue_size c of None \<Rightarrow> 0 | Some n \<Rightarrow> n) (py_int (dc_reply_ttl c * 1000)) job_id
             (json_dumps payload) (map_option (\<lambda>t. py_int (t * 1000)) timeout) w of
           (Inl e, w) \<Rightarrow> Some (Inl e, w)
         | (Inr None, w) \<Rightarrow> Some (Inl (SemError QueueFullError), w)
         | (Inr (Some entry_id), w) \<Rightarrow>
             repeat_until
               (wait_round E blmove delete sleep queue (reply_key c queue job_id)
                 (map_option (\<lambda>t. q_monotonic E w + t) timeout))
               (None, w))"

definition submit ::
  "'w queue_env \<Rightarrow> dispatch_config \<Rightarrow> string \<Rightarrow> json \<Rightarrow> real option \<Rightarrow> 'w \<Rightarrow> ((py_exn + json) \<times> 'w) option" where
  "submit E c queue payload timeout w =
     (case py_bind (require_sync E) (\<lambda>_. check_args queue timeout) of
        Inl e \<Rightarrow> Some (Inl e, w)
      | Inr _ \<Rightarrow>
          map_option (apfst (backend_errors ''dispatch_submit'' (Some queue)))
            (submit_with E (runner_dispatch_enqueue (q_sha1 E) (q_client E) (q_repr E)) (q_blmove E) (q_delete E)
              (q_sleep E) c queue payload timeout w))"

definition asubmit ::
  "'w queue_env \<Rightarrow> dispatch_config \<Rightarrow> string \<Rightarrow> json \<Rightarrow> real option \<Rightarrow> 'w \<Rightarrow> ((py_exn + json) \<times> 'w) option" where
  "asubmit E c queue payload timeout w =
     (case py_bind (require_async E) (\<lambda>_. check_args queue timeout) of
        Inl e \<Rightarrow> Some (Inl e, w)
      | Inr _ \<Rightarrow>
          map_option (apfst (backend_errors ''dispatch_submit'' (Some queue)))
            (submit_with E (runner_dispatch_enqueue_async (q_sha1 E) (q_client E) (q_repr E)) (q_ablmove E)
              (q_adelete E) (q_asleep E) c queue payload timeout w))"

subsection \<open>Status and length\<close>

definition build_status :: "string \<Rightarrow> int \<Rightarrow> int \<Rightarrow> int \<Rightarrow> int \<Rightarrow> queue_status" where
  "build_status queue len in_progress oldest_ms leaders =
     \<lparr>qs_name = queue, qs_length = len, qs_in_progress = in_progress, qs_waiting = max 0 (len - in_progress),
      qs_oldest_age = (if 0 \<le> oldest_ms then Some (of_int oldest_ms / 1000) else None),
      qs_has_leader = (0 < leaders)\<rparr>"

definition queue_status_of where
  "queue_status_of E c queue w =
     (case py_bind (require_sync E) (\<lambda>_. check_queue_name queue) of
        Inl e \<Rightarrow> (Inl e, w)
      | Inr _ \<Rightarrow>
          (case runner_dispatch_status (q_sha1 E) (q_client E) (stream_key c queue) (dc_group c) w of
             (Inl e, w) \<Rightarrow> (backend_errors ''dispatch_status'' (Some queue) (Inl e), w)
           | (Inr (len, in_progress, oldest_ms), w) \<Rightarrow>
               (case runner_status (q_sha1 E) (q_client E) (leader_owners_key c queue) None None w of
                  (Inl e, w) \<Rightarrow> (backend_errors ''dispatch_status'' (Some queue) (Inl e), w)
                | (Inr (leaders, _, _), w) \<Rightarrow> (Inr (build_status queue len in_progress oldest_ms leaders), w))))"

text \<open>\<open>gather\<close> sends both calls and gives the first error.\<close>

definition aqueue_status_of where
  "aqueue_status_of E c queue w =
     (case py_bind (require_async E) (\<lambda>_. check_queue_name queue) of
        Inl e \<Rightarrow> (Inl e, w)
      | Inr _ \<Rightarrow>
          (let (s, w) = runner_dispatch_status_async (q_sha1 E) (q_client E) (stream_key c queue) (dc_group c) w;
               (l, w) = runner_status_async (q_sha1 E) (q_client E) (leader_owners_key c queue) None None w
           in (backend_errors ''dispatch_status'' (Some queue)
                 (py_bind s (\<lambda>(len, in_progress, oldest_ms). py_bind l (\<lambda>(leaders, _, _).
                   Inr (build_status queue len in_progress oldest_ms leaders)))), w)))"

text \<open>\<open>dict.fromkeys\<close>: the first of equal names stays.\<close>

definition dict_fromkeys :: "'a list \<Rightarrow> 'a list" where
  "dict_fromkeys xs = rev (remdups (rev xs))"

text \<open>One by one, until the first that raises.\<close>

fun status_each where
  "status_each E c [] w = (Inr [], w)"
| "status_each E c (queue # queues) w =
     (case queue_status_of E c queue w of
        (Inl e, w) \<Rightarrow> (Inl e, w)
      | (Inr s, w) \<Rightarrow> (case status_each E c queues w of (r, w) \<Rightarrow> (map_sum id (Cons (queue, s)) r, w)))"

definition status_many where
  "status_many E c queues w = status_each E c (dict_fromkeys queues) w"

fun astatus_each where
  "astatus_each E c [] w = ([], w)"
| "astatus_each E c (queue # queues) w =
     (case aqueue_status_of E c queue w of
        (s, w) \<Rightarrow> (case astatus_each E c queues w of (r, w) \<Rightarrow> ((queue, s) # r, w)))"

definition astatus_many where
  "astatus_many E c queues w =
     (case astatus_each E c (dict_fromkeys queues) w of
        (rs, w) \<Rightarrow> (py_map (\<lambda>(queue, r). map_sum id (Pair queue) r) rs, w))"

definition queue_length :: "'w queue_env \<Rightarrow> dispatch_config \<Rightarrow> string \<Rightarrow> 'w \<Rightarrow> (py_exn + int) \<times> 'w" where
  "queue_length E c queue w =
     (case require_sync E of
        Inl e \<Rightarrow> (Inl e, w)
      | Inr _ \<Rightarrow> (case q_xlen E (stream_key c queue) w of
          (r, w) \<Rightarrow> (backend_errors ''dispatch_length'' (Some queue) (map_sum RawExn id r), w)))"

definition aqueue_length :: "'w queue_env \<Rightarrow> dispatch_config \<Rightarrow> string \<Rightarrow> 'w \<Rightarrow> (py_exn + int) \<times> 'w" where
  "aqueue_length E c queue w =
     (case require_async E of
        Inl e \<Rightarrow> (Inl e, w)
      | Inr _ \<Rightarrow> (case q_axlen E (stream_key c queue) w of
          (r, w) \<Rightarrow> (backend_errors ''dispatch_length'' (Some queue) (map_sum RawExn id r), w)))"

end
