(* ===== verification/DispatchWorker.thy ===== *)
theory DispatchWorker
  imports DispatchQueue
begin

section \<open>The worker side of the dispatch queues\<close>

text \<open>
  The class \<open>DispatchWorker\<close> of \<open>src/redis_semaphore/dispatch.py\<close>. The coroutines of one worker run
  on one event loop: between two awaits nobody else changes the worker, at an await anything may run. So
  the memory of a coroutine is the worker's state and the world, every awaited operation of the
  environment takes and returns it, and what other coroutines, the handlers and other processes do
  meanwhile is in what it returns. The tasks the worker has started (leaders and handlers) and the jobs
  and mutexes they share are part of its state; a task is named by its queue or its number.
\<close>

subsection \<open>Texts of replies\<close>

datatype raw_text = RawBytes string | RawStr string

fun text_of :: "raw_text \<Rightarrow> string" where
  "text_of (RawBytes t) = t"
| "text_of (RawStr t) = t"

definition raw_fields :: "(string \<Rightarrow> raw_text) \<Rightarrow> (string \<times> string) list \<Rightarrow> (raw_text \<times> raw_text) list" where
  "raw_fields raw fs = map (\<lambda>(k, v). (raw k, raw v)) fs"

text \<open>An entry of a stream as replies carry it: no id for one deleted while pending (Redis 6.2), no
  fields for one deleted while pending as XREADGROUP shows it.\<close>

type_synonym raw_entry = "raw_text option \<times> (raw_text \<times> raw_text) list"

text \<open>The reply of XREADGROUP: nothing, a list of streams (RESP2), a dict of batches (RESP3).\<close>

datatype xread_reply = NoReply | Resp2 "(raw_text \<times> raw_entry list) list" | Resp3 "(raw_text \<times> raw_entry list list) list"

fun reply_entries :: "xread_reply \<Rightarrow> raw_entry list" where
  "reply_entries NoReply = []"
| "reply_entries (Resp2 []) = []"
| "reply_entries (Resp2 ((k, es) # _)) = es"
| "reply_entries (Resp3 []) = []"
| "reply_entries (Resp3 ((k, batches) # _)) = concat batches"

record consumer_info =
  ci_name :: raw_text
  ci_pending :: int
  ci_idle :: int

definition lower :: "string \<Rightarrow> string" where
  "lower t = map (\<lambda>c. let n = (of_char c :: nat) in if 65 \<le> n \<and> n \<le> 90 then char_of (n + 32) else c) t"

definition contains_text :: "string \<Rightarrow> string \<Rightarrow> bool" where
  "contains_text p t \<longleftrightarrow> list_ex (\<lambda>i. starts_with (drop i t) p) [0..<Suc (length t)]"

subsection \<open>State\<close>

record lead_task =
  lt_mutex :: sem_obj
  lt_done :: bool

record handler_task =
  ht_stream :: key
  ht_job :: job
  ht_done :: bool
  ht_cancelled :: bool

text \<open>\<open>wk_jobs\<close> is every handler task started; \<open>wk_handlers\<close> and \<open>wk_stream_handlers\<close> are those running.
  The dict \<open>_taken\<close> is its values and its keys in the order of their insertion.\<close>

record worker =
  wk_id :: string
  wk_queues :: "string list"
  wk_config :: dispatch_config
  wk_block_cap :: real
  wk_socket_timeout :: "real option"
  wk_election_interval :: real
  wk_stopping :: bool
  wk_running :: bool
  wk_last_loop :: "real option"
  wk_last_error :: "(real \<times> string) option"
  wk_fatal :: "backend_error option"
  wk_clock_offset :: real
  wk_leading :: "(string \<times> lead_task) list"
  wk_jobs :: "handler_task list"
  wk_handlers :: "nat list"
  wk_stream_handlers :: "key \<Rightarrow> nat list"
  wk_next_prune :: "key \<Rightarrow> real option"
  wk_taken :: "key \<Rightarrow> string list"
  wk_taken_order :: "key list"
  wk_reclaim_now :: "key list"
  wk_requeued :: "((key \<times> string) \<times> real) list"

definition new_worker ::
  "bool \<Rightarrow> real option \<Rightarrow> string list \<Rightarrow> dispatch_config \<Rightarrow> string \<Rightarrow> string \<Rightarrow> py_exn + worker" where
  "new_worker is_async socket_timeout queues c worker_id default_id =
     (if \<not> is_async then Inl PyTypeError
      else
        (let qs = dict_fromkeys queues
         in if qs = [] then Inl PyValueError
            else py_bind (py_map check_queue_name qs) (\<lambda>_.
              Inr \<lparr>wk_id = (if worker_id = [] then default_id else worker_id), wk_queues = qs, wk_config = c,
                   wk_block_cap = block_cap socket_timeout, wk_socket_timeout = socket_timeout,
                   wk_election_interval = (case dc_election_interval c of None \<Rightarrow> dc_leader_ttl c / 3 | Some i \<Rightarrow> i),
                   wk_stopping = False, wk_running = False, wk_last_loop = None, wk_last_error = None,
                   wk_fatal = None, wk_clock_offset = 0, wk_leading = [], wk_jobs = [], wk_handlers = [],
                   wk_stream_handlers = (\<lambda>_. []), wk_next_prune = (\<lambda>_. None), wk_taken = (\<lambda>_. []),
                   wk_taken_order = [], wk_reclaim_now = [], wk_requeued = []\<rparr>)))"

text \<open>Sets of ids as lists without duplicates.\<close>

definition add_to :: "'a \<Rightarrow> 'a list \<Rightarrow> 'a list" where
  "add_to x xs = (if x \<in> set xs then xs else xs @ [x])"

definition take_ids :: "key \<Rightarrow> string list \<Rightarrow> worker \<Rightarrow> worker" where
  "take_ids stream ids W =
     W\<lparr>wk_taken := (wk_taken W)(stream := fold add_to ids (wk_taken W stream)),
       wk_taken_order := add_to stream (wk_taken_order W)\<rparr>"

definition drop_ids :: "key \<Rightarrow> string list \<Rightarrow> worker \<Rightarrow> worker" where
  "drop_ids stream ids W = W\<lparr>wk_taken := (wk_taken W)(stream := fold removeAll ids (wk_taken W stream))\<rparr>"

definition leading :: "worker \<Rightarrow> string list" where
  "leading W = map fst (filter (\<lambda>(q, t). \<not> lt_done t) (wk_leading W))"

definition worker_health_of :: "real \<Rightarrow> worker \<Rightarrow> worker_health" where
  "worker_health_of now W =
     (let stall_limit = 5 * wk_election_interval W;
          loop_age = map_option (\<lambda>t. now - t) (wk_last_loop W);
          error_age = map_option (\<lambda>e. now - fst e) (wk_last_error W);
          healthy = (wk_running W \<and> \<not> wk_stopping W \<and>
            (case loop_age of None \<Rightarrow> False | Some a \<Rightarrow> a < stall_limit) \<and>
            (case error_age of None \<Rightarrow> True | Some a \<Rightarrow> stall_limit \<le> a))
      in \<lparr>wh_worker_id = wk_id W, wh_running = wk_running W, wh_stopping = (wk_running W \<and> wk_stopping W),
          wh_leading = leading W, wh_jobs_in_progress = int (length (wk_handlers W)),
          wh_last_loop_age = loop_age, wh_last_error = map_option snd (wk_last_error W),
          wh_last_error_age = error_age, wh_healthy = healthy\<rparr>)"

definition stop :: "worker \<Rightarrow> worker" where
  "stop W = W\<lparr>wk_stopping := True\<rparr>"

definition mutex_acquired :: "string \<Rightarrow> worker \<Rightarrow> bool" where
  "mutex_acquired queue W \<longleftrightarrow>
     (case map_of (wk_leading W) queue of None \<Rightarrow> False | Some t \<Rightarrow> so_state (lt_mutex t) = ACQUIRED)"

definition update_lead :: "string \<Rightarrow> (lead_task \<Rightarrow> lead_task) \<Rightarrow> worker \<Rightarrow> worker" where
  "update_lead queue f W = W\<lparr>wk_leading := map (\<lambda>(q, t). (q, if q = queue then f t else t)) (wk_leading W)\<rparr>"

subsection \<open>Environment\<close>

text \<open>How a handler ends: with a value \<open>dumps\<close> accepts, cancelled, with \<open>RequeueJob\<close>, with \<open>JobError\<close>
  (class, text, data if \<open>dumps\<close> accepts it), with \<open>RateLimitTimeoutError\<close> (text, literal of its time),
  or with another exception (class, text); that \<open>dumps\<close> refuses its value is one of these.\<close>

datatype handler_outcome = Returned json | Cancelled | Requeue real | RaisedJobError string string "json option"
  | RaisedRateLimit string string | RaisedOther string string

text \<open>The commands of the transaction that finishes a job.\<close>

datatype finish_cmd = FLPush key string | FPExpire key int | FXAck key string string | FXDel key string

type_synonym 'w mem = "worker \<times> 'w"

text \<open>A wait gives \<open>True\<close> when the coroutine that waits is cancelled. \<open>wd_cancel\<close> cancels a handler and
  waits for it to end: \<open>None\<close> if it never does.\<close>

record 'w worker_env =
  wd_time :: "'w mem \<Rightarrow> real"
  wd_monotonic :: "'w mem \<Rightarrow> real"
  wd_describe :: "py_exn \<Rightarrow> string"
  wd_metrics_enabled :: bool
  wd_metric_hook :: bool
  wd_metric :: "metric_call \<Rightarrow> 'w mem \<Rightarrow> 'w mem"
  wd_uniform :: "real \<Rightarrow> real \<Rightarrow> 'w mem \<Rightarrow> real \<times> 'w mem"
  wd_shuffle :: "string list \<Rightarrow> 'w mem \<Rightarrow> string list \<times> 'w mem"
  wd_sem :: "'w mem sem_env"
  wd_xgroup_create :: "key \<Rightarrow> string \<Rightarrow> 'w mem \<Rightarrow> raw_exn option \<times> 'w mem"
  wd_xreadgroup :: "string \<Rightarrow> string \<Rightarrow> key \<Rightarrow> string \<Rightarrow> int \<Rightarrow> int option \<Rightarrow> 'w mem \<Rightarrow> (raw_exn + xread_reply) \<times> 'w mem"
  wd_server_time :: "'w mem \<Rightarrow> (raw_exn + int \<times> int) \<times> 'w mem"
  wd_xautoclaim :: "key \<Rightarrow> string \<Rightarrow> string \<Rightarrow> int \<Rightarrow> string \<Rightarrow> int \<Rightarrow> 'w mem \<Rightarrow>
    (raw_exn + raw_text \<times> raw_entry list) \<times> 'w mem"
  wd_xinfo_consumers :: "key \<Rightarrow> string \<Rightarrow> 'w mem \<Rightarrow> (raw_exn + consumer_info list) \<times> 'w mem"
  wd_xgroup_delconsumer :: "key \<Rightarrow> string \<Rightarrow> string \<Rightarrow> 'w mem \<Rightarrow> raw_exn option \<times> 'w mem"
  wd_xclaim :: "key \<Rightarrow> string \<Rightarrow> string \<Rightarrow> int \<Rightarrow> string list \<Rightarrow> int option \<Rightarrow> 'w mem \<Rightarrow> raw_exn option \<times> 'w mem"
  wd_xack :: "key \<Rightarrow> string \<Rightarrow> string \<Rightarrow> 'w mem \<Rightarrow> raw_exn option \<times> 'w mem"
  wd_xdel :: "key \<Rightarrow> string \<Rightarrow> 'w mem \<Rightarrow> raw_exn option \<times> 'w mem"
  wd_transaction :: "finish_cmd list \<Rightarrow> 'w mem \<Rightarrow> raw_exn option \<times> 'w mem"
  wd_sleep :: "real \<Rightarrow> 'w mem \<Rightarrow> 'w mem"
  wd_claim_lock :: "'w mem \<Rightarrow> bool \<times> 'w mem"
  wd_wait_stopping :: "real \<Rightarrow> 'w mem \<Rightarrow> bool \<times> 'w mem"
  wd_pause :: "real \<Rightarrow> 'w mem \<Rightarrow> bool \<times> 'w mem"
  wd_wait_any :: "nat list \<Rightarrow> real \<Rightarrow> 'w mem \<Rightarrow> bool \<times> 'w mem"
  wd_wait_settled :: "nat \<Rightarrow> real \<Rightarrow> 'w mem \<Rightarrow> bool \<times> 'w mem"
  wd_cancel :: "nat \<Rightarrow> 'w mem \<Rightarrow> (bool \<times> 'w mem) option"
  wd_request_cancel :: "nat \<Rightarrow> 'w mem \<Rightarrow> 'w mem"
  wd_shield :: "'w mem \<Rightarrow> (bool \<times> bool) \<times> 'w mem"
  wd_gather_leaders :: "'w mem \<Rightarrow> 'w mem"
  wd_gather_handlers :: "'w mem \<Rightarrow> 'w mem"
  wd_cancel_touch :: "'w mem \<Rightarrow> 'w mem"
  wd_handler :: "nat \<Rightarrow> 'w mem \<Rightarrow> handler_outcome \<times> 'w mem"

abbreviation worker_of :: "'w mem \<Rightarrow> worker" where "worker_of \<equiv> fst"

definition change :: "(worker \<Rightarrow> worker) \<Rightarrow> 'w mem \<Rightarrow> 'w mem" where
  "change f m = (f (fst m), snd m)"

definition count_job :: "'w worker_env \<Rightarrow> string \<Rightarrow> string \<Rightarrow> 'w mem \<Rightarrow> 'w mem" where
  "count_job E queue result m =
     record_job (wd_metrics_enabled E) (wd_metric_hook E) (wd_metric E) queue
       (dc_namespace (wk_config (worker_of m))) result m"

text \<open>An awaited command whose reply is not used.\<close>

definition raising :: "raw_exn option \<times> 'w mem \<Rightarrow> (py_exn + unit) \<times> 'w mem" where
  "raising r = (case r of (None, m) \<Rightarrow> (Inr (), m) | (Some e, m) \<Rightarrow> (Inl (RawExn e), m))"

definition cancelled_error :: py_exn where
  "cancelled_error = RawExn \<lparr>exn_class = ''CancelledError'', exn_bases = [''CancelledError''], exn_text = []\<rparr>"

definition is_cancelled :: "py_exn \<Rightarrow> bool" where
  "is_cancelled e \<longleftrightarrow> (case e of RawExn x \<Rightarrow> isinstance x ''CancelledError'' | _ \<Rightarrow> False)"

text \<open>A wait whose only result is that it may be cancelled.\<close>

definition waited :: "bool \<times> 'w mem \<Rightarrow> (py_exn + unit) \<times> 'w mem" where
  "waited r = (case r of (False, m) \<Rightarrow> (Inr (), m) | (True, m) \<Rightarrow> (Inl cancelled_error, m))"

text \<open>Sequencing of awaited operations that may raise.\<close>

definition seq ::
  "(py_exn + 'a) \<times> 'w mem \<Rightarrow> ('a \<Rightarrow> 'w mem \<Rightarrow> (py_exn + 'b) \<times> 'w mem) \<Rightarrow> (py_exn + 'b) \<times> 'w mem" where
  "seq r f = (case r of (Inl e, m) \<Rightarrow> (Inl e, m) | (Inr a, m) \<Rightarrow> f a m)"

subsection \<open>Errors\<close>

definition record_error :: "'w worker_env \<Rightarrow> py_exn \<Rightarrow> 'w mem \<Rightarrow> 'w mem" where
  "record_error E e m = change (\<lambda>W. W\<lparr>wk_last_error := Some (wd_monotonic E m, wd_describe E e)\<rparr>) m"

definition is_fatal :: "backend_error \<Rightarrow> bool" where
  "is_fatal b \<longleftrightarrow>
     (case be_original b of None \<Rightarrow> False | Some e \<Rightarrow> isinstance e ''NoPermissionError'') \<or>
     contains_text ''unknown command'' (lower (be_message b))"

definition stop_fatally :: "backend_error \<Rightarrow> worker \<Rightarrow> worker" where
  "stop_fatally b W =
     W\<lparr>wk_fatal := (case wk_fatal W of None \<Rightarrow> Some b | Some f \<Rightarrow> Some f), wk_stopping := True\<rparr>"

subsection \<open>Reading the stream\<close>

definition grp :: "'w mem \<Rightarrow> string" where
  "grp m = dc_group (wk_config (worker_of m))"

definition ensure_group :: "'w worker_env \<Rightarrow> key \<Rightarrow> 'w mem \<Rightarrow> (py_exn + unit) \<times> 'w mem" where
  "ensure_group E stream m =
     (case wd_xgroup_create E stream (grp m) m of
        (None, m) \<Rightarrow> (Inr (), m)
      | (Some e, m) \<Rightarrow>
          if isinstance e ''ResponseError'' \<and> contains_text ''BUSYGROUP'' (exn_text e) then (Inr (), m)
          else (Inl (RawExn e), m))"

text \<open>What the readers do when the stream was deleted meanwhile.\<close>

definition no_group :: "raw_exn \<Rightarrow> bool" where
  "no_group e \<longleftrightarrow> isinstance e ''ResponseError'' \<and> contains_text ''NOGROUP'' (exn_text e)"

definition read_new :: "'w worker_env \<Rightarrow> key \<Rightarrow> 'w mem \<Rightarrow> (py_exn + raw_entry list) \<times> 'w mem" where
  "read_new E stream m =
     (let W = worker_of m; block_ms = py_int (min (dc_read_timeout (wk_config W)) (wk_block_cap W) * 1000)
      in case wd_xreadgroup E (grp m) (wk_id W) stream ''>'' 1 (Some (max 1 block_ms)) m of
           (Inl e, m) \<Rightarrow> if no_group e then seq (ensure_group E stream m) (\<lambda>_ m. (Inr [], m)) else (Inl (RawExn e), m)
         | (Inr response, m) \<Rightarrow> (Inr (reply_entries response), m))"

text \<open>Entries without an id stay, others only if they were not taken.\<close>

definition not_taken :: "string list \<Rightarrow> raw_entry \<Rightarrow> bool" where
  "not_taken taken e \<longleftrightarrow> (case fst e of None \<Rightarrow> True | Some i \<Rightarrow> text_of i \<notin> set taken)"

definition backlog :: "'w worker_env \<Rightarrow> key \<Rightarrow> 'w mem \<Rightarrow> (py_exn + raw_entry list) \<times> 'w mem" where
  "backlog E stream m =
     (let W = worker_of m; taken = wk_taken W stream
      in case wd_xreadgroup E (grp m) (wk_id W) stream ''0'' (int (length taken) + 100) None m of
           (Inl e, m) \<Rightarrow> if no_group e then seq (ensure_group E stream m) (\<lambda>_ m. (Inr [], m)) else (Inl (RawExn e), m)
         | (Inr response, m) \<Rightarrow> (Inr (filter (not_taken taken) (reply_entries response)), m))"

text \<open>The reclaimed entries that this worker did not requeue itself, and the requeues left.\<close>

fun account_reclaimed ::
  "key \<Rightarrow> raw_entry list \<Rightarrow> ((key \<times> string) \<times> real) list \<Rightarrow> nat \<Rightarrow> nat \<times> ((key \<times> string) \<times> real) list" where
  "account_reclaimed stream [] requeued abandoned = (abandoned, requeued)"
| "account_reclaimed stream ((i, fs) # es) requeued abandoned =
     (case i of
        Some i \<Rightarrow>
          if (stream, text_of i) \<in> fst ` set requeued
          then account_reclaimed stream es (filter (\<lambda>r. fst r \<noteq> (stream, text_of i)) requeued) abandoned
          else account_reclaimed stream es requeued (Suc abandoned)
      | None \<Rightarrow> account_reclaimed stream es requeued (Suc abandoned))"

fun delete_idle :: "'w worker_env \<Rightarrow> key \<Rightarrow> consumer_info list \<Rightarrow> 'w mem \<Rightarrow> (py_exn + unit) \<times> 'w mem" where
  "delete_idle E stream [] m = (Inr (), m)"
| "delete_idle E stream (c # cs) m =
     (let name = text_of (ci_name c); idle_ms = dc_reclaim_idle (wk_config (worker_of m)) * 1000
      in if name \<noteq> wk_id (worker_of m) \<and> ci_pending c = 0 \<and> idle_ms < of_int (ci_idle c)
         then seq (raising (wd_xgroup_delconsumer E stream (grp m) name m)) (\<lambda>_. delete_idle E stream cs)
         else delete_idle E stream cs m)"

definition prune_consumers :: "'w worker_env \<Rightarrow> key \<Rightarrow> 'w mem \<Rightarrow> (py_exn + unit) \<times> 'w mem" where
  "prune_consumers E stream m =
     (if (case wk_next_prune (worker_of m) stream of None \<Rightarrow> 0 | Some t \<Rightarrow> t) \<le> wd_monotonic E m then
        (let m = change (\<lambda>W. W\<lparr>wk_next_prune := (wk_next_prune W)
               (stream \<mapsto> wd_monotonic E m + dc_reclaim_idle (wk_config W))\<rparr>) m
         in case wd_xinfo_consumers E stream (grp m) m of
              (Inl e, m) \<Rightarrow> if no_group e then (Inr (), m) else (Inl (RawExn e), m)
            | (Inr consumers, m) \<Rightarrow> delete_idle E stream consumers m)
      else (Inr (), m))"

definition needs_autoclaim :: "raw_exn \<Rightarrow> py_exn" where
  "needs_autoclaim e =
     SemError (Backend \<lparr>be_class = CommandDeniedError,
       be_message = ''DispatchWorker requires Redis >= 6.2 (XAUTOCLAIM): '' @ exn_text e,
       be_operation = Some ''dispatch_reclaim'', be_name = None, be_original = Some e\<rparr>)"

text \<open>What \<open>_reclaim\<close> does with the reply of XAUTOCLAIM.\<close>

definition reclaimed_reply ::
  "'w worker_env \<Rightarrow> string \<Rightarrow> key \<Rightarrow> string list \<Rightarrow> raw_text \<times> raw_entry list \<Rightarrow> 'w mem \<Rightarrow>
   (py_exn + raw_entry list \<times> string) \<times> 'w mem" where
  "reclaimed_reply E queue stream taken reply m =
     (let cursor = text_of (fst reply);
          es = filter (not_taken taken) (snd reply);
          now = wd_monotonic E m;
          (abandoned, requeued) = account_reclaimed stream es (wk_requeued (worker_of m)) 0;
          m = change (\<lambda>W. W\<lparr>wk_requeued := requeued\<rparr>) m;
          m = (count_job E queue ''reclaimed'' ^^ abandoned) m;
          stale = now - 10 * dc_reclaim_idle (wk_config (worker_of m));
          m = change (\<lambda>W. W\<lparr>wk_requeued := filter (\<lambda>r. stale < snd r) (wk_requeued W)\<rparr>) m
      in seq (prune_consumers E stream m) (\<lambda>_ m. (Inr (es, cursor), m)))"

definition reclaim ::
  "'w worker_env \<Rightarrow> string \<Rightarrow> key \<Rightarrow> string \<Rightarrow> 'w mem \<Rightarrow> (py_exn + raw_entry list \<times> string) \<times> 'w mem" where
  "reclaim E queue stream start_id m =
     (let taken = wk_taken (worker_of m) stream
      in case wd_server_time E m of
           (Inl e, m) \<Rightarrow> (Inl (RawExn e), m)
         | (Inr (server_sec, server_usec), m) \<Rightarrow>
             (let m = change (\<lambda>W. W\<lparr>wk_clock_offset :=
                    of_int server_sec + of_int server_usec / 1000000 - wd_time E m\<rparr>) m
              in case wd_xautoclaim E stream (grp m) (wk_id (worker_of m))
                     (py_int (dc_reclaim_idle (wk_config (worker_of m)) * 1000)) start_id 100 m of
                   (Inl e, m) \<Rightarrow>
                     if isinstance e ''ResponseError'' \<and> contains_text ''unknown command'' (lower (exn_text e))
                     then (Inl (needs_autoclaim e), m)
                     else if no_group e then seq (ensure_group E stream m) (\<lambda>_ m. (Inr ([], ''0-0''), m))
                     else (Inl (RawExn e), m)
                 | (Inr reply, m) \<Rightarrow> reclaimed_reply E queue stream taken reply m))"

subsection \<open>Touching and handing back\<close>

text \<open>\<open>_touch_loop\<close>: one round over the streams of \<open>_taken\<close>, whose list is read before.\<close>

definition touch_stream :: "'w worker_env \<Rightarrow> key \<Rightarrow> 'w mem \<Rightarrow> (py_exn + unit) \<times> 'w mem" where
  "touch_stream E stream m =
     seq (waited (wd_claim_lock E m)) (\<lambda>_ m.
       (let current = wk_taken (worker_of m) stream
        in if current = [] then (Inr (), m)
           else (case wd_xclaim E stream (grp m) (wk_id (worker_of m)) 0 current None m of
               (None, m) \<Rightarrow> (Inr (), m)
             | (Some e, m) \<Rightarrow> if redis_or_os e then (Inr (), m) else (Inl (RawExn e), m))))"

fun touch_streams :: "'w worker_env \<Rightarrow> key list \<Rightarrow> 'w mem \<Rightarrow> (py_exn + unit) \<times> 'w mem" where
  "touch_streams E [] m = (Inr (), m)"
| "touch_streams E (stream # streams) m = seq (touch_stream E stream m) (\<lambda>_. touch_streams E streams)"

definition touch_round :: "'w worker_env \<Rightarrow> 'w mem \<Rightarrow> (py_exn + unit) \<times> 'w mem" where
  "touch_round E m =
     (let m = wd_sleep E (dc_reclaim_idle (wk_config (worker_of m)) / 3) m
      in touch_streams E (wk_taken_order (worker_of m)) m)"

definition hand_back :: "'w worker_env \<Rightarrow> key \<Rightarrow> raw_text option list \<Rightarrow> 'w mem \<Rightarrow> (py_exn + unit) \<times> 'w mem" where
  "hand_back E stream entry_ids m =
     (let ids = map text_of (List.map_filter id entry_ids);
          m = change (drop_ids stream ids) m
      in if ids = [] then (Inr (), m)
         else
           seq (waited (wd_claim_lock E m)) (\<lambda>_ m.
             case wd_xclaim E stream (grp m) (wk_id (worker_of m)) 0 ids
                 (Some (py_int (dc_reclaim_idle (wk_config (worker_of m)) * 1000))) m of
               (None, m) \<Rightarrow> (Inr (), m)
             | (Some e, m) \<Rightarrow> if redis_or_os e then (Inr (), m) else (Inl (RawExn e), m)))"

subsection \<open>Running one job\<close>

text \<open>\<open>float(text)\<close> of a decimal literal; other spellings (\<open>inf\<close>, \<open>nan\<close>, underscores) are left out.\<close>

definition float_of_text :: "string \<Rightarrow> real option" where
  "float_of_text text =
     (let t = strip text;
          negative = (t \<noteq> [] \<and> hd t = CHR ''-'');
          t = (if t \<noteq> [] \<and> (hd t = CHR ''-'' \<or> hd t = CHR ''+'') then tl t else t);
          i = takeWhile is_digit t; t = dropWhile is_digit t;
          f = (if t \<noteq> [] \<and> hd t = CHR ''.'' then takeWhile is_digit (tl t) else []);
          t = (if t \<noteq> [] \<and> hd t = CHR ''.'' then dropWhile is_digit (tl t) else t)
      in if (i = [] \<and> f = []) \<or> \<not> exp_ok t then None
         else
           (let e = (case t of [] \<Rightarrow> Inr 0 | _ # r \<Rightarrow> int_of_text r);
                x = real (digits_val (i @ f)) / 10 ^ length f
            in case e of Inl _ \<Rightarrow> None
               | Inr e \<Rightarrow> Some ((if negative then - x else x) * (if 0 \<le> e then 10 ^ nat e else 1 / 10 ^ nat (- e)))))"

text \<open>Id, payload, created and deadline; \<open>None\<close> is the KeyError or ValueError of a malformed job.\<close>

definition decode_fields :: "(raw_text \<times> raw_text) list \<Rightarrow> (string \<times> json \<times> real \<times> real option) option" where
  "decode_fields fs =
     (let data = map_of (rev (map (\<lambda>(k, v). (text_of k, text_of v)) fs))
      in case (data ''id'', data ''payload'', data ''created'', data ''deadline'') of
           (Some i, Some payload, Some created, Some deadline) \<Rightarrow>
             (case (json_loads payload, float_of_text created,
                    if deadline = [] then Some None else map_option Some (float_of_text deadline)) of
                (Some payload, Some created, Some deadline) \<Rightarrow>
                  Some (i, payload, created / 1000, map_option (\<lambda>d. d / 1000) deadline)
              | _ \<Rightarrow> None)
         | _ \<Rightarrow> None)"

definition decode_job :: "worker \<Rightarrow> string \<Rightarrow> string \<Rightarrow> (raw_text \<times> raw_text) list \<Rightarrow> bool \<Rightarrow> job option" where
  "decode_job W queue entry_id fs reclaimed =
     map_option (\<lambda>(i, payload, created, deadline).
       new_job queue entry_id i payload created deadline reclaimed (wk_clock_offset W)) (decode_fields fs)"

definition error_reply :: "string \<Rightarrow> string \<Rightarrow> json option \<Rightarrow> string" where
  "error_reply error_type message data =
     json_dumps (JObj ([(''ok'', JBool False), (''error_type'', JStr error_type), (''message'', JStr message)] @
       (case data of None \<Rightarrow> [] | Some d \<Rightarrow> [(''data'', d)])))"

definition finish_cmds :: "worker \<Rightarrow> key \<Rightarrow> job \<Rightarrow> string \<Rightarrow> finish_cmd list" where
  "finish_cmds W stream j reply =
     (let c = wk_config W; rkey = reply_key c (jb_queue j) (jb_id j)
      in [FLPush rkey reply, FPExpire rkey (py_int (dc_reply_ttl c * 1000)),
          FXAck stream (dc_group c) (jb_entry_id j), FXDel stream (jb_entry_id j)])"

definition finish :: "'w worker_env \<Rightarrow> key \<Rightarrow> job \<Rightarrow> string \<Rightarrow> 'w mem \<Rightarrow> (py_exn + unit) \<times> 'w mem" where
  "finish E stream j reply m =
     (case wd_transaction E (finish_cmds (worker_of m) stream j reply) m of
        (r, m) \<Rightarrow>
          (let m = change (drop_ids stream [jb_entry_id j]) m
           in case r of None \<Rightarrow> (Inr (), m)
              | Some e \<Rightarrow> if redis_or_os e then (Inr (), m) else (Inl (RawExn e), m)))"

definition requeue :: "'w worker_env \<Rightarrow> key \<Rightarrow> job \<Rightarrow> real \<Rightarrow> 'w mem \<Rightarrow> (py_exn + unit) \<times> 'w mem" where
  "requeue E stream j delay m =
     (let m = count_job E (jb_queue j) ''requeued'' m
      in seq (if 0 < delay then waited (wd_wait_stopping E delay m) else (Inr (), m)) (\<lambda>_ m.
           (let m = change (\<lambda>W. W\<lparr>wk_requeued := ((stream, jb_entry_id j), wd_monotonic E m) #
                  filter (\<lambda>r. fst r \<noteq> (stream, jb_entry_id j)) (wk_requeued W)\<rparr>) m
            in seq (hand_back E stream [Some (RawStr (jb_entry_id j))] m)
                 (\<lambda>_ m. (Inr (), change (\<lambda>W. W\<lparr>wk_reclaim_now := add_to stream (wk_reclaim_now W)\<rparr>) m)))))"

text \<open>The reply and its outcome; \<open>None\<close> where the job gets no reply.\<close>

definition job_reply :: "handler_outcome \<Rightarrow> (string \<times> string) option" where
  "job_reply out =
     (case out of
        Returned v \<Rightarrow> Some (json_dumps (JObj [(''ok'', JBool True), (''result'', v)]), ''completed'')
      | RaisedJobError cls text data \<Rightarrow> Some (error_reply cls text data, ''failed'')
      | RaisedRateLimit text retry_after \<Rightarrow>
          Some (error_reply ''RateLimitTimeoutError'' text (Some (JObj [(''retry_after'', JNum retry_after)])), ''failed'')
      | RaisedOther cls text \<Rightarrow> Some (error_reply cls text (Some (JObj [])), ''failed'')
      | _ \<Rightarrow> None)"

text \<open>The job as it is when the handler starts; the handler may admit it meanwhile.\<close>

definition run_job :: "'w worker_env \<Rightarrow> nat \<Rightarrow> key \<Rightarrow> job \<Rightarrow> 'w mem \<Rightarrow> (py_exn + unit) \<times> 'w mem" where
  "run_job E tid stream j m =
     (case wd_handler E tid m of
        (Cancelled, m) \<Rightarrow> (Inl cancelled_error, m)
      | (Requeue delay, m) \<Rightarrow> requeue E stream j delay m
      | (out, m) \<Rightarrow>
          (case job_reply out of
             None \<Rightarrow> (Inr (), m)
           | Some (reply, outcome) \<Rightarrow>
               seq (finish E stream j reply m) (\<lambda>_ m. (Inr (), count_job E (jb_queue j) outcome m))))"

subsection \<open>The handler tasks\<close>

definition task_job :: "nat \<Rightarrow> worker \<Rightarrow> job" where
  "task_job tid W = ht_job (wk_jobs W ! tid)"

definition update_job :: "nat \<Rightarrow> (job \<Rightarrow> job) \<Rightarrow> worker \<Rightarrow> worker" where
  "update_job tid f W = W\<lparr>wk_jobs := (wk_jobs W)[tid := (wk_jobs W ! tid)\<lparr>ht_job := f (task_job tid W)\<rparr>]\<rparr>"

definition start_job :: "key \<Rightarrow> job \<Rightarrow> worker \<Rightarrow> worker" where
  "start_job stream j W =
     (let W = take_ids stream [jb_entry_id j] W; tid = length (wk_jobs W)
      in W\<lparr>wk_jobs := wk_jobs W @ [\<lparr>ht_stream = stream, ht_job = j, ht_done = False, ht_cancelled = False\<rparr>],
           wk_handlers := add_to tid (wk_handlers W),
           wk_stream_handlers := (wk_stream_handlers W)(stream := add_to tid (wk_stream_handlers W stream))\<rparr>)"

text \<open>The callbacks of a task that is done: it leaves both sets and its job is settled.\<close>

definition task_done :: "nat \<Rightarrow> bool \<Rightarrow> worker \<Rightarrow> worker" where
  "task_done tid cancelled W =
     (let t = wk_jobs W ! tid
      in W\<lparr>wk_jobs := (wk_jobs W)[tid := t\<lparr>ht_job := (ht_job t)\<lparr>jb_settled := True\<rparr>, ht_done := True, ht_cancelled := cancelled\<rparr>],
           wk_handlers := removeAll tid (wk_handlers W),
           wk_stream_handlers := (wk_stream_handlers W)
             (ht_stream t := removeAll tid (wk_stream_handlers W (ht_stream t)))\<rparr>)"

text \<open>What the event loop runs for a handler task: it is cancelled if it ended with CancelledError, also one
  raised while the job was being finished or requeued.\<close>

definition job_task :: "'w worker_env \<Rightarrow> nat \<Rightarrow> 'w mem \<Rightarrow> 'w mem" where
  "job_task E tid m =
     (let t = wk_jobs (worker_of m) ! tid
      in case run_job E tid (ht_stream t) (ht_job t) m of
           (r, m) \<Rightarrow> change (task_done tid (case r of Inl e \<Rightarrow> is_cancelled e | Inr _ \<Rightarrow> False)) m)"

text \<open>\<open>None\<close>: the cancelled handler never ends.\<close>

definition abandon :: "'w worker_env \<Rightarrow> key \<Rightarrow> nat \<Rightarrow> 'w mem \<Rightarrow> ((py_exn + unit) \<times> 'w mem) option" where
  "abandon E stream tid m =
     map_option (\<lambda>r. seq (waited r) (\<lambda>_ m.
       (let t = wk_jobs (worker_of m) ! tid
        in if jb_admitted (ht_job t) \<or> \<not> ht_cancelled t then (Inr (), m)
           else hand_back E stream [Some (RawStr (jb_entry_id (ht_job t)))] m))) (wd_cancel E tid m)"

subsection \<open>One entry of a queue\<close>

definition must_leave :: "string \<Rightarrow> worker \<Rightarrow> bool" where
  "must_leave queue W \<longleftrightarrow> \<not> mutex_acquired queue W \<or> wk_stopping W"

text \<open>One round of the wait for a free handler; \<open>Inl\<close> ends it: with \<open>True\<close> if one is free.\<close>

definition cap_round ::
  "'w worker_env \<Rightarrow> string \<Rightarrow> key \<Rightarrow> int \<Rightarrow> raw_text \<Rightarrow> 'w mem \<Rightarrow> (py_exn + bool) \<times> 'w mem + 'w mem" where
  "cap_round E queue stream most entry m =
     (let running = wk_stream_handlers (worker_of m) stream
      in if int (length running) < most then Inl (Inr True, m)
         else if must_leave queue (worker_of m)
         then Inl (seq (hand_back E stream [Some entry] m) (\<lambda>_ m. (Inr False, m)))
         else
           (case wd_wait_any E running leadership_check m of
              (False, m) \<Rightarrow> Inr m
            | (True, m) \<Rightarrow> Inl (Inl cancelled_error, m)))"

text \<open>What the leader does when it is cancelled while it waits for the job: \<open>e\<close> is raised in the end.\<close>

definition settle_cancelled ::
  "'w worker_env \<Rightarrow> key \<Rightarrow> nat \<Rightarrow> py_exn \<Rightarrow> 'w mem \<Rightarrow> ((py_exn + bool) \<times> 'w mem) option" where
  "settle_cancelled E stream tid e m =
     (if jb_settled (task_job tid (worker_of m)) then Some (Inl e, m)
      else map_option (\<lambda>r. seq r (\<lambda>_ m. (Inl e, m))) (abandon E stream tid m))"

text \<open>One round of the wait for the job to settle; \<open>Inl\<close> ends it.\<close>

definition settle_round ::
  "'w worker_env \<Rightarrow> string \<Rightarrow> key \<Rightarrow> nat \<Rightarrow> 'w mem \<Rightarrow> ((py_exn + bool) \<times> 'w mem) option + 'w mem" where
  "settle_round E queue stream tid m =
     (if jb_settled (task_job tid (worker_of m)) then
        (let t = wk_jobs (worker_of m) ! tid
         in if ht_cancelled t \<and> \<not> jb_admitted (ht_job t)
            then Inl (Some (seq (hand_back E stream [Some (RawStr (jb_entry_id (ht_job t)))] m) (\<lambda>_ m. (Inr False, m))))
            else Inl (Some (Inr True, m)))
      else if must_leave queue (worker_of m) then
        (case abandon E stream tid m of
           None \<Rightarrow> Inl None
         | Some (Inr _, m) \<Rightarrow> Inl (Some (Inr False, m))
         | Some (Inl e, m) \<Rightarrow> Inl (if is_cancelled e then settle_cancelled E stream tid e m else Some (Inl e, m)))
      else
        (case wd_wait_settled E tid leadership_check m of
           (False, m) \<Rightarrow> Inr m
         | (True, m) \<Rightarrow> Inl (settle_cancelled E stream tid cancelled_error m)))"

definition acknowledge :: "'w worker_env \<Rightarrow> key \<Rightarrow> string \<Rightarrow> 'w mem \<Rightarrow> (py_exn + unit) \<times> 'w mem" where
  "acknowledge E stream entry m = raising (wd_xack E stream (grp m) entry m)"

text \<open>An expired or malformed job: acknowledged, then deleted.\<close>

definition drop_entry :: "'w worker_env \<Rightarrow> key \<Rightarrow> string \<Rightarrow> 'w mem \<Rightarrow> (py_exn + bool) \<times> 'w mem" where
  "drop_entry E stream entry m =
     seq (acknowledge E stream entry (change (drop_ids stream [entry]) m))
       (\<lambda>_ m. seq (raising (wd_xdel E stream entry m)) (\<lambda>_ m. (Inr True, m)))"

definition start_and_settle ::
  "'w worker_env \<Rightarrow> string \<Rightarrow> key \<Rightarrow> job \<Rightarrow> 'w mem \<Rightarrow> ((py_exn + bool) \<times> 'w mem) option" where
  "start_and_settle E queue stream j m =
     Option.bind (repeat_until (settle_round E queue stream (length (wk_jobs (worker_of m)))) (change (start_job stream j) m)) id"

definition dispatch_entry ::
  "'w worker_env \<Rightarrow> string \<Rightarrow> key \<Rightarrow> raw_entry \<Rightarrow> bool \<Rightarrow> 'w mem \<Rightarrow> ((py_exn + bool) \<times> 'w mem) option" where
  "dispatch_entry E queue stream e reclaimed m =
     (case e of
        (None, _) \<Rightarrow> Some (Inr True, m)
      | (Some entry_id, fs) \<Rightarrow>
          (let entry = text_of entry_id
           in if fs = [] then
                Some (seq (acknowledge E stream entry (change (drop_ids stream [entry]) m)) (\<lambda>_ m. (Inr True, m)))
              else
                (case decode_job (worker_of m) queue entry fs reclaimed of
                   None \<Rightarrow> Some (drop_entry E stream entry m)
                 | Some j \<Rightarrow>
                     if (case job_remaining (wd_time E m) j of None \<Rightarrow> False | Some r \<Rightarrow> r \<le> 0)
                     then Some (drop_entry E stream entry (count_job E queue ''expired'' m))
                     else
                       (case dc_max_admitted (wk_config (worker_of m)) of
                          None \<Rightarrow> start_and_settle E queue stream j m
                        | Some most \<Rightarrow>
                            (case repeat_until (cap_round E queue stream most (RawStr entry)) m of
                               None \<Rightarrow> None
                             | Some (Inl err, m) \<Rightarrow> Some (Inl err, m)
                             | Some (Inr False, m) \<Rightarrow> Some (Inr False, m)
                             | Some (Inr True, m) \<Rightarrow> start_and_settle E queue stream j m)))))"

subsection \<open>Leading a queue\<close>

definition entry_ids :: "raw_entry list \<Rightarrow> string list" where
  "entry_ids es = map text_of (List.map_filter fst es)"

text \<open>The entries of a batch in order; \<open>Some False\<close>: leave the queue. The last component is what was
  not dispatched, which is no longer touched.\<close>

fun dispatch_batch ::
  "'w worker_env \<Rightarrow> string \<Rightarrow> key \<Rightarrow> bool \<Rightarrow> raw_entry list \<Rightarrow> 'w mem \<Rightarrow> ((py_exn + bool) \<times> 'w mem) option" where
  "dispatch_batch E queue stream reclaimed [] m = Some (Inr True, m)"
| "dispatch_batch E queue stream reclaimed (e # es) m =
     (case dispatch_entry E queue stream e reclaimed m of
        None \<Rightarrow> None
      | Some (Inl err, m) \<Rightarrow> Some (Inl err, change (drop_ids stream (entry_ids es)) m)
      | Some (Inr False, m) \<Rightarrow>
          (case hand_back E stream (map fst es) m of
             (r, m) \<Rightarrow> Some (map_sum id (\<lambda>_. False) r, change (drop_ids stream (entry_ids es)) m))
      | Some (Inr True, m) \<Rightarrow> dispatch_batch E queue stream reclaimed es m)"

text \<open>The state of the leading loop: when to reclaim next, and from where.\<close>

type_synonym 'w lead_state = "real \<times> string \<times> 'w mem"

text \<open>The entries of a round, whether they were reclaimed, and the loop's state.\<close>

definition next_entries ::
  "'w worker_env \<Rightarrow> string \<Rightarrow> key \<Rightarrow> 'w lead_state \<Rightarrow> (py_exn + raw_entry list \<times> bool \<times> real \<times> string) \<times> 'w mem" where
  "next_entries E queue stream x =
     (case x of (next_reclaim, cursor, m) \<Rightarrow>
        (let forced = (stream \<in> set (wk_reclaim_now (worker_of m)))
         in if forced \<or> next_reclaim \<le> wd_monotonic E m then
              (let m = change (\<lambda>W. W\<lparr>wk_reclaim_now := removeAll stream (wk_reclaim_now W)\<rparr>) m;
                   cursor = (if forced then ''0-0'' else cursor)
               in seq (reclaim E queue stream cursor m) (\<lambda>(es, cursor) m.
                    seq (if es = [] then backlog E stream m else (Inr es, m)) (\<lambda>es m.
                      (let next_reclaim = (if cursor = ''0-0''
                             then wd_monotonic E m + dc_reclaim_interval (wk_config (worker_of m)) else next_reclaim)
                       in if es = []
                          then seq (read_new E stream m) (\<lambda>es m. (Inr (es, False, next_reclaim, cursor), m))
                          else (Inr (es, True, next_reclaim, cursor), m)))))
            else seq (read_new E stream m) (\<lambda>es m. (Inr (es, False, next_reclaim, cursor), m))))"

definition lead_round ::
  "'w worker_env \<Rightarrow> string \<Rightarrow> 'w lead_state \<Rightarrow> ((py_exn + unit) \<times> 'w mem) option + 'w lead_state" where
  "lead_round E queue x =
     (case x of (next_reclaim, cursor, m) \<Rightarrow>
        if must_leave queue (worker_of m) then Inl (Some (Inr (), m))
        else
          (let stream = stream_key (wk_config (worker_of m)) queue
           in case next_entries E queue stream x of
                (Inl e, m) \<Rightarrow> Inl (Some (Inl e, m))
              | (Inr (es, reclaimed, next_reclaim, cursor), m) \<Rightarrow>
                  (case dispatch_batch E queue stream reclaimed es (change (take_ids stream (entry_ids es)) m) of
                     None \<Rightarrow> Inl None
                   | Some (Inl e, m) \<Rightarrow> Inl (Some (Inl e, m))
                   | Some (Inr False, m) \<Rightarrow> Inl (Some (Inr (), m))
                   | Some (Inr True, m) \<Rightarrow> Inr (next_reclaim, cursor, m))))"

text \<open>What \<open>_lead\<close> catches, and the release of the mutex, whose exceptions are dropped.\<close>

definition lead_failed :: "'w worker_env \<Rightarrow> string \<Rightarrow> py_exn \<Rightarrow> 'w mem \<Rightarrow> (py_exn + unit) \<times> 'w mem" where
  "lead_failed E queue e m =
     (case (case e of
          SemError (Backend b) \<Rightarrow> Some b
        | RawExn x \<Rightarrow> if redis_or_os x then Some (map_backend_error x (Some ''dispatch_lead'') (Some queue)) else None
        | _ \<Rightarrow> None) of
        None \<Rightarrow> (Inl e, m)
      | Some b \<Rightarrow>
          (let m = record_error E e m
           in (Inr (), if is_fatal b then change (stop_fatally b) m else m)))"

definition release_lead :: "'w worker_env \<Rightarrow> string \<Rightarrow> 'w mem \<Rightarrow> 'w mem" where
  "release_lead E queue m =
     (case map_of (wk_leading (worker_of m)) queue of
        None \<Rightarrow> m
      | Some t \<Rightarrow>
          if so_state (lt_mutex t) = ACQUIRED
          then (case sem_arelease (wd_sem E) (lt_mutex t) m of
              (_, S, m) \<Rightarrow> change (update_lead queue (\<lambda>t. t\<lparr>lt_mutex := S\<rparr>)) m)
          else m)"

definition lead :: "'w worker_env \<Rightarrow> string \<Rightarrow> 'w mem \<Rightarrow> ((py_exn + unit) \<times> 'w mem) option" where
  "lead E queue m =
     (let stream = stream_key (wk_config (worker_of m)) queue
      in case (case ensure_group E stream m of
           (Inl e, m) \<Rightarrow> Some (Inl e, m)
         | (Inr _, m) \<Rightarrow> Option.bind (repeat_until (lead_round E queue) (0, ''0-0'', m)) id) of
           None \<Rightarrow> None
         | Some (r, m) \<Rightarrow>
             (case (case r of Inl e \<Rightarrow> lead_failed E queue e m | Inr _ \<Rightarrow> (Inr (), m)) of
                (r, m) \<Rightarrow> Some (r, release_lead E queue m)))"

text \<open>The task of a leader: it is done when \<open>lead\<close> has returned.\<close>

definition lead_task_run :: "'w worker_env \<Rightarrow> string \<Rightarrow> 'w mem \<Rightarrow> 'w mem option" where
  "lead_task_run E queue m =
     map_option (\<lambda>(_, m). change (update_lead queue (\<lambda>t. t\<lparr>lt_done := True\<rparr>)) m) (lead E queue m)"

subsection \<open>Election\<close>

definition leader_mutex :: "worker \<Rightarrow> string \<Rightarrow> py_exn + sem_obj" where
  "leader_mutex W queue =
     new_mutex ((mutex_defaults (leader_name queue))
       \<lparr>sc_namespace := dc_namespace (wk_config W), sc_lock_timeout := dc_leader_ttl (wk_config W),
        sc_cluster_hash_tags := dc_cluster_hash_tags (wk_config W)\<rparr>) (wk_socket_timeout W)"

definition election_failed :: "'w worker_env \<Rightarrow> py_exn \<Rightarrow> 'w mem \<Rightarrow> 'w mem" where
  "election_failed E e m =
     (let m = record_error E e m
      in case e of SemError (Backend b) \<Rightarrow> if is_fatal b then change (stop_fatally b) m else m | _ \<Rightarrow> m)"

fun elect_first :: "'w worker_env \<Rightarrow> string list \<Rightarrow> 'w mem \<Rightarrow> ((py_exn + bool) \<times> 'w mem) option" where
  "elect_first E [] m = Some (Inr False, m)"
| "elect_first E (queue # queues) m =
     (case leader_mutex (worker_of m) queue of
        Inl e \<Rightarrow> Some (Inl e, m)
      | Inr S \<Rightarrow>
          (case sem_aacquire (wd_sem E) False S m of
             None \<Rightarrow> None
           | Some (Inl e, S, m) \<Rightarrow>
               if is_exception e then Some (Inr False, election_failed E e m) else Some (Inl e, m)
           | Some (Inr a, S, m) \<Rightarrow>
               (let m = change (\<lambda>W. W\<lparr>wk_last_error := None\<rparr>) m
                in if ar_success a then
                     Some (Inr True, change (\<lambda>W. W\<lparr>wk_leading := wk_leading W @ [(queue, \<lparr>lt_mutex = S, lt_done = False\<rparr>)]\<rparr>) m)
                   else elect_first E queues m)))"

definition elect :: "'w worker_env \<Rightarrow> 'w mem \<Rightarrow> ((py_exn + bool) \<times> 'w mem) option" where
  "elect E m =
     (let m = change (\<lambda>W. W\<lparr>wk_leading := filter (\<lambda>(q, t). \<not> lt_done t) (wk_leading W)\<rparr>) m; W = worker_of m
      in if set_and (\<lambda>most. most \<le> int (length (wk_leading W))) (dc_max_queues_per_worker (wk_config W))
         then Some (Inr False, m)
         else
           (let free = filter (\<lambda>q. q \<notin> fst ` set (wk_leading W)) (wk_queues W); (free, m) = wd_shuffle E free m
            in elect_first E free m))"

subsection \<open>The main loop and the shutdown\<close>

definition run_round :: "'w worker_env \<Rightarrow> 'w mem \<Rightarrow> ((py_exn + unit) \<times> 'w mem) option + 'w mem" where
  "run_round E m =
     (if wk_stopping (worker_of m) then Inl (Some (Inr (), m))
      else
        (let m = change (\<lambda>W. W\<lparr>wk_last_loop := Some (wd_monotonic E m)\<rparr>) m
         in case elect E m of
              None \<Rightarrow> Inl None
            | Some (Inl e, m) \<Rightarrow> Inl (Some (Inl e, m))
            | Some (Inr took, m) \<Rightarrow>
                (let (u, m) = (if took then wd_uniform E 0 (1 / 10) m else wd_uniform E (1 / 2) (3 / 2) m)
                 in case wd_pause E (wk_election_interval (worker_of m) * u) m of
                      (True, m) \<Rightarrow> Inl (Some (Inl cancelled_error, m))
                    | (False, m) \<Rightarrow> Inr m)))"

definition clear_run :: "worker \<Rightarrow> worker" where
  "clear_run W =
     W\<lparr>wk_leading := [], wk_taken := (\<lambda>_. []), wk_taken_order := [], wk_stream_handlers := (\<lambda>_. []), wk_requeued := [],
       wk_reclaim_now := [], wk_next_prune := (\<lambda>_. None), wk_stopping := False, wk_running := False,
       wk_last_loop := None\<rparr>"

text \<open>What the event loop runs for the task of the steps.\<close>

definition shutdown_steps :: "'w worker_env \<Rightarrow> 'w mem \<Rightarrow> 'w mem" where
  "shutdown_steps E m = change clear_run (wd_cancel_touch E (wd_gather_handlers E (wd_gather_leaders E m)))"

text \<open>The wait for the steps: whether it was cancelled, and whether they are done. A cancellation cancels
  the handlers and the wait goes on. The state: whether there was a cancellation.\<close>

definition shutdown_round :: "'w worker_env \<Rightarrow> bool \<times> 'w mem \<Rightarrow> bool \<times> 'w mem + bool \<times> 'w mem" where
  "shutdown_round E x =
     (case x of (cancelled, m) \<Rightarrow>
        (case wd_shield E m of
           ((False, _), m) \<Rightarrow> Inl (cancelled, m)
         | ((True, True), m) \<Rightarrow> Inl (True, m)
         | ((True, False), m) \<Rightarrow> Inr (True, fold (wd_request_cancel E) (wk_handlers (worker_of m)) m)))"

definition shutdown :: "'w worker_env \<Rightarrow> 'w mem \<Rightarrow> (bool \<times> 'w mem) option" where
  "shutdown E m = repeat_until (shutdown_round E) (False, m)"

definition run :: "'w worker_env \<Rightarrow> 'w mem \<Rightarrow> ((py_exn + unit) \<times> 'w mem) option" where
  "run E m =
     (if wk_running (worker_of m) then Some (Inl PyRuntimeError, m)
      else
        (case Option.bind (repeat_until (run_round E) (change (\<lambda>W. W\<lparr>wk_running := True\<rparr>) m)) id of
           None \<Rightarrow> None
         | Some (r, m) \<Rightarrow>
             (case shutdown E (change stop m) of
                None \<Rightarrow> None
              | Some (True, m) \<Rightarrow> Some (Inl cancelled_error, m)
              | Some (False, m) \<Rightarrow>
                  Some (case r of
                    Inl e \<Rightarrow> (Inl e, m)
                  | Inr _ \<Rightarrow>
                      (case wk_fatal (worker_of m) of
                         None \<Rightarrow> (Inr (), m)
                       | Some b \<Rightarrow> (Inl (SemError (Backend b)), change (\<lambda>W. W\<lparr>wk_fatal := None\<rparr>) m))))))"

end
