(* ===== verification/DispatchStreams.thy ===== *)
theory DispatchStreams
  imports DispatchWorker "HOL-Library.Sublist"
begin

section \<open>The stream of a queue and its history\<close>

text \<open>
  What producers and workers do to the stream of one queue and its consumer group, as labelled steps of
  the documented commands: submits, deliveries, claims, acknowledgements, deletions, the transaction that
  answers a job, and the pruning of a consumer, which has two steps: XINFO CONSUMERS shows that it has
  nothing pending, and later XGROUP DELCONSUMER drops what it has pending then. In any run of them a
  submitted job that decodes and has no deadline is answered, or is in the stream and not delivered yet or
  pending, so that a leader reads or reclaims it, or it was handed to a consumer between the two steps
  that pruned this consumer. The locale \<open>queue_server\<close> says that each command of a worker's environment
  does what is documented, with any steps of others around it; in it every method of the worker moves the
  stream by such steps only.
\<close>

text \<open>\<open>Handed x i\<close>: the job \<open>i\<close> became pending for the consumer \<open>x\<close>; \<open>Checked x\<close>: it had nothing pending;
  \<open>Pruned x i\<close>: \<open>x\<close> was deleted with \<open>i\<close> pending.\<close>

datatype queue_event = Submitted sid fields | Answered sid | Dropped sid
  | Handed string sid | Checked string | Pruned string sid

definition pending_ids :: "cgroup \<Rightarrow> sid set" where
  "pending_ids c = fst ` set (pending c)"

text \<open>The consumer of a pending entry, and what is pending for whom.\<close>

abbreviation consumer_of :: "sid \<times> string \<times> ms \<Rightarrow> string" where
  "consumer_of p \<equiv> fst (snd p)"

definition owned :: "cgroup \<Rightarrow> (sid \<times> string) set" where
  "owned c = (\<lambda>p. (fst p, consumer_of p)) ` set (pending c)"

lemma group_deliver:
  "pending_ids \<lparr>last_delivered = l, pending = pending c @ map (\<lambda>e. (fst e, x, t)) es\<rparr> = pending_ids c \<union> fst ` set es"
  "owned \<lparr>last_delivered = l, pending = pending c @ map (\<lambda>e. (fst e, x, t)) es\<rparr> = owned c \<union> (\<lambda>e. (fst e, x)) ` set es"
  by (simp_all add: pending_ids_def owned_def image_Un image_image)

lemma pending_filter: "i \<in> pending_ids (c\<lparr>pending := filter P (pending c)\<rparr>) \<Longrightarrow> i \<in> pending_ids c"
  by (auto simp: pending_ids_def)

definition handed :: "cgroup \<Rightarrow> cgroup \<Rightarrow> queue_event list" where
  "handed c c' = map (\<lambda>p. Handed (consumer_of p) (fst p)) (filter (\<lambda>p. (fst p, consumer_of p) \<notin> owned c) (pending c'))"

text \<open>A job no worker may drop: it decodes and has no deadline.\<close>

definition lasting :: "fields \<Rightarrow> bool" where
  "lasting fs \<longleftrightarrow> (case decode_fields (raw_fields RawStr fs) of Some (i, p, t, None) \<Rightarrow> True | _ \<Rightarrow> False)"

definition without_entry :: "sid \<Rightarrow> stream \<Rightarrow> stream" where
  "without_entry i st = st\<lparr>entries := filter (\<lambda>e. fst e \<noteq> i) (entries st)\<rparr>"

definition without_pending :: "string \<Rightarrow> sid \<Rightarrow> stream \<Rightarrow> stream" where
  "without_pending g i st = st\<lparr>groups := (groups st)
     (g := map_option (\<lambda>c. c\<lparr>pending := filter (\<lambda>p. fst p \<noteq> i) (pending c)\<rparr>) (groups st g))\<rparr>"

definition without_consumer :: "string \<Rightarrow> string \<Rightarrow> stream \<Rightarrow> stream" where
  "without_consumer g x st = st\<lparr>groups := (groups st)
     (g := map_option (\<lambda>c. c\<lparr>pending := filter (\<lambda>p. consumer_of p \<noteq> x) (pending c)\<rparr>) (groups st g))\<rparr>"

definition pruned :: "string \<Rightarrow> string \<Rightarrow> stream \<Rightarrow> queue_event list" where
  "pruned g x st = (case groups st g of None \<Rightarrow> []
     | Some c \<Rightarrow> map (\<lambda>p. Pruned x (fst p)) (filter (\<lambda>p. consumer_of p = x) (pending c)))"

text \<open>The steps of a stream, with the set of consumers that were checked.\<close>

inductive queue_step :: "string \<Rightarrow> stream \<Rightarrow> string set \<Rightarrow> queue_event list \<Rightarrow> stream \<Rightarrow> string set \<Rightarrow> bool" for g
where
  q_submit: "\<forall>e \<in> set (entries st). fst e < i \<Longrightarrow> \<forall>c. groups st g = Some c \<longrightarrow> last_delivered c < i \<Longrightarrow>
    Sid 0 0 < i \<Longrightarrow> fs \<noteq> [] \<Longrightarrow> queue_step g st X [Submitted i fs] (st\<lparr>entries := entries st @ [(i, fs)]\<rparr>) X"
| q_group: "groups st g = None \<Longrightarrow>
    queue_step g st X [] (st\<lparr>groups := (groups st)(g \<mapsto> \<lparr>last_delivered = Sid 0 0, pending = []\<rparr>)\<rparr>) X"
| q_deliver: "groups st g = Some c \<Longrightarrow> es = take n (filter (\<lambda>e. last_delivered c < fst e) (entries st)) \<Longrightarrow> es \<noteq> [] \<Longrightarrow>
    queue_step g st X (map (\<lambda>e. Handed consumer (fst e)) es) (st\<lparr>groups := (groups st)(g \<mapsto> \<lparr>last_delivered = fst (last es),
      pending = pending c @ map (\<lambda>e. (fst e, consumer, now)) es\<rparr>)\<rparr>) X"
| q_claim: "groups st g = Some c \<Longrightarrow> pending_ids c' \<subseteq> pending_ids c \<Longrightarrow>
    pending_ids c \<inter> fst ` set (entries st) \<subseteq> pending_ids c' \<Longrightarrow> last_delivered c' = last_delivered c \<Longrightarrow>
    \<forall>p \<in> set (pending c'). consumer_of p = consumer \<or> (fst p, consumer_of p) \<in> owned c \<Longrightarrow>
    queue_step g st X (handed c c') (st\<lparr>groups := (groups st)(g \<mapsto> c')\<rparr>) X"
| q_answer: "queue_step g st X [Answered i] (without_entry i (without_pending g i st)) X"
| q_ack: "\<forall>fs. (i, fs) \<in> set (entries st) \<longrightarrow> \<not> lasting fs \<Longrightarrow> queue_step g st X [] (without_pending g i st) X"
| q_delete: "\<forall>fs. (i, fs) \<in> set (entries st) \<longrightarrow> \<not> lasting fs \<Longrightarrow>
    queue_step g st X [Dropped i] (without_entry i st) X"
| q_check: "\<forall>c. groups st g = Some c \<longrightarrow> x \<notin> snd ` owned c \<Longrightarrow> queue_step g st X [Checked x] st (insert x X)"
| q_prune: "x \<in> X \<Longrightarrow> queue_step g st X (pruned g x st) (without_consumer g x st) X"

inductive queue_run :: "string \<Rightarrow> stream \<Rightarrow> string set \<Rightarrow> queue_event list \<Rightarrow> stream \<Rightarrow> string set \<Rightarrow> bool" for g
where
  queue_nil: "queue_run g st X [] st X"
| queue_snoc: "queue_run g st X tr u Y \<Longrightarrow> queue_step g u Y ev v Z \<Longrightarrow> queue_run g st X (tr @ ev) v Z"

text \<open>The ids grow along the stream, and what is pending was delivered.\<close>

definition stream_ok :: "string \<Rightarrow> stream \<Rightarrow> bool" where
  "stream_ok g st \<longleftrightarrow>
     sorted_wrt (\<lambda>a b. fst a < fst b) (entries st) \<and>
     (\<forall>e \<in> set (entries st). Sid 0 0 < fst e \<and> snd e \<noteq> []) \<and>
     (\<forall>c. groups st g = Some c \<longrightarrow> (\<forall>i \<in> pending_ids c. Sid 0 0 < i \<and> i \<le> last_delivered c))"

text \<open>Nothing lasting is lost.\<close>

definition kept :: "string \<Rightarrow> sid \<Rightarrow> fields \<Rightarrow> stream \<Rightarrow> bool" where
  "kept g i fs st \<longleftrightarrow> (i, fs) \<in> set (entries st) \<and>
     (case groups st g of None \<Rightarrow> True | Some c \<Rightarrow> last_delivered c < i \<or> i \<in> pending_ids c)"

text \<open>A job that is pending for a checked consumer was handed to it after the check.\<close>

definition history_ok :: "string \<Rightarrow> queue_event list \<Rightarrow> stream \<Rightarrow> string set \<Rightarrow> bool" where
  "history_ok g tr st X \<longleftrightarrow> (\<forall>x \<in> X. Checked x \<in> set tr \<and>
     (\<forall>c i. groups st g = Some c \<longrightarrow> (i, x) \<in> owned c \<longrightarrow> subseq [Checked x, Handed x i] tr))"

text \<open>A job that was handed to a consumer between the check and the deletion that pruned this consumer.\<close>

definition pruned_away :: "sid \<Rightarrow> queue_event list \<Rightarrow> bool" where
  "pruned_away i tr \<longleftrightarrow> (\<exists>x. subseq [Checked x, Handed x i, Pruned x i] tr)"

definition queue_inv :: "string \<Rightarrow> queue_event list \<Rightarrow> stream \<Rightarrow> string set \<Rightarrow> bool" where
  "queue_inv g tr st X \<longleftrightarrow> stream_ok g st \<and> history_ok g tr st X \<and>
     (\<forall>i fs. Submitted i fs \<in> set tr \<longrightarrow> lasting fs \<longrightarrow> Answered i \<in> set tr \<or> kept g i fs st \<or> pruned_away i tr)"

lemma sorted_entry_unique:
  "sorted_wrt (\<lambda>a b. fst a < (fst b :: 'a :: linorder)) es \<Longrightarrow> (i, x) \<in> set es \<Longrightarrow> (i, y) \<in> set es \<Longrightarrow> x = y"
  by (induction es) auto

lemma sorted_take_last:
  fixes es :: "('a :: linorder \<times> 'b) list"
  assumes "sorted_wrt (\<lambda>a b. fst a < fst b) es" and "take n es \<noteq> []" and "e \<in> set es"
  shows "e \<in> set (take n es) \<or> fst (last (take n es)) < fst e"
proof -
  have "e \<in> set (take n es) \<or> e \<in> set (drop n es)" using assms(3) by (metis Un_iff append_take_drop_id set_append)
  moreover have "sorted_wrt (\<lambda>a b. fst a < fst b) (take n es @ drop n es)" using assms(1) by simp
  ultimately show ?thesis using last_in_set [OF assms(2)] by (auto simp only: sorted_wrt_append)
qed

lemma sorted_last_max:
  fixes es :: "('a :: linorder \<times> 'b) list"
  shows "sorted_wrt (\<lambda>a b. fst a < fst b) es \<Longrightarrow> e \<in> set es \<Longrightarrow> fst e \<le> fst (last es)"
proof (induction es)
  case (Cons a es)
  show ?case
  proof (cases "es = []")
    case False
    then have "fst a \<le> fst (last es)" using Cons.prems(1) by (simp add: less_imp_le)
    with False Cons show ?thesis by auto
  qed (use Cons.prems in simp)
qed simp

lemma queue_step_ok:
  assumes "queue_step g st X ev st' X'" and ok: "stream_ok g st"
  shows "stream_ok g st'"
  using assms(1)
proof cases
  case (q_submit i fs)
  then show ?thesis using ok by (fastforce simp: stream_ok_def sorted_wrt_append)
next
  case q_group
  then show ?thesis using ok by (simp add: stream_ok_def pending_ids_def)
next
  case (q_deliver c es n consumer now)
  let ?new = "filter (\<lambda>e. last_delivered c < fst e) (entries st)"
  note es = \<open>es = take n ?new\<close> \<open>es \<noteq> []\<close>
  have s: "sorted_wrt (\<lambda>a b. fst a < fst b) es"
    using ok es(1) by (simp add: stream_ok_def sorted_wrt_filter sorted_wrt_take)
  have sub: "set es \<subseteq> set ?new" using es(1) set_take_subset by fastforce
  have "last es \<in> set ?new" using sub es(2) by (meson last_in_set subsetD)
  then have l: "last_delivered c < fst (last es)" by simp
  have "Sid 0 0 < i \<and> i \<le> fst (last es)" if "i \<in> pending_ids c" for i
    using that ok \<open>groups st g = Some c\<close> l by (fastforce simp: stream_ok_def)
  moreover have "Sid 0 0 < fst e \<and> fst e \<le> fst (last es)" if "e \<in> set es" for e
    using that ok sub sorted_last_max [OF s that] by (auto simp: stream_ok_def)
  ultimately show ?thesis using ok q_deliver by (auto simp: stream_ok_def pending_ids_def)
next
  case (q_claim c c' consumer)
  then show ?thesis using ok by (fastforce simp: stream_ok_def)
next
  case (q_answer i)
  then show ?thesis using ok
    by (fastforce simp: stream_ok_def without_entry_def without_pending_def pending_ids_def sorted_wrt_filter split: option.splits)
next
  case (q_ack i)
  then show ?thesis using ok
    by (fastforce simp: stream_ok_def without_pending_def pending_ids_def split: option.splits)
next
  case (q_delete i)
  then show ?thesis using ok by (auto simp: stream_ok_def without_entry_def sorted_wrt_filter)
next
  case (q_check x)
  then show ?thesis using ok by simp
next
  case (q_prune x)
  then show ?thesis using ok by (fastforce simp: stream_ok_def without_consumer_def pending_ids_def split: option.splits)
qed

lemma subseq_more: "subseq xs tr \<Longrightarrow> subseq xs (tr @ ev)"
  by (rule subseq_rev_drop_many)

lemma pruned_away_more: "pruned_away i tr \<Longrightarrow> pruned_away i (tr @ ev)"
  unfolding pruned_away_def by (blast intro: subseq_more)

lemma subseq_snd: "subseq xs tr \<Longrightarrow> e \<in> set ev \<Longrightarrow> subseq (xs @ [e]) (tr @ ev)"
  by (rule list_emb_append_mono) (simp_all add: subseq_singleton_left)

lemma in_subseq_snd: "a \<in> set tr \<Longrightarrow> e \<in> set ev \<Longrightarrow> subseq [a, e] (tr @ ev)"
  using subseq_snd [of "[a]"] by (simp add: subseq_singleton_left)

text \<open>The history stays right when whatever is new in the group was handed out, and nothing is pending for
  a consumer that is checked.\<close>

lemma history_keep:
  assumes "history_ok g tr st X" and "X' = X"
    and "\<And>c' i x. groups st' g = Some c' \<Longrightarrow> (i, x) \<in> owned c' \<Longrightarrow>
      (\<exists>c. groups st g = Some c \<and> (i, x) \<in> owned c) \<or> Handed x i \<in> set ev"
  shows "history_ok g (tr @ ev) st' X'"
  unfolding history_ok_def
proof (intro ballI conjI allI impI)
  fix x assume "x \<in> X'"
  with assms(1,2) have x: "Checked x \<in> set tr"
    and h: "\<And>c i. groups st g = Some c \<Longrightarrow> (i, x) \<in> owned c \<Longrightarrow> subseq [Checked x, Handed x i] tr"
    by (simp_all add: history_ok_def)
  from x show "Checked x \<in> set (tr @ ev)" by simp
  fix c' i assume "groups st' g = Some c'" "(i, x) \<in> owned c'"
  from assms(3) [OF this] show "subseq [Checked x, Handed x i] (tr @ ev)"
    using h x by (blast intro: subseq_more in_subseq_snd)
qed

lemma queue_step_history:
  assumes st: "queue_step g st X ev st' X'" and h: "history_ok g tr st X"
  shows "history_ok g (tr @ ev) st' X'"
  using st
proof cases
  case (q_check x)
  have "x \<in> X'" "(i, x) \<notin> owned c" if "groups st g = Some c" for i c using q_check that by force+
  with q_check h show ?thesis by (auto simp: history_ok_def intro: subseq_more)
next
  case (q_deliver c es n consumer now)
  then show ?thesis by (intro history_keep [OF h]) (auto simp: group_deliver image_iff)
next
  case (q_claim c c' consumer)
  then show ?thesis by (intro history_keep [OF h]) (auto simp: handed_def owned_def image_iff)
qed (rule history_keep [OF h];
  fastforce simp: owned_def without_entry_def without_pending_def without_consumer_def split: if_splits)+

lemma queue_inv_keep:
  assumes "queue_inv g tr st X" and "queue_step g st X ev st' X'" and "\<And>i fs. Submitted i fs \<notin> set ev"
    and "\<And>i fs. kept g i fs st \<Longrightarrow> lasting fs \<Longrightarrow> Answered i \<notin> set ev \<Longrightarrow> kept g i fs st' \<or> pruned_away i (tr @ ev)"
  shows "queue_inv g (tr @ ev) st' X'"
proof -
  have "Answered i \<in> set (tr @ ev) \<or> kept g i fs st' \<or> pruned_away i (tr @ ev)"
    if "Submitted i fs \<in> set (tr @ ev)" "lasting fs" for i fs
    using that assms(1,3,4) pruned_away_more unfolding queue_inv_def set_append by blast
  then show ?thesis
    using assms(1) queue_step_ok [OF assms(2)] queue_step_history [OF assms(2)] by (simp add: queue_inv_def)
qed

lemma queue_step_inv:
  assumes st: "queue_step g st X ev st' X'" and inv: "queue_inv g tr st X"
  shows "queue_inv g (tr @ ev) st' X'"
proof -
  have ok: "stream_ok g st" and hist: "history_ok g tr st X" using inv by (simp_all add: queue_inv_def)
  note keep = queue_inv_keep [OF inv st]
  from st show ?thesis
  proof cases
    case (q_submit i fs)
    then show ?thesis using inv queue_step_ok [OF st ok] queue_step_history [OF st hist] pruned_away_more
      by (fastforce simp: queue_inv_def kept_def split: option.splits)
  next
    case q_group
    then show ?thesis using ok by (intro keep) (auto simp: kept_def stream_ok_def)
  next
    case (q_deliver c es n consumer now)
    have s: "sorted_wrt (\<lambda>a b. fst a < fst b) (filter (\<lambda>e. last_delivered c < fst e) (entries st))"
      using ok by (simp add: stream_ok_def sorted_wrt_filter)
    have "kept g i fs st'" if "kept g i fs st" for i fs
      using that sorted_take_last [OF s, of n "(i, fs)"] q_deliver
      by (force simp: kept_def pending_ids_def)
    then show ?thesis using q_deliver by (intro keep) auto
  next
    case (q_claim c c' consumer)
    have "kept g i fs st'" if "kept g i fs st" for i fs
      using that q_claim by (force simp: kept_def)
    then show ?thesis using q_claim by (intro keep) (auto simp: handed_def)
  next
    case (q_answer i)
    have "kept g j fs st'" if "kept g j fs st" "j \<noteq> i" for j fs
      using that q_answer by (force simp: kept_def without_entry_def without_pending_def pending_ids_def split: option.splits)
    then show ?thesis using q_answer by (intro keep) auto
  next
    case (q_ack i)
    have "kept g j fs st'" if "kept g j fs st" "lasting fs" for j fs
      using that q_ack by (force simp: kept_def without_pending_def pending_ids_def split: option.splits)
    then show ?thesis using q_ack by (intro keep) auto
  next
    case (q_delete i)
    have "kept g j fs st'" if "kept g j fs st" "lasting fs" for j fs
      using that q_delete by (force simp: kept_def without_entry_def split: option.splits)
    then show ?thesis using q_delete by (intro keep) auto
  next
    case (q_check x)
    then show ?thesis by (intro keep) auto
  next
    case (q_prune x)
    have "kept g i fs st' \<or> pruned_away i (tr @ ev)" if k: "kept g i fs st" for i fs
    proof (cases "\<exists>c. groups st g = Some c \<and> (i, x) \<in> owned c")
      case True
      then obtain c where c: "groups st g = Some c" "(i, x) \<in> owned c" by blast
      then have "Pruned x i \<in> set ev" using q_prune by (auto simp: pruned_def owned_def)
      moreover have "subseq [Checked x, Handed x i] tr" using hist q_prune c by (auto simp: history_ok_def)
      ultimately have "subseq ([Checked x, Handed x i] @ [Pruned x i]) (tr @ ev)" by (rule subseq_snd [rotated])
      then show ?thesis by (auto simp: pruned_away_def)
    next
      case False
      with k q_prune show ?thesis
        by (force simp: kept_def without_consumer_def pending_ids_def owned_def split: option.splits)
    qed
    then show ?thesis using q_prune by (intro keep) (auto simp: pruned_def split: option.splits)
  qed
qed

lemma queue_run_inv: "queue_run g st X tr st' X' \<Longrightarrow> queue_inv g [] st X \<Longrightarrow> queue_inv g tr st' X'"
  by (induction rule: queue_run.induct) (auto intro: queue_step_inv)

lemma queue_run_ok: "queue_run g st X tr st' X' \<Longrightarrow> stream_ok g st \<Longrightarrow> stream_ok g st'"
  by (induction rule: queue_run.induct) (auto intro: queue_step_ok)

lemma queue_run_append:
  "queue_run g u Y tr2 v Z \<Longrightarrow> queue_run g st X tr1 u Y \<Longrightarrow> queue_run g st X (tr1 @ tr2) v Z"
  by (induction rule: queue_run.induct) (auto simp flip: append_assoc intro: queue_snoc)

lemma queue_run_one: "queue_step g st X ev st' X' \<Longrightarrow> queue_run g st X ev st' X'"
  using queue_snoc [OF queue_nil] by fastforce

lemma queue_step_checked: "queue_step g st X ev st' X' \<Longrightarrow> X \<subseteq> X'"
  by (auto elim: queue_step.cases)

lemma queue_run_checked: "queue_run g st X tr st' X' \<Longrightarrow> X \<subseteq> X'"
  by (induction rule: queue_run.induct) (use queue_step_checked in \<open>blast+\<close>)

lemma queue_run_check: "queue_run g st X tr st' X' \<Longrightarrow> Checked x \<in> set tr \<Longrightarrow> x \<in> X'"
proof (induction rule: queue_run.induct)
  case (queue_snoc st X tr u Y ev v Z)
  have "Checked x \<in> set ev \<Longrightarrow> x \<in> Z"
    using queue_snoc.hyps(2) by cases (auto simp: handed_def pruned_def split: option.splits)
  with queue_snoc queue_step_checked [OF queue_snoc.hyps(2)] show ?case by auto
qed simp

subsection \<open>What a worker knows about an entry\<close>

definition reach :: "string \<Rightarrow> stream \<Rightarrow> string set \<Rightarrow> stream \<Rightarrow> string set \<Rightarrow> bool" where
  "reach g st X st' X' \<longleftrightarrow> (\<exists>tr. queue_run g st X tr st' X')"

lemma reach_refl: "reach g st X st X"
  unfolding reach_def by (blast intro: queue_nil)

lemma reach_trans: "reach g st X u Y \<Longrightarrow> reach g u Y v Z \<Longrightarrow> reach g st X v Z"
  unfolding reach_def by (blast intro: queue_run_append)

lemma reach_ok: "reach g st X st' X' \<Longrightarrow> stream_ok g st \<Longrightarrow> stream_ok g st'"
  unfolding reach_def by (blast intro: queue_run_ok)

lemma reach_step: "queue_step g st X ev st' X' \<Longrightarrow> reach g st X st' X'"
  unfolding reach_def by (blast intro: queue_run_one)

lemma reach_checked: "reach g st X st' X' \<Longrightarrow> X \<subseteq> X'"
  unfolding reach_def by (blast dest: queue_run_checked)

text \<open>An id that was delivered: no entry gets it again.\<close>

definition settled :: "string \<Rightarrow> sid \<Rightarrow> stream \<Rightarrow> bool" where
  "settled g i st \<longleftrightarrow> Sid 0 0 < i \<and> (\<exists>c. groups st g = Some c \<and> i \<le> last_delivered c)"

lemma settled_step:
  assumes "queue_step g st X ev st' X'" and "settled g i st"
  shows "settled g i st' \<and> ((i, fs) \<in> set (entries st') \<longrightarrow> (i, fs) \<in> set (entries st))"
  using assms(1)
proof cases
  case (q_deliver c es n consumer now)
  then have "last es \<in> set (filter (\<lambda>e. last_delivered c < fst e) (entries st))"
    by (metis in_set_takeD last_in_set)
  with q_deliver assms(2) show ?thesis by (auto simp: settled_def)
qed (use assms(2) in \<open>auto simp: settled_def without_entry_def without_pending_def without_consumer_def\<close>)

lemma settled_reach:
  assumes "reach g st X st' X'" and "settled g i st"
  shows "settled g i st' \<and> ((i, fs) \<in> set (entries st') \<longrightarrow> (i, fs) \<in> set (entries st))"
proof -
  obtain tr where "queue_run g st X tr st' X'" using assms(1) by (auto simp: reach_def)
  then show ?thesis using assms(2) by (induction rule: queue_run.induct) (use settled_step in \<open>blast+\<close>)
qed

text \<open>A job that was delivered and is pending for nobody stays so: it is never read or claimed again, and it
  stays in the stream until it is answered.\<close>

definition forgotten :: "string \<Rightarrow> sid \<Rightarrow> stream \<Rightarrow> bool" where
  "forgotten g i st \<longleftrightarrow> settled g i st \<and> (\<forall>c. groups st g = Some c \<longrightarrow> i \<notin> pending_ids c)"

lemma forgotten_not_kept: "forgotten g i st \<Longrightarrow> \<not> kept g i fs st"
  by (auto simp: forgotten_def settled_def kept_def)

lemma forgotten_step:
  assumes "queue_step g st X ev st' X'" and "forgotten g i st"
  shows "forgotten g i st' \<and> (lasting fs \<longrightarrow> (i, fs) \<in> set (entries st) \<longrightarrow> (i, fs) \<in> set (entries st') \<or> Answered i \<in> set ev)"
proof -
  have s: "settled g i st'" using settled_step [OF assms(1)] assms(2) by (auto simp: forgotten_def)
  from assms(1) show ?thesis
  proof cases
    case (q_deliver c es n consumer now)
    have "set es \<subseteq> set (filter (\<lambda>e. last_delivered c < fst e) (entries st))" using q_deliver set_take_subset by fastforce
    then have "i \<notin> fst ` set es" using assms(2) q_deliver by (force simp: forgotten_def settled_def)
    with s assms(2) q_deliver(1,2) \<open>groups st g = Some c\<close> show ?thesis by (simp add: forgotten_def group_deliver)
  qed (use s assms(2) in \<open>auto simp: forgotten_def pending_ids_def [of "\<lparr>last_delivered = _, pending = []\<rparr>"]
    without_entry_def without_pending_def without_consumer_def dest: pending_filter\<close>)
qed

lemma forgotten_run:
  assumes "queue_run g st X tr st' X'" and "forgotten g i st" and "lasting fs" and "(i, fs) \<in> set (entries st)"
  shows "forgotten g i st' \<and> ((i, fs) \<in> set (entries st') \<or> Answered i \<in> set tr)"
  using assms by (induction rule: queue_run.induct) (use forgotten_step in \<open>fastforce+\<close>)

text \<open>What a reply says of an entry: it was delivered, and unless it is gone it has these fields.\<close>

definition known :: "string \<Rightarrow> raw_entry \<Rightarrow> stream \<Rightarrow> bool" where
  "known g e st \<longleftrightarrow>
     (case e of (None, _) \<Rightarrow> True
      | (Some t, rfs) \<Rightarrow> \<exists>i. sid_str i = text_of t \<and> settled g i st \<and>
          (\<forall>fs. (i, fs) \<in> set (entries st) \<longrightarrow> rfs \<noteq> [] \<and> map (\<lambda>(a, b). (text_of a, text_of b)) rfs = fs))"

definition droppable :: "string \<Rightarrow> string \<Rightarrow> stream \<Rightarrow> bool" where
  "droppable g t st \<longleftrightarrow>
     (\<exists>i. sid_str i = t \<and> settled g i st \<and> (\<forall>fs. (i, fs) \<in> set (entries st) \<longrightarrow> \<not> lasting fs))"

lemma known_reach: "reach g st X st' X' \<Longrightarrow> known g e st \<Longrightarrow> known g e st'"
proof -
  assume r: "reach g st X st' X'" and kn: "known g e st"
  obtain t rfs where e: "e = (t, rfs)" by (cases e)
  show "known g e st'"
  proof (cases t)
    case (Some t)
    with kn e obtain i where "sid_str i = text_of t" "settled g i st"
      "\<forall>fs. (i, fs) \<in> set (entries st) \<longrightarrow> rfs \<noteq> [] \<and> map (\<lambda>(a, b). (text_of a, text_of b)) rfs = fs"
      by (auto simp: known_def)
    then have "sid_str i = text_of t \<and> settled g i st' \<and>
        (\<forall>fs. (i, fs) \<in> set (entries st') \<longrightarrow> rfs \<noteq> [] \<and> map (\<lambda>(a, b). (text_of a, text_of b)) rfs = fs)"
      using settled_reach [OF r] by blast
    then show ?thesis by (auto simp: known_def e Some)
  qed (simp add: known_def e)
qed

lemma droppable_reach: "reach g st X st' X' \<Longrightarrow> droppable g t st \<Longrightarrow> droppable g t st'"
  unfolding droppable_def using settled_reach by blast

lemma decode_fields_texts:
  "map (\<lambda>(a, b). (text_of a, text_of b)) rfs = fs \<Longrightarrow> decode_fields rfs = decode_fields (raw_fields RawStr fs)"
proof -
  assume "map (\<lambda>(a, b). (text_of a, text_of b)) rfs = fs"
  moreover have "map (\<lambda>(k, v). (text_of k, text_of v)) (raw_fields RawStr fs) = fs"
    by (induction fs) (auto simp: raw_fields_def)
  ultimately show ?thesis by (simp add: decode_fields_def)
qed

lemma known_droppable:
  assumes "known g (Some t, rfs) st" and "rfs = [] \<or> (case decode_job W q i rfs r of None \<Rightarrow> True | Some j \<Rightarrow> jb_deadline j \<noteq> None)"
  shows "droppable g (text_of t) st"
proof -
  obtain i where i: "sid_str i = text_of t" "settled g i st"
    "\<And>fs. (i, fs) \<in> set (entries st) \<Longrightarrow> rfs \<noteq> [] \<and> map (\<lambda>(a, b). (text_of a, text_of b)) rfs = fs"
    using assms(1) by (auto simp: known_def)
  have "\<not> lasting fs" if "(i, fs) \<in> set (entries st)" for fs
    using i(3) [OF that] assms(2) decode_fields_texts [of rfs fs]
    by (auto simp: lasting_def decode_job_def new_job_def split: option.splits)
  with i show ?thesis by (auto simp: droppable_def)
qed

subsection \<open>The contract of the environment\<close>

text \<open>The memory of a worker with configuration \<open>c\<close> and name \<open>n\<close>, and what may have happened to it and
  to the stream from one point of a coroutine to a later one. \<open>D x\<close>: XINFO CONSUMERS has shown, to this
  worker or another, that the consumer \<open>x\<close> had nothing pending.\<close>

definition ours_mem :: "dispatch_config \<Rightarrow> string \<Rightarrow> ('w \<Rightarrow> stream) \<Rightarrow> 'w mem \<Rightarrow> bool" where
  "ours_mem c n S m \<longleftrightarrow> wk_config (fst m) = c \<and> wk_id (fst m) = n \<and> stream_ok (dc_group c) (S (snd m))"

definition calm_mem ::
  "dispatch_config \<Rightarrow> string \<Rightarrow> ('w \<Rightarrow> stream) \<Rightarrow> (string \<Rightarrow> 'w \<Rightarrow> bool) \<Rightarrow> 'w mem \<Rightarrow> 'w mem \<Rightarrow> bool" where
  "calm_mem c n S D m m' \<longleftrightarrow>
     (ours_mem c n S m \<longrightarrow> ours_mem c n S m' \<and>
        reach (dc_group c) (S (snd m)) {x. D x (snd m)} (S (snd m')) {x. D x (snd m')})"

text \<open>
  Every operation moves the stream by steps: its own, if it is not lost, and those of others. A reply
  that gives entries tells what the stream has, one that gives consumers with nothing pending that they had
  nothing pending. Of XGROUP DELCONSUMER only the use is limited: the consumer was shown with nothing
  pending before, which is what \<open>_reclaim\<close> looks at.
\<close>

locale queue_server =
  fixes E :: "'w worker_env" and S :: "'w \<Rightarrow> stream" and D :: "string \<Rightarrow> 'w \<Rightarrow> bool"
    and c :: dispatch_config and n :: string and k :: key
  assumes metric_law: "calm_mem c n S D m (wd_metric E call m)"
    and release_law: "calm_mem c n S D m (snd (snd (sem_arelease (wd_sem E) M m)))"
    and create_law: "calm_mem c n S D m (snd (wd_xgroup_create E k (dc_group c) m))"
    and read_law: "calm_mem c n S D m (snd (wd_xreadgroup E (dc_group c) n k start most block m))"
    and read_known: "ours_mem c n S m \<Longrightarrow> wd_xreadgroup E (dc_group c) n k start most block m = (Inr rd, m') \<Longrightarrow>
      e \<in> set (reply_entries rd) \<Longrightarrow> known (dc_group c) e (S (snd m'))"
    and time_law: "calm_mem c n S D m (snd (wd_server_time E m))"
    and autoclaim_law: "calm_mem c n S D m (snd (wd_xautoclaim E k (dc_group c) n idle start most m))"
    and autoclaim_known: "ours_mem c n S m \<Longrightarrow> wd_xautoclaim E k (dc_group c) n idle start most m = (Inr (cursor, es), m') \<Longrightarrow>
      e \<in> set es \<Longrightarrow> known (dc_group c) e (S (snd m'))"
    and consumers_law: "calm_mem c n S D m (snd (wd_xinfo_consumers E k (dc_group c) m))"
    and checked_law: "ours_mem c n S m \<Longrightarrow> wd_xinfo_consumers E k (dc_group c) m = (Inr infos, m') \<Longrightarrow>
      ci \<in> set infos \<Longrightarrow> ci_pending ci = 0 \<Longrightarrow> D (text_of (ci_name ci)) (snd m')"
    and delconsumer_law: "(ours_mem c n S m \<Longrightarrow> D dead (snd m)) \<Longrightarrow>
      calm_mem c n S D m (snd (wd_xgroup_delconsumer E k (dc_group c) dead m))"
    and claim_law: "calm_mem c n S D m (snd (wd_xclaim E stream (dc_group c) n 0 ids new_idle m))"
    and ack_law: "(ours_mem c n S m \<Longrightarrow> droppable (dc_group c) i (S (snd m))) \<Longrightarrow>
      calm_mem c n S D m (snd (wd_xack E k (dc_group c) i m))"
    and del_law: "(ours_mem c n S m \<Longrightarrow> droppable (dc_group c) i (S (snd m))) \<Longrightarrow>
      calm_mem c n S D m (snd (wd_xdel E k i m))"
    and transaction_law: "calm_mem c n S D m (snd (wd_transaction E
      [FLPush rk reply, FPExpire rk t, FXAck k (dc_group c) i, FXDel k i] m))"
    and await_laws: "calm_mem c n S D m (wd_sleep E d m)" "calm_mem c n S D m (snd (wd_claim_lock E m))"
      "calm_mem c n S D m (snd (wd_wait_stopping E d m))" "calm_mem c n S D m (snd (wd_wait_any E tids d m))"
      "calm_mem c n S D m (snd (wd_wait_settled E tid d m))"
      "calm_mem c n S D m (snd (wd_handler E tid m))"
    and cancel_law: "wd_cancel E tid m = Some r \<Longrightarrow> calm_mem c n S D m (snd r)"
begin

abbreviation ours :: "'w mem \<Rightarrow> bool" where "ours \<equiv> ours_mem c n S"
abbreviation calm :: "'w mem \<Rightarrow> 'w mem \<Rightarrow> bool" where "calm \<equiv> calm_mem c n S D"

lemma calm_same: "calm m m"
  by (simp add: calm_mem_def reach_refl)

lemma calm_then: "calm m u \<Longrightarrow> calm u v \<Longrightarrow> calm m v"
  unfolding calm_mem_def by (blast intro: reach_trans)

lemma calm_change: "(\<And>W. wk_config (h W) = wk_config W) \<Longrightarrow> (\<And>W. wk_id (h W) = wk_id W) \<Longrightarrow> calm m (change h m)"
  by (simp add: calm_mem_def ours_mem_def change_def reach_refl)

lemma calm_seq:
  assumes "calm m (snd r)" and "\<And>a u. r = (Inr a, u) \<Longrightarrow> calm u (snd (f a u))"
  shows "calm m (snd (seq r f))"
  using assms by (cases r; cases "fst r") (auto simp: seq_def intro: calm_then)

lemma calm_oursI: "(ours m \<Longrightarrow> calm m m') \<Longrightarrow> calm m m'"
  by (auto simp: calm_mem_def)

lemma ours_facts: "ours m \<Longrightarrow> wk_config (fst m) = c" "ours m \<Longrightarrow> wk_id (fst m) = n" "ours m \<Longrightarrow> grp m = dc_group c"
  by (simp_all add: ours_mem_def grp_def)

lemma calm_ours: "calm m m' \<Longrightarrow> ours m \<Longrightarrow> ours m'"
  by (simp add: calm_mem_def)

lemma calm_checked: "calm m m' \<Longrightarrow> ours m \<Longrightarrow> D x (snd m) \<Longrightarrow> D x (snd m')"
  using reach_checked by (fastforce simp: calm_mem_def)

lemma calm_known: "calm m m' \<Longrightarrow> ours m \<Longrightarrow> known (dc_group c) e (S (snd m)) \<Longrightarrow> known (dc_group c) e (S (snd m'))"
  unfolding calm_mem_def by (blast intro: known_reach)

lemma calm_droppable: "calm m m' \<Longrightarrow> ours m \<Longrightarrow> droppable (dc_group c) i (S (snd m)) \<Longrightarrow> droppable (dc_group c) i (S (snd m'))"
  unfolding calm_mem_def by (blast intro: droppable_reach)

end

end
