(* ===== verification/DispatchSafety.thy ===== *)
theory DispatchSafety
  imports DispatchStreams
begin

section \<open>A worker keeps the jobs\<close>

text \<open>
  In any environment that keeps the contract \<open>queue_server\<close> the methods of a worker move the stream of
  its queue by documented steps only: they drop an entry only when it is malformed, has a deadline or is
  gone already, and delete only consumers that XINFO CONSUMERS showed with nothing pending.
\<close>

context queue_server
begin

abbreviation G :: string where "G \<equiv> dc_group c"

text \<open>What an operation that reads entries gives.\<close>

abbreviation all_known :: "raw_entry list \<Rightarrow> 'w mem \<Rightarrow> bool" where
  "all_known es m \<equiv> ours m \<longrightarrow> (\<forall>e \<in> set es. known G e (S (snd m)))"

lemma all_known_calm: "all_known es m \<Longrightarrow> calm m m' \<Longrightarrow> ours m \<Longrightarrow> all_known es m'"
  using calm_known by blast

lemma calm_result: "f = (r, m') \<Longrightarrow> calm m (snd f) \<Longrightarrow> calm m m'"
  by simp

lemma calm_raising: "calm m (snd r) \<Longrightarrow> calm m (snd (raising r))"
  by (cases r; cases "fst r") (auto simp: raising_def)

lemma calm_waited: "calm m (snd r) \<Longrightarrow> calm m (snd (waited r))"
  by (cases r; cases "fst r") (auto simp: waited_def)

lemma calm_count: "calm m (count_job E queue result m)"
  by (simp add: count_job_def record_job_def metric_law calm_same)

lemma calm_count_n: "calm m ((count_job E queue result ^^ abandoned) m)"
  by (induction abandoned) (auto intro: calm_same calm_then calm_count)

lemma calm_ensure: "calm m (snd (ensure_group E k m))"
proof (rule calm_oursI)
  assume cf: "ours m"
  from create_law [of m] show "calm m (snd (ensure_group E k m))"
    by (auto simp: ensure_group_def ours_facts(3) [OF cf] split: prod.splits option.splits)
qed

lemma calm_or_ensure:
  "calm m u \<Longrightarrow> calm m (snd (if no_group e then seq (ensure_group E k u) (\<lambda>_ m. (Inr x, m)) else (Inl y, u)))"
  by (auto intro!: calm_seq calm_then [OF _ calm_ensure] calm_same)

lemma seq_done: "(r, m') = seq q (\<lambda>_ m. (Inr x, m)) \<Longrightarrow> r = Inr y \<Longrightarrow> y = x"
  by (cases q; cases "fst q") (auto simp: seq_def)

lemma or_ensure_done:
  "(r, m') = (if no_group e then seq (ensure_group E k u) (\<lambda>_ m. (Inr x, m)) else (Inl z, u)) \<Longrightarrow> r = Inr y \<Longrightarrow> y = x"
  by (cases "no_group e") (simp_all add: seq_done)

lemma read_new_keeps:
  assumes "ours m" and "read_new E k m = (r, m')"
  shows "calm m m' \<and> (\<forall>es. r = Inr es \<longrightarrow> all_known es m')"
proof -
  let ?b = "Some (max 1 (py_int (min (dc_read_timeout (wk_config (fst m))) (wk_block_cap (fst m)) * 1000)))"
  obtain p u where p: "wd_xreadgroup E G n k ''>'' 1 ?b m = (p, u)" by (rule prod.exhaust)
  have u: "calm m u" by (rule calm_result [OF p read_law])
  have r: "(r, m') = (case p of Inl e \<Rightarrow> if no_group e then seq (ensure_group E k u) (\<lambda>_ m. (Inr [], m)) else (Inl (RawExn e), u)
      | Inr response \<Rightarrow> (Inr (reply_entries response), u))"
    using assms(2) p by (simp add: read_new_def Let_def ours_facts(2,3) [OF assms(1)] split: sum.splits)
  show ?thesis
  proof (cases p)
    case (Inl e)
    have "calm m (snd (r, m'))" unfolding r Inl sum.case by (rule calm_or_ensure [OF u])
    moreover have "r = Inr es \<Longrightarrow> es = []" for es by (rule or_ensure_done [OF r [unfolded Inl sum.case]])
    ultimately show ?thesis by fastforce
  next
    case (Inr rd)
    with r u read_known [OF assms(1) p [unfolded Inr]] show ?thesis by auto
  qed
qed

lemma backlog_keeps:
  assumes "ours m" and "backlog E k m = (r, m')"
  shows "calm m m' \<and> (\<forall>es. r = Inr es \<longrightarrow> all_known es m')"
proof -
  let ?t = "wk_taken (fst m) k"
  obtain p u where p: "wd_xreadgroup E G n k ''0'' (int (length ?t) + 100) None m = (p, u)" by (rule prod.exhaust)
  have u: "calm m u" by (rule calm_result [OF p read_law])
  have r: "(r, m') = (case p of Inl e \<Rightarrow> if no_group e then seq (ensure_group E k u) (\<lambda>_ m. (Inr [], m)) else (Inl (RawExn e), u)
      | Inr response \<Rightarrow> (Inr (filter (not_taken ?t) (reply_entries response)), u))"
    using assms(2) p by (simp add: backlog_def Let_def ours_facts(2,3) [OF assms(1)] split: sum.splits)
  show ?thesis
  proof (cases p)
    case (Inl e)
    have "calm m (snd (r, m'))" unfolding r Inl sum.case by (rule calm_or_ensure [OF u])
    moreover have "r = Inr es \<Longrightarrow> es = []" for es by (rule or_ensure_done [OF r [unfolded Inl sum.case]])
    ultimately show ?thesis by fastforce
  next
    case (Inr rd)
    with r u read_known [OF assms(1) p [unfolded Inr]] show ?thesis by auto
  qed
qed

lemma calm_delete_idle:
  "(\<And>x. ours m \<Longrightarrow> x \<in> set cs \<Longrightarrow> ci_pending x = 0 \<Longrightarrow> D (text_of (ci_name x)) (snd m)) \<Longrightarrow>
   calm m (snd (delete_idle E k cs m))"
proof (induction cs arbitrary: m)
  case Nil
  show ?case by (simp add: calm_same)
next
  case (Cons x cs)
  show ?case
  proof (rule calm_oursI)
    assume o: "ours m"
    let ?d = "wd_xgroup_delconsumer E k (dc_group c) (text_of (ci_name x)) m"
    show "calm m (snd (delete_idle E k (x # cs) m))"
    proof (cases "text_of (ci_name x) \<noteq> n \<and> ci_pending x = 0 \<and> dc_reclaim_idle c * 1000 < of_int (ci_idle x)")
      case True
      then have "calm m (snd ?d)" using Cons.prems by (intro delconsumer_law) simp
      then have d: "calm m (snd (raising ?d))" by (rule calm_raising)
      have "calm u (snd (delete_idle E k cs u))" if "raising ?d = (Inr a, u)" for a u
      proof (rule Cons.IH)
        fix y assume "y \<in> set cs" "ci_pending y = 0"
        with Cons.prems [OF o, of y] calm_checked [OF d o] that show "D (text_of (ci_name y)) (snd u)" by simp
      qed
      with d have "calm m (snd (seq (raising ?d) (\<lambda>_. delete_idle E k cs)))" by (rule calm_seq)
      then show ?thesis using True by (simp add: Let_def ours_facts [OF o])
    next
      case False
      have "calm m (snd (delete_idle E k cs m))" by (rule Cons.IH) (simp add: Cons.prems)
      with False show ?thesis by (auto simp: Let_def ours_facts [OF o])
    qed
  qed
qed

lemma calm_prune: "calm m (snd (prune_consumers E k m))"
proof (rule calm_oursI)
  assume o: "ours m"
  let ?m = "change (\<lambda>W. W\<lparr>wk_next_prune := (wk_next_prune W)(k \<mapsto> wd_monotonic E m + dc_reclaim_idle (wk_config W))\<rparr>) m"
  have c1: "calm m ?m" by (rule calm_change) simp_all
  note o1 = calm_ours [OF c1 o]
  obtain p u where p: "wd_xinfo_consumers E k G ?m = (p, u)" by (rule prod.exhaust)
  have u: "calm m u" by (rule calm_then [OF c1 calm_result [OF p consumers_law]])
  have "calm u (snd (delete_idle E k xs u))" if "p = Inr xs" for xs
    by (rule calm_delete_idle) (rule checked_law [OF o1 p [unfolded that]])
  with u have "calm m (snd (delete_idle E k xs u))" if "p = Inr xs" for xs
    using that calm_then by blast
  then show "calm m (snd (prune_consumers E k m))"
    using p u calm_same by (auto simp: prune_consumers_def Let_def ours_facts(3) [OF o1] split: sum.split)
qed

lemma reclaimed_keeps:
  assumes "all_known (snd reply) m" and "ours m" and "reclaimed_reply E queue k taken reply m = (r, m')"
  shows "calm m m' \<and> (\<forall>es cur. r = Inr (es, cur) \<longrightarrow> all_known es m')"
proof -
  let ?es = "filter (not_taken taken) (snd reply)"
  obtain ab rq where a: "account_reclaimed k ?es (wk_requeued (fst m)) 0 = (ab, rq)" by (rule prod.exhaust)
  let ?m1 = "change (\<lambda>W. W\<lparr>wk_requeued := rq\<rparr>) m"
  let ?m2 = "(count_job E queue ''reclaimed'' ^^ ab) ?m1"
  let ?m3 = "change (\<lambda>W. W\<lparr>wk_requeued := filter (\<lambda>r. wd_monotonic E m - 10 * dc_reclaim_idle (wk_config (fst ?m2)) < snd r) (wk_requeued W)\<rparr>) ?m2"
  have "calm m ?m1" "calm ?m2 ?m3" by (auto intro: calm_change)
  then have c3: "calm m ?m3" using calm_then calm_count_n by blast
  obtain q u where q: "prune_consumers E k ?m3 = (q, u)" by (rule prod.exhaust)
  have u: "calm m u" by (rule calm_then [OF c3 calm_result [OF q calm_prune]])
  have "(r, m') = seq (q, u) (\<lambda>_ m. (Inr (?es, text_of (fst reply)), m))"
    using assms(3) a q by (simp add: reclaimed_reply_def Let_def)
  then have "m' = u" "r = Inr (es, cur) \<Longrightarrow> set es \<subseteq> set (snd reply)" for es cur
    by (auto simp: seq_def split: sum.splits)
  then show ?thesis using u all_known_calm [OF assms(1) u assms(2)] by auto
qed

lemma reclaim_keeps:
  assumes cf: "ours m" and "reclaim E queue k start m = (r, m')"
  shows "calm m m' \<and> (\<forall>es cur. r = Inr (es, cur) \<longrightarrow> all_known es m')"
proof -
  obtain p u where p: "wd_server_time E m = (p, u)" by (rule prod.exhaust)
  have u: "calm m u" by (rule calm_result [OF p time_law])
  show ?thesis
  proof (cases p)
    case (Inl e)
    with p u assms(2) show ?thesis by (auto simp: reclaim_def Let_def)
  next
    case (Inr su)
    let ?v = "change (\<lambda>W. W\<lparr>wk_clock_offset := of_int (fst su) + of_int (snd su) / 1000000 - wd_time E u\<rparr>) u"
    have v: "calm m ?v" using calm_then [OF u] calm_change by auto
    note cv = calm_ours [OF v cf]
    obtain q x where q: "wd_xautoclaim E k G n (py_int (dc_reclaim_idle (wk_config (fst ?v)) * 1000)) start 100 ?v = (q, x)"
      by (rule prod.exhaust)
    have x: "calm m x" by (rule calm_then [OF v calm_result [OF q autoclaim_law]])
    have r: "(r, m') = (case q of
        Inl e \<Rightarrow> if isinstance e ''ResponseError'' \<and> contains_text ''unknown command'' (lower (exn_text e))
          then (Inl (needs_autoclaim e), x)
          else if no_group e then seq (ensure_group E k x) (\<lambda>_ m. (Inr ([], ''0-0''), m)) else (Inl (RawExn e), x)
      | Inr reply \<Rightarrow> reclaimed_reply E queue k (wk_taken (fst m) k) reply x)"
      using assms(2) p Inr q ours_facts(2,3) [OF cv] by (cases su) (simp add: reclaim_def Let_def split: sum.splits)
    show ?thesis
    proof (cases q)
      case (Inl e)
      have "calm m (snd (r, m')) \<and> (\<forall>es cur. r = Inr (es, cur) \<longrightarrow> es = [])"
      proof (cases "isinstance e ''ResponseError'' \<and> contains_text ''unknown command'' (lower (exn_text e))")
        case True
        then show ?thesis using r Inl x by simp
      next
        case False
        then have r': "(r, m') = (if no_group e then seq (ensure_group E k x) (\<lambda>_ m. (Inr ([], ''0-0''), m)) else (Inl (RawExn e), x))"
          using r Inl by (simp only: sum.case if_False)
        have "calm m (snd (r, m'))" unfolding r' by (rule calm_or_ensure [OF x])
        moreover have "r = Inr (es, cur) \<Longrightarrow> (es, cur) = ([], ''0-0'')" for es cur by (rule or_ensure_done [OF r'])
        ultimately show ?thesis by simp
      qed
      then show ?thesis by fastforce
    next
      case (Inr reply)
      obtain cur es where reply: "reply = (cur, es)" by (cases reply)
      have "all_known (snd reply) x" using autoclaim_known [OF cv q [unfolded Inr reply]] by (auto simp: reply)
      from reclaimed_keeps [OF this calm_ours [OF x cf] r [unfolded Inr sum.case, symmetric]] have
        "calm x m' \<and> (\<forall>es cur. r = Inr (es, cur) \<longrightarrow> all_known es m')" .
      with x show ?thesis using calm_then by blast
    qed
  qed
qed

lemma calm_claim:
  assumes "ours m"
  shows "calm m (snd (wd_xclaim E stream (grp m) (wk_id (fst m)) 0 ids idle m))"
  unfolding ours_facts [OF assms] by (rule claim_law)

lemma calm_touch_stream: "calm m (snd (touch_stream E stream m))"
  unfolding touch_stream_def
proof (rule calm_seq [OF calm_waited [OF await_laws(2)]])
  fix a u
  let ?x = "wd_xclaim E stream (grp u) (wk_id (fst u)) 0 (wk_taken (fst u) stream) None u"
  have "ours u \<Longrightarrow> calm u (snd ?x)" by (rule calm_claim)
  then have "calm u (snd ?x)" by (rule calm_oursI)
  then show "calm u (snd (let current = wk_taken (fst u) stream in if current = [] then (Inr (), u)
      else (case wd_xclaim E stream (grp u) (wk_id (fst u)) 0 current None u of
          (None, m) \<Rightarrow> (Inr (), m) | (Some e, m) \<Rightarrow> if redis_or_os e then (Inr (), m) else (Inl (RawExn e), m))))"
    by (auto simp: Let_def calm_same split: prod.split option.split)
qed

lemma calm_touch_streams: "calm m (snd (touch_streams E streams m))"
proof (induction streams arbitrary: m)
  case (Cons stream streams)
  show ?case by (auto intro!: calm_seq calm_touch_stream Cons)
qed (simp add: calm_same)

lemma calm_touch_round: "calm m (snd (touch_round E m))"
  unfolding touch_round_def Let_def by (rule calm_then [OF await_laws(1) calm_touch_streams])

lemma calm_hand_back: "calm m (snd (hand_back E stream ids m))"
proof -
  let ?ids = "map text_of (List.map_filter id ids)"
  let ?d = "change (drop_ids stream ?ids) m"
  have d: "calm m ?d" by (rule calm_change) (simp_all add: drop_ids_def)
  have x: "calm u (snd (wd_xclaim E stream (grp u) (wk_id (fst u)) 0 ids idle u))" for u ids idle
    by (rule calm_oursI) (rule calm_claim)
  have "calm m (snd (seq (waited (wd_claim_lock E ?d)) (\<lambda>_ m.
      case wd_xclaim E stream (grp m) (wk_id (fst m)) 0 ?ids (Some (py_int (dc_reclaim_idle (wk_config (fst m)) * 1000))) m of
        (None, m) \<Rightarrow> (Inr (), m) | (Some e, m) \<Rightarrow> if redis_or_os e then (Inr (), m) else (Inl (RawExn e), m))))"
    by (rule calm_seq [OF calm_then [OF d calm_waited [OF await_laws(2)]]])
      (auto intro: calm_result [OF _ x] split: prod.split option.split)
  with d show ?thesis by (cases "List.map_filter id ids = []") (simp_all add: hand_back_def Let_def)
qed

lemma calm_finish: "calm m (snd (finish E k j reply m))"
proof (rule calm_oursI)
  assume cf: "ours m"
  obtain r u where t: "wd_transaction E (finish_cmds (fst m) k j reply) m = (r, u)" by (rule prod.exhaust)
  have u: "calm m u" by (rule calm_result [OF t]) (unfold finish_cmds_def Let_def ours_facts(1) [OF cf], rule transaction_law)
  have "calm u (change (drop_ids k [jb_entry_id j]) u)" by (rule calm_change) (simp_all add: drop_ids_def)
  then have "calm m (change (drop_ids k [jb_entry_id j]) u)" by (rule calm_then [OF u])
  with t show "calm m (snd (finish E k j reply m))" by (simp add: finish_def Let_def split: option.split)
qed

lemma calm_requeue: "calm m (snd (requeue E stream j delay m))"
proof -
  let ?a = "count_job E (jb_queue j) ''requeued'' m"
  have "calm ?a (snd (if 0 < delay then waited (wd_wait_stopping E delay ?a) else (Inr (), ?a)))"
    by (simp add: calm_waited await_laws calm_same)
  note w = calm_then [OF calm_count this]
  have "calm u (snd (let m = change (\<lambda>W. W\<lparr>wk_requeued := ((stream, jb_entry_id j), wd_monotonic E u) #
        filter (\<lambda>r. fst r \<noteq> (stream, jb_entry_id j)) (wk_requeued W)\<rparr>) u
      in seq (hand_back E stream [Some (RawStr (jb_entry_id j))] m)
        (\<lambda>_ m. (Inr (), change (\<lambda>W. W\<lparr>wk_reclaim_now := add_to stream (wk_reclaim_now W)\<rparr>) m))))" for u
    unfolding Let_def by (rule calm_seq [OF calm_then [OF calm_change calm_hand_back]]) (simp_all add: calm_change)
  with w show ?thesis unfolding requeue_def Let_def by (rule calm_seq)
qed

lemma calm_run_job: "calm m (snd (run_job E tid k j m))"
proof -
  obtain out u where h: "wd_handler E tid m = (out, u)" by (rule prod.exhaust)
  have u: "calm m u" by (rule calm_result [OF h await_laws(6)])
  have f: "calm m (snd (seq (finish E k j reply u) (\<lambda>_ m. (Inr (), count_job E (jb_queue j) outcome m))))" for reply outcome
    by (rule calm_seq [OF calm_then [OF u calm_finish]]) (simp add: calm_count)
  show ?thesis
    using u f calm_then [OF u calm_requeue] by (cases out) (auto simp: run_job_def h split: option.split)
qed

lemma calm_job_task:
  assumes "ht_stream (wk_jobs (fst m) ! tid) = k"
  shows "calm m (job_task E tid m)"
proof -
  let ?t = "wk_jobs (fst m) ! tid"
  obtain r u where r: "run_job E tid k (ht_job ?t) m = (r, u)" by (rule prod.exhaust)
  have "calm m u" using calm_run_job [of m tid "ht_job ?t"] r by simp
  moreover have "calm u (change (task_done tid x) u)" for x by (rule calm_change) (simp_all add: task_done_def Let_def)
  ultimately show ?thesis using r assms calm_then by (simp add: job_task_def Let_def)
qed

text \<open>Loops and waits that may never end.\<close>

definition calm_opt :: "'w mem \<Rightarrow> ('a \<times> 'w mem) option \<Rightarrow> bool" where
  "calm_opt m x \<longleftrightarrow> pred_option (\<lambda>r. calm m (snd r)) x"

lemma calm_opt_cases [simp]: "calm_opt m None" "calm_opt m (Some r) \<longleftrightarrow> calm m (snd r)"
  by (simp_all add: calm_opt_def)

lemma calm_opt_then: "calm m u \<Longrightarrow> calm_opt u x \<Longrightarrow> calm_opt m x"
  by (cases x) (auto intro: calm_then)

lemma calm_opt_seq:
  "calm_opt m x \<Longrightarrow> (\<And>a u. calm u (snd (f a u))) \<Longrightarrow> calm_opt m (map_option (\<lambda>r. seq r f) x)"
  by (cases x) (auto intro: calm_seq)

lemma calm_abandon: "calm_opt m (abandon E stream tid m)"
proof (cases "wd_cancel E tid m")
  case (Some x)
  show ?thesis unfolding abandon_def Some option.map calm_opt_cases
    by (rule calm_seq [OF calm_waited [OF cancel_law [OF Some]]]) (simp add: Let_def calm_same calm_hand_back)
qed (simp add: abandon_def)

lemma calm_settle_cancelled: "calm_opt m (settle_cancelled E stream tid e m)"
  by (auto simp: settle_cancelled_def calm_same intro!: calm_opt_seq calm_abandon)

lemma calm_cap_round: "case cap_round E queue stream most e m of Inl r \<Rightarrow> calm m (snd r) | Inr m' \<Rightarrow> calm m m'"
proof -
  obtain b u where w: "wd_wait_any E (wk_stream_handlers (fst m) stream) leadership_check m = (b, u)" by (rule prod.exhaust)
  have "calm m u" by (rule calm_result [OF w await_laws(4)])
  with w show ?thesis
    by (auto simp: cap_round_def Let_def calm_same calm_hand_back intro!: calm_seq split: bool.split)
qed

lemma calm_settle_round:
  "case settle_round E queue stream tid m of Inl x \<Rightarrow> calm_opt m x | Inr m' \<Rightarrow> calm m m'"
proof -
  have s: "calm_opt m (settle_cancelled E stream tid e u)" if "calm m u" for u e
    by (rule calm_opt_then [OF that calm_settle_cancelled])
  consider (settled) "jb_settled (task_job tid (fst m))" | (leave) "\<not> jb_settled (task_job tid (fst m))" "must_leave queue (fst m)"
    | (wait) "\<not> jb_settled (task_job tid (fst m))" "\<not> must_leave queue (fst m)" by blast
  then show ?thesis
  proof cases
    case settled
    then show ?thesis by (auto simp: settle_round_def Let_def calm_same calm_hand_back intro!: calm_seq)
  next
    case leave
    show ?thesis
    proof (cases "abandon E stream tid m")
      case (Some r)
      obtain p u where r: "r = (p, u)" by (rule prod.exhaust)
      have "calm m u" using calm_abandon [of m stream tid] Some r by simp
      with s leave Some r show ?thesis by (cases p) (simp_all add: settle_round_def)
    qed (use leave in \<open>simp add: settle_round_def\<close>)
  next
    case wait
    obtain b u where w: "wd_wait_settled E tid leadership_check m = (b, u)" by (rule prod.exhaust)
    have "calm m u" by (rule calm_result [OF w await_laws(5)])
    with s wait w show ?thesis by (cases b) (simp_all add: settle_round_def)
  qed
qed

lemma calm_loop:
  assumes "repeat_until f m = Some r" and "\<And>m. case f m of Inl r \<Rightarrow> Q m r | Inr m' \<Rightarrow> calm m m'"
    and "\<And>u v r. calm u v \<Longrightarrow> Q v r \<Longrightarrow> Q u r"
  shows "Q m r"
proof (rule repeat_until_invariant [OF assms(1), where P = "calm m" and Q = "Q m"])
  show "calm m m" by (rule calm_same)
next
  fix x y assume "calm m x" "f x = Inr y"
  with assms(2) [of x] show "calm m y" by (auto intro: calm_then)
next
  fix x r assume x: "calm m x" and "f x = Inl r"
  with assms(2) [of x] have "Q x r" by simp
  with x show "Q m r" by (rule assms(3))
qed

lemma calm_start_and_settle: "start_and_settle E queue stream j m = Some r \<Longrightarrow> calm m (snd r)"
proof -
  assume "start_and_settle E queue stream j m = Some r"
  then have l: "repeat_until (settle_round E queue stream (length (wk_jobs (fst m)))) (change (start_job stream j) m) = Some (Some r)"
    by (auto simp: start_and_settle_def bind_eq_Some_conv)
  have "calm_opt (change (start_job stream j) m) (Some r)"
    by (rule calm_loop [OF l, where Q = calm_opt]) (rule calm_settle_round, rule calm_opt_then)
  moreover have "calm m (change (start_job stream j) m)"
    by (rule calm_change) (simp_all add: start_job_def take_ids_def Let_def)
  ultimately show "calm m (snd r)" using calm_then by simp
qed

lemma calm_acknowledge:
  assumes "ours m" and "droppable G i (S (snd m))"
  shows "calm m (snd (acknowledge E k i m))"
  unfolding acknowledge_def ours_facts(2,3) [OF assms(1)] using assms by (intro calm_raising ack_law)

lemma calm_drop_entry:
  assumes cf: "ours m" and d: "droppable G i (S (snd m))"
  shows "calm m (snd (drop_entry E k i m))"
proof -
  let ?m = "change (drop_ids k [i]) m"
  have m: "calm m ?m" by (rule calm_change) (simp_all add: drop_ids_def)
  have a: "calm m (snd (acknowledge E k i ?m))"
    by (rule calm_then [OF m calm_acknowledge [OF calm_ours [OF m cf] calm_droppable [OF m cf d]]])
  show ?thesis unfolding drop_entry_def
  proof (rule calm_seq [OF a], rule calm_seq)
    fix x u assume "acknowledge E k i ?m = (Inr x, u)"
    with a have u: "calm m u" by simp
    show "calm u (snd (raising (wd_xdel E k i u)))"
      by (rule calm_raising, rule del_law) (rule calm_droppable [OF u cf d])
  qed (simp add: calm_same)
qed

lemma calm_dispatch_entry:
  assumes cf: "ours m" and kn: "known G e (S (snd m))"
    and r: "dispatch_entry E queue k e reclaimed m = Some r"
  shows "calm m (snd r)"
proof (cases "fst e")
  case None
  with r show ?thesis by (cases e) (auto simp: dispatch_entry_def calm_same)
next
  case (Some t)
  obtain fs where e: "e = (Some t, fs)" using Some by (cases e) auto
  let ?i = "text_of t"
  note drop = known_droppable [OF kn [unfolded e], of "fst m" queue ?i reclaimed]
  show ?thesis
  proof (cases "fs = []")
    case True
    let ?m = "change (drop_ids k [?i]) m"
    have m: "calm m ?m" by (rule calm_change) (simp_all add: drop_ids_def)
    from drop True have d: "droppable G ?i (S (snd m))" by simp
    have "calm m (snd (acknowledge E k ?i ?m))"
      by (rule calm_then [OF m calm_acknowledge [OF calm_ours [OF m cf] calm_droppable [OF m cf d]]])
    then have "calm m (snd (seq (acknowledge E k ?i ?m) (\<lambda>_ m. (Inr True :: py_exn + bool, m))))"
      by (rule calm_seq) (simp add: calm_same)
    with r True show ?thesis by (simp add: dispatch_entry_def e Let_def)
  next
    case ne: False
    show ?thesis
    proof (cases "decode_job (fst m) queue ?i fs reclaimed")
      case None
      with drop have "droppable G ?i (S (snd m))" by simp
      from calm_drop_entry [OF cf this] r ne None show ?thesis by (simp add: dispatch_entry_def e Let_def)
    next
      case (Some j)
      show ?thesis
      proof (cases "case job_remaining (wd_time E m) j of None \<Rightarrow> False | Some r \<Rightarrow> r \<le> 0")
        case True
        then have "jb_deadline j \<noteq> None" by (cases "jb_deadline j") (auto simp: job_remaining_def)
        with drop Some have d: "droppable G ?i (S (snd m))" by simp
        let ?m = "count_job E queue ''expired'' m"
        have m: "calm m ?m" by (rule calm_count)
        from calm_then [OF m calm_drop_entry [OF calm_ours [OF m cf] calm_droppable [OF m cf d]]]
        show ?thesis using r ne Some True by (simp add: dispatch_entry_def e Let_def)
      next
        case False
        show ?thesis
        proof (cases "dc_max_admitted (wk_config (fst m))")
          case None
          with r ne Some False show ?thesis by (simp add: dispatch_entry_def e Let_def calm_start_and_settle)
        next
          case most: (Some most)
          obtain x where x: "repeat_until (cap_round E queue k most (RawStr ?i)) m = Some x"
            using r ne Some False most by (auto simp: dispatch_entry_def e Let_def split: option.splits)
          obtain p u where xp: "x = (p, u)" by (cases x)
          have "calm m (snd x)" by (rule calm_loop [OF x, where Q = "\<lambda>m r. calm m (snd r)"]) (rule calm_cap_round, rule calm_then)
          then have u: "calm m u" by (simp add: xp)
          have "p = Inr True \<and> start_and_settle E queue k j u = Some r \<or> snd r = u"
            using r ne Some False most x xp
            by (cases p) (auto simp: dispatch_entry_def e Let_def split: bool.splits)
          with u calm_start_and_settle calm_then show ?thesis by blast
        qed
      qed
    qed
  qed
qed


lemma calm_dispatch_batch:
  "ours m \<Longrightarrow> all_known es m \<Longrightarrow> dispatch_batch E queue k reclaimed es m = Some r \<Longrightarrow> calm m (snd r)"
proof (induction es arbitrary: m)
  case Nil
  from Nil.prems(3) have "r = (Inr True, m)" by simp
  then show ?case by (simp only: snd_conv calm_same)
next
  case (Cons e es)
  obtain p u where d: "dispatch_entry E queue k e reclaimed m = Some (p, u)"
    using Cons.prems(3) by (auto split: option.splits)
  from calm_dispatch_entry [OF Cons.prems(1) _ d] Cons.prems(1,2) have u: "calm m u" by simp
  have dr: "calm v (change (drop_ids k ids) v)" for v ids by (rule calm_change) (simp_all add: drop_ids_def)
  show ?case
  proof (cases "p = Inr True")
    case True
    have "all_known es u" using all_known_calm [OF _ u Cons.prems(1), of es] Cons.prems(2) by simp
    from Cons.IH [OF calm_ours [OF u Cons.prems(1)] this] Cons.prems(3) d True have "calm u (snd r)" by simp
    with u show ?thesis by (rule calm_then)
  next
    case False
    obtain h v where h: "hand_back E k (map fst es) u = (h, v)" by (rule prod.exhaust)
    have "calm u v" by (rule calm_result [OF h calm_hand_back])
    moreover have "r = (p, change (drop_ids k (entry_ids es)) u) \<or> snd r = change (drop_ids k (entry_ids es)) v \<or> (\<exists>x. r = (x, change (drop_ids k (entry_ids es)) u))"
      using Cons.prems(3) d False h by (cases p) (auto split: bool.splits)
    ultimately show ?thesis using u dr calm_then by (metis snd_conv)
  qed
qed

text \<open>What holds after an operation, and of its value where it has one.\<close>

definition after :: "'w mem \<Rightarrow> ('a \<Rightarrow> 'w mem \<Rightarrow> bool) \<Rightarrow> (py_exn + 'a) \<times> 'w mem \<Rightarrow> bool" where
  "after m Q r \<longleftrightarrow> calm m (snd r) \<and> (\<forall>a. fst r = Inr a \<longrightarrow> Q a (snd r))"

lemma after_seq:
  assumes "after m Q r" and "\<And>a u. r = (Inr a, u) \<Longrightarrow> Q a u \<Longrightarrow> calm m u \<Longrightarrow> after u Q' (f a u)"
  shows "after m Q' (seq r f)"
proof -
  obtain p u where Pair: "r = (p, u)" by (rule prod.exhaust)
  show ?thesis
  proof (cases p)
    case (Inl e)
    with assms(1) Pair show ?thesis by (simp add: after_def seq_def)
  next
    case (Inr a)
    with assms Pair have "calm m u" "after u Q' (f a u)" by (auto simp: after_def)
    with Pair Inr show ?thesis by (auto simp: after_def seq_def intro: calm_then)
  qed
qed

lemma after_value: "Q a m \<Longrightarrow> after m Q (Inr a, m)"
  by (simp add: after_def calm_same)

lemma after_read_new: "ours m \<Longrightarrow> after m all_known (read_new E k m)"
  using read_new_keeps [of m] by (cases "read_new E k m") (simp add: after_def)

lemma after_backlog: "ours m \<Longrightarrow> after m all_known (backlog E k m)"
  using backlog_keeps [of m] by (cases "backlog E k m") (simp add: after_def)

lemma after_reclaim: "ours m \<Longrightarrow> after m (\<lambda>(es, cur). all_known es) (reclaim E queue k start m)"
  using reclaim_keeps [of m queue start] by (cases "reclaim E queue k start m") (auto simp: after_def)

lemma after_next_entries:
  assumes cf: "ours m"
  shows "after m (\<lambda>(es, _). all_known es) (next_entries E queue k (next_reclaim, cursor, m))"
proof -
  have fresh: "after u (\<lambda>(es, _). all_known es) (seq (read_new E k u) (\<lambda>es m. (Inr (es, False, nr, cur), m)))"
    if "ours u" for u and nr :: real and cur :: string
    by (rule after_seq [OF after_read_new [OF that]]) (simp add: after_value)
  let ?m = "change (\<lambda>W. W\<lparr>wk_reclaim_now := removeAll k (wk_reclaim_now W)\<rparr>) m"
  have m: "calm m ?m" by (rule calm_change) simp_all
  note cfm = calm_ours [OF m cf]
  let ?rest = "\<lambda>cursor es m. (let next_reclaim = (if cursor = ''0-0''
                 then wd_monotonic E m + dc_reclaim_interval (wk_config (fst m)) else next_reclaim)
           in if es = []
              then seq (read_new E k m) (\<lambda>es m. (Inr (es, False, next_reclaim, cursor), m))
              else (Inr (es, True, next_reclaim, cursor), m))"
  have rest: "after u (\<lambda>(es, _). all_known es) (?rest cur es u)" if "ours u" "all_known es u" for u and cur :: string and es
    using that fresh [OF that(1)] by (simp add: Let_def after_value)
  have "after ?m (\<lambda>(es, _). all_known es) (seq (reclaim E queue k start ?m) (\<lambda>(es, cursor) m.
      seq (if es = [] then backlog E k m else (Inr es, m)) (?rest cursor)))" for start
  proof (rule after_seq [OF after_reclaim [OF cfm]])
    fix a :: "raw_entry list \<times> string" and u assume a: "(\<lambda>(es, cur). all_known es) a u" and u: "calm ?m u"
    obtain es cur where e: "a = (es, cur)" by (cases a)
    note cfu = calm_ours [OF u cfm]
    have "after u all_known (if es = [] then backlog E k u else (Inr es, u))"
      using a e by (simp add: after_backlog [OF cfu] after_value)
    then have "after u (\<lambda>(es, _). all_known es) (seq (if es = [] then backlog E k u else (Inr es, u)) (?rest cur))"
      by (rule after_seq) (rule rest [OF calm_ours [OF _ cfu]])
    then show "after u (\<lambda>(es, _). all_known es) ((\<lambda>(es, cursor) m.
        seq (if es = [] then backlog E k m else (Inr es, m)) (?rest cursor)) a u)" by (simp add: e)
  qed
  then have "after m (\<lambda>(es, _). all_known es) (seq (reclaim E queue k start ?m) (\<lambda>(es, cursor) m.
      seq (if es = [] then backlog E k m else (Inr es, m)) (?rest cursor)))" for start
    using m by (auto simp: after_def intro: calm_then)
  with fresh [OF cf] show ?thesis by (simp add: next_entries_def Let_def)
qed

end

end
