(* ===== verification/DispatchKept.thy ===== *)
theory DispatchKept
  imports DispatchSafety
begin

section \<open>Leading a queue keeps the contract\<close>

text \<open>
  The coroutines of a worker as a whole: leading a queue, a round of the touching loop, a handler task.
  They move the stream by documented steps only.
\<close>

context queue_server
begin

lemma calm_lead_round:
  assumes o: "ours m" and k: "k = stream_key c queue"
  shows "case lead_round E queue (next_reclaim, cursor, m) of
      Inl None \<Rightarrow> True | Inl (Some r) \<Rightarrow> calm m (snd r) | Inr x \<Rightarrow> calm m (snd (snd x))"
proof (cases "must_leave queue (fst m)")
  case True
  then show ?thesis by (simp add: lead_round_def calm_same)
next
  case False
  obtain p u where n: "next_entries E queue k (next_reclaim, cursor, m) = (p, u)" by (rule prod.exhaust)
  have a: "after m (\<lambda>(es, _). all_known es) (p, u)" using after_next_entries [OF o, of queue next_reclaim cursor] n by simp
  then have u: "calm m u" by (simp add: after_def)
  have k': "stream_key (wk_config (fst m)) queue = k" using k by (simp add: ours_facts(1) [OF o])
  show ?thesis
  proof (cases p)
    case (Inl e)
    with False n u show ?thesis by (simp add: lead_round_def k' Let_def)
  next
    case (Inr x)
    obtain es re nr cur where x: "x = (es, re, nr, cur)" by (cases x) auto
    let ?v = "change (take_ids k (entry_ids es)) u"
    have v: "calm m ?v" by (rule calm_then [OF u calm_change]) (simp_all add: take_ids_def)
    have "all_known es ?v" using a Inr x by (simp add: after_def change_def take_ids_def ours_mem_def)
    then have d: "dispatch_batch E queue k re es ?v = Some r \<Longrightarrow> calm m (snd r)" for r
      using calm_dispatch_batch [OF calm_ours [OF v o]] calm_then [OF v] by blast
    show ?thesis
    proof (cases "dispatch_batch E queue k re es ?v")
      case None
      with False n Inr x show ?thesis by (simp add: lead_round_def k' Let_def)
    next
      case (Some r)
      obtain q w where r: "r = (q, w)" by (rule prod.exhaust)
      have "calm m w" using d [OF Some] r by simp
      with False n Inr x Some r show ?thesis
        by (cases q) (auto simp: lead_round_def k' Let_def split: bool.split)
    qed
  qed
qed

text \<open>What pruning does from the reply to its first XGROUP DELCONSUMER on.\<close>

lemma calm_prune_rest:
  assumes o: "ours m" and due: "(case wk_next_prune (fst m) k of None \<Rightarrow> 0 | Some t \<Rightarrow> t) \<le> wd_monotonic E m"
    and info: "wd_xinfo_consumers E k (dc_group c) (change (\<lambda>W. W\<lparr>wk_next_prune := (wk_next_prune W)
      (k \<mapsto> wd_monotonic E m + dc_reclaim_idle (wk_config W))\<rparr>) m) = (Inr (ci # cs), u)"
    and ci: "text_of (ci_name ci) \<noteq> n" "ci_pending ci = 0" "dc_reclaim_idle c * 1000 < of_int (ci_idle ci)"
    and del: "wd_xgroup_delconsumer E k (dc_group c) (text_of (ci_name ci)) u = (e, v)"
  shows "calm m v" and "calm v (snd (prune_consumers E k m))"
proof -
  let ?m = "change (\<lambda>W. W\<lparr>wk_next_prune := (wk_next_prune W)(k \<mapsto> wd_monotonic E m + dc_reclaim_idle (wk_config W))\<rparr>) m"
  have m1: "calm m ?m" by (rule calm_change) simp_all
  note o1 = calm_ours [OF m1 o]
  have u: "calm m u" by (rule calm_then [OF m1 calm_result [OF info consumers_law]])
  note o2 = calm_ours [OF u o]
  have d: "D (text_of (ci_name x)) (snd u)" if "x \<in> set (ci # cs)" "ci_pending x = 0" for x
    by (rule checked_law [OF o1 info that])
  have uv: "calm u v" using delconsumer_law [of u "text_of (ci_name ci)"] d [of ci] ci(2) del by simp
  with u show "calm m v" by (rule calm_then)
  have "calm v (snd (delete_idle E k cs v))"
    by (rule calm_delete_idle) (use d calm_checked [OF uv o2] in simp)
  then have "calm v (snd (seq (raising (e, v)) (\<lambda>_. delete_idle E k cs)))"
    by (cases e) (simp_all add: raising_def seq_def calm_same)
  moreover have "prune_consumers E k m = delete_idle E k (ci # cs) u"
    using due info by (simp add: prune_consumers_def ours_facts(3) [OF o1] Let_def)
  ultimately show "calm v (snd (prune_consumers E k m))"
    using ci del by (simp add: Let_def ours_facts [OF o2])
qed

lemma calm_lead_failed: "calm m (snd (lead_failed E queue e m))"
proof -
  have r: "calm m (record_error E e m)" unfolding record_error_def by (rule calm_change) simp_all
  have "calm u (change (stop_fatally b) u)" for b u by (rule calm_change) (simp_all add: stop_fatally_def)
  with r calm_then have "calm m (change (stop_fatally b) (record_error E e m))" for b by blast
  with r show ?thesis by (simp add: lead_failed_def Let_def calm_same split: option.split)
qed

lemma calm_release_lead: "calm m (release_lead E queue m)"
proof -
  have "calm u (change (update_lead queue f) u)" for u f by (rule calm_change) (simp_all add: update_lead_def)
  with release_law calm_then have "calm m (change (update_lead queue f) (snd (snd (sem_arelease (wd_sem E) M m))))" for f M by blast
  then have "calm m (case sem_arelease (wd_sem E) M m of (_, T, u) \<Rightarrow> change (update_lead queue (f T)) u)" for M f
    by (cases "sem_arelease (wd_sem E) M m") (metis (no_types, lifting) case_prod_conv snd_conv)
  then show ?thesis by (simp add: release_lead_def calm_same split: option.split)
qed

lemma calm_lead:
  assumes k: "k = stream_key c queue" and l: "lead E queue m = Some r"
  shows "calm m (snd r)"
proof (rule calm_oursI)
  assume o: "ours m"
  have k': "stream_key (wk_config (fst m)) queue = k" using k by (simp add: ours_facts(1) [OF o])
  obtain p u where g: "ensure_group E k m = (p, u)" by (rule prod.exhaust)
  have u: "calm m u" by (rule calm_result [OF g calm_ensure])
  have loop: "calm m (snd y)" if "repeat_until (lead_round E queue) (0, ''0-0'', u) = Some (Some y)" for y
  proof -
    have "case Some y of None \<Rightarrow> True | Some y \<Rightarrow> calm m (snd y)"
    proof (rule repeat_until_invariant [OF that, where P = "\<lambda>x. calm m (snd (snd x))"], goal_cases)
      case 1
      show ?case using u by simp
    next
      case (2 x y)
      obtain nr cur v where x: "x = (nr, cur, v)" by (cases x)
      have v: "calm m v" using 2 x by simp
      with calm_lead_round [OF calm_ours [OF v o] k, of nr cur] 2 x calm_then [OF v] show ?case by auto
    next
      case (3 x r)
      obtain nr cur v where x: "x = (nr, cur, v)" by (cases x)
      have v: "calm m v" using 3 x by simp
      with calm_lead_round [OF calm_ours [OF v o] k, of nr cur] 3 x calm_then [OF v] show ?case by (auto split: option.split)
    qed
    then show ?thesis by simp
  qed
  obtain q v where v: "(case (p, u) of (Inl e, m) \<Rightarrow> Some (Inl e, m)
      | (Inr _, m) \<Rightarrow> Option.bind (repeat_until (lead_round E queue) (0, ''0-0'', m)) id) = Some (q, v)"
    using l g by (auto simp: lead_def k' Let_def split: option.splits)
  have cv: "calm m v" using v u loop by (cases p) (auto simp: bind_eq_Some_conv)
  obtain s w where w: "(case q of Inl e \<Rightarrow> lead_failed E queue e v | Inr _ \<Rightarrow> (Inr (), v)) = (s, w)" by (rule prod.exhaust)
  have "calm v w" using w calm_lead_failed [of v queue] calm_same by (cases q) (metis sum.case snd_conv)+
  then have "calm m (release_lead E queue w)" using cv calm_then calm_release_lead by blast
  moreover have "r = (s, release_lead E queue w)" using l g v w by (simp add: lead_def k' Let_def)
  ultimately show "calm m (snd r)" by simp
qed

end

end
