(* ===== verification/SemaphorePart.thy ===== *)
theory SemaphorePart
  imports SemaphoreClient
begin

section \<open>A semaphore's environment as part of a larger world\<close>

text \<open>
  The operations of a semaphore's environment act on a part of the world of the program that uses the
  semaphore; \<open>get\<close> reads that part and \<open>put\<close> replaces it. The simulated worlds of the workers and of the
  proxy are made this way.
\<close>

definition on_part :: "('y \<Rightarrow> 'w) \<Rightarrow> ('w \<Rightarrow> 'y \<Rightarrow> 'y) \<Rightarrow> ('w \<Rightarrow> 'a \<times> 'w) \<Rightarrow> 'y \<Rightarrow> 'a \<times> 'y" where
  "on_part get put f y = (case f (get y) of (r, w) \<Rightarrow> (r, put w y))"

definition on_part_obj ::
  "('y \<Rightarrow> 'w) \<Rightarrow> ('w \<Rightarrow> 'y \<Rightarrow> 'y) \<Rightarrow> (sem_obj \<times> 'w \<Rightarrow> 'a \<times> sem_obj \<times> 'w) \<Rightarrow> sem_obj \<times> 'y \<Rightarrow> 'a \<times> sem_obj \<times> 'y" where
  "on_part_obj get put f x = (case f (fst x, get (snd x)) of (r, S, w) \<Rightarrow> (r, S, put w (snd x)))"

definition part_env :: "('y \<Rightarrow> 'w) \<Rightarrow> ('w \<Rightarrow> 'y \<Rightarrow> 'y) \<Rightarrow> 'w sem_env \<Rightarrow> 'y sem_env" where
  "part_env get put E =
     \<lparr>s_sha1 = s_sha1 E,
      s_client = \<lparr>cl_is_async = cl_is_async (s_client E),
        cl_evalsha = (\<lambda>h i args. on_part get put (cl_evalsha (s_client E) h i args)),
        cl_eval = (\<lambda>sc i args. on_part get put (cl_eval (s_client E) sc i args))\<rparr>,
      s_time = (\<lambda>y. s_time E (get y)), s_time_ns = (\<lambda>y. s_time_ns E (get y)),
      s_monotonic = (\<lambda>y. s_monotonic E (get y)),
      s_uniform = (\<lambda>a b. on_part get put (s_uniform E a b)), s_uuid_hex = on_part get put (s_uuid_hex E),
      s_sleep = (\<lambda>d y. put (s_sleep E d (get y)) y), s_asleep = (\<lambda>d y. put (s_asleep E d (get y)) y),
      s_blpop = (\<lambda>k d. on_part get put (s_blpop E k d)), s_ablpop = (\<lambda>k d. on_part get put (s_ablpop E k d)),
      s_pipeline = (\<lambda>cmds. on_part get put (s_pipeline E cmds)),
      s_apipeline = (\<lambda>cmds. on_part get put (s_apipeline E cmds)),
      s_metrics_enabled = s_metrics_enabled E, s_metric = (\<lambda>m y. put (s_metric E m (get y)) y),
      s_on_lock_lost = map_option (\<lambda>f i y. put (f i (get y)) y) (s_on_lock_lost E),
      s_hb_wait = (\<lambda>d. on_part_obj get put (s_hb_wait E d)), s_hb_asleep = (\<lambda>d. on_part_obj get put (s_hb_asleep E d)),
      s_event_wait = (\<lambda>d. on_part_obj get put (s_event_wait E d)),
      s_event_wait_forever =
        (\<lambda>x. map_option (\<lambda>(S, w). (S, put w (snd x))) (s_event_wait_forever E (fst x, get (snd x))))\<rparr>"

lemma snd_on_part: "snd (on_part get put f y) = put (snd (f (get y))) y"
  by (simp add: on_part_def split: prod.split)

lemma fst_on_part: "fst (on_part get put f y) = fst (f (get y))"
  by (simp add: on_part_def split: prod.split)

lemma on_part_eq: "f (get y) = (r, w) \<Longrightarrow> on_part get put f y = (r, put w y)"
  by (simp add: on_part_def)

subsection \<open>A call in the larger world is the call on the part\<close>

text \<open>Reading and replacing fit together.\<close>

definition is_part :: "('y \<Rightarrow> 'w) \<Rightarrow> ('w \<Rightarrow> 'y \<Rightarrow> 'y) \<Rightarrow> bool" where
  "is_part get put \<longleftrightarrow>
     (\<forall>w y. get (put w y) = w) \<and> (\<forall>v w y. put v (put w y) = put v y) \<and> (\<forall>y. put (get y) y = y)"

lemma is_partD:
  "is_part get put \<Longrightarrow> get (put w y) = w" "is_part get put \<Longrightarrow> put v (put w y) = put v y"
  "is_part get put \<Longrightarrow> put (get y) y = y"
  by (simp_all add: is_part_def)

lemma script_call_part:
  assumes p: "is_part get put"
  shows
  "script_call sha (aevalsha sha (s_client (part_env get put E))) name keys args parse y =
     on_part get put (script_call sha (aevalsha sha (s_client E)) name keys args parse) y"
  "script_call sha (evalsha sha (s_client (part_env get put E))) name keys args parse y =
     on_part get put (script_call sha (evalsha sha (s_client E)) name keys args parse) y"
proof -
  have e: "evalsha_or_eval sha (s_client (part_env get put E)) h n a z =
      on_part get put (evalsha_or_eval sha (s_client E) h n a) z" for h n a z
    by (auto simp: evalsha_or_eval_def part_env_def on_part_def is_partD [OF p] split: prod.split sum.split)
  have a: "aevalsha sha (s_client (part_env get put E)) h n a z = on_part get put (aevalsha sha (s_client E) h n a) z"
    "evalsha sha (s_client (part_env get put E)) h n a z = on_part get put (evalsha sha (s_client E) h n a) z" for h n a z
    unfolding aevalsha_def evalsha_def e
    by (simp_all add: part_env_def on_part_def is_partD [OF p])
  show "script_call sha (aevalsha sha (s_client (part_env get put E))) name keys args parse y =
     on_part get put (script_call sha (aevalsha sha (s_client E)) name keys args parse) y"
    "script_call sha (evalsha sha (s_client (part_env get put E))) name keys args parse y =
     on_part get put (script_call sha (evalsha sha (s_client E)) name keys args parse) y"
    unfolding script_call_def a by (auto simp: on_part_def is_partD [OF p] split: prod.split sum.split)
qed

lemma call_acquire_part:
  assumes p: "is_part get put"
  shows "call_acquire (part_env get put E) m S x y = on_part get put (call_acquire E m S x) y"
proof -
  have n: "sem_now_arg (part_env get put E) S y = sem_now_arg E S (get y)" "s_sha1 (part_env get put E) = s_sha1 E"
    by (simp_all add: sem_now_arg_def part_env_def)
  show ?thesis
    unfolding call_acquire_def runner_acquire_def runner_acquire_async_def n
    by (simp add: script_call_part [OF p]) (simp add: on_part_def)
qed

lemma call_release_part:
  assumes p: "is_part get put"
  shows "call_release (part_env get put E) m S x y = on_part get put (call_release E m S x) y"
proof -
  have n: "s_sha1 (part_env get put E) = s_sha1 E" by (simp add: part_env_def)
  show ?thesis
    unfolding call_release_def runner_release_def runner_release_async_def n
    by (simp add: script_call_part [OF p])
qed

end
