(* ===== verification/DispatchSim.thy ===== *)
theory DispatchSim
  imports DispatchKept SemaphoreSim SemaphorePart
begin

section \<open>A simulated server for a worker\<close>

text \<open>
  The documented stream commands as functions on a stream, a world that holds the streams by key, the
  reply lists, a clock and the store of the semaphores, and an environment of a worker made of them. The
  handler echoes the payload and admits nothing; the one who waits for a job runs its handler; the worker
  is stopped when nothing is left to read. The interpretation shows that it keeps the contract
  \<open>queue_server\<close>. XAUTOCLAIM scans the whole pending list at once, whatever its COUNT.
\<close>

subsection \<open>Stream commands\<close>

definition response_error :: "string \<Rightarrow> raw_exn" where
  "response_error text = \<lparr>exn_class = ''ResponseError'', exn_bases = [''ResponseError'', ''RedisError'', ''Exception''], exn_text = text\<rparr>"

definition no_such_group :: raw_exn where
  "no_such_group = response_error ''NOGROUP No such key or consumer group''"

definition set_group :: "string \<Rightarrow> cgroup \<Rightarrow> stream \<Rightarrow> stream" where
  "set_group g c st = st\<lparr>groups := (groups st)(g \<mapsto> c)\<rparr>"

definition x_create :: "string \<Rightarrow> stream \<Rightarrow> raw_exn option \<times> stream" where
  "x_create g st =
     (case groups st g of
        None \<Rightarrow> (None, set_group g \<lparr>last_delivered = Sid 0 0, pending = []\<rparr> st)
      | Some _ \<Rightarrow> (Some (response_error ''BUSYGROUP Consumer Group name already exists''), st))"

definition raw_of :: "sid \<times> fields \<Rightarrow> raw_entry" where
  "raw_of e = (Some (RawStr (sid_str (fst e))), raw_fields RawStr (snd e))"

text \<open>A pending entry; without fields if it was deleted.\<close>

definition raw_pending :: "stream \<Rightarrow> sid \<times> string \<times> ms \<Rightarrow> raw_entry" where
  "raw_pending st p = raw_of (fst p, case map_of (entries st) (fst p) of None \<Rightarrow> [] | Some fs \<Rightarrow> fs)"

definition x_read :: "string \<Rightarrow> string \<Rightarrow> string \<Rightarrow> int \<Rightarrow> ms \<Rightarrow> stream \<Rightarrow> (raw_exn + raw_entry list) \<times> stream" where
  "x_read g consumer start most now st =
     (case groups st g of
        None \<Rightarrow> (Inl no_such_group, st)
      | Some c \<Rightarrow>
          if start = ''>'' then
            (let es = take (nat most) (filter (\<lambda>e. last_delivered c < fst e) (entries st))
             in (Inr (map raw_of es),
                 if es = [] then st
                 else set_group g \<lparr>last_delivered = fst (last es), pending = pending c @ map (\<lambda>e. (fst e, consumer, now)) es\<rparr> st))
          else (Inr (map (raw_pending st) (take (nat most) (filter (\<lambda>p. fst (snd p) = consumer) (pending c)))), st))"

text \<open>What is idle for long enough goes to the consumer, or off the list if the entry is gone.\<close>

definition x_autoclaim :: "string \<Rightarrow> string \<Rightarrow> int \<Rightarrow> ms \<Rightarrow> stream \<Rightarrow> (raw_exn + raw_entry list) \<times> stream" where
  "x_autoclaim g consumer idle now st =
     (case groups st g of
        None \<Rightarrow> (Inl no_such_group, st)
      | Some c \<Rightarrow>
          (let due = (\<lambda>p. idle \<le> now - snd (snd p)); there = (\<lambda>p. fst p \<in> fst ` set (entries st))
           in (Inr (map (raw_pending st) (filter (\<lambda>p. due p \<and> there p) (pending c))),
               set_group g (c\<lparr>pending := map (\<lambda>p. if due p then (fst p, consumer, now) else p)
                 (filter (\<lambda>p. due p \<longrightarrow> there p) (pending c))\<rparr>) st)))"

definition x_claim :: "string \<Rightarrow> string \<Rightarrow> string list \<Rightarrow> int option \<Rightarrow> ms \<Rightarrow> stream \<Rightarrow> raw_exn option \<times> stream" where
  "x_claim g consumer ids idle now st =
     (case groups st g of
        None \<Rightarrow> (Some no_such_group, st)
      | Some c \<Rightarrow>
          (None, set_group g (c\<lparr>pending := map (\<lambda>p. if sid_str (fst p) \<in> set ids
             then (fst p, consumer, now - (case idle of None \<Rightarrow> 0 | Some i \<Rightarrow> i)) else p) (pending c)\<rparr>) st))"

definition x_pending_of :: "string \<Rightarrow> string \<Rightarrow> stream \<Rightarrow> nat" where
  "x_pending_of g consumer st =
     (case groups st g of None \<Rightarrow> 0 | Some c \<Rightarrow> length (filter (\<lambda>p. fst (snd p) = consumer) (pending c)))"

definition x_ack :: "string \<Rightarrow> string \<Rightarrow> stream \<Rightarrow> stream" where
  "x_ack g i st =
     st\<lparr>groups := (groups st)(g := map_option (\<lambda>c. c\<lparr>pending := filter (\<lambda>p. sid_str (fst p) \<noteq> i) (pending c)\<rparr>) (groups st g))\<rparr>"

definition x_del :: "string \<Rightarrow> stream \<Rightarrow> stream" where
  "x_del i st = st\<lparr>entries := filter (\<lambda>e. sid_str (fst e) \<noteq> i) (entries st)\<rparr>"

subsection \<open>They are steps of the queue\<close>

lemma sid_str_inject: "0 \<le> sid_ms i \<Longrightarrow> 0 \<le> sid_ms j \<Longrightarrow> sid_str i = sid_str j \<longleftrightarrow> i = j"
proof
  assume i: "0 \<le> sid_ms i" and j: "0 \<le> sid_ms j" and e: "sid_str i = sid_str j"
  have "sid_ms i = sid_ms j" using entry_ms_sid_str [OF i] entry_ms_sid_str [OF j] e by simp
  with e have "int_str (sid_seq i) = int_str (sid_seq j)" by (simp add: sid_str_def)
  with \<open>sid_ms i = sid_ms j\<close> show "i = j" by (simp add: sid.expand)
qed simp

lemma sid_positive: "Sid 0 0 < i \<Longrightarrow> 0 \<le> sid_ms i"
  by (auto simp: less_sid_def)

lemma reach_create: "reach g st X (snd (x_create g st)) X"
  by (auto simp: x_create_def set_group_def reach_refl split: option.split intro: reach_step q_group)

lemma reach_read: "reach g st X (snd (x_read g consumer start most now st)) X"
proof (cases "groups st g")
  case (Some c)
  let ?es = "take (nat most) (filter (\<lambda>e. last_delivered c < fst e) (entries st))"
  show ?thesis
  proof (cases "start = ''>'' \<and> ?es \<noteq> []")
    case True
    then have "snd (x_read g consumer start most now st) = set_group g \<lparr>last_delivered = fst (last ?es),
        pending = pending c @ map (\<lambda>e. (fst e, consumer, now)) ?es\<rparr> st"
      using Some by (auto simp: x_read_def Let_def)
    then show ?thesis using reach_step [OF q_deliver [OF Some refl, of "nat most" X consumer now]] True
      by (simp add: set_group_def)
  next
    case False
    then show ?thesis using Some by (auto simp: x_read_def Let_def reach_refl)
  qed
qed (simp add: x_read_def reach_refl)

lemma reach_set_group:
  assumes "groups st g = Some c" and "pending_ids c' \<subseteq> pending_ids c"
    and "pending_ids c \<inter> fst ` set (entries st) \<subseteq> pending_ids c'" and "last_delivered c' = last_delivered c"
    and "\<And>p. p \<in> set (pending c') \<Longrightarrow> consumer_of p = consumer \<or> p \<in> set (pending c)"
  shows "reach g st X (set_group g c' st) X"
proof -
  have "\<forall>p \<in> set (pending c'). consumer_of p = consumer \<or> (fst p, consumer_of p) \<in> owned c"
    using assms(5) by (force simp: owned_def)
  from q_claim [OF assms(1-4) this] show ?thesis unfolding set_group_def by (rule reach_step)
qed

lemma pending_ids_map: "(\<And>p. fst (h p) = fst p) \<Longrightarrow> pending_ids (c\<lparr>pending := map h ps\<rparr>) = fst ` set ps"
  by (simp add: pending_ids_def image_image)

lemma reach_autoclaim: "reach g st X (snd (x_autoclaim g consumer idle now st)) X"
proof (cases "groups st g")
  case (Some c)
  show ?thesis unfolding x_autoclaim_def Let_def Some option.case snd_conv
    by (rule reach_set_group [OF Some, where consumer = consumer]; (subst pending_ids_map)?)
      (auto simp: pending_ids_def split: if_splits)
qed (simp add: x_autoclaim_def reach_refl)

lemma reach_claim: "reach g st X (snd (x_claim g consumer ids idle now st)) X"
proof (cases "groups st g")
  case (Some c)
  show ?thesis unfolding x_claim_def Some option.case snd_conv
    by (rule reach_set_group [OF Some, where consumer = consumer]; (subst pending_ids_map)?)
      (auto simp: pending_ids_def split: if_splits)
qed (simp add: x_claim_def reach_refl)

text \<open>A consumer for which XINFO counts nothing was checked.\<close>

lemma x_pending_of_none: "x_pending_of g x st = 0 \<longleftrightarrow> (\<forall>c. groups st g = Some c \<longrightarrow> x \<notin> snd ` owned c)"
  by (auto simp: x_pending_of_def owned_def filter_empty_conv image_iff split: option.splits)

lemma reach_check:
  "(\<And>x. x \<in> set xs \<Longrightarrow> x_pending_of g x st = 0) \<Longrightarrow> reach g st X st (set xs \<union> X)"
proof (induction xs)
  case (Cons x xs)
  then have "reach g st X st (set xs \<union> X)" by simp
  moreover have "reach g st (set xs \<union> X) st (insert x (set xs \<union> X))"
    using Cons.prems [of x] by (intro reach_step [OF q_check]) (simp add: x_pending_of_none)
  ultimately show ?case using reach_trans by simp
qed (simp add: reach_refl)

text \<open>Acknowledging and deleting by the text of an id.\<close>

lemma same_id:
  assumes "stream_ok g st" and "Sid 0 0 < i"
  shows "e \<in> set (entries st) \<Longrightarrow> sid_str (fst e) = sid_str i \<longleftrightarrow> fst e = i"
    and "groups st g = Some c \<Longrightarrow> p \<in> set (pending c) \<Longrightarrow> sid_str (fst p) = sid_str i \<longleftrightarrow> fst p = i"
  using assms by (auto simp: stream_ok_def pending_ids_def intro!: sid_str_inject sid_positive)

lemma x_ack_is: "stream_ok g st \<Longrightarrow> Sid 0 0 < i \<Longrightarrow> x_ack g (sid_str i) st = without_pending g i st"
  by (cases "groups st g") (auto simp: x_ack_def without_pending_def same_id(2) cong: filter_cong)

lemma x_del_is: "stream_ok g st \<Longrightarrow> Sid 0 0 < i \<Longrightarrow> x_del (sid_str i) st = without_entry i st"
  using same_id(1) [of g st i] by (auto simp: x_del_def without_entry_def cong: filter_cong)

lemma reach_drop:
  assumes "stream_ok g st" and "droppable g t st"
  shows "reach g st X (x_ack g t st) X" and "reach g st X (x_del t st) X"
proof -
  obtain i where i: "t = sid_str i" "Sid 0 0 < i" "\<forall>fs. (i, fs) \<in> set (entries st) \<longrightarrow> \<not> lasting fs"
    using assms(2) by (auto simp: droppable_def settled_def)
  show "reach g st X (x_ack g t st) X" unfolding i(1) x_ack_is [OF assms(1) i(2)] by (rule reach_step [OF q_ack [OF i(3)]])
  show "reach g st X (x_del t st) X" unfolding i(1) x_del_is [OF assms(1) i(2)] by (rule reach_step [OF q_delete [OF i(3)]])
qed

lemma reach_answer:
  assumes ok: "stream_ok g st"
  shows "reach g st X (x_del t (x_ack g t st)) X"
proof (cases "\<exists>i. Sid 0 0 < i \<and> sid_str i = t")
  case True
  then obtain i where i: "Sid 0 0 < i" "t = sid_str i" by blast
  have "x_del t (x_ack g t st) = without_entry i (without_pending g i st)"
    using same_id(1) [OF ok i(1)] unfolding i(2) x_ack_is [OF ok i(1)]
    by (auto simp: x_del_def without_entry_def without_pending_def cong: filter_cong)
  then show ?thesis by (simp add: reach_step [OF q_answer])
next
  case False
  then have "x_del t (x_ack g t st) = st"
    using ok by (cases "groups st g") (auto simp: x_del_def x_ack_def stream_ok_def pending_ids_def fun_upd_idem intro!: filter_True)
  then show ?thesis by (simp add: reach_refl)
qed

subsection \<open>What replies tell\<close>

lemma raw_fields_texts: "map (\<lambda>(a, b). (text_of a, text_of b)) (raw_fields RawStr fs) = fs"
  by (induction fs) (auto simp: raw_fields_def)

lemma known_raw:
  assumes "stream_ok g st" and "groups st g = Some c" and "Sid 0 0 < i" and "i \<le> last_delivered c"
    and fs: "\<And>fs'. (i, fs') \<in> set (entries st) \<Longrightarrow> fs' = fs"
  shows "known g (raw_of (i, fs)) st"
proof -
  have "raw_fields RawStr fs \<noteq> [] \<and> map (\<lambda>(a, b). (text_of a, text_of b)) (raw_fields RawStr fs) = fs'"
    if "(i, fs') \<in> set (entries st)" for fs'
    using that assms(1) fs [OF that] raw_fields_texts [of fs] by (fastforce simp: stream_ok_def raw_fields_def)
  moreover have "settled g i st" using assms(2-4) by (simp add: settled_def)
  ultimately show ?thesis unfolding known_def raw_of_def fst_conv snd_conv prod.case option.case
    by (intro exI [of _ i]) simp
qed

lemma known_pending:
  assumes ok: "stream_ok g st" and c: "groups st g = Some c" and p: "p \<in> set (pending c)"
  shows "known g (raw_pending st p) st"
proof -
  have "fst p \<in> pending_ids c" using p by (simp add: pending_ids_def)
  then have i: "Sid 0 0 < fst p" "fst p \<le> last_delivered c" using ok c by (auto simp: stream_ok_def)
  have s: "sorted_wrt (\<lambda>a b. fst a < fst b) (entries st)" using ok by (simp add: stream_ok_def)
  have "fs' = (case map_of (entries st) (fst p) of None \<Rightarrow> [] | Some fs \<Rightarrow> fs)" if f: "(fst p, fs') \<in> set (entries st)" for fs'
  proof -
    obtain fs where m: "map_of (entries st) (fst p) = Some fs"
      using weak_map_of_SomeI [OF f] by blast
    with sorted_entry_unique [OF s f map_of_SomeD [OF m]] show ?thesis by simp
  qed
  from known_raw [OF ok c i this] show ?thesis by (simp add: raw_pending_def)
qed

lemma known_read:
  assumes ok: "stream_ok g st" and r: "x_read g n start most now st = (Inr es, st')" and e: "e \<in> set es"
  shows "known g e st'"
proof (cases "groups st g")
  case None
  with r show ?thesis by (simp add: x_read_def)
next
  case (Some c)
  show ?thesis
  proof (cases "start = ''>''")
    case True
    let ?new = "take (nat most) (filter (\<lambda>e. last_delivered c < fst e) (entries st))"
    let ?c = "\<lparr>last_delivered = fst (last ?new), pending = pending c @ map (\<lambda>e. (fst e, n, now)) ?new\<rparr>"
    have es: "es = map raw_of ?new" and st': "st' = (if ?new = [] then st else set_group g ?c st)"
      using r True Some by (auto simp: x_read_def Let_def)
    obtain a where a: "e = raw_of a" "a \<in> set ?new" using e es by auto
    have ok': "stream_ok g st'" using reach_ok [OF reach_read [of g st "{}"] ok, of n start most now] r by simp
    have ne: "?new \<noteq> []" using a(2) by auto
    have g: "groups st' g = Some ?c" "entries st' = entries st" using st' ne by (simp_all add: set_group_def)
    have s: "sorted_wrt (\<lambda>a b. fst a < fst b) ?new" and s': "sorted_wrt (\<lambda>a b. fst a < fst b) (entries st)"
      using ok by (simp_all add: stream_ok_def sorted_wrt_filter sorted_wrt_take)
    have m: "a \<in> set (entries st)" using a(2) by (auto dest: in_set_takeD)
    then have "Sid 0 0 < fst a" using ok by (auto simp: stream_ok_def)
    moreover have "fst a \<le> last_delivered ?c" using sorted_last_max [OF s a(2)] by simp
    moreover have "fs' = snd a" if "(fst a, fs') \<in> set (entries st')" for fs'
      using sorted_entry_unique [OF s', of "fst a" fs' "snd a"] that m g(2) by simp
    ultimately have "known g (raw_of (fst a, snd a)) st'" by (rule known_raw [OF ok' g(1)])
    then show ?thesis by (simp add: a(1))
  next
    case False
    with r Some have x: "st' = st" "es = map (raw_pending st) (take (nat most) (filter (\<lambda>p. fst (snd p) = n) (pending c)))"
      by (auto simp: x_read_def)
    then obtain p where p: "p \<in> set (take (nat most) (filter (\<lambda>p. fst (snd p) = n) (pending c)))" "e = raw_pending st p"
      using e by auto
    have "p \<in> set (pending c)" using in_set_takeD [OF p(1)] by simp
    from known_pending [OF ok Some this] show ?thesis by (simp add: x(1) p(2))
  qed
qed

lemma known_autoclaim:
  assumes ok: "stream_ok g st" and r: "x_autoclaim g n idle now st = (Inr es, st')" and e: "e \<in> set es"
  shows "known g e st'"
proof (cases "groups st g")
  case None
  with r show ?thesis by (simp add: x_autoclaim_def)
next
  case (Some c)
  with r e obtain p where "p \<in> set (pending c)" "e = raw_pending st p" by (auto simp: x_autoclaim_def Let_def)
  with known_pending [OF ok Some] have "known g e st" by simp
  moreover have "reach g st {} st' {}" using reach_autoclaim [of g st "{}" n idle now] r by simp
  ultimately show ?thesis by (rule known_reach [rotated])
qed

subsection \<open>The world\<close>

text \<open>\<open>qx_seen\<close>: the consumers and when they were last active; \<open>qx_checked\<close>: those of a stream that XINFO
  CONSUMERS has shown with nothing pending.\<close>

record qsim =
  qx_streams :: "key \<Rightarrow> stream"
  qx_lists :: "key \<Rightarrow> string list"
  qx_now :: ms
  qx_seen :: "(string \<times> ms) list"
  qx_checked :: "(key \<times> string) list"
  qx_store :: sim

definition on_stream :: "key \<Rightarrow> (stream \<Rightarrow> 'a \<times> stream) \<Rightarrow> qsim mem \<Rightarrow> 'a \<times> qsim mem" where
  "on_stream k f m =
     (case f (qx_streams (snd m) k) of
        (r, st) \<Rightarrow> (r, (fst m, (snd m)\<lparr>qx_streams := (qx_streams (snd m))(k := st)\<rparr>)))"

definition later :: "real \<Rightarrow> qsim mem \<Rightarrow> qsim mem" where
  "later d m = (fst m, (snd m)\<lparr>qx_now := qx_now (snd m) + max 0 \<lceil>d * 1000\<rceil>\<rparr>)"

text \<open>The semaphore's environment acts on its store only.\<close>

definition put_store :: "sim \<Rightarrow> qsim mem \<Rightarrow> qsim mem" where
  "put_store x m = (fst m, (snd m)\<lparr>qx_store := x\<rparr>)"

definition store_sem :: "sim sem_env \<Rightarrow> qsim mem sem_env" where
  "store_sem E = part_env (\<lambda>m. qx_store (snd m)) put_store E"

definition x_info :: "string \<Rightarrow> (string \<times> ms) list \<Rightarrow> ms \<Rightarrow> stream \<Rightarrow> (raw_exn + consumer_info list) \<times> stream" where
  "x_info g seen now st =
     (if groups st g = None then Inl no_such_group
      else Inr (map (\<lambda>(x, t). \<lparr>ci_name = RawStr x, ci_pending = int (x_pending_of g x st), ci_idle = now - t\<rparr>) seen), st)"

definition sim_xinfo :: "key \<Rightarrow> string \<Rightarrow> qsim mem \<Rightarrow> (raw_exn + consumer_info list) \<times> qsim mem" where
  "sim_xinfo k g m =
     (let (r, m) = on_stream k (x_info g (qx_seen (snd m)) (qx_now (snd m))) m
      in (r, (fst m, (snd m)\<lparr>qx_checked := map (Pair k)
           (case r of Inl _ \<Rightarrow> [] | Inr infos \<Rightarrow> map (\<lambda>ci. text_of (ci_name ci)) (filter (\<lambda>ci. ci_pending ci = 0) infos))
           @ qx_checked (snd m)\<rparr>)))"

fun sim_finish_cmd :: "finish_cmd \<Rightarrow> qsim mem \<Rightarrow> qsim mem" where
  "sim_finish_cmd (FLPush k x) m = (fst m, (snd m)\<lparr>qx_lists := (qx_lists (snd m))(k := x # qx_lists (snd m) k)\<rparr>)"
| "sim_finish_cmd (FPExpire k t) m = m"
| "sim_finish_cmd (FXAck k g i) m = snd (on_stream k (\<lambda>st. ((), x_ack g i st)) m)"
| "sim_finish_cmd (FXDel k i) m = snd (on_stream k (\<lambda>st. ((), x_del i st)) m)"

definition sim_xread ::
  "string \<Rightarrow> string \<Rightarrow> key \<Rightarrow> string \<Rightarrow> int \<Rightarrow> int option \<Rightarrow> qsim mem \<Rightarrow> (raw_exn + xread_reply) \<times> qsim mem" where
  "sim_xread g consumer k start most block m =
     (case on_stream k (x_read g consumer start most (qx_now (snd m))) m of
        (Inl e, m) \<Rightarrow> (Inl e, m)
      | (Inr es, m) \<Rightarrow>
          if es = [] then (Inr NoReply, if start = ''>'' then change stop m else m)
          else (Inr (Resp2 [(RawStr k, es)]), m))"

definition sim_worker :: "sim sem_env \<Rightarrow> qsim worker_env" where
  "sim_worker SE =
     \<lparr>wd_time = (\<lambda>m. of_int (qx_now (snd m)) / 1000), wd_monotonic = (\<lambda>m. of_int (qx_now (snd m)) / 1000),
      wd_describe = (\<lambda>_. []), wd_metrics_enabled = False, wd_metric_hook = False, wd_metric = (\<lambda>call m. m),
      wd_uniform = (\<lambda>a b m. (a, m)), wd_shuffle = (\<lambda>qs m. (qs, m)), wd_sem = store_sem SE,
      wd_xgroup_create = (\<lambda>k g. on_stream k (x_create g)), wd_xreadgroup = sim_xread,
      wd_server_time = (\<lambda>m. (Inr (qx_now (snd m) div 1000, qx_now (snd m) mod 1000 * 1000), m)),
      wd_xautoclaim = (\<lambda>k g consumer idle start most m.
        apfst (map_sum id (Pair (RawStr ''0-0''))) (on_stream k (x_autoclaim g consumer idle (qx_now (snd m))) m)),
      wd_xinfo_consumers = sim_xinfo,
      wd_xgroup_delconsumer = (\<lambda>k g x. on_stream k (\<lambda>st. (None, without_consumer g x st))),
      wd_xclaim = (\<lambda>k g consumer min_idle ids idle m. on_stream k (x_claim g consumer ids idle (qx_now (snd m))) m),
      wd_xack = (\<lambda>k g i. on_stream k (\<lambda>st. (None, x_ack g i st))),
      wd_xdel = (\<lambda>k i. on_stream k (\<lambda>st. (None, x_del i st))),
      wd_transaction = (\<lambda>cmds m. (None, fold sim_finish_cmd cmds m)),
      wd_sleep = later, wd_claim_lock = Pair False, wd_wait_stopping = (\<lambda>d m. (False, later d m)),
      wd_pause = (\<lambda>d m. (False, later d m)), wd_wait_any = (\<lambda>tids d m. (False, later d m)),
      wd_wait_settled = (\<lambda>tid d m. (False, later d m)),
      wd_cancel = (\<lambda>tid m. Some (False, change (task_done tid True) m)), wd_request_cancel = (\<lambda>tid. change (task_done tid True)),
      wd_shield = (\<lambda>m. ((False, True), change clear_run m)),
      wd_gather_leaders = (\<lambda>m. m), wd_gather_handlers = (\<lambda>m. m), wd_cancel_touch = (\<lambda>m. m),
      wd_handler = (\<lambda>tid m. (Returned (jb_payload (task_job tid (fst m))), m))\<rparr>"

text \<open>With an event loop: who waits for a job lets its handler run.\<close>

definition with_handlers :: "key \<Rightarrow> 'w worker_env \<Rightarrow> 'w worker_env" where
  "with_handlers k E =
     E\<lparr>wd_wait_settled := (\<lambda>tid d m. (False, if ht_stream (wk_jobs (fst m) ! tid) = k then job_task E tid m else m))\<rparr>"

subsection \<open>The contract\<close>

abbreviation sim_stream :: "key \<Rightarrow> qsim \<Rightarrow> stream" where
  "sim_stream k \<equiv> (\<lambda>w. qx_streams w k)"

definition sim_checked :: "key \<Rightarrow> string \<Rightarrow> qsim \<Rightarrow> bool" where
  "sim_checked k x w \<longleftrightarrow> (k, x) \<in> set (qx_checked w)"

abbreviation sim_calm :: "dispatch_config \<Rightarrow> string \<Rightarrow> key \<Rightarrow> qsim mem \<Rightarrow> qsim mem \<Rightarrow> bool" where
  "sim_calm c n k \<equiv> calm_mem c n (sim_stream k) (sim_checked k)"

lemma sim_calmI:
  assumes "wk_config (fst m') = wk_config (fst m)" and "wk_id (fst m') = wk_id (fst m)"
    and "stream_ok (dc_group c) (qx_streams (snd m) k) \<Longrightarrow>
      reach (dc_group c) (qx_streams (snd m) k) {x. sim_checked k x (snd m)} (qx_streams (snd m') k) {x. sim_checked k x (snd m')}"
  shows "sim_calm c n k m m'"
  using assms reach_ok by (auto simp: calm_mem_def ours_mem_def)

lemma sim_calm_same:
  "wk_config (fst m') = wk_config (fst m) \<Longrightarrow> wk_id (fst m') = wk_id (fst m) \<Longrightarrow> qx_streams (snd m') k = qx_streams (snd m) k \<Longrightarrow>
   qx_checked (snd m') = qx_checked (snd m) \<Longrightarrow> sim_calm c n k m m'"
  by (rule sim_calmI) (simp_all add: sim_checked_def reach_refl)

lemma sim_calm_then: "sim_calm c n k m u \<Longrightarrow> sim_calm c n k u v \<Longrightarrow> sim_calm c n k m v"
  unfolding calm_mem_def by (blast intro: reach_trans)

lemma on_stream_checked [simp]: "qx_checked (snd (snd (on_stream k f m))) = qx_checked (snd m)"
  by (simp add: on_stream_def split: prod.split)

lemma sim_calm_stream:
  assumes "\<And>X. k' = k \<Longrightarrow> ours_mem c n (sim_stream k) m \<Longrightarrow> X = {x. sim_checked k x (snd m)} \<Longrightarrow>
    reach (dc_group c) (qx_streams (snd m) k) X (snd (f (qx_streams (snd m) k))) X"
  shows "sim_calm c n k m (snd (on_stream k' f m))"
proof -
  have "sim_calm c n k m (snd (on_stream k' f m))" if "ours_mem c n (sim_stream k) m"
    using assms that reach_refl
    by (intro sim_calmI) (auto simp: on_stream_def sim_checked_def split: prod.split)
  then show ?thesis by (auto simp: calm_mem_def)
qed

text \<open>What the semaphores do leaves the worker and the streams alone.\<close>

definition apart_from_store :: "qsim mem \<Rightarrow> qsim mem \<Rightarrow> bool" where
  "apart_from_store m m' \<longleftrightarrow>
     fst m' = fst m \<and> qx_streams (snd m') = qx_streams (snd m) \<and> qx_checked (snd m') = qx_checked (snd m)"

lemma put_store_apart: "apart_from_store m (snd (on_part (\<lambda>m. qx_store (snd m)) put_store f m))"
  by (simp add: snd_on_part put_store_def apart_from_store_def)

lemma script_apart:
  "apart_from_store m (snd (script_call sha (aevalsha sha (s_client (store_sem E))) name keys args parse m))"
proof -
  have r: "apart_from_store a (snd (cl_evalsha (s_client (store_sem E)) h i args a))"
    "apart_from_store a (snd (cl_eval (s_client (store_sem E)) sc i args a))" for a h sc i args
    by (simp_all add: store_sem_def part_env_def put_store_apart)
  have t: "apart_from_store a b \<Longrightarrow> apart_from_store b d \<Longrightarrow> apart_from_store a d" for a b d
    by (simp add: apart_from_store_def)
  have e: "apart_from_store a (snd (evalsha_or_eval sha (s_client (store_sem E)) h i args a))" for a h i args
  proof -
    obtain p u where u: "cl_evalsha (s_client (store_sem E)) h i args a = (p, u)" by (rule prod.exhaust)
    have "apart_from_store a u" using r(1) [of a h i args] u by simp
    then show ?thesis using r(2) t
      by (auto simp: evalsha_or_eval_def u split: sum.split)
  qed
  have s: "apart_from_store a a" for a by (simp add: apart_from_store_def)
  have a: "apart_from_store a (snd (aevalsha sha (s_client (store_sem E)) h i args a))" for a h i args
    using e s by (simp add: aevalsha_def)
  show ?thesis
  proof (cases "get_sha sha name")
    case (Inr h)
    obtain p u where u: "aevalsha sha (s_client (store_sem E)) h (length keys) (map AStr keys @ args) m = (p, u)" by (rule prod.exhaust)
    then show ?thesis using a [of m h "length keys" "map AStr keys @ args"] Inr by (simp add: script_call_def split: sum.split)
  qed (simp add: script_call_def s)
qed

lemma release_apart: "apart_from_store m (snd (snd (sem_arelease (store_sem E) M m)))"
proof -
  have s: "apart_from_store a a" for a by (simp add: apart_from_store_def)
  have n: "apart_from_store a (notify_waiters_async (store_sem E) T a)" for a T
    unfolding notify_waiters_async_def by (simp add: store_sem_def part_env_def put_store_apart)
  have t: "apart_from_store a b \<Longrightarrow> apart_from_store b d \<Longrightarrow> apart_from_store a d" for a b d
    by (simp add: apart_from_store_def)
  have c: "apart_from_store m (snd (call_release (store_sem E) ASYNC T i m))" for T i
    unfolding call_release_def runner_release_async_def by (simp add: script_apart)
  show ?thesis
  proof (cases "so_identifier M")
    case (Some i)
    obtain p u where u: "call_release (store_sem E) ASYNC (stop_heartbeat_of ASYNC M) i m = (p, u)" by (rule prod.exhaust)
    have "apart_from_store m u" using c [of "stop_heartbeat_of ASYNC M" i] u by simp
    then show ?thesis using Some u s t n
      by (auto simp: sem_arelease_def boundary_def arelease_body_def release_with_def Let_def split: sum.split)
  qed (simp add: sem_arelease_def boundary_def arelease_body_def release_with_def s)
qed

lemma sim_calm_finish:
  "sim_calm c n k m (snd (wd_transaction (sim_worker SE) [FLPush rk reply, FPExpire rk t, FXAck k (dc_group c) i, FXDel k i] m))"
proof -
  let ?m = "sim_finish_cmd (FLPush rk reply) m"
  have "sim_calm c n k m ?m" by (rule sim_calm_same) simp_all
  moreover have "sim_calm c n k ?m (snd (on_stream k (\<lambda>st. ((), x_del i (x_ack (dc_group c) i st))) ?m))"
    by (rule sim_calm_stream) (simp add: ours_mem_def reach_answer)
  ultimately have "sim_calm c n k m (snd (on_stream k (\<lambda>st. ((), x_del i (x_ack (dc_group c) i st))) ?m))"
    by (rule sim_calm_then)
  then show ?thesis by (simp add: sim_worker_def on_stream_def)
qed

interpretation stream_server: queue_server "sim_worker SE" "sim_stream k" "sim_checked k" c n k
proof (unfold_locales, goal_cases)
  case (1 m call)
  show ?case by (rule sim_calm_same) (simp_all add: sim_worker_def)
next
  case (2 m M)
  have "wd_sem (sim_worker SE) = store_sem SE" by (simp add: sim_worker_def)
  with release_apart [of m SE M] show ?case by (intro sim_calm_same) (simp_all add: apart_from_store_def)
next
  case (3 m)
  show ?case unfolding sim_worker_def worker_env.simps
    by (rule sim_calm_stream) (simp_all add: reach_create)
next
  case (4 m start most block)
  obtain p u where u: "on_stream k (x_read (dc_group c) n start most (qx_now (snd m))) m = (p, u)" by (rule prod.exhaust)
  have "sim_calm c n k m (snd (on_stream k (x_read (dc_group c) n start most (qx_now (snd m))) m))"
    by (rule sim_calm_stream) (simp_all add: reach_read)
  then have m: "sim_calm c n k m u" using u by simp
  have "sim_calm c n k u (change stop u)" by (rule sim_calm_same) (simp_all add: change_def stop_def)
  with m have "sim_calm c n k m (change stop u)" by (rule sim_calm_then)
  with m u show ?case by (simp add: sim_worker_def sim_xread_def split: sum.split)
next
  case (5 m start most block rd m' e)
  obtain p u where u: "on_stream k (x_read (dc_group c) n start most (qx_now (snd m))) m = (p, u)" by (rule prod.exhaust)
  with 5 obtain es where es: "p = Inr es" "e \<in> set es" "qx_streams (snd m') = qx_streams (snd u)"
    by (auto simp: sim_worker_def sim_xread_def change_def split: sum.splits if_splits)
  with u have "x_read (dc_group c) n start most (qx_now (snd m)) (qx_streams (snd m) k) = (Inr es, qx_streams (snd m') k)"
    by (auto simp: on_stream_def split: prod.splits)
  from known_read [OF _ this es(2)] 5(1) show ?case by (simp add: ours_mem_def)
next
  case (6 m)
  show ?case by (rule sim_calm_same) (simp_all add: sim_worker_def)
next
  case (7 m idle start most)
  have "sim_calm c n k m (snd (on_stream k (x_autoclaim (dc_group c) n idle (qx_now (snd m))) m))"
    by (rule sim_calm_stream) (simp_all add: reach_autoclaim)
  then show ?case by (simp add: sim_worker_def)
next
  case (8 m idle start most cursor es m' e)
  then have "x_autoclaim (dc_group c) n idle (qx_now (snd m)) (qx_streams (snd m) k) = (Inr es, qx_streams (snd m') k)"
    by (auto simp: sim_worker_def on_stream_def map_sum_def split: prod.splits sum.splits)
  from known_autoclaim [OF _ this 8(3)] 8(1) show ?case by (simp add: ours_mem_def)
next
  case (9 m)
  show ?case
  proof (cases "groups (qx_streams (snd m) k) (dc_group c)")
    case None
    then show ?thesis
      by (intro sim_calm_same) (simp_all add: sim_worker_def sim_xinfo_def x_info_def on_stream_def Let_def)
  next
    case (Some d)
    let ?xs = "map fst (filter (\<lambda>s. x_pending_of (dc_group c) (fst s) (qx_streams (snd m) k) = 0) (qx_seen (snd m)))"
    let ?m = "snd (sim_xinfo k (dc_group c) m)"
    have f: "map (\<lambda>ci. text_of (ci_name ci)) (filter (\<lambda>ci. ci_pending ci = 0) (map (\<lambda>(x, t). \<lparr>ci_name = RawStr x,
        ci_pending = int (x_pending_of g x st), ci_idle = now - t\<rparr>) seen)) =
      map fst (filter (\<lambda>s. x_pending_of g (fst s) st = 0) seen)" for g st now seen
      by (induction seen) auto
    have m: "fst ?m = fst m" "qx_streams (snd ?m) k = qx_streams (snd m) k"
      "{x. sim_checked k x (snd ?m)} = set ?xs \<union> {x. sim_checked k x (snd m)}"
      using Some by (auto simp: sim_xinfo_def x_info_def on_stream_def Let_def sim_checked_def f)
    have "reach (dc_group c) (qx_streams (snd m) k) X (qx_streams (snd m) k) (set ?xs \<union> X)" for X
      by (rule reach_check) auto
    then have "sim_calm c n k m ?m" by (intro sim_calmI) (simp_all only: m)
    then show ?thesis by (simp add: sim_worker_def)
  qed
next
  case (10 m infos m' ci)
  then show ?case
    by (auto simp: sim_worker_def sim_xinfo_def Let_def sim_checked_def split: prod.splits)
next
  case (11 m dead)
  show ?case unfolding sim_worker_def worker_env.simps
  proof (rule sim_calm_stream)
    fix X assume "ours_mem c n (sim_stream k) m" and X: "X = {x. sim_checked k x (snd m)}"
    with 11 have "dead \<in> X" by simp
    then show "reach (dc_group c) (qx_streams (snd m) k) X (snd (None, without_consumer (dc_group c) dead (qx_streams (snd m) k))) X"
      by (simp add: reach_step [OF q_prune])
  qed
next
  case (12 m stream ids new_idle)
  show ?case unfolding sim_worker_def worker_env.simps
    by (rule sim_calm_stream) (simp_all add: reach_claim)
next
  case (13 m i)
  then show ?case unfolding sim_worker_def worker_env.simps
    by (intro sim_calm_stream) (simp_all add: reach_drop ours_mem_def)
next
  case (14 m i)
  then show ?case unfolding sim_worker_def worker_env.simps
    by (intro sim_calm_stream) (simp_all add: reach_drop ours_mem_def)
next
  case (15 m rk reply t i)
  show ?case by (rule sim_calm_finish)
qed (auto intro!: sim_calm_same simp: sim_worker_def later_def change_def task_done_def Let_def)

text \<open>With the event loop: what a handler task does is calm by the above.\<close>

interpretation loop_server: queue_server "with_handlers k (sim_worker SE)" "sim_stream k" "sim_checked k" c n k
proof (unfold_locales, goal_cases)
  case (20 m tid d)
  show ?case
    using stream_server.calm_job_task [where m = m and tid = tid and k = k and c = c and n = n and SE = SE] by (simp add: with_handlers_def stream_server.calm_same)
qed (simp_all add: with_handlers_def stream_server.metric_law stream_server.release_law stream_server.create_law
    stream_server.read_law stream_server.read_known stream_server.time_law stream_server.autoclaim_law
    stream_server.autoclaim_known stream_server.consumers_law stream_server.checked_law stream_server.delconsumer_law
    stream_server.claim_law stream_server.ack_law stream_server.del_law stream_server.transaction_law stream_server.await_laws
    stream_server.cancel_law)

end
