(* ===== verification/DispatchProps.thy ===== *)
theory DispatchProps
  imports DispatchWorker SemaphoreSim
begin

section \<open>What travels through a queue\<close>

text \<open>
  A payload reaches the handler and a result the submitter as they were given: the fields the enqueue
  script writes are decoded to the job that was submitted, and the reply a worker writes is parsed to the
  handler's value or to its failure.
\<close>

subsection \<open>Numbers as the script writes them\<close>

lemma strip_digits: "t \<noteq> [] \<Longrightarrow> list_all is_digit t \<Longrightarrow> strip t = t"
proof -
  assume ne: "t \<noteq> []" and d: "list_all is_digit t"
  have sp: "\<not> is_space c" if "is_digit c" for c using that by (auto simp: is_digit_def is_space_def)
  have "dropWhile is_space u = u" if "list_all is_digit u" for u
    using that sp by (cases u) auto
  from this [of t] this [of "rev t"] d show ?thesis by (simp add: strip_def)
qed

lemma float_of_text_int_str: "0 \<le> n \<Longrightarrow> float_of_text (int_str n) = Some (of_int n)"
proof -
  assume n: "0 \<le> n"
  have d: "list_all is_digit (int_str n)" by (rule int_str_digits [OF n])
  then have tw: "takeWhile is_digit (int_str n) = int_str n" "dropWhile is_digit (int_str n) = []"
    by (simp_all add: list_all_iff)
  have "is_digit (hd (int_str n))" using d by (cases "int_str n") (auto simp: list_all_iff)
  then have c: "hd (int_str n) \<noteq> CHR ''-''" "hd (int_str n) \<noteq> CHR ''+''" by (auto simp: is_digit_def)
  have "real (digits_val (int_str n)) = of_int n"
    using digits_val_int_str [OF n] by (metis of_int_of_nat_eq)
  with c show ?thesis
    by (simp add: tw float_of_text_def Let_def strip_digits [OF int_str_nonempty d] exp_ok_def)
qed

lemma decode_job_fields:
  assumes "\<And>t. text_of (raw t) = t" and "json_ok p" and "0 \<le> now" and "\<And>d. timeout = Some d \<Longrightarrow> 0 \<le> d"
  shows "decode_job W queue i (raw_fields raw (job_fields jid (json_dumps p) timeout now)) reclaimed =
    Some (new_job queue i jid p (of_int now / 1000) (map_option (\<lambda>d. of_int (now + d) / 1000) timeout) reclaimed
      (wk_clock_offset W))"
  using assms
  by (cases timeout) (simp_all add: decode_job_def decode_fields_def raw_fields_def job_fields_def Let_def loads_dumps float_of_text_int_str)

text \<open>C19: a job arrives as it was submitted: the entry that the enqueue script appends for a payload is
  decoded, by any worker and with bytes or decoded replies, to the job with that id and payload, created
  at the server's time, with the deadline the timeout gives.\<close>

theorem job_arrives_as_submitted:
  assumes "redis R view" and "0 < ttl" and "queue_wf sk (view s)" and "0 \<le> clock_ms (view s)"
    and "json_ok p" and "\<And>d. timeout = Some d \<Longrightarrow> 0 \<le> d" and "\<And>t. text_of (raw t) = t"
    and "strs (view s) mk = None"
    and "dispatch_enqueue_script R sk mk mx ttl timeout jid (json_dumps p) s = (RBulk i, s')"
  shows "\<exists>e fs. queue_of sk (view s') = queue_of sk (view s) @ [(e, fs)] \<and> sid_str e = i \<and>
    decode_job W queue i (raw_fields raw fs) reclaimed =
      Some (new_job queue i jid p (of_int (clock_ms (view s)) / 1000)
        (map_option (\<lambda>d. of_int (clock_ms (view s) + d) / 1000) timeout) reclaimed (wk_clock_offset W))"
proof -
  from redis.enqueue_on_view [OF assms(1-4,9)] assms(8) obtain e where e: "i = sid_str e"
    "queue_of sk (view s') = queue_of sk (view s) @ [(e, job_fields jid (json_dumps p) timeout (clock_ms (view s)))]"
    by (auto split: if_splits)
  with decode_job_fields [OF assms(7,5,4,6), of timeout W queue i jid reclaimed] show ?thesis by auto
qed

definition demo_worker :: worker where
  "demo_worker =
     (case new_worker True None [''mail''] dispatch_config_defaults ''w1'' ''w2'' of Inr W \<Rightarrow> W)"

theorem job_arrives_as_submitted_witness:
  "\<exists>e fs. queue_of ''dispatch:mail'' (snd demo_enqueued) = [(e, fs)] \<and>
    decode_job demo_worker ''mail'' (sid_str e) (raw_fields RawBytes fs) False =
      Some (new_job ''mail'' (sid_str e) ''j1'' (JObj []) 7 (Some (75 / 10)) False (wk_clock_offset demo_worker))"
proof -
  have run: "dispatch_enqueue_script doc_redis ''dispatch:mail'' ''dispatch:mail:submit:j1'' 1
     60000 (Some 500) ''j1'' (json_dumps (JObj [])) (empty_view 7000) = (RBulk ''7000-0'', snd demo_enqueued)"
    using demo_enqueued_view by (cases demo_enqueued) (simp add: demo_enqueued_def)
  have e: "queue_of ''dispatch:mail'' (empty_view 7000) = []" "queue_wf ''dispatch:mail'' (empty_view 7000)"
    "strs (empty_view 7000) ''dispatch:mail:submit:j1'' = None"
    by (simp_all add: queue_of_def stream_at_def empty_view_def queue_wf_def)
  show ?thesis
    using job_arrives_as_submitted [OF doc.redis_axioms _ e(2) _ _ _ _ e(3) run, where raw = RawBytes and W = demo_worker and queue = "''mail''" and reclaimed = False] e(1)
    by auto
qed

subsection \<open>Replies\<close>

definition outcome_ok :: "handler_outcome \<Rightarrow> bool" where
  "outcome_ok out \<longleftrightarrow>
     (case out of Returned v \<Rightarrow> json_ok v | RaisedJobError cls text (Some d) \<Rightarrow> json_ok d
      | RaisedRateLimit text n \<Rightarrow> json_num_ok n | _ \<Rightarrow> True)"

text \<open>C20: what the handler ends with is what the submitter gets: the reply the worker writes for a value
  is parsed to that value, the reply for an exception to JobFailedError with its class name, text and
  data; a handler that is cancelled or asks for a requeue gives no reply.\<close>

theorem result_reaches_the_submitter:
  assumes "outcome_ok out"
  shows "map_option (\<lambda>r. parse_reply (fst r)) (job_reply out) =
    (case out of
       Returned v \<Rightarrow> Some (Inr v)
     | Cancelled \<Rightarrow> None
     | Requeue delay \<Rightarrow> None
     | RaisedJobError cls text data \<Rightarrow> Some (Inl (SemError (job_failed_error (JStr cls) (JStr text)
         (case data of None \<Rightarrow> JNull | Some d \<Rightarrow> d))))
     | RaisedRateLimit text n \<Rightarrow> Some (Inl (SemError (JobFailedError (JStr ''RateLimitTimeoutError'') (JStr text)
         (JObj [(''retry_after'', JNum n)]))))
     | RaisedOther cls text \<Rightarrow> Some (Inl (SemError (JobFailedError (JStr cls) (JStr text) (JObj [])))))"
proof -
  have p: "parse_reply (json_dumps (JObj d)) = (if json_truth (get_or d ''ok'' JNull) then Inr (get_or d ''result'' JNull)
      else Inl (SemError (job_failed_error (get_or d ''error_type'' (JStr ''Error''))
        (get_or d ''message'' (JStr [])) (get_or d ''data'' JNull))))" if "json_ok (JObj d)" for d
    using that by (simp add: parse_reply_def loads_dumps del: json_dumps.simps)
  from assms show ?thesis
    by (cases out) (auto simp: outcome_ok_def job_reply_def error_reply_def p get_or_def job_failed_error_def
        simp del: json_dumps.simps split: option.splits)
qed

theorem result_reaches_the_submitter_witness:
  "map_option (\<lambda>r. parse_reply (fst r)) (job_reply (Returned (JArr [JNum ''7'', JStr ''a'']))) =
     Some (Inr (JArr [JNum ''7'', JStr ''a'']))"
proof -
  have "json_num_ok ''7''" by code_simp
  then have "outcome_ok (Returned (JArr [JNum ''7'', JStr ''a'']))" by (simp add: outcome_ok_def)
  from result_reaches_the_submitter [OF this] show ?thesis by simp
qed

subsection \<open>The time a submit takes\<close>

text \<open>Calls take at most \<open>slow\<close>; BLMOVE takes at least \<open>quick\<close> and ends at most \<open>late\<close> after its timeout,
  a sleep after its time.\<close>

definition q_timely where
  "q_timely E enqueue blmove delete sleep quick slow late \<longleftrightarrow>
     (\<forall>w. q_monotonic E (snd (q_uuid_hex E w)) = q_monotonic E w) \<and>
     (\<forall>sk mk mx ttl i p t w. q_monotonic E (snd (enqueue sk mk mx ttl i p t w)) \<le> q_monotonic E w + slow) \<and>
     (\<forall>k d w. min_block \<le> d \<longrightarrow> q_monotonic E w + quick \<le> q_monotonic E (snd (blmove k k d w)) \<and>
        q_monotonic E (snd (blmove k k d w)) \<le> q_monotonic E w + d + late) \<and>
     (\<forall>k w. q_monotonic E w \<le> q_monotonic E (snd (delete k w)) \<and>
        q_monotonic E (snd (delete k w)) \<le> q_monotonic E w + slow) \<and>
     (\<forall>d w. 0 \<le> d \<longrightarrow> q_monotonic E w \<le> q_monotonic E (sleep d w) \<and>
        q_monotonic E (sleep d w) \<le> q_monotonic E w + d + late)"

lemma wait_round_clock:
  assumes tm: "q_timely E enqueue blmove delete sleep quick slow late" and pos: "0 < quick" "0 \<le> late" "0 \<le> slow"
    and w: "q_monotonic E w \<le> g + min_block + 2 * late"
  shows "case wait_round E blmove delete sleep queue rkey (Some g) (since, w) of
      Inl (r, w') \<Rightarrow> q_monotonic E w' \<le> g + min_block + 2 * late + slow
    | Inr (since', w') \<Rightarrow> q_monotonic E w + quick \<le> q_monotonic E w' \<and> q_monotonic E w' \<le> g + min_block + 2 * late"
proof (cases "g - q_monotonic E w \<le> 0")
  case True
  then have "min (block_cap (q_socket_timeout E)) (g - q_monotonic E w) \<le> 0" by simp
  with w pos show ?thesis by (simp add: wait_round_def)
next
  case False
  let ?d = "max (min (block_cap (q_socket_timeout E)) (g - q_monotonic E w)) min_block"
  have cap: "0 < block_cap (q_socket_timeout E)"
    by (auto simp: block_cap_def max_block_def blpop_socket_timeout_fraction_def split: option.split)
  obtain p u where b: "blmove rkey rkey ?d w = (p, u)" by (rule prod.exhaust)
  have u: "q_monotonic E w + quick \<le> q_monotonic E u" "q_monotonic E u \<le> q_monotonic E w + ?d + late"
    using tm b unfolding q_timely_def by (metis max.cobounded2 snd_conv)+
  have "q_monotonic E w + ?d \<le> g + min_block" using False by (auto simp: min_block_def)
  with u(2) have u2: "q_monotonic E u \<le> g + min_block + late" by linarith
  have del: "q_monotonic E (snd (delete rkey u)) \<le> q_monotonic E u + slow"
    using tm unfolding q_timely_def by blast
  have sl: "q_monotonic E u \<le> q_monotonic E (sleep d u)" "q_monotonic E (sleep d u) \<le> q_monotonic E u + d + late"
    if "0 \<le> d" for d using tm that unfolding q_timely_def by blast+
  have pause: "0 \<le> pause_after_error (Some g) (q_monotonic E u)"
    "q_monotonic E u + pause_after_error (Some g) (q_monotonic E u) \<le> max (q_monotonic E u) g"
    by (auto simp: pause_after_error_def wait_error_pause_def)
  have "max (q_monotonic E u) g \<le> g + min_block + late" using u2 pos by (simp add: min_block_def)
  with sl [OF pause(1)] pause(2) have s: "q_monotonic E u \<le> q_monotonic E (sleep (pause_after_error (Some g) (q_monotonic E u)) u)"
    "q_monotonic E (sleep (pause_after_error (Some g) (q_monotonic E u)) u) \<le> g + min_block + 2 * late"
    by linarith+
  show ?thesis
    using False cap b u u2 del s pos
    by (cases p; cases "delete rkey u") (auto simp: wait_round_def Let_def split: sum.split option.split)
qed

lemma submit_with_in_time:
  assumes tm: "q_timely E enqueue blmove delete sleep quick slow late" and pos: "0 < quick" "0 \<le> late" "0 \<le> slow" "0 \<le> T"
  shows "\<exists>r w'. submit_with E enqueue blmove delete sleep c queue payload (Some T) w = Some (r, w') \<and>
    q_monotonic E w' \<le> q_monotonic E w + T + min_block + 2 * late + 2 * slow"
proof -
  obtain i w1 where i: "q_uuid_hex E w = (i, w1)" by (rule prod.exhaust)
  obtain p w2 where p: "enqueue (stream_key c queue) (submit_marker_key c queue i)
      (case dc_max_queue_size c of None \<Rightarrow> 0 | Some n \<Rightarrow> n) (py_int (dc_reply_ttl c * 1000)) i (json_dumps payload)
      (map_option (\<lambda>t. py_int (t * 1000)) (Some T)) w1 = (p, w2)" by (rule prod.exhaust)
  have w1: "q_monotonic E w1 = q_monotonic E w" using tm i unfolding q_timely_def by (metis snd_conv)
  have w2: "q_monotonic E w2 \<le> q_monotonic E w + slow" using tm p w1 unfolding q_timely_def by (metis snd_conv)
  have fast: ?thesis if "submit_with E enqueue blmove delete sleep c queue payload (Some T) w = Some (r, w2)" for r
    using that w2 pos by (intro exI [of _ r] exI [of _ w2]) (simp add: min_block_def)
  let ?g = "q_monotonic E w2 + T" and ?B = "q_monotonic E w2 + T + min_block + 2 * late"
  let ?body = "wait_round E blmove delete sleep queue (reply_key c queue i) (Some ?g)"
  have "\<exists>r. repeat_until ?body (None, w2) = Some r \<and> q_monotonic E (snd r) \<le> ?B + slow"
  proof (rule repeat_until_ends [where P = "\<lambda>x. q_monotonic E (snd x) \<le> ?B"
        and f = "\<lambda>x. nat \<lfloor>(?B - q_monotonic E (snd x)) / quick\<rfloor>"], goal_cases)
    case 1
    show ?case using pos by (simp add: min_block_def)
  next
    case (2 x y)
    from wait_round_clock [OF tm pos(1-3), of "snd x" ?g queue "reply_key c queue i" "fst x"] 2
    have "q_monotonic E (snd x) + quick \<le> q_monotonic E (snd y)" "q_monotonic E (snd y) \<le> ?B"
      by (auto split: sum.splits)
    with rounds_left_less [OF pos(1)] show ?case by blast
  next
    case (3 x r)
    from wait_round_clock [OF tm pos(1-3), of "snd x" ?g queue "reply_key c queue i" "fst x"] 3
    show ?case by (auto split: sum.splits)
  qed
  then obtain r where r: "repeat_until ?body (None, w2) = Some r" "q_monotonic E (snd r) \<le> ?B + slow" by blast
  have "submit_with E enqueue blmove delete sleep c queue payload (Some T) w =
      (case p of Inl e \<Rightarrow> Some (Inl e, w2) | Inr None \<Rightarrow> Some (Inl (SemError QueueFullError), w2) | Inr (Some e) \<Rightarrow> Some r)"
    unfolding submit_with_def Let_def i prod.case p using r(1) by (simp split: sum.split option.split)
  with fast r(2) w2 show ?thesis by (cases r; cases p; cases "projr p") auto
qed

text \<open>C21: a submit with a timeout ends, through either API, whatever the queue's workers do and whatever
  errors the connection gives: at most two calls, a hundredth of a second and two late waits after the
  timeout.\<close>

theorem submit_returns_in_time:
  assumes "q_timely E (runner_dispatch_enqueue (q_sha1 E) (q_client E) (q_repr E)) (q_blmove E) (q_delete E)
      (q_sleep E) quick slow late \<and> call = submit E c queue payload (Some T) w \<or>
    q_timely E (runner_dispatch_enqueue_async (q_sha1 E) (q_client E) (q_repr E)) (q_ablmove E) (q_adelete E)
      (q_asleep E) quick slow late \<and> call = asubmit E c queue payload (Some T) w"
    and "0 < quick" and "0 \<le> late" and "0 \<le> slow" and "0 \<le> T"
  shows "\<exists>r w'. call = Some (r, w') \<and>
    q_monotonic E w' \<le> q_monotonic E w + T + 1 / 100 + 2 * late + 2 * slow"
  using assms(1)
proof (elim disjE conjE)
  assume tm: "q_timely E (runner_dispatch_enqueue (q_sha1 E) (q_client E) (q_repr E)) (q_blmove E) (q_delete E)
      (q_sleep E) quick slow late" and c: "call = submit E c queue payload (Some T) w"
  from submit_with_in_time [OF tm assms(2-5), of c queue payload w] assms(3-5) show ?thesis
    by (auto simp: c submit_def min_block_def split: sum.split)
next
  assume tm: "q_timely E (runner_dispatch_enqueue_async (q_sha1 E) (q_client E) (q_repr E)) (q_ablmove E) (q_adelete E)
      (q_asleep E) quick slow late" and c: "call = asubmit E c queue payload (Some T) w"
  from submit_with_in_time [OF tm assms(2-5), of c queue payload w] assms(3-5) show ?thesis
    by (auto simp: c asubmit_def min_block_def split: sum.split)
qed

text \<open>A queue nobody leads, in the simulated world: BLMOVE waits for its whole timeout.\<close>

definition idle_queue :: "sim queue_env" where
  "idle_queue =
     \<lparr>q_is_async = False, q_sha1 = doc_sha1, q_client = sim_client False True, q_repr = (\<lambda>_. []),
      q_socket_timeout = None, q_monotonic = (\<lambda>w. of_int (snd w) / 1000), q_uuid_hex = (\<lambda>w. (''j1'', w)),
      q_sleep = sim_sleep [], q_asleep = sim_sleep [],
      q_blmove = (\<lambda>a b d w. (Inr None, sim_sleep [] d w)), q_ablmove = (\<lambda>a b d w. (Inr None, sim_sleep [] d w)),
      q_delete = (\<lambda>k w. (None, w)), q_adelete = (\<lambda>k w. (None, w)),
      q_xlen = (\<lambda>k w. (Inr 0, w)), q_axlen = (\<lambda>k w. (Inr 0, w))\<rparr>"

lemma sim_script_time:
  assumes "script_call doc_sha1 (evalsha doc_sha1 (sim_client a d)) name keys args parse w = (p, w')"
  shows "snd w' \<le> snd w + 2"
proof -
  have "snd (snd (evalsha doc_sha1 (sim_client a d) h n args w)) \<le> snd w + 2" for h n args
    by (auto simp: evalsha_def evalsha_or_eval_def sim_client_def split: prod.split sum.split)
  then have "snd (snd (evalsha doc_sha1 (sim_client a d) h (length keys) (map AStr keys @ args) w)) \<le> snd w + 2" for h .
  with assms show ?thesis
    by (auto simp: script_call_def split: sum.splits prod.splits) (metis snd_conv)+
qed

lemma idle_sleep:
  "snd w \<le> snd (sim_sleep [] d w)" "0 \<le> d \<Longrightarrow> of_int (snd (sim_sleep [] d w)) \<le> of_int (snd w) + d * 1000 + (1 :: real)"
  "of_int (snd w) + d * 1000 \<le> (of_int (snd (sim_sleep [] d w)) :: real)"
  by (auto simp: sim_sleep_def Let_def split: prod.split) linarith+

theorem submit_returns_in_time_witness:
  "\<exists>r w'. submit idle_queue dispatch_config_defaults ''mail'' JNull (Some 2) (sim_start 5000) = Some (r, w') \<and>
     of_int (snd w') / 1000 \<le> (2 + 16 / 1000 :: real)"
proof -
  have "q_timely idle_queue (runner_dispatch_enqueue (q_sha1 idle_queue) (q_client idle_queue) (q_repr idle_queue))
      (q_blmove idle_queue) (q_delete idle_queue) (q_sleep idle_queue) (1 / 1000) (2 / 1000) (1 / 1000)"
    unfolding q_timely_def
  proof (intro conjI allI impI, goal_cases)
    case (2 sk mk mx ttl i p t w)
    have "snd (snd (runner_dispatch_enqueue doc_sha1 (sim_client False True) (\<lambda>_. []) sk mk mx ttl i p t w)) \<le> snd w + 2"
      unfolding runner_dispatch_enqueue_def by (rule sim_script_time) (rule prod.collapse [symmetric])
    then show ?case by (simp add: idle_queue_def)
  next
    case (3 k d w)
    then show ?case using idle_sleep(3) [of w d] by (simp add: idle_queue_def min_block_def)
  next
    case (4 k d w)
    then show ?case using idle_sleep(2) [of d w] by (simp add: idle_queue_def min_block_def)
  next
    case (7 d w)
    then show ?case using idle_sleep(1) [of w d] by (simp add: idle_queue_def)
  next
    case (8 d w)
    then show ?case using idle_sleep(2) [of d w] by (simp add: idle_queue_def)
  qed (simp_all add: idle_queue_def)
  then have "\<exists>r w'. submit idle_queue dispatch_config_defaults ''mail'' JNull (Some 2) (sim_start 5000) = Some (r, w') \<and>
      q_monotonic idle_queue w' \<le> q_monotonic idle_queue (sim_start 5000) + 2 + 1 / 100 + 2 * (1 / 1000) + 2 * (2 / 1000)"
    by (intro submit_returns_in_time) auto
  then show ?thesis by (simp add: idle_queue_def sim_start_def)
qed

end
