(* ===== verification/DispatchJobs.thy ===== *)
theory DispatchJobs
  imports DispatchSim DispatchProps
begin

section \<open>No job is lost\<close>

definition empty_stream :: stream where
  "empty_stream = \<lparr>entries = [], groups = (\<lambda>_. None)\<rparr>"

text \<open>What the coroutines of a worker that leads a queue do: leading, a round of touching, a handler.\<close>

inductive worker_does :: "'w worker_env \<Rightarrow> string \<Rightarrow> 'w mem \<Rightarrow> 'w mem \<Rightarrow> bool" for E queue
where
  leads: "lead E queue m = Some (r, m') \<Longrightarrow> worker_does E queue m m'"
| touches: "touch_round E m = (r, m') \<Longrightarrow> worker_does E queue m m'"
| handles: "ht_stream (wk_jobs (fst m) ! tid) = stream_key (wk_config (fst m)) queue \<Longrightarrow>
    worker_does E queue m (job_task E tid m)"

lemma worker_does_calm:
  assumes "queue_server E S D c n (stream_key c queue)" and "worker_does E queue m m'"
  shows "calm_mem c n S D m m'"
  using assms(2)
proof cases
  case (leads r)
  show ?thesis using queue_server.calm_lead [OF assms(1) refl leads] by simp
next
  case (touches r)
  show ?thesis using queue_server.calm_touch_round [OF assms(1), of m] touches by simp
next
  case (handles tid)
  then have "calm_mem c n S D m m'" if "wk_config (fst m) = c"
    using queue_server.calm_job_task [OF assms(1), of m tid] that by simp
  then show ?thesis by (auto simp: calm_mem_def ours_mem_def)
qed

lemma worker_does_all_calm:
  assumes q: "queue_server E S D c n (stream_key c queue)" and "(worker_does E queue)\<^sup>*\<^sup>* m m'"
  shows "calm_mem c n S D m m'"
  using assms(2)
proof induction
  case base
  show ?case by (rule queue_server.calm_same [OF q])
next
  case (step u v)
  from step.IH worker_does_calm [OF q step.hyps(2)] show ?case by (rule queue_server.calm_then [OF q])
qed

lemma empty_queue_inv: "queue_inv g [] empty_stream {}"
  by (simp add: queue_inv_def history_ok_def stream_ok_def empty_stream_def)

text \<open>C4: no job is lost but by pruning: in an environment whose commands do what is documented
  (\<open>queue_server\<close>), whatever the coroutines of a worker do, in whatever order, and whatever fails or others
  do meanwhile, the stream of the queue only goes through documented steps, and every job submitted to it
  that decodes and has no deadline is answered, or in the stream and either not delivered yet or pending,
  where a leader reads or reclaims it, or else it was handed to a consumer after XINFO CONSUMERS had shown
  this consumer with nothing pending, and was pending for it when it was deleted.\<close>

theorem no_job_is_lost:
  assumes "queue_server E S D c n (stream_key c queue)" and "(worker_does E queue)\<^sup>*\<^sup>* m m'"
    and "wk_config (fst m) = c" and "wk_id (fst m) = n"
    and "queue_run (dc_group c) empty_stream {} tr (S (snd m)) {x. D x (snd m)}"
  shows "\<exists>tr'. queue_run (dc_group c) empty_stream {} (tr @ tr') (S (snd m')) {x. D x (snd m')} \<and>
    (\<forall>i fs. Submitted i fs \<in> set (tr @ tr') \<longrightarrow> lasting fs \<longrightarrow>
       Answered i \<in> set (tr @ tr') \<or> kept (dc_group c) i fs (S (snd m')) \<or>
       (\<exists>x. subseq [Checked x, Handed x i, Pruned x i] (tr @ tr')))"
proof -
  have "queue_inv (dc_group c) tr (S (snd m)) {x. D x (snd m)}" by (rule queue_run_inv [OF assms(5) empty_queue_inv])
  then have "ours_mem c n S m" using assms(3,4) by (simp add: ours_mem_def queue_inv_def)
  with worker_does_all_calm [OF assms(1,2)] obtain tr' where
    "queue_run (dc_group c) (S (snd m)) {x. D x (snd m)} tr' (S (snd m')) {x. D x (snd m')}"
    by (auto simp: calm_mem_def reach_def)
  from queue_run_append [OF this assms(5)]
  have r: "queue_run (dc_group c) empty_stream {} (tr @ tr') (S (snd m')) {x. D x (snd m')}" .
  with queue_run_inv [OF r empty_queue_inv] show ?thesis by (auto simp: queue_inv_def pruned_away_def)
qed

text \<open>A worker whose handler runs the one job that was submitted to the queue \<open>mail\<close>.\<close>

definition mail_key :: key where
  "mail_key = stream_key dispatch_config_defaults ''mail''"

definition mail_job :: job where
  "mail_job = new_job ''mail'' ''7000-0'' ''j1'' (JObj []) 7 None False 0"

definition busy_worker :: worker where
  "busy_worker = start_job mail_key mail_job demo_worker"

definition mail_stream :: stream where
  "mail_stream = \<lparr>entries = [(Sid 7000 0, job_fields ''j1'' (json_dumps (JObj [])) None 7000)],
     groups = (\<lambda>_. None)(dc_group dispatch_config_defaults \<mapsto>
       \<lparr>last_delivered = Sid 7000 0, pending = [(Sid 7000 0, ''w1'', 7500)]\<rparr>)\<rparr>"

definition mail_world :: qsim where
  "mail_world =
     \<lparr>qx_streams = (\<lambda>_. empty_stream)(mail_key := mail_stream), qx_lists = (\<lambda>_. []), qx_now = 7500, qx_seen = [], qx_checked = [],
      qx_store = sim_start 7500\<rparr>"

definition mail_env :: "qsim worker_env" where
  "mail_env = with_handlers mail_key (sim_worker (sim_env True (mutex_defaults ''mail:leader'')))"

lemma mail_stream_run:
  "queue_run (dc_group dispatch_config_defaults) empty_stream {}
     [Submitted (Sid 7000 0) (job_fields ''j1'' (json_dumps (JObj [])) None 7000), Handed ''w1'' (Sid 7000 0)] mail_stream {}"
proof -
  let ?g = "dc_group dispatch_config_defaults" and ?e = "(Sid 7000 0, job_fields ''j1'' (json_dumps (JObj [])) None 7000)"
  let ?c = "\<lparr>last_delivered = Sid 0 0, pending = []\<rparr>"
  let ?s1 = "empty_stream\<lparr>entries := [?e]\<rparr>" and ?s2 = "empty_stream\<lparr>entries := [?e], groups := (\<lambda>_. None)(?g \<mapsto> ?c)\<rparr>"
  have lt: "Sid 0 0 < Sid 7000 0" by (simp add: less_sid_def)
  have "queue_step ?g empty_stream {} [Submitted (Sid 7000 0) (job_fields ''j1'' (json_dumps (JObj [])) None 7000)]
      (empty_stream\<lparr>entries := entries empty_stream @ [?e]\<rparr>) {}"
    by (rule q_submit) (simp_all add: empty_stream_def lt job_fields_def)
  then have 1: "queue_run ?g empty_stream {} [Submitted (Sid 7000 0) (job_fields ''j1'' (json_dumps (JObj [])) None 7000)] ?s1 {}"
    by (simp add: queue_run_one empty_stream_def)
  have "queue_step ?g ?s1 {} [] (?s1\<lparr>groups := (groups ?s1)(?g \<mapsto> ?c)\<rparr>) {}"
    by (rule q_group) (simp add: empty_stream_def)
  then have 2: "queue_step ?g ?s1 {} [] ?s2 {}" by (simp add: empty_stream_def)
  have "queue_step ?g ?s2 {} (map (\<lambda>e. Handed ''w1'' (fst e)) [?e]) (?s2\<lparr>groups := (groups ?s2)(?g \<mapsto> \<lparr>last_delivered = fst (last [?e]),
      pending = pending ?c @ map (\<lambda>e. (fst e, ''w1'', 7500)) [?e]\<rparr>)\<rparr>) {}"
    by (rule q_deliver [where n = 1]) (simp_all add: lt)
  then have "queue_step ?g ?s2 {} [Handed ''w1'' (Sid 7000 0)] mail_stream {}" by (simp add: mail_stream_def empty_stream_def)
  from queue_snoc [OF queue_snoc [OF 1 2] this] show ?thesis by simp
qed

lemma mail_world_stream: "qx_streams (snd (busy_worker, mail_world)) mail_key = mail_stream"
  by (simp add: mail_world_def)

lemma mail_run: "entries (qx_streams (snd (job_task mail_env 0 (busy_worker, mail_world))) mail_key) = []"
proof -
  have i: "sid_str (Sid 7000 0) = ''7000-0''" by code_simp
  have t: "wk_jobs busy_worker ! 0 = \<lparr>ht_stream = mail_key, ht_job = mail_job, ht_done = False, ht_cancelled = False\<rparr>"
    by (simp add: busy_worker_def start_job_def take_ids_def Let_def demo_worker_def new_worker_def dict_fromkeys_def
        check_queue_name_def py_bind_def)
  show ?thesis
    by (simp add: job_task_def run_job_def t mail_env_def with_handlers_def sim_worker_def job_reply_def finish_def finish_cmds_def
        Let_def seq_def change_def on_stream_def x_del_def x_ack_def mail_world_def mail_stream_def i mail_job_def new_job_def
        count_job_def record_job_def del: json_dumps.simps)
qed

lemma mail_checked: "qx_checked (snd (job_task mail_env 0 (busy_worker, mail_world))) = []"
proof -
  have "qx_checked (snd (sim_finish_cmd x m)) = qx_checked (snd m)" for x m by (cases x) simp_all
  then have f: "qx_checked (snd (fold sim_finish_cmd cmds m)) = qx_checked (snd m)" for cmds m
    by (induction cmds arbitrary: m) simp_all
  show ?thesis
    by (simp add: job_task_def run_job_def mail_env_def with_handlers_def sim_worker_def job_reply_def finish_def Let_def seq_def
        change_def f count_job_def record_job_def mail_world_def split: prod.split option.split)
qed

lemma mail_job_lasting: "lasting (job_fields ''j1'' (json_dumps (JObj [])) None 7000)"
proof -
  have "decode_job demo_worker ''mail'' ''7000-0'' (raw_fields RawStr (job_fields ''j1'' (json_dumps (JObj [])) None 7000)) False =
      Some (new_job ''mail'' ''7000-0'' ''j1'' (JObj []) (of_int 7000 / 1000) (map_option (\<lambda>d. of_int (7000 + d) / 1000) None) False
        (wk_clock_offset demo_worker))"
    by (rule decode_job_fields) simp_all
  then show ?thesis by (auto simp: lasting_def decode_job_def new_job_def)
qed

theorem no_job_is_lost_witness:
  "\<exists>tr X. queue_run (dc_group dispatch_config_defaults) empty_stream {} tr
      (qx_streams (snd (job_task mail_env 0 (busy_worker, mail_world))) mail_key) X \<and> Answered (Sid 7000 0) \<in> set tr"
proof -
  let ?c = dispatch_config_defaults and ?m' = "job_task mail_env 0 (busy_worker, mail_world)"
  let ?fs = "job_fields ''j1'' (json_dumps (JObj [])) None 7000" and ?X = "{x. sim_checked mail_key x (snd ?m')}"
  let ?tr = "[Submitted (Sid 7000 0) ?fs, Handed ''w1'' (Sid 7000 0)]"
  have E: "queue_server mail_env (sim_stream mail_key) (sim_checked mail_key) ?c ''w1'' (stream_key ?c ''mail'')"
    unfolding mail_env_def mail_key_def by (rule loop_server.queue_server_axioms)
  have W: "wk_config demo_worker = ?c" "wk_id demo_worker = ''w1''" "wk_jobs demo_worker = []"
    by (simp_all add: demo_worker_def new_worker_def Let_def dict_fromkeys_def check_queue_name_def py_bind_def)
  then have B: "wk_config busy_worker = ?c" "wk_id busy_worker = ''w1''" "ht_stream (wk_jobs busy_worker ! 0) = mail_key"
    by (simp_all add: busy_worker_def start_job_def take_ids_def Let_def)
  have "worker_does mail_env ''mail'' (busy_worker, mail_world) ?m'"
    by (rule handles) (simp add: B mail_key_def)
  then have d: "(worker_does mail_env ''mail'')\<^sup>*\<^sup>* (busy_worker, mail_world) ?m'" by (rule r_into_rtranclp)
  have "queue_run (dc_group ?c) empty_stream {} ?tr (qx_streams (snd (busy_worker, mail_world)) mail_key)
      {x. sim_checked mail_key x (snd (busy_worker, mail_world))}"
    using mail_stream_run by (simp add: mail_world_def sim_checked_def)
  from no_job_is_lost [OF E d _ _ this] B obtain tr where
    r: "queue_run (dc_group ?c) empty_stream {} (?tr @ tr) (qx_streams (snd ?m') mail_key) ?X"
    and k: "\<forall>i fs. Submitted i fs \<in> set (?tr @ tr) \<longrightarrow> lasting fs \<longrightarrow> Answered i \<in> set (?tr @ tr) \<or>
        kept (dc_group ?c) i fs (qx_streams (snd ?m') mail_key) \<or>
        (\<exists>x. subseq [Checked x, Handed x i, Pruned x i] (?tr @ tr))"
    by auto
  have none: "\<not> subseq [Checked x, Handed x i, Pruned x i] (?tr @ tr)" for x i
  proof
    assume "subseq [Checked x, Handed x i, Pruned x i] (?tr @ tr)"
    then have "Checked x \<in> set (?tr @ tr)" by (rule list_emb_set [where x = "Checked x"]) simp_all
    from queue_run_check [OF r this] show False by (simp add: sim_checked_def mail_checked)
  qed
  have "\<not> kept (dc_group ?c) (Sid 7000 0) fs (qx_streams (snd ?m') mail_key)" for fs
    by (simp add: kept_def mail_run)
  moreover have "Submitted (Sid 7000 0) ?fs \<in> set (?tr @ tr)" by simp
  ultimately have "Answered (Sid 7000 0) \<in> set (?tr @ tr)" using none k mail_job_lasting by blast
  with r show ?thesis by blast
qed

subsection \<open>A consumer that was not gone\<close>

text \<open>C30: \<open>_reclaim\<close> prunes on what XINFO said: whatever the environment, if the consumer it deletes first
  was handed a job since then and has it pending when XGROUP DELCONSUMER is executed, that job is neither
  pending nor undelivered from then on, whatever anybody does: no leader reads or reclaims it, and it stays
  in the stream unless the one that was handed it still answers it.\<close>

theorem pruned_consumer_loses_its_job:
  assumes "queue_server E S D c n k" and "ours_mem c n S m"
    and "(case wk_next_prune (fst m) k of None \<Rightarrow> 0 | Some t \<Rightarrow> t) \<le> wd_monotonic E m"
    and "wd_xinfo_consumers E k (dc_group c) (change (\<lambda>W. W\<lparr>wk_next_prune := (wk_next_prune W)
      (k \<mapsto> wd_monotonic E m + dc_reclaim_idle (wk_config W))\<rparr>) m) = (Inr (ci # cs), u)"
    and "text_of (ci_name ci) \<noteq> n" and "ci_pending ci = 0" and "dc_reclaim_idle c * 1000 < of_int (ci_idle ci)"
    and "wd_xgroup_delconsumer E k (dc_group c) (text_of (ci_name ci)) u = (e, v)"
    and "S (snd v) = without_consumer (dc_group c) (text_of (ci_name ci)) st"
    and "stream_ok (dc_group c) st" and "groups st (dc_group c) = Some d"
    and "\<forall>x. (i, x) \<in> owned d \<longleftrightarrow> x = text_of (ci_name ci)" and "(i, fs) \<in> set (entries st)" and "lasting fs"
  shows "kept (dc_group c) i fs st \<and>
    (\<exists>tr X. queue_run (dc_group c) (S (snd v)) {x. D x (snd v)} tr (S (snd (snd (prune_consumers E k m)))) X \<and>
      (\<forall>tr' st' X'. queue_run (dc_group c) (S (snd (snd (prune_consumers E k m)))) X tr' st' X' \<longrightarrow>
         \<not> kept (dc_group c) i fs st' \<and> ((i, fs) \<in> set (entries st') \<or> Answered i \<in> set (tr @ tr'))))"
proof -
  let ?g = "dc_group c" and ?m' = "snd (prune_consumers E k m)"
  have "(i, text_of (ci_name ci)) \<in> owned d" using assms(12) by simp
  then have i: "i \<in> pending_ids d" by (auto simp: owned_def pending_ids_def)
  have only: "consumer_of p = text_of (ci_name ci)" if "p \<in> set (pending d)" "fst p = i" for p
  proof -
    have "(i, consumer_of p) \<in> owned d" unfolding owned_def using that by (intro image_eqI [of _ _ p]) simp_all
    with assms(12) show ?thesis by simp
  qed
  have kept: "kept ?g i fs st" using assms(11,13) i by (simp add: kept_def)
  have "Sid 0 0 < i \<and> i \<le> last_delivered d" using assms(10,11) i by (auto simp: stream_ok_def)
  then have f: "forgotten ?g i (S (snd v))"
    using assms(9,11) only by (auto simp: forgotten_def settled_def without_consumer_def pending_ids_def)
  have e: "(i, fs) \<in> set (entries (S (snd v)))" using assms(9,13) by (simp add: without_consumer_def)
  have "ours_mem c n S v" "calm_mem c n S D v ?m'"
    using queue_server.calm_prune_rest [OF assms(1-8)] assms(2) by (simp_all add: calm_mem_def)
  then obtain tr where tr: "queue_run ?g (S (snd v)) {x. D x (snd v)} tr (S (snd ?m')) {x. D x (snd ?m')}"
    by (auto simp: calm_mem_def reach_def)
  have "\<not> kept ?g i fs st' \<and> ((i, fs) \<in> set (entries st') \<or> Answered i \<in> set (tr @ tr'))"
    if "queue_run ?g (S (snd ?m')) {x. D x (snd ?m')} tr' st' X'" for tr' st' X'
    using forgotten_run [OF queue_run_append [OF that tr] f assms(14) e] forgotten_not_kept by blast
  with kept tr show ?thesis by blast
qed

text \<open>Between XINFO CONSUMERS and XGROUP DELCONSUMER the consumer to be pruned reads a job.\<close>

definition racing_env :: "qsim worker_env" where
  "racing_env = (sim_worker (sim_env True (mutex_defaults ''mail:leader'')))
     \<lparr>wd_xgroup_delconsumer := (\<lambda>k g x m.
        on_stream k (\<lambda>st. (None, without_consumer g x (snd (x_read g x ''>'' 1 (qx_now (snd m)) st)))) m)\<rparr>"

definition waiting_stream :: stream where
  "waiting_stream = \<lparr>entries = [(Sid 7000 0, job_fields ''j1'' (json_dumps (JObj [])) None 7000)],
     groups = (\<lambda>_. None)(dc_group dispatch_config_defaults \<mapsto> \<lparr>last_delivered = Sid 0 0, pending = []\<rparr>)\<rparr>"

definition waiting_world :: qsim where
  "waiting_world =
     \<lparr>qx_streams = (\<lambda>_. empty_stream)(mail_key := waiting_stream), qx_lists = (\<lambda>_. []), qx_now = 900000,
      qx_seen = [(''w2'', 0)], qx_checked = [], qx_store = sim_start 900000\<rparr>"

interpretation racing_server: queue_server racing_env "sim_stream k" "sim_checked k" c n k
proof (unfold_locales, goal_cases)
  case (11 m dead)
  have d: "wd_xgroup_delconsumer racing_env k g dead m = on_stream k (\<lambda>st.
      (None, without_consumer g dead (snd (x_read g dead ''>'' 1 (qx_now (snd m)) st)))) m" for g
    by (simp add: racing_env_def)
  show ?case unfolding d
  proof (rule sim_calm_stream)
    fix X assume "ours_mem c n (sim_stream k) m" and X: "X = {x. sim_checked k x (snd m)}"
    with 11 have "dead \<in> X" by simp
    from reach_trans [OF reach_read reach_step [OF q_prune [OF this]]]
    show "reach (dc_group c) (qx_streams (snd m) k) X (snd (None, without_consumer (dc_group c) dead
        (snd (x_read (dc_group c) dead ''>'' 1 (qx_now (snd m)) (qx_streams (snd m) k))))) X" by simp
  qed
qed (simp_all add: racing_env_def stream_server.metric_law stream_server.release_law stream_server.create_law
    stream_server.read_law stream_server.read_known stream_server.time_law stream_server.autoclaim_law
    stream_server.autoclaim_known stream_server.consumers_law stream_server.checked_law
    stream_server.claim_law stream_server.ack_law stream_server.del_law stream_server.transaction_law stream_server.await_laws
    stream_server.cancel_law)

theorem pruned_consumer_loses_its_job_witness:
  "let m' = snd (prune_consumers racing_env mail_key (demo_worker, waiting_world)); g = dc_group dispatch_config_defaults;
     i = Sid 7000 0; fs = job_fields ''j1'' (json_dumps (JObj [])) None 7000
   in kept g i fs waiting_stream \<and> \<not> kept g i fs (qx_streams (snd m') mail_key)"
proof -
  let ?c = dispatch_config_defaults and ?m = "(demo_worker, waiting_world)" and ?i = "Sid 7000 0"
  let ?g = "dc_group dispatch_config_defaults" and ?fs = "job_fields ''j1'' (json_dumps (JObj [])) None 7000"
  let ?st = "snd (x_read ?g ''w2'' ''>'' 1 900000 waiting_stream)"
  let ?next = "change (\<lambda>W. W\<lparr>wk_next_prune := (wk_next_prune W)
      (mail_key \<mapsto> wd_monotonic racing_env ?m + dc_reclaim_idle (wk_config W))\<rparr>) ?m"
  let ?ci = "\<lparr>ci_name = RawStr ''w2'', ci_pending = 0, ci_idle = 900000\<rparr>"
  let ?u = "(fst ?next, waiting_world\<lparr>qx_checked := [(mail_key, ''w2'')]\<rparr>)"
  let ?v = "snd (wd_xgroup_delconsumer racing_env mail_key ?g (text_of (ci_name ?ci)) ?u)"
  have W: "wk_config demo_worker = ?c" "wk_id demo_worker = ''w1''" "wk_next_prune demo_worker = (\<lambda>_. None)"
    by (simp_all add: demo_worker_def new_worker_def Let_def dict_fromkeys_def check_queue_name_def py_bind_def)
  have lt: "Sid 0 0 < ?i" by (simp add: less_sid_def)
  have st: "?st = \<lparr>entries = entries waiting_stream, groups = (\<lambda>_. None)(?g \<mapsto>
      \<lparr>last_delivered = ?i, pending = [(?i, ''w2'', 900000)]\<rparr>)\<rparr>"
    by (simp add: x_read_def waiting_stream_def lt set_group_def)
  have info: "wd_xinfo_consumers racing_env mail_key ?g ?next = (Inr [?ci], ?u)"
    by (simp add: racing_env_def sim_worker_def sim_xinfo_def on_stream_def x_info_def change_def waiting_world_def
        waiting_stream_def x_pending_of_def)
  have del: "qx_streams (snd ?v) mail_key = without_consumer ?g ''w2'' ?st"
    by (simp add: racing_env_def on_stream_def waiting_world_def)
  have o: "ours_mem ?c ''w1'' (sim_stream mail_key) ?m"
    by (simp add: ours_mem_def W waiting_world_def waiting_stream_def stream_ok_def pending_ids_def lt job_fields_def)
  have ok: "stream_ok ?g ?st" unfolding st
    by (simp add: waiting_stream_def stream_ok_def pending_ids_def lt job_fields_def)
  have "kept ?g ?i ?fs ?st \<and> (\<exists>tr X. queue_run ?g (qx_streams (snd ?v) mail_key) {x. sim_checked mail_key x (snd ?v)} tr
        (qx_streams (snd (snd (prune_consumers racing_env mail_key ?m))) mail_key) X \<and>
      (\<forall>tr' st' X'. queue_run ?g (qx_streams (snd (snd (prune_consumers racing_env mail_key ?m))) mail_key) X tr' st' X' \<longrightarrow>
         \<not> kept ?g ?i ?fs st' \<and> ((?i, ?fs) \<in> set (entries st') \<or> Answered ?i \<in> set (tr @ tr'))))"
    by (rule pruned_consumer_loses_its_job [OF racing_server.queue_server_axioms o _ info, where st = ?st and e = None
          and d = "\<lparr>last_delivered = ?i, pending = [(?i, ''w2'', 900000)]\<rparr>"])
      (use del ok mail_job_lasting in \<open>simp_all add: W change_def racing_env_def sim_worker_def waiting_world_def dispatch_config_defaults_def
        owned_def x_read_def set_group_def lt waiting_stream_def on_stream_def del: json_dumps.simps\<close>)
  then have "\<not> kept ?g ?i ?fs (qx_streams (snd (snd (prune_consumers racing_env mail_key ?m))) mail_key)"
    using queue_nil by blast
  moreover have "kept ?g ?i ?fs waiting_stream" by (simp add: kept_def waiting_stream_def lt)
  ultimately show ?thesis by (simp add: Let_def del: json_dumps.simps)
qed

end
