(* ===== verification/DispatchFlow.thy ===== *)
theory DispatchFlow
  imports DispatchJobs
begin

section \<open>One job at a time, and not too many handlers\<close>

text \<open>
  The leader of a queue starts the next job of a batch only when the one before is settled: admitted, or
  its handler has ended. With \<open>max_admitted\<close> it starts a handler only when fewer are running. The locale
  \<open>job_flow\<close> says what this needs of the environment: while a coroutine of the leader waits, handlers go
  on and end, and new ones are started for other streams only.
\<close>

definition flows :: "key \<Rightarrow> worker \<Rightarrow> worker \<Rightarrow> bool" where
  "flows k W W' \<longleftrightarrow> wk_config W' = wk_config W \<and> length (wk_jobs W) \<le> length (wk_jobs W') \<and>
     (\<forall>i < length (wk_jobs W). ht_stream (wk_jobs W' ! i) = ht_stream (wk_jobs W ! i) \<and>
        (jb_settled (task_job i W) \<longrightarrow> jb_settled (task_job i W'))) \<and>
     (\<forall>i < length (wk_jobs W'). length (wk_jobs W) \<le> i \<longrightarrow> ht_stream (wk_jobs W' ! i) \<noteq> k) \<and>
     length (wk_stream_handlers W' k) \<le> length (wk_stream_handlers W k) \<and> (wk_stopping W \<longrightarrow> wk_stopping W')"

text \<open>Every job of the stream that was started is settled.\<close>

definition all_settled :: "key \<Rightarrow> worker \<Rightarrow> bool" where
  "all_settled k W \<longleftrightarrow> (\<forall>i < length (wk_jobs W). ht_stream (wk_jobs W ! i) = k \<longrightarrow> jb_settled (task_job i W))"

lemma flows_refl: "flows k W W"
  by (simp add: flows_def)

lemma flows_trans:
  assumes "flows k U V" and "flows k V W"
  shows "flows k U W"
proof -
  have "ht_stream (wk_jobs W ! i) \<noteq> k" if "i < length (wk_jobs W)" "length (wk_jobs U) \<le> i" for i
    using assms that by (cases "i < length (wk_jobs V)") (auto simp: flows_def)
  with assms show ?thesis by (auto simp: flows_def)
qed

lemma flows_settled: "flows k W W' \<Longrightarrow> all_settled k W \<Longrightarrow> all_settled k W'"
  unfolding flows_def all_settled_def by (metis linorder_not_le)

lemma flows_same:
  "wk_config W' = wk_config W \<Longrightarrow> wk_jobs W' = wk_jobs W \<Longrightarrow> wk_stream_handlers W' = wk_stream_handlers W \<Longrightarrow>
   wk_stopping W' = wk_stopping W \<Longrightarrow> flows k W W'"
  by (simp add: flows_def task_job_def)

lemma flows_task_done: "flows k W (task_done tid cancelled W)"
  by (cases "tid < length (wk_jobs W)") (auto simp: flows_def task_done_def task_job_def Let_def nth_list_update)

lemma flows_start:
  assumes "flows k (start_job k j W) W'" and "all_settled k W" and "jb_settled (task_job (length (wk_jobs W)) W')"
  shows "all_settled k W'"
  unfolding all_settled_def
proof (intro allI impI)
  let ?V = "start_job k j W"
  have V: "length (wk_jobs ?V) = Suc (length (wk_jobs W))" "\<And>i. i < length (wk_jobs W) \<Longrightarrow> wk_jobs ?V ! i = wk_jobs W ! i"
    by (simp_all add: start_job_def take_ids_def Let_def nth_append)
  fix i assume i: "i < length (wk_jobs W')" "ht_stream (wk_jobs W' ! i) = k"
  have "\<And>i. i < length (wk_jobs W') \<Longrightarrow> length (wk_jobs ?V) \<le> i \<Longrightarrow> ht_stream (wk_jobs W' ! i) \<noteq> k"
    using assms(1) unfolding flows_def by blast
  with i have "\<not> length (wk_jobs ?V) \<le> i" by blast
  then consider "i < length (wk_jobs W)" | "i = length (wk_jobs W)" using V(1) by linarith
  then show "jb_settled (task_job i W')"
  proof cases
    case 1
    with V assms(1) i(2) have "ht_stream (wk_jobs W ! i) = k" "jb_settled (task_job i W) \<longrightarrow> jb_settled (task_job i W')"
      by (auto simp: flows_def task_job_def)
    with assms(2) 1 show ?thesis by (simp add: all_settled_def)
  qed (use assms(3) in simp)
qed

lemma start_handlers:
  "length (wk_stream_handlers (start_job k j W) k) \<le> Suc (length (wk_stream_handlers W k))"
  "wk_config (start_job k j W) = wk_config W" "wk_stopping (start_job k j W) = wk_stopping W"
  by (simp_all add: start_job_def take_ids_def Let_def add_to_def)

subsection \<open>The contract\<close>

locale job_flow =
  fixes E :: "'w worker_env" and k :: key
  assumes metric_flow: "flows k (fst m) (fst (wd_metric E call m))"
    and claim_flow: "flows k (fst m) (fst (snd (wd_xclaim E k g consumer n ids idle m)))"
    and ack_flow: "flows k (fst m) (fst (snd (wd_xack E k g i m)))"
    and del_flow: "flows k (fst m) (fst (snd (wd_xdel E k i m)))"
    and transaction_flow: "flows k (fst m) (fst (snd (wd_transaction E cmds m)))"
    and handler_flow: "flows k (fst m) (fst (snd (wd_handler E tid m)))"
    and await_flow: "flows k (fst m) (fst (snd (wd_claim_lock E m)))" "flows k (fst m) (fst (snd (wd_wait_stopping E d m)))"
      "flows k (fst m) (fst (snd (wd_wait_any E tids d m)))" "flows k (fst m) (fst (snd (wd_wait_settled E tid d m)))"
    and cancel_flow: "wd_cancel E tid m = Some r \<Longrightarrow> flows k (fst m) (fst (snd r))"
begin

abbreviation flow :: "'w mem \<Rightarrow> 'w mem \<Rightarrow> bool" where "flow m m' \<equiv> flows k (fst m) (fst m')"

lemma flow_change: "(\<And>W. flows k W (h W)) \<Longrightarrow> flow m (change h m)"
  by (simp add: change_def)

lemma flow_drop_ids: "flows k W (drop_ids s ids W)"
  by (rule flows_same) (simp_all add: drop_ids_def)

lemma flow_seq:
  assumes "flow m (snd r)" and "\<And>a u. r = (Inr a, u) \<Longrightarrow> flow u (snd (f a u))"
  shows "flow m (snd (seq r f))"
proof -
  obtain p u where r: "r = (p, u)" by (rule prod.exhaust)
  with assms show ?thesis by (cases p) (auto simp: seq_def intro: flows_trans)
qed

lemma flow_raising: "flow m (snd r) \<Longrightarrow> flow m (snd (raising r))"
  by (cases r; cases "fst r") (auto simp: raising_def)

lemma flow_waited: "flow m (snd r) \<Longrightarrow> flow m (snd (waited r))"
  by (cases r; cases "fst r") (auto simp: waited_def)

lemma flow_count: "flow m (count_job E queue result m)"
  by (simp add: count_job_def record_job_def metric_flow flows_refl)

lemma flow_hand_back: "flow m (snd (hand_back E k ids m))"
proof -
  let ?ids = "map text_of (List.map_filter id ids)"
  let ?d = "change (drop_ids k ?ids) m"
  have d: "flow m ?d" by (rule flow_change) (rule flow_drop_ids)
  have x: "flow u v" if "wd_xclaim E k g consumer n is idle u = (p, v)" for u v g consumer n "is" idle p
    using claim_flow [of u g consumer n "is" idle] that by simp
  have "flow m (snd (seq (waited (wd_claim_lock E ?d)) (\<lambda>_ m.
      case wd_xclaim E k (grp m) (wk_id (fst m)) 0 ?ids (Some (py_int (dc_reclaim_idle (wk_config (fst m)) * 1000))) m of
        (None, m) \<Rightarrow> (Inr (), m) | (Some e, m) \<Rightarrow> if redis_or_os e then (Inr (), m) else (Inl (RawExn e), m))))"
    by (rule flow_seq [OF flows_trans [OF d flow_waited [OF await_flow(1)]]]) (auto dest: x split: prod.split option.split)
  with d show ?thesis by (cases "List.map_filter id ids = []") (simp_all add: hand_back_def Let_def)
qed

text \<open>Waits that may never end.\<close>

definition flow_opt :: "'w mem \<Rightarrow> ((py_exn + 'a) \<times> 'w mem) option \<Rightarrow> bool" where
  "flow_opt m x \<longleftrightarrow> pred_option (\<lambda>r. flow m (snd r)) x"

lemma flow_opt_cases [simp]: "flow_opt m None" "flow_opt m (Some r) \<longleftrightarrow> flow m (snd r)"
  by (simp_all add: flow_opt_def)

lemma flow_abandon: "flow_opt m (abandon E k tid m)"
proof (cases "wd_cancel E tid m")
  case (Some x)
  show ?thesis unfolding abandon_def Some option.map flow_opt_cases
    by (rule flow_seq [OF flow_waited [OF cancel_flow [OF Some]]]) (simp add: Let_def flows_refl flow_hand_back)
qed (simp add: abandon_def)

lemma flow_settle_cancelled:
  "flow_opt m (settle_cancelled E k tid e m) \<and> settle_cancelled E k tid e m \<noteq> Some (Inr b, v)"
proof (cases "jb_settled (task_job tid (fst m))")
  case False
  have "flow m (snd (seq r (\<lambda>_ m. (Inl e, m)))) \<and> seq r (\<lambda>_ m. (Inl e, m)) \<noteq> (Inr b, v)"
    if "flow m (snd r)" for r :: "(py_exn + unit) \<times> 'w mem"
    using that by (cases r; cases "fst r") (auto simp: seq_def)
  with False flow_abandon [of m tid] show ?thesis
    by (cases "abandon E k tid m") (auto simp: settle_cancelled_def)
qed (auto simp: settle_cancelled_def flows_refl)

lemma flow_acknowledge: "flow m (snd (acknowledge E k i m))"
  unfolding acknowledge_def by (rule flow_raising [OF ack_flow])

lemma flow_drop_entry: "flow m (snd (drop_entry E k i m))"
  unfolding drop_entry_def
proof (rule flow_seq)
  show "flow m (snd (acknowledge E k i (change (drop_ids k [i]) m)))"
    by (rule flows_trans [OF flow_change flow_acknowledge]) (rule flow_drop_ids)
  fix a u
  show "flow u (snd (seq (raising (wd_xdel E k i u)) (\<lambda>_ m. (Inr True, m))))"
    by (rule flow_seq [OF flow_raising [OF del_flow]]) (simp add: flows_refl)
qed

lemma flow_cap_round:
  "case cap_round E queue k most e m of
     Inl r \<Rightarrow> flow m (snd r) \<and> (fst r = Inr True \<longrightarrow> int (length (wk_stream_handlers (fst (snd r)) k)) < most)
   | Inr m' \<Rightarrow> flow m m'"
proof -
  have h: "flow m (snd (seq (hand_back E k [Some e] m) (\<lambda>_ m. (Inr False, m))))"
    by (rule flow_seq [OF flow_hand_back]) (simp add: flows_refl)
  obtain p u where x: "hand_back E k [Some e] m = (p, u)" by (rule prod.exhaust)
  then have "fst (seq (hand_back E k [Some e] m) (\<lambda>_ m. (Inr False, m))) \<noteq> Inr True"
    by (cases p) (simp_all add: seq_def)
  moreover obtain b v where w: "wd_wait_any E (wk_stream_handlers (fst m) k) leadership_check m = (b, v)" by (rule prod.exhaust)
  moreover have "flow m v" using await_flow(3) [of m "wk_stream_handlers (fst m) k" leadership_check] w by simp
  ultimately show ?thesis using h by (simp add: cap_round_def Let_def flows_refl split: bool.split)
qed

lemma flow_settle_round:
  "case settle_round E queue k tid m of
     Inl x \<Rightarrow> flow_opt m x \<and> (\<forall>u. x = Some (Inr True, u) \<longrightarrow> jb_settled (task_job tid (fst u)))
   | Inr m' \<Rightarrow> flow m m'"
proof -
  have sc: "flow_opt m (settle_cancelled E k tid e u) \<and> settle_cancelled E k tid e u \<noteq> Some (Inr True, v)"
    if "flow m u" for u e v
    using flow_settle_cancelled [of u tid e True v] that
    by (cases "settle_cancelled E k tid e u") (auto intro: flows_trans)
  consider (settled) "jb_settled (task_job tid (fst m))" | (leave) "\<not> jb_settled (task_job tid (fst m))" "must_leave queue (fst m)"
    | (wait) "\<not> jb_settled (task_job tid (fst m))" "\<not> must_leave queue (fst m)" by blast
  then show ?thesis
  proof cases
    case settled
    obtain p u where h: "hand_back E k [Some (RawStr (jb_entry_id (ht_job (wk_jobs (fst m) ! tid))))] m = (p, u)"
      by (rule prod.exhaust)
    have "flow m u" using flow_hand_back [of m] h by (metis snd_conv)
    with settled h show ?thesis by (cases p) (simp_all add: settle_round_def Let_def flows_refl seq_def)
  next
    case leave
    show ?thesis
    proof (cases "abandon E k tid m")
      case (Some r)
      obtain p u where r: "r = (p, u)" by (rule prod.exhaust)
      have "flow m u" using flow_abandon [of m tid] Some r by simp
      with sc leave Some r show ?thesis by (cases p) (simp_all add: settle_round_def)
    qed (use leave in \<open>simp add: settle_round_def\<close>)
  next
    case wait
    obtain b u where w: "wd_wait_settled E tid leadership_check m = (b, u)" by (rule prod.exhaust)
    have "flow m u" using await_flow(4) [of m tid leadership_check] w by simp
    with sc wait w show ?thesis by (cases b) (simp_all add: settle_round_def)
  qed
qed

lemma flow_loop:
  assumes "repeat_until f m = Some r" and "\<And>m. case f m of Inl r \<Rightarrow> Q m r | Inr m' \<Rightarrow> flow m m'"
    and "\<And>u v r. flow u v \<Longrightarrow> Q v r \<Longrightarrow> Q u r"
  shows "Q m r"
proof (rule repeat_until_invariant [OF assms(1), where P = "flow m" and Q = "Q m"])
  show "flow m m" by (rule flows_refl)
next
  fix x y assume "flow m x" "f x = Inr y"
  with assms(2) [of x] show "flow m y" by (auto intro: flows_trans)
next
  fix x r assume x: "flow m x" and "f x = Inl r"
  with assms(2) [of x] have "Q x r" by simp
  with x show "Q m r" by (rule assms(3))
qed

text \<open>What holds after an entry was dispatched.\<close>

definition moved_on :: "'w mem \<Rightarrow> (py_exn + bool) \<times> 'w mem \<Rightarrow> bool" where
  "moved_on m r \<longleftrightarrow> wk_config (fst (snd r)) = wk_config (fst m) \<and>
     (all_settled k (fst m) \<longrightarrow> fst r = Inr True \<longrightarrow> all_settled k (fst (snd r))) \<and>
     (\<forall>most. dc_max_admitted (wk_config (fst m)) = Some most \<longrightarrow> int (length (wk_stream_handlers (fst m) k)) \<le> most \<longrightarrow>
        int (length (wk_stream_handlers (fst (snd r)) k)) \<le> most) \<and>
     (wk_stopping (fst m) \<longrightarrow> wk_stopping (fst (snd r)))"

lemma flow_moved_on: "flow m (snd r) \<Longrightarrow> moved_on m r"
  using flows_settled [of k "fst m" "fst (snd r)"] by (auto simp: moved_on_def flows_def)

lemma start_and_settle_moves:
  assumes r: "start_and_settle E queue k j m = Some r"
    and room: "\<And>most. dc_max_admitted (wk_config (fst m)) = Some most \<Longrightarrow> int (length (wk_stream_handlers (fst m) k)) < most"
  shows "moved_on m r"
proof -
  let ?V = "start_job k j (fst m)"
  let ?tid = "length (wk_jobs (fst m))"
  have l: "repeat_until (settle_round E queue k ?tid) (change (start_job k j) m) = Some (Some r)"
    using r by (auto simp: start_and_settle_def bind_eq_Some_conv)
  have "flow_opt (change (start_job k j) m) (Some r) \<and>
      (\<forall>u. Some r = Some (Inr True, u) \<longrightarrow> jb_settled (task_job ?tid (fst u)))"
    by (rule flow_loop [OF l, where Q = "\<lambda>m x. flow_opt m x \<and> (\<forall>u. x = Some (Inr True, u) \<longrightarrow> jb_settled (task_job ?tid (fst u)))"])
      (rule flow_settle_round, auto simp: flow_opt_def pred_option_def intro: flows_trans)
  then have "flow (change (start_job k j) m) (snd r) \<and> (fst r = Inr True \<longrightarrow> jb_settled (task_job ?tid (fst (snd r))))"
    by (cases r) auto
  then have f: "flows k ?V (fst (snd r))" and s: "fst r = Inr True \<Longrightarrow> jb_settled (task_job (length (wk_jobs (fst m))) (fst (snd r)))"
    by (simp_all add: change_def)
  have "int (length (wk_stream_handlers (fst (snd r)) k)) \<le> most" if "dc_max_admitted (wk_config (fst m)) = Some most" for most
    using room [OF that] f start_handlers(1) [of k j "fst m"] by (simp add: flows_def)
  with f s flows_start [OF f] start_handlers(2,3) show ?thesis by (auto simp: moved_on_def flows_def)
qed

lemma moved_on_then: "moved_on m (Inr True, u) \<Longrightarrow> moved_on u r \<Longrightarrow> moved_on m r"
  by (auto simp: moved_on_def)

lemma dispatch_entry_moves:
  assumes r: "dispatch_entry E queue k e reclaimed m = Some r"
  shows "moved_on m r"
proof (cases "fst e")
  case None
  with r have "r = (Inr True, m)" by (cases e) (simp add: dispatch_entry_def)
  then show ?thesis by (simp add: flow_moved_on flows_refl)
next
  case (Some t)
  obtain fs where e: "e = (Some t, fs)" using Some by (cases e) auto
  let ?i = "text_of t"
  have drop: "flow m (change (drop_ids k [?i]) m)" by (rule flow_change) (rule flow_drop_ids)
  have ack: "flow m (snd (seq (acknowledge E k ?i (change (drop_ids k [?i]) m)) (\<lambda>_ m. (Inr True :: py_exn + bool, m))))"
    by (rule flow_seq [OF flows_trans [OF drop flow_acknowledge]]) (simp add: flows_refl)
  show ?thesis
  proof (cases "fs = []")
    case True
    with r ack show ?thesis by (simp add: dispatch_entry_def e Let_def flow_moved_on)
  next
    case ne: False
    show ?thesis
    proof (cases "decode_job (fst m) queue ?i fs reclaimed")
      case None
      with r ne have "r = drop_entry E k ?i m" by (simp add: dispatch_entry_def e Let_def)
      then show ?thesis by (simp add: flow_moved_on flow_drop_entry)
    next
      case (Some j)
      let ?late = "case job_remaining (wd_time E m) j of None \<Rightarrow> False | Some r \<Rightarrow> r \<le> 0"
      show ?thesis
      proof (cases ?late)
        case True
        with r ne Some have "r = drop_entry E k ?i (count_job E queue ''expired'' m)" by (simp add: dispatch_entry_def e Let_def)
        then show ?thesis by (simp add: flow_moved_on flows_trans [OF flow_count flow_drop_entry])
      next
        case in_time: False
        show ?thesis
        proof (cases "dc_max_admitted (wk_config (fst m))")
          case None
          with r ne Some in_time have "start_and_settle E queue k j m = Some r" by (simp add: dispatch_entry_def e Let_def)
          then show ?thesis by (rule start_and_settle_moves) (simp add: None)
        next
          case most: (Some most)
          obtain x where x: "repeat_until (cap_round E queue k most (RawStr ?i)) m = Some x"
            using r ne Some in_time most by (auto simp: dispatch_entry_def e Let_def split: option.splits)
          obtain p u where xp: "x = (p, u)" by (rule prod.exhaust)
          have "flow m (snd x) \<and> (fst x = Inr True \<longrightarrow> int (length (wk_stream_handlers (fst (snd x)) k)) < most)"
            by (rule flow_loop [OF x, where Q = "\<lambda>m r. flow m (snd r) \<and>
                (fst r = Inr True \<longrightarrow> int (length (wk_stream_handlers (fst (snd r)) k)) < most)"])
              (rule flow_cap_round, blast intro: flows_trans)
          then have u: "flow m u" and room: "p = Inr True \<Longrightarrow> int (length (wk_stream_handlers (fst u) k)) < most"
            by (simp_all add: xp)
          have "p = Inr True \<and> start_and_settle E queue k j u = Some r \<or> r = (p, u)"
            using r ne Some in_time most x xp by (cases p) (auto simp: dispatch_entry_def e Let_def split: bool.splits)
          then show ?thesis
          proof (elim disjE conjE)
            assume p: "p = Inr True" and st: "start_and_settle E queue k j u = Some r"
            have "wk_config (fst u) = wk_config (fst m)" using u by (simp add: flows_def)
            with room [OF p] most have "moved_on u r" by (intro start_and_settle_moves [OF st]) simp
            with flow_moved_on [of m "(Inr True, u)"] u show ?thesis by (simp add: moved_on_then)
          qed (simp add: u flow_moved_on)
        qed
      qed
    qed
  qed
qed

lemma dispatch_batch_moves: "dispatch_batch E queue k reclaimed es m = Some r \<Longrightarrow> moved_on m r"
proof (induction es arbitrary: m)
  case Nil
  then have "r = (Inr True, m)" by simp
  then show ?case by (simp add: flow_moved_on flows_refl)
next
  case (Cons e es)
  obtain p u where d: "dispatch_entry E queue k e reclaimed m = Some (p, u)"
    using Cons.prems by (auto split: option.splits)
  note mv = dispatch_entry_moves [OF d]
  have dr: "flow v (change (drop_ids k ids) v)" for v ids by (rule flow_change) (rule flow_drop_ids)
  show ?case
  proof (cases "p = Inr True")
    case True
    with Cons.prems d have "dispatch_batch E queue k reclaimed es u = Some r" by simp
    with Cons.IH mv True show ?thesis by (simp add: moved_on_then)
  next
    case False
    obtain h v where h: "hand_back E k (map fst es) u = (h, v)" by (rule prod.exhaust)
    have v: "flow u v" using flow_hand_back [of u "map fst es"] h by simp
    have "fst r \<noteq> Inr True \<and> flow u (snd r)"
      using Cons.prems d False h dr [of u] flows_trans [OF v dr] by (cases p; cases h) (auto split: bool.splits)
    with mv show ?thesis using flows_settled [of k "fst u" "fst (snd r)"] by (auto simp: moved_on_def flows_def)
  qed
qed

lemma flow_job_task:
  assumes s: "ht_stream (wk_jobs (fst m) ! tid) = k"
  shows "flow m (job_task E tid m)"
proof -
  let ?j = "ht_job (wk_jobs (fst m) ! tid)"
  have fin: "flow u (snd (finish E k j reply u))" for u j reply
  proof -
    obtain p v where v: "wd_transaction E (finish_cmds (fst u) k j reply) u = (p, v)" by (rule prod.exhaust)
    have "flow u v" using transaction_flow [of u "finish_cmds (fst u) k j reply"] v by simp
    moreover have "flow v (change (drop_ids k [jb_entry_id j]) v)" by (rule flow_change) (rule flow_drop_ids)
    ultimately have "flow u (change (drop_ids k [jb_entry_id j]) v)" by (rule flows_trans)
    with v show ?thesis by (simp add: finish_def Let_def split: option.split)
  qed
  have ch: "(\<And>W. wk_config (h W) = wk_config W \<and> wk_jobs (h W) = wk_jobs W \<and>
      wk_stream_handlers (h W) = wk_stream_handlers W \<and> wk_stopping (h W) = wk_stopping W) \<Longrightarrow>
      flow u (change h u)" for u h
    by (rule flow_change) (simp add: flows_same)
  have req: "flow u (snd (requeue E k j delay u))" for u j delay
  proof -
    let ?a = "count_job E (jb_queue j) ''requeued'' u"
    let ?b = "if 0 < delay then waited (wd_wait_stopping E delay ?a) else (Inr (), ?a)"
    have b: "flow u (snd ?b)" using flows_trans [OF flow_count flow_waited [OF await_flow(2)]] flow_count by simp
    show ?thesis unfolding requeue_def Let_def
      by (rule flow_seq [OF b], rule flow_seq [OF flows_trans [OF ch flow_hand_back]]) (simp_all add: ch)
  qed
  have run: "flow m (snd (run_job E tid k ?j m))"
  proof -
    obtain out u where h: "wd_handler E tid m = (out, u)" by (rule prod.exhaust)
    have u: "flow m u" using handler_flow [of m tid] h by simp
    have f: "flow m (snd (seq (finish E k ?j reply u) (\<lambda>_ m. (Inr (), count_job E (jb_queue ?j) outcome m))))" for reply outcome
      by (rule flow_seq [OF flows_trans [OF u fin]]) (simp add: flow_count)
    show ?thesis using u f flows_trans [OF u req] by (cases out) (auto simp: run_job_def h split: option.split)
  qed
  obtain r u where ru: "run_job E tid k ?j m = (r, u)" by (rule prod.exhaust)
  have "flow m u" using run ru by simp
  moreover have "flow u (change (task_done tid x) u)" for x by (rule flow_change) (rule flows_task_done)
  ultimately show ?thesis using ru s flows_trans by (simp add: job_task_def Let_def)
qed

end

subsection \<open>The simulated server keeps it\<close>

lemma fst_on_stream: "fst (snd (on_stream k f m)) = fst m"
  by (simp add: on_stream_def split: prod.split)

lemma fst_finish_cmds: "fst (fold sim_finish_cmd cmds m) = fst m"
proof (induction cmds arbitrary: m)
  case (Cons x cmds)
  then show ?case by (cases x) (simp_all add: fst_on_stream)
qed simp

interpretation sim_flow: job_flow "sim_worker SE" k
proof (unfold_locales, goal_cases)
  case (11 tid m r)
  then show ?case by (auto simp: sim_worker_def change_def flows_task_done)
qed (simp_all add: sim_worker_def flows_refl fst_on_stream fst_finish_cmds later_def)

interpretation loop_flow: job_flow "with_handlers k (sim_worker SE)" k
proof (unfold_locales, goal_cases)
  case (10 m tid d)
  show ?case using sim_flow.flow_job_task by (simp add: with_handlers_def flows_refl)
qed (simp_all add: with_handlers_def sim_flow.metric_flow sim_flow.claim_flow sim_flow.ack_flow sim_flow.del_flow
    sim_flow.transaction_flow sim_flow.handler_flow sim_flow.await_flow sim_flow.cancel_flow)

definition leading_worker :: worker where
  "leading_worker =
     demo_worker\<lparr>wk_leading := [(''mail'', \<lparr>lt_mutex =
       (new_semaphore (mutex_defaults ''mail:leader'') None)\<lparr>so_state := ACQUIRED\<rparr>, lt_done = False\<rparr>)]\<rparr>"

definition mail_server :: "qsim worker_env" where
  "mail_server = sim_worker (sim_env True (mutex_defaults ''mail:leader''))"

lemma mail_batch:
  "dispatch_batch mail_env ''mail'' mail_key False [raw_of (Sid 7000 0, job_fields ''j1'' (json_dumps (JObj [])) None 7000)]
     (leading_worker, mail_world) = Some (Inr True, job_task mail_server 0 (start_job mail_key mail_job leading_worker, mail_world))"
proof -
  let ?fs = "raw_fields RawStr (job_fields ''j1'' (json_dumps (JObj [])) None 7000)"
  let ?W = "start_job mail_key mail_job leading_worker"
  have i: "sid_str (Sid 7000 0) = ''7000-0''" by code_simp
  have W: "wk_config leading_worker = dispatch_config_defaults" "wk_jobs leading_worker = []" "wk_stopping leading_worker = False"
    "wk_clock_offset leading_worker = 0" "mutex_acquired ''mail'' leading_worker"
    by (simp_all add: leading_worker_def demo_worker_def new_worker_def Let_def dict_fromkeys_def check_queue_name_def py_bind_def mutex_acquired_def)
  have "decode_job leading_worker ''mail'' ''7000-0'' ?fs False = Some (new_job ''mail'' ''7000-0'' ''j1'' (JObj []) (of_int 7000 / 1000)
      (map_option (\<lambda>d. of_int (7000 + d) / 1000) None) False (wk_clock_offset leading_worker))"
    by (rule decode_job_fields) simp_all
  then have j: "decode_job leading_worker ''mail'' ''7000-0'' ?fs False = Some mail_job" by (simp add: mail_job_def W)
  have V: "wk_jobs ?W = [\<lparr>ht_stream = mail_key, ht_job = mail_job, ht_done = False, ht_cancelled = False\<rparr>]"
    "must_leave ''mail'' ?W = False"
    using W by (simp_all add: start_job_def take_ids_def Let_def must_leave_def mutex_acquired_def)
  have new: "\<not> jb_settled mail_job" by (simp add: mail_job_def new_job_def)
  let ?m = "job_task mail_server 0 (?W, mail_world)"
  have 1: "settle_round mail_env ''mail'' mail_key 0 (?W, mail_world) = Inr ?m"
    by (simp add: settle_round_def task_job_def V new mail_env_def with_handlers_def mail_server_def)
  have "wk_jobs (fst ?m) = [\<lparr>ht_stream = mail_key, ht_job = mail_job\<lparr>jb_settled := True\<rparr>, ht_done = True, ht_cancelled = False\<rparr>]"
    by (simp add: job_task_def run_job_def V mail_server_def sim_worker_def job_reply_def finish_def
        Let_def seq_def change_def fst_finish_cmds count_job_def record_job_def task_done_def drop_ids_def split: prod.split)
  then have 2: "settle_round mail_env ''mail'' mail_key 0 ?m = Inl (Some (Inr True, ?m))"
    by (simp add: settle_round_def task_job_def)
  have "start_and_settle mail_env ''mail'' mail_key mail_job (leading_worker, mail_world) = Some (Inr True, ?m)"
    unfolding start_and_settle_def
    by (simp add: change_def W repeat_until_Inr [where body = "settle_round mail_env ''mail'' mail_key 0", OF 1]
        repeat_until_Inl [where body = "settle_round mail_env ''mail'' mail_key 0", OF 2])
  moreover have "job_remaining t mail_job = None" for t by (simp add: job_remaining_def mail_job_def new_job_def)
  moreover have "?fs \<noteq> []" by (simp add: raw_fields_def job_fields_def)
  ultimately show ?thesis by (simp add: dispatch_entry_def raw_of_def i j W Let_def dispatch_config_defaults_def del: json_dumps.simps)
qed

text \<open>C5: the jobs of a queue run one at a time until they are admitted: when a leader is done with a batch
  and goes on, every job it ever started for the queue is settled, that is admitted or ended; and however
  it ends there are never more handlers of the queue than \<open>max_admitted\<close>.\<close>

theorem queue_moves_on_when_settled:
  assumes "job_flow E k" and "all_settled k (fst m)"
    and "\<And>most. dc_max_admitted (wk_config (fst m)) = Some most \<Longrightarrow> int (length (wk_stream_handlers (fst m) k)) \<le> most"
    and "dispatch_batch E queue k reclaimed es m = Some (r, m')"
  shows "(r = Inr True \<longrightarrow> all_settled k (fst m')) \<and>
    (\<forall>most. dc_max_admitted (wk_config (fst m)) = Some most \<longrightarrow> int (length (wk_stream_handlers (fst m') k)) \<le> most)"
  using job_flow.dispatch_batch_moves [OF assms(1,4)] assms(2,3) by (simp add: job_flow.moved_on_def [OF assms(1)])

theorem queue_moves_on_when_settled_witness:
  "all_settled mail_key (fst (job_task mail_server 0 (start_job mail_key mail_job leading_worker, mail_world)))"
proof -
  have f: "job_flow mail_env mail_key" unfolding mail_env_def by (rule loop_flow.job_flow_axioms)
  have W: "wk_config leading_worker = dispatch_config_defaults" "wk_jobs leading_worker = []"
    by (simp_all add: leading_worker_def demo_worker_def new_worker_def Let_def dict_fromkeys_def check_queue_name_def py_bind_def)
  have s: "all_settled mail_key (fst (leading_worker, mail_world))" by (simp add: all_settled_def W)
  show ?thesis
    using queue_moves_on_when_settled [OF f s _ mail_batch] by (simp add: W dispatch_config_defaults_def)
qed

end
