(* ===== verification/DispatchStop.thy ===== *)
theory DispatchStop
  imports DispatchFlow
begin

section \<open>Stopping a worker is prompt\<close>

text \<open>
  A worker that is stopping waits for no handler but one that it has cancelled: the loops of a leader end
  at once, and what they do is the same whatever the waits of the environment are. So a leader is done
  with its batch, whether the stop came before it or while it waited for a job or for a free handler.
\<close>

text \<open>The environment with other waits: for a job to settle, and for one of the handlers to end.\<close>

abbreviation other_waits ::
  "(nat \<Rightarrow> real \<Rightarrow> 'w mem \<Rightarrow> bool \<times> 'w mem) \<Rightarrow> (nat list \<Rightarrow> real \<Rightarrow> 'w mem \<Rightarrow> bool \<times> 'w mem) \<Rightarrow>
   'w worker_env \<Rightarrow> 'w worker_env" where
  "other_waits f g E \<equiv> E\<lparr>wd_wait_settled := f, wd_wait_any := g\<rparr>"

lemma other_waits_fields:
  "wd_claim_lock (other_waits f g E) = wd_claim_lock E" "wd_xclaim (other_waits f g E) = wd_xclaim E"
  "wd_cancel (other_waits f g E) = wd_cancel E" "wd_xack (other_waits f g E) = wd_xack E"
  "wd_xdel (other_waits f g E) = wd_xdel E" "wd_metric (other_waits f g E) = wd_metric E"
  "wd_metrics_enabled (other_waits f g E) = wd_metrics_enabled E" "wd_metric_hook (other_waits f g E) = wd_metric_hook E"
  by simp_all

lemma other_waits_same:
  "hand_back (other_waits f g E) = hand_back E" "abandon (other_waits f g E) = abandon E"
  "settle_cancelled (other_waits f g E) = settle_cancelled E" "drop_entry (other_waits f g E) = drop_entry E"
  "acknowledge (other_waits f g E) = acknowledge E" "count_job (other_waits f g E) = count_job E"
proof -
  show h: "hand_back (other_waits f g E) = hand_back E" by (intro ext) (unfold hand_back_def other_waits_fields, rule refl)
  show a: "abandon (other_waits f g E) = abandon E" by (intro ext) (unfold abandon_def other_waits_fields h, rule refl)
  show "settle_cancelled (other_waits f g E) = settle_cancelled E" by (intro ext) (unfold settle_cancelled_def a, rule refl)
  show k: "acknowledge (other_waits f g E) = acknowledge E" by (intro ext) (unfold acknowledge_def other_waits_fields, rule refl)
  show "drop_entry (other_waits f g E) = drop_entry E" by (intro ext) (unfold drop_entry_def other_waits_fields k, rule refl)
  show "count_job (other_waits f g E) = count_job E" by (intro ext) (unfold count_job_def other_waits_fields, rule refl)
qed

lemma stopping_same_rounds:
  assumes "wk_stopping (fst m)"
  shows "settle_round (other_waits f g E) queue k tid m = settle_round E queue k tid m"
    and "cap_round (other_waits f g E) queue k most i m = cap_round E queue k most i m"
  using assms unfolding settle_round_def cap_round_def other_waits_same Let_def by (simp_all add: must_leave_def)

context job_flow
begin

lemma flow_stopping: "flow m m' \<Longrightarrow> wk_stopping (fst m) \<Longrightarrow> wk_stopping (fst m')"
  by (simp add: flows_def)

abbreviation cancelled_end :: bool where
  "cancelled_end \<equiv> (\<forall>tid m. wk_stopping (fst m) \<longrightarrow> wd_cancel E tid m \<noteq> None)"

lemma stopping_abandon:
  assumes "cancelled_end" and "wk_stopping (fst m)"
  shows "\<exists>p u. abandon E k tid m = Some (p, u) \<and> wk_stopping (fst u)"
proof -
  have "wd_cancel E tid m \<noteq> None" using assms by blast
  then have "abandon E k tid m \<noteq> None" by (simp add: abandon_def del: not_None_eq)
  then obtain x where "abandon E k tid m = Some x" by blast
  with flow_abandon [of m tid] flow_stopping [OF _ assms(2)] show ?thesis by (cases x) auto
qed

lemma stopping_settle_cancelled:
  assumes "cancelled_end" and "wk_stopping (fst m)"
  shows "settle_cancelled E k tid e m \<noteq> None"
  using stopping_abandon [OF assms, of tid] by (auto simp: settle_cancelled_def simp del: not_None_eq)

lemma stopping_settle_round:
  assumes c: "cancelled_end" and s: "wk_stopping (fst m)"
  shows "\<exists>x. settle_round E queue k tid m = Inl (Some x) \<and> wk_stopping (fst (snd x)) \<and>
    (\<not> jb_settled (task_job tid (fst m)) \<longrightarrow> fst x \<noteq> Inr True)"
proof -
  have e: "\<exists>y. settle_round E queue k tid m = Inl (Some y) \<and> (\<not> jb_settled (task_job tid (fst m)) \<longrightarrow> fst y \<noteq> Inr True)"
  proof (cases "jb_settled (task_job tid (fst m))")
    case False
    obtain p u where a: "abandon E k tid m = Some (p, u)" and u: "wk_stopping (fst u)"
      using stopping_abandon [OF c s] by blast
    show ?thesis
    proof (cases p)
      case (Inl err)
      obtain q v where q: "settle_cancelled E k tid err u = Some (q, v)" using stopping_settle_cancelled [OF c u] by fastforce
      moreover have "q \<noteq> Inr True" using flow_settle_cancelled [of u tid err True v] q by auto
      ultimately show ?thesis using False s a Inl by (simp add: settle_round_def must_leave_def)
    qed (use False s a in \<open>simp add: settle_round_def must_leave_def\<close>)
  qed (simp add: settle_round_def Let_def del: split_paired_Ex)
  then obtain x where x: "settle_round E queue k tid m = Inl (Some x)" "\<not> jb_settled (task_job tid (fst m)) \<longrightarrow> fst x \<noteq> Inr True" by blast
  then have "flow m (snd x)" using flow_settle_round [where queue = queue and tid = tid and m = m] by simp
  with x flow_stopping [OF _ s] show ?thesis by blast
qed

lemma stopping_cap_round:
  assumes s: "wk_stopping (fst m)"
  shows "\<exists>x. cap_round E queue k most i m = Inl x \<and> wk_stopping (fst (snd x))"
proof -
  obtain x where x: "cap_round E queue k most i m = Inl x" using s
    by (cases "int (length (wk_stream_handlers (fst m) k)) < most") (simp_all add: cap_round_def Let_def must_leave_def del: split_paired_Ex)
  then have "flow m (snd x)" using flow_cap_round [where queue = queue and most = most and e = i and m = m] by simp
  with x flow_stopping [OF _ s] show ?thesis by blast
qed

lemma stopping_settle:
  assumes c: "cancelled_end" and s: "wk_stopping (fst m)"
  shows "start_and_settle (other_waits f g E) queue k j m = start_and_settle E queue k j m \<and>
    start_and_settle E queue k j m \<noteq> None"
proof -
  let ?tid = "length (wk_jobs (fst m))" and ?m = "change (start_job k j) m"
  have s': "wk_stopping (fst ?m)" using s by (simp add: change_def start_handlers)
  obtain x where x: "settle_round E queue k ?tid ?m = Inl (Some x)" using stopping_settle_round [OF c s'] by blast
  then have "settle_round (other_waits f g E) queue k ?tid ?m = Inl (Some x)" by (simp add: stopping_same_rounds [OF s'])
  with x show ?thesis by (simp add: start_and_settle_def repeat_until_Inl del: not_None_eq)
qed

lemma stopping_entry:
  assumes c: "cancelled_end" and s: "wk_stopping (fst m)"
  shows "dispatch_entry (other_waits f g E) queue k e reclaimed m = dispatch_entry E queue k e reclaimed m \<and>
    dispatch_entry E queue k e reclaimed m \<noteq> None"
proof -
  have tail: "(case repeat_until (cap_round (other_waits f g E) queue k most i) m of
        None \<Rightarrow> None | Some (Inl err, m) \<Rightarrow> Some (Inl err, m) | Some (Inr False, m) \<Rightarrow> Some (Inr False, m)
      | Some (Inr True, m) \<Rightarrow> start_and_settle (other_waits f g E) queue k j m) =
      (case repeat_until (cap_round E queue k most i) m of
        None \<Rightarrow> None | Some (Inl err, m) \<Rightarrow> Some (Inl err, m) | Some (Inr False, m) \<Rightarrow> Some (Inr False, m)
      | Some (Inr True, m) \<Rightarrow> start_and_settle E queue k j m) \<and>
      (case repeat_until (cap_round E queue k most i) m of
        None \<Rightarrow> None | Some (Inl err, m) \<Rightarrow> Some (Inl err, m) | Some (Inr False, m) \<Rightarrow> Some (Inr False, m)
      | Some (Inr True, m) \<Rightarrow> start_and_settle E queue k j m) \<noteq> None" for most i j
  proof -
    obtain p u where x: "cap_round E queue k most i m = Inl (p, u)" and u: "wk_stopping (fst u)"
      using stopping_cap_round [OF s] by (metis prod.collapse)
    have "cap_round (other_waits f g E) queue k most i m = Inl (p, u)" using x by (simp add: stopping_same_rounds [OF s])
    then show ?thesis using stopping_settle [OF c u, where f = f and g = g and queue = queue and j = j]
      by (simp add: repeat_until_Inl [where body = "cap_round E queue k most i", OF x] del: not_None_eq split: sum.split bool.split)
  qed
  have st: "start_and_settle (other_waits f g E) queue k j m = start_and_settle E queue k j m" "start_and_settle E queue k j m \<noteq> None"
    for j using stopping_settle [OF c s] by blast+
  obtain t fs where e: "e = (t, fs)" by (rule prod.exhaust)
  show ?thesis
    by (cases t; cases "fs = []"; cases "decode_job (fst m) queue (text_of (the t)) fs reclaimed";
        cases "dc_max_admitted (wk_config (fst m))")
      (simp_all add: dispatch_entry_def e Let_def other_waits_same st tail del: not_None_eq)
qed

lemma stopping_batch:
  "cancelled_end \<Longrightarrow> wk_stopping (fst m) \<Longrightarrow> \<exists>r m'. dispatch_batch E queue k reclaimed es m = Some (r, m') \<and>
     dispatch_batch (other_waits f g E) queue k reclaimed es m = Some (r, m') \<and> wk_stopping (fst m')"
proof (induction es arbitrary: m)
  case (Cons e es)
  obtain x where x: "dispatch_entry E queue k e reclaimed m = Some x"
    "dispatch_entry (other_waits f g E) queue k e reclaimed m = Some x"
    using stopping_entry [OF Cons.prems, where f = f and g = g and queue = queue and e = e and reclaimed = reclaimed] by (metis option.exhaust)
  obtain p u where xp: "x = (p, u)" by (rule prod.exhaust)
  have u: "wk_stopping (fst u)" using dispatch_entry_moves [OF x(1)] Cons.prems(2) xp by (simp add: moved_on_def)
  have dr: "wk_stopping (fst (change (drop_ids k ids) v)) = wk_stopping (fst v)" for v ids
    by (simp add: change_def drop_ids_def)
  obtain h v where h: "hand_back E k (map fst es) u = (h, v)" by (rule prod.exhaust)
  have v: "wk_stopping (fst v)" using flow_stopping [OF _ u] flow_hand_back [of u "map fst es"] h by simp
  show ?case
  proof (cases p)
    case (Inl e)
    with x xp u show ?thesis by (simp add: dr)
  next
    case (Inr b)
    with x xp h v Cons.IH [OF Cons.prems(1) u] show ?thesis by (cases b) (simp_all add: dr other_waits_same)
  qed
qed simp

end

text \<open>C22: stopping a worker is prompt, provided that a handler ends when it is cancelled: once the worker is
  stopping, the wait of a leader for a job to settle ends in the round it is in, and leaves the queue unless
  the job has settled already; the wait for a free handler ends in the round it is in; the rest of a batch
  is done, whatever its entries are, and the next round ends the leading. All of this is the same
  whatever the waits for handlers do: the leader does not wait for any handler but the one it cancels.\<close>

theorem stopping_leader_finishes:
  assumes "job_flow E k" and "wk_stopping (fst m)"
    and "\<And>tid m. wk_stopping (fst m) \<Longrightarrow> wd_cancel E tid m \<noteq> None"
  shows "(\<exists>x. settle_round E queue k tid m = Inl (Some x) \<and> settle_round (other_waits f g E) queue k tid m = Inl (Some x) \<and>
      (\<not> jb_settled (task_job tid (fst m)) \<longrightarrow> fst x \<noteq> Inr True)) \<and>
    (\<exists>x. cap_round E queue k most i m = Inl x \<and> cap_round (other_waits f g E) queue k most i m = Inl x) \<and>
    (\<exists>r m'. dispatch_batch E queue k reclaimed es m = Some (r, m') \<and>
      dispatch_batch (other_waits f g E) queue k reclaimed es m = Some (r, m') \<and>
      lead_round E queue (next_reclaim, cursor, m') = Inl (Some (Inr (), m')))"
proof -
  have c: "\<forall>tid m. wk_stopping (fst m) \<longrightarrow> wd_cancel E tid m \<noteq> None" using assms(3) by blast
  have "lead_round E queue (next_reclaim, cursor, m') = Inl (Some (Inr (), m'))" if "wk_stopping (fst m')" for m'
    using that by (simp add: lead_round_def must_leave_def)
  with job_flow.stopping_settle_round [OF assms(1) c assms(2), where queue = queue and tid = tid]
    job_flow.stopping_cap_round [OF assms(1,2), where queue = queue and most = most and i = i]
    job_flow.stopping_batch [OF assms(1) c assms(2), where queue = queue and reclaimed = reclaimed and es = es and f = f and g = g]
    stopping_same_rounds [OF assms(2), where f = f and g = g]
  show ?thesis by metis
qed

text \<open>The job \<open>mail_job\<close> is running when the worker is stopped.\<close>

theorem stopping_leader_finishes_witness:
  "let m = (stop (start_job mail_key mail_job leading_worker), mail_world);
     E' = other_waits (\<lambda>tid d m. (True, m)) (\<lambda>tids d m. (True, m)) mail_env;
     es = [raw_of (Sid 7000 0, job_fields ''j1'' (json_dumps (JObj [])) None 7000)]
   in (\<exists>x. settle_round mail_env ''mail'' mail_key 0 m = Inl (Some x) \<and>
        settle_round E' ''mail'' mail_key 0 m = Inl (Some x) \<and> fst x \<noteq> Inr True) \<and>
      (\<exists>r m'. dispatch_batch mail_env ''mail'' mail_key False es m = Some (r, m') \<and>
        dispatch_batch E' ''mail'' mail_key False es m = Some (r, m') \<and>
        lead_round mail_env ''mail'' (0, ''0-0'', m') = Inl (Some (Inr (), m')))"
proof -
  let ?m = "(stop (start_job mail_key mail_job leading_worker), mail_world)"
  have f: "job_flow mail_env mail_key" unfolding mail_env_def by (rule loop_flow.job_flow_axioms)
  have c: "wd_cancel mail_env tid m \<noteq> None" for tid m by (simp add: mail_env_def with_handlers_def sim_worker_def)
  have "wk_jobs leading_worker = []"
    by (simp add: leading_worker_def demo_worker_def new_worker_def Let_def dict_fromkeys_def check_queue_name_def py_bind_def)
  then have n: "\<not> jb_settled (task_job 0 (fst ?m))"
    by (simp add: task_job_def stop_def start_job_def take_ids_def Let_def mail_job_def new_job_def)
  have s: "wk_stopping (fst ?m)" by (simp add: stop_def)
  show ?thesis
    using stopping_leader_finishes [OF f s c, where queue = "''mail''" and tid = 0 and f = "\<lambda>tid d m. (True, m)" and g = "\<lambda>tid d m. (True, m)"] n
    unfolding Let_def by blast
qed

end
