(* ===== verification/Connection.thy ===== *)
theory Connection
  imports DispatchJobs SemaphoreProps
begin

section \<open>Connections\<close>

text \<open>
  \<open>src/redis_semaphore/connection.py\<close>: the connection settings, the keyword arguments made of them, and
  the factory. The constructors of redis-py are not part of the program: what the factory gives is the
  call it makes. A keyword that a call would pass twice is Python's TypeError.
\<close>

subsection \<open>Keyword arguments\<close>

type_synonym kwargs = "(string \<times> pyobj) list"

text \<open>\<open>d.update(e)\<close> on dicts in insertion order.\<close>

definition dict_update_all :: "kwargs \<Rightarrow> kwargs \<Rightarrow> kwargs" where
  "dict_update_all d e = fold (\<lambda>(k, v). dict_put k v) e d"

definition str_or_none :: "string option \<Rightarrow> pyobj" where
  "str_or_none x = (case x of None \<Rightarrow> PNone | Some t \<Rightarrow> PStr t)"

subsection \<open>Settings\<close>

record redis_config =
  rd_host :: string
  rd_port :: int
  rd_db :: int
  rd_password :: "string option"
  rd_socket_timeout :: real
  rd_socket_connect_timeout :: "real option"
  rd_ssl :: bool
  rd_ssl_ca_certs :: "string option"
  rd_ssl_certfile :: "string option"
  rd_ssl_keyfile :: "string option"
  rd_ssl_cert_reqs :: string
  rd_health_check_interval :: real
  rd_retry_on_timeout :: bool
  rd_client_name :: "string option"
  rd_extra_kwargs :: kwargs

definition redis_config_defaults :: redis_config where
  "redis_config_defaults =
     \<lparr>rd_host = ''localhost'', rd_port = 6379, rd_db = 0, rd_password = None, rd_socket_timeout = 5,
      rd_socket_connect_timeout = None, rd_ssl = False, rd_ssl_ca_certs = None, rd_ssl_certfile = None,
      rd_ssl_keyfile = None, rd_ssl_cert_reqs = ''required'', rd_health_check_interval = 0,
      rd_retry_on_timeout = False, rd_client_name = None, rd_extra_kwargs = []\<rparr>"

definition client_kwargs :: "redis_config \<Rightarrow> kwargs" where
  "client_kwargs c =
     (let kwargs = [(''host'', PStr (rd_host c)), (''port'', PInt (rd_port c)), (''db'', PInt (rd_db c)),
            (''password'', str_or_none (rd_password c)), (''socket_timeout'', PFloat (rd_socket_timeout c)),
            (''health_check_interval'', PFloat (rd_health_check_interval c))];
          kwargs = (if rd_retry_on_timeout c then dict_put ''retry_on_timeout'' (PBool True) kwargs else kwargs);
          kwargs = (case rd_client_name c of None \<Rightarrow> kwargs | Some t \<Rightarrow> dict_put ''client_name'' (PStr t) kwargs);
          kwargs = (case rd_socket_connect_timeout c of
            None \<Rightarrow> kwargs | Some t \<Rightarrow> dict_put ''socket_connect_timeout'' (PFloat t) kwargs);
          kwargs = (if rd_ssl c
            then dict_update_all kwargs [(''ssl'', PBool True), (''ssl_ca_certs'', str_or_none (rd_ssl_ca_certs c)),
              (''ssl_certfile'', str_or_none (rd_ssl_certfile c)), (''ssl_keyfile'', str_or_none (rd_ssl_keyfile c)),
              (''ssl_cert_reqs'', PStr (rd_ssl_cert_reqs c))]
            else kwargs)
      in dict_update_all kwargs (rd_extra_kwargs c))"

record sentinel_config =
  sn_sentinels :: "(string \<times> int) list"
  sn_service_name :: string
  sn_password :: "string option"
  sn_sentinel_password :: "string option"
  sn_db :: int
  sn_socket_timeout :: real
  sn_min_other_sentinels :: int
  sn_health_check_interval :: real
  sn_retry_on_timeout :: bool
  sn_client_name :: "string option"
  sn_extra_kwargs :: kwargs
  sn_sentinel_extra_kwargs :: kwargs

definition sentinel_config_defaults :: "(string \<times> int) list \<Rightarrow> string \<Rightarrow> sentinel_config" where
  "sentinel_config_defaults sentinels service_name =
     \<lparr>sn_sentinels = sentinels, sn_service_name = service_name, sn_password = None, sn_sentinel_password = None,
      sn_db = 0, sn_socket_timeout = 5, sn_min_other_sentinels = 0, sn_health_check_interval = 0,
      sn_retry_on_timeout = False, sn_client_name = None, sn_extra_kwargs = [], sn_sentinel_extra_kwargs = []\<rparr>"

definition master_kwargs :: "sentinel_config \<Rightarrow> kwargs" where
  "master_kwargs c =
     (let kwargs = [(''password'', str_or_none (sn_password c)), (''db'', PInt (sn_db c)),
            (''socket_timeout'', PFloat (sn_socket_timeout c)),
            (''health_check_interval'', PFloat (sn_health_check_interval c))];
          kwargs = (if sn_retry_on_timeout c then dict_put ''retry_on_timeout'' (PBool True) kwargs else kwargs);
          kwargs = (case sn_client_name c of None \<Rightarrow> kwargs | Some t \<Rightarrow> dict_put ''client_name'' (PStr t) kwargs)
      in dict_update_all kwargs (sn_extra_kwargs c))"

subsection \<open>The factory\<close>

datatype connection_config = DirectConnection redis_config | SentinelConnection sentinel_config

text \<open>The calls of redis-py: of the client's constructor, or of the sentinel's and then \<open>master_for\<close>.\<close>

datatype client_call = RedisCall bool kwargs | MasterCall bool "(string \<times> int) list" kwargs string kwargs

definition sentinel_kwargs :: "sentinel_config \<Rightarrow> kwargs" where
  "sentinel_kwargs c =
     [(''socket_timeout'', PFloat (sn_socket_timeout c)), (''password'', str_or_none (sn_sentinel_password c)),
      (''min_other_sentinels'', PInt (sn_min_other_sentinels c))]"

text \<open>\<open>**extra\<close> beside named arguments: no name may come twice.\<close>

definition with_extra :: "string list \<Rightarrow> kwargs \<Rightarrow> kwargs \<Rightarrow> py_exn + kwargs" where
  "with_extra positional named extra =
     (if set (map fst extra) \<inter> (set positional \<union> set (map fst named)) \<noteq> {} then Inl PyTypeError
      else Inr (named @ extra))"

definition create_client :: "bool \<Rightarrow> connection_config \<Rightarrow> py_exn + client_call" where
  "create_client is_async config =
     (case config of
        SentinelConnection c \<Rightarrow>
          py_bind (with_extra [''sentinels''] (sentinel_kwargs c) (sn_sentinel_extra_kwargs c)) (\<lambda>sentinel.
            py_bind (with_extra [''service_name''] [] (master_kwargs c)) (\<lambda>master.
              Inr (MasterCall is_async (sn_sentinels c) sentinel (sn_service_name c) master)))
      | DirectConnection c \<Rightarrow> Inr (RedisCall is_async (client_kwargs c)))"

definition create_sync :: "connection_config \<Rightarrow> py_exn + client_call" where
  "create_sync = create_client False"

definition create_async :: "connection_config \<Rightarrow> py_exn + client_call" where
  "create_async = create_client True"

subsection \<open>What the waits make of it\<close>

lemma map_of_dict_update: "distinct (map fst e) \<Longrightarrow> map_of (dict_update_all d e) = map_of d ++ map_of e"
  unfolding dict_update_all_def
  by (induction e arbitrary: d) (auto simp: map_of_dict_put map_add_upd_left dom_map_of_conv_image_fst)

definition extra_kwargs_of :: "connection_config \<Rightarrow> kwargs" where
  "extra_kwargs_of config = (case config of DirectConnection c \<Rightarrow> rd_extra_kwargs c | SentinelConnection c \<Rightarrow> sn_extra_kwargs c)"

definition socket_timeout_of :: "connection_config \<Rightarrow> real" where
  "socket_timeout_of config = (case config of DirectConnection c \<Rightarrow> rd_socket_timeout c | SentinelConnection c \<Rightarrow> sn_socket_timeout c)"

text \<open>The keywords of the connections a call makes: redis-py hands them on.\<close>

fun connection_kwargs :: "client_call \<Rightarrow> kwargs" where
  "connection_kwargs (RedisCall is_async kwargs) = kwargs"
| "connection_kwargs (MasterCall is_async sentinels sentinel service kwargs) = kwargs"

lemma factory_socket_timeout:
  assumes "create_client is_async config = Inr call" and "distinct (map fst (extra_kwargs_of config))"
  shows "map_of (connection_kwargs call) ''socket_timeout'' =
    (case map_of (extra_kwargs_of config) ''socket_timeout'' of None \<Rightarrow> Some (PFloat (socket_timeout_of config)) | Some v \<Rightarrow> Some v)"
proof (cases config)
  case (DirectConnection c)
  then have "call = RedisCall is_async (client_kwargs c)" using assms(1) by (simp add: create_client_def)
  then show ?thesis using assms(2) DirectConnection
    by (auto simp: client_kwargs_def Let_def extra_kwargs_of_def socket_timeout_of_def map_of_dict_update map_of_dict_put
        map_add_def split: option.split)
next
  case (SentinelConnection c)
  then have "connection_kwargs call = master_kwargs c" using assms(1)
    by (auto simp: create_client_def with_extra_def py_bind_def split: if_splits sum.splits)
  then show ?thesis using assms(2) SentinelConnection
    by (auto simp: master_kwargs_def Let_def extra_kwargs_of_def socket_timeout_of_def map_of_dict_update map_of_dict_put
        map_add_def split: option.split)
qed

lemma effective_timeout:
  assumes "create_client is_async config = Inr call" and "distinct (map fst (extra_kwargs_of config))"
    and "case map_of (extra_kwargs_of config) ''socket_timeout'' of
      None \<Rightarrow> t = socket_timeout_of config | Some v \<Rightarrow> v \<noteq> PNone \<and> to_float v = Some t"
    and "to_float (PFloat (socket_timeout_of config)) = Some (socket_timeout_of config)"
  shows "client_socket_timeout to_float (Returns (Some (connection_kwargs call))) pool = Some t"
proof -
  have "map_of (connection_kwargs call) ''socket_timeout'' =
      (case map_of (extra_kwargs_of config) ''socket_timeout'' of None \<Rightarrow> Some (PFloat (socket_timeout_of config)) | Some v \<Rightarrow> Some v)"
    by (rule factory_socket_timeout [OF assms(1,2)])
  then show ?thesis using assms(3,4)
    by (cases "map_of (extra_kwargs_of config) ''socket_timeout''") (auto simp: client_socket_timeout_def split: pyobj.split)
qed

subsection \<open>Blocking operations\<close>

text \<open>A blocking operation that does what \<open>op\<close> does when it is given a wait of less than \<open>t\<close> seconds, but not
  zero, which would mean forever, and anything else (\<open>other\<close>) when it is given another wait.\<close>

definition only_below :: "real \<Rightarrow> (real \<Rightarrow> 'b) \<Rightarrow> (real \<Rightarrow> 'b) \<Rightarrow> real \<Rightarrow> 'b" where
  "only_below t other op d = (if 0 < d \<and> d < t then op d else other d)"

text \<open>XREADGROUP gets milliseconds, or does not block.\<close>

definition only_below_ms :: "real \<Rightarrow> (int option \<Rightarrow> 'b) \<Rightarrow> (int option \<Rightarrow> 'b) \<Rightarrow> int option \<Rightarrow> 'b" where
  "only_below_ms t other op b = (if (case b of None \<Rightarrow> True | Some b \<Rightarrow> 0 < b \<and> of_int b < t * 1000) then op b else other b)"

lemma wait_blpop_below:
  assumes "so_blpop_wait_cap S = Some (t * (8 / 10))" and "1 / 100 < t"
  shows "wait_blpop_with E (\<lambda>k. only_below t (f k) (blpop k)) sleep S st w = wait_blpop_with E blpop sleep S st w"
proof -
  have "blpop_timeout_for E S st w \<le> max (1 / 100) (t * (8 / 10))"
    unfolding blpop_timeout_for_def assms(1) cap_def by (auto simp: Let_def set_and_def split: option.split)
  then have "blpop_timeout_for E S st w < t" using assms(2) by auto
  then show ?thesis by (simp add: wait_blpop_with_def only_below_def Let_def)
qed

lemma block_cap_below: "0 < t \<Longrightarrow> 0 < block_cap (Some t) \<and> block_cap (Some t) \<le> t * (8 / 10)"
  by (simp add: block_cap_def blpop_socket_timeout_fraction_def max_block_def)

lemma wait_round_below:
  assumes "q_socket_timeout Q = Some t" and t: "1 / 100 < t"
  shows "wait_round Q (\<lambda>k k'. only_below t (f k k') (blmove k k')) delete sleep queue rkey give_up =
    wait_round Q blmove delete sleep queue rkey give_up"
proof
  fix x :: "real option \<times> 'a"
  obtain since w where x: "x = (since, w)" by (rule prod.exhaust)
  have c: "0 < block_cap (Some t)" "block_cap (Some t) < t" using block_cap_below [of t] t by auto
  show "wait_round Q (\<lambda>k k'. only_below t (f k k') (blmove k k')) delete sleep queue rkey give_up x =
      wait_round Q blmove delete sleep queue rkey give_up x"
  proof (cases give_up)
    case None
    with c show ?thesis by (simp add: wait_round_def x Let_def assms(1) only_below_def)
  next
    case (Some g)
    have "0 < max (min (block_cap (Some t)) (g - q_monotonic Q w)) min_block"
      "max (min (block_cap (Some t)) (g - q_monotonic Q w)) min_block < t"
      using c t by (auto simp: min_block_def)
    with Some show ?thesis by (simp add: wait_round_def x Let_def assms(1) only_below_def)
  qed
qed

lemma submit_below:
  assumes "q_socket_timeout Q = Some t" and "1 / 100 < t"
  shows "submit_with Q enqueue (\<lambda>k k'. only_below t (f k k') (blmove k k')) delete sleep d queue payload tm x =
    submit_with Q enqueue blmove delete sleep d queue payload tm x"
  unfolding submit_with_def wait_round_below [OF assms] by (rule refl)

lemma submit_fields:
  "submit_with (Q\<lparr>q_blmove := b\<rparr>) = submit_with Q" "submit_with (Q\<lparr>q_ablmove := b\<rparr>) = submit_with Q"
proof -
  have f: "q_uuid_hex (Q\<lparr>q_blmove := b\<rparr>) = q_uuid_hex Q" "q_monotonic (Q\<lparr>q_blmove := b\<rparr>) = q_monotonic Q"
    "q_socket_timeout (Q\<lparr>q_blmove := b\<rparr>) = q_socket_timeout Q"
    "q_uuid_hex (Q\<lparr>q_ablmove := b\<rparr>) = q_uuid_hex Q" "q_monotonic (Q\<lparr>q_ablmove := b\<rparr>) = q_monotonic Q"
    "q_socket_timeout (Q\<lparr>q_ablmove := b\<rparr>) = q_socket_timeout Q" by simp_all
  have w: "wait_round (Q\<lparr>q_blmove := b\<rparr>) = wait_round Q" "wait_round (Q\<lparr>q_ablmove := b\<rparr>) = wait_round Q"
    unfolding atomize_conj by (intro conjI ext; unfold wait_round_def f, rule refl)
  show "submit_with (Q\<lparr>q_blmove := b\<rparr>) = submit_with Q" by (intro ext) (unfold submit_with_def w f, rule refl)
  show "submit_with (Q\<lparr>q_ablmove := b\<rparr>) = submit_with Q" by (intro ext) (unfold submit_with_def w f, rule refl)
qed

lemma read_new_below:
  fixes m :: "'w mem"
  assumes "of_int (max 1 (py_int (min (dc_read_timeout (wk_config (fst m))) (wk_block_cap (fst m)) * 1000))) < t * 1000"
  shows "read_new (F\<lparr>wd_xreadgroup := \<lambda>gr n k i most. only_below_ms t (h gr n k i most) (wd_xreadgroup F gr n k i most)\<rparr>) k m =
    read_new F k m"
proof -
  have e: "ensure_group (F\<lparr>wd_xreadgroup := b\<rparr>) = ensure_group F" for b
    by (intro ext) (simp add: ensure_group_def)
  let ?b = "max 1 (py_int (min (dc_read_timeout (wk_config (fst m))) (wk_block_cap (fst m)) * 1000))"
  have sel: "wd_xreadgroup (F\<lparr>wd_xreadgroup := b\<rparr>) = b" for b by simp
  have ob: "only_below_ms t o1 o2 (Some ?b) = o2 (Some ?b)" for o1 o2 :: "int option \<Rightarrow> 'w mem \<Rightarrow> (raw_exn + xread_reply) \<times> 'w mem"
    using assms by (simp add: only_below_ms_def max_def)
  show ?thesis unfolding read_new_def Let_def e sel ob by (rule refl)
qed

lemma py_int_below: "x < t \<Longrightarrow> 1 < t \<Longrightarrow> of_int (max 1 (py_int x)) < (t :: real)"
  unfolding py_int_def by (simp add: max_def) linarith

text \<open>C27: blocking waits end before the socket gives up: on a client of the factory whose effective socket
  timeout \<open>t\<close>, extra keywords included, is above the floor of a hundredth of a second, every BLPOP of a
  semaphore, every BLMOVE of a submit and every XREADGROUP of a worker that blocks is given a positive wait
  that is shorter than \<open>t\<close>: what these operations would do with any other wait makes no difference.\<close>

theorem waits_end_before_the_socket_timeout:
  assumes "create_client is_async config = Inr call" and "distinct (map fst (extra_kwargs_of config))"
    and "case map_of (extra_kwargs_of config) ''socket_timeout'' of
      None \<Rightarrow> t = socket_timeout_of config | Some v \<Rightarrow> v \<noteq> PNone \<and> to_float v = Some t"
    and "to_float (PFloat (socket_timeout_of config)) = Some (socket_timeout_of config)" and "1 / 100 < t"
    and "timeout = client_socket_timeout to_float (Returns (Some (connection_kwargs call))) pool"
    and "new_mutex c timeout = Inr S \<or> S = new_semaphore c timeout"
    and "q_socket_timeout Q = timeout"
    and "new_worker True timeout queues dc worker_id default_id = Inr W" and "wk_block_cap (fst m) = wk_block_cap W"
  shows "wait_blpop (E\<lparr>s_blpop := \<lambda>k. only_below t (f k) (s_blpop E k)\<rparr>) S st w = wait_blpop E S st w \<and>
    wait_blpop_async (E\<lparr>s_ablpop := \<lambda>k. only_below t (f k) (s_ablpop E k)\<rparr>) S st w = wait_blpop_async E S st w \<and>
    submit (Q\<lparr>q_blmove := \<lambda>k k'. only_below t (g k k') (q_blmove Q k k')\<rparr>) d queue payload tm x =
      submit Q d queue payload tm x \<and>
    asubmit (Q\<lparr>q_ablmove := \<lambda>k k'. only_below t (g k k') (q_ablmove Q k k')\<rparr>) d queue payload tm x =
      asubmit Q d queue payload tm x \<and>
    read_new (F\<lparr>wd_xreadgroup := \<lambda>gr n k i most. only_below_ms t (h gr n k i most) (wd_xreadgroup F gr n k i most)\<rparr>) k m =
      read_new F k m"
proof -
  have t: "timeout = Some t" using effective_timeout [OF assms(1-4)] assms(6) by simp
  then have S: "so_blpop_wait_cap S = Some (t * (8 / 10))" using assms(5,7)
    by (auto simp: new_mutex_def new_semaphore_def py_bind_def compute_blpop_wait_cap_def blpop_socket_timeout_fraction_def
        Let_def split: sum.splits)
  note Q = assms(8) [unfolded t]
  have "wk_block_cap W = block_cap (Some t)" using assms(9) t
    by (auto simp: new_worker_def Let_def py_bind_def split: if_splits sum.splits)
  then have "min (dc_read_timeout (wk_config (fst m))) (wk_block_cap (fst m)) * 1000 < t * 1000"
    using block_cap_below [of t] assms(5,10) by auto
  then have b: "of_int (max 1 (py_int (min (dc_read_timeout (wk_config (fst m))) (wk_block_cap (fst m)) * 1000))) < t * 1000"
    by (rule py_int_below) (use assms(5) in simp)
  have f: "s_monotonic (E\<lparr>s_blpop := b\<rparr>) = s_monotonic E" "s_monotonic (E\<lparr>s_ablpop := b\<rparr>) = s_monotonic E" for b by simp_all
  have e: "wait_blpop_with (E\<lparr>s_blpop := b\<rparr>) = wait_blpop_with E" "wait_blpop_with (E\<lparr>s_ablpop := b\<rparr>) = wait_blpop_with E" for b
    unfolding atomize_conj by (intro conjI ext; unfold wait_blpop_with_def blpop_timeout_for_def remaining_time_def f, rule refl)
  have "submit (Q\<lparr>q_blmove := \<lambda>k k'. only_below t (g k k') (q_blmove Q k k')\<rparr>) d queue payload tm x = submit Q d queue payload tm x"
    "asubmit (Q\<lparr>q_ablmove := \<lambda>k k'. only_below t (g k k') (q_ablmove Q k k')\<rparr>) d queue payload tm x = asubmit Q d queue payload tm x"
    by (simp_all add: submit_def asubmit_def submit_fields submit_below [OF Q assms(5)] require_sync_def require_async_def
        split: sum.split)
  then show ?thesis
    by (simp add: wait_blpop_def wait_blpop_async_def e wait_blpop_below [OF S assms(5)] read_new_below [OF b])
qed

text \<open>A client of the default settings: five seconds.\<close>

definition float_value :: "pyobj \<Rightarrow> real option" where
  "float_value v = (case v of PFloat x \<Rightarrow> Some x | _ \<Rightarrow> None)"

definition demo_timeout :: "real option" where
  "demo_timeout = client_socket_timeout float_value
     (Returns (Some (connection_kwargs (RedisCall False (client_kwargs redis_config_defaults))))) None"

definition timed_worker :: worker where
  "timed_worker = (case new_worker True demo_timeout [''mail''] dispatch_config_defaults ''w1'' [] of Inl e \<Rightarrow> demo_worker | Inr W \<Rightarrow> W)"

definition timed_queue :: "sim queue_env" where
  "timed_queue = idle_queue\<lparr>q_socket_timeout := demo_timeout\<rparr>"

theorem waits_end_before_the_socket_timeout_witness:
  "submit (timed_queue\<lparr>q_blmove := \<lambda>k k'. only_below 5 (\<lambda>d w. (Inr (Some []), w)) (q_blmove timed_queue k k')\<rparr>)
     dispatch_config_defaults ''mail'' JNull (Some 60) (sim_start 0) =
     submit timed_queue dispatch_config_defaults ''mail'' JNull (Some 60) (sim_start 0) \<and>
   read_new (mail_env\<lparr>wd_xreadgroup := \<lambda>g n k i most.
       only_below_ms 5 (\<lambda>b m. (Inr NoReply, m)) (wd_xreadgroup mail_env g n k i most)\<rparr>) mail_key (timed_worker, mail_world) =
     read_new mail_env mail_key (timed_worker, mail_world)"
proof -
  have "create_client False (DirectConnection redis_config_defaults) = Inr (RedisCall False (client_kwargs redis_config_defaults))"
    by (simp add: create_client_def)
  note * = waits_end_before_the_socket_timeout [where t = 5 and pool = None and c = "mutex_defaults ''m''" and
      E = "sim_env False (mutex_defaults ''m'')" and w = "sim_start 0" and
      st = "new_acq_state (sim_env False (mutex_defaults ''m'')) (sim_start 0)" and to_float = float_value and
      queues = "[''mail'']" and dc = dispatch_config_defaults and worker_id = "''w1''" and default_id = "[]" and W = timed_worker and
      Q = timed_queue and m = "(timed_worker, mail_world)" and F = mail_env, OF this _ _ _ _ demo_timeout_def disjI2 [OF refl]]
  have "new_worker True demo_timeout [''mail''] dispatch_config_defaults ''w1'' [] = Inr timed_worker"
    by (simp add: timed_worker_def new_worker_def Let_def dict_fromkeys_def check_queue_name_def py_bind_def)
  from * [OF _ _ _ _ _ this] show ?thesis
    by (simp add: extra_kwargs_of_def socket_timeout_of_def redis_config_defaults_def float_value_def timed_queue_def)
qed

end
