(* ===== verification/ProxyText.thy ===== *)
theory ProxyText
  imports ScriptRunner
begin

section \<open>The LLM proxy: what it reads and writes\<close>

text \<open>
  The pure parts of the example \<open>examples/fastapi_llm_proxy/llm_proxy\<close>: headers, upstream URLs,
  the usage numbers in an upstream answer, the override file, and the JSON of the proxy's own
  answers. A header mapping of Starlette or httpx is an association list of lower-case names,
  without repetition. A text or a byte string is a list of characters below 256. \<open>json.loads\<close> of a
  byte string is a parameter \<open>loads\<close> (\<open>None\<close>: it raises); \<open>json_loads\<close> is one for ASCII texts.
\<close>

type_synonym headers = "(string \<times> string) list"

definition newline :: char where
  "newline = CHR 0x0A"

text \<open>\<open>str.strip()\<close> takes more for white space than \<open>bytes.strip()\<close> (\<open>strip\<close>).\<close>

definition str_space :: "char \<Rightarrow> bool" where
  "str_space c \<longleftrightarrow> is_space c \<or> (of_char c :: nat) \<in> {28, 29, 30, 31, 133, 160}"

definition str_strip :: "string \<Rightarrow> string" where
  "str_strip t = rev (dropWhile str_space (rev (dropWhile str_space t)))"

definition ascii_lower :: "char \<Rightarrow> char" where
  "ascii_lower c = (let n = (of_char c :: nat) in if 65 \<le> n \<and> n \<le> 90 then char_of (n + 32) else c)"

subsection \<open>Request headers\<close>

text \<open>\<open>parse_client_id\<close>: \<open>None\<close> without the header, the empty text where it is refused.\<close>

definition parse_client_id :: "headers \<Rightarrow> string option" where
  "parse_client_id hs =
     (case map_of hs ''x-client-id'' of
        None \<Rightarrow> None
      | Some raw \<Rightarrow>
          (let value = str_strip raw
           in if value = [] \<or> 128 < length value then Some [] else Some value))"

fun header_value :: "headers \<Rightarrow> string list \<Rightarrow> string option" where
  "header_value hs [] = None"
| "header_value hs (name # names) =
     (case map_of hs name of
        None \<Rightarrow> header_value hs names
      | Some raw \<Rightarrow> (let value = str_strip raw in if value \<noteq> [] then Some value else header_value hs names))"

subsection \<open>Headers that are passed on\<close>

definition hop_by_hop :: "string list" where
  "hop_by_hop = [''connection'', ''keep-alive'', ''proxy-authenticate'', ''proxy-authorization'',
     ''te'', ''trailers'', ''transfer-encoding'', ''upgrade'']"

definition request_strip :: "string list" where
  "request_strip = hop_by_hop @ [''host'', ''content-length'']"

definition response_strip :: "string list" where
  "response_strip = hop_by_hop @ [''content-length'']"

definition strip_headers :: "headers \<Rightarrow> string list \<Rightarrow> headers" where
  "strip_headers hs dropped = filter (\<lambda>(key, value). map ascii_lower key \<notin> set dropped) hs"

definition build_upstream_headers :: "headers \<Rightarrow> headers" where
  "build_upstream_headers hs = strip_headers hs request_strip"

definition filter_response_headers :: "headers \<Rightarrow> headers" where
  "filter_response_headers hs = strip_headers hs response_strip"

subsection \<open>URLs\<close>

text \<open>
  \<open>urlsplit\<close> and \<open>urlunsplit\<close> of \<open>urllib.parse\<close>, for texts whose brackets, if any, hold a well-formed
  address; unequal brackets are a \<open>ValueError\<close>.
\<close>

record url_parts =
  u_scheme :: string
  u_netloc :: string
  u_path :: string
  u_query :: string
  u_fragment :: string

definition is_alpha :: "char \<Rightarrow> bool" where
  "is_alpha c \<longleftrightarrow> (let n = (of_char c :: nat) in 65 \<le> n \<and> n \<le> 90 \<or> 97 \<le> n \<and> n \<le> 122)"

definition scheme_char :: "char \<Rightarrow> bool" where
  "scheme_char c \<longleftrightarrow> is_alpha c \<or> is_digit c \<or> c \<in> set ''+-.''"

definition control_or_space :: "char \<Rightarrow> bool" where
  "control_or_space c \<longleftrightarrow> (of_char c :: nat) \<le> 32"

definition unsafe_url_char :: "char \<Rightarrow> bool" where
  "unsafe_url_char c \<longleftrightarrow> (of_char c :: nat) \<in> {9, 10, 13}"

definition split_scheme :: "string \<Rightarrow> string \<times> string" where
  "split_scheme url =
     (let s = takeWhile (\<lambda>c. c \<noteq> CHR '':'') url; r = dropWhile (\<lambda>c. c \<noteq> CHR '':'') url
      in if r \<noteq> [] \<and> s \<noteq> [] \<and> is_alpha (hd s) \<and> list_all scheme_char s
         then (map ascii_lower s, tl r) else ([], url))"

definition in_netloc :: "char \<Rightarrow> bool" where
  "in_netloc c \<longleftrightarrow> c \<notin> set ''/?#''"

definition split_netloc :: "string \<Rightarrow> string \<times> string" where
  "split_netloc url =
     (if starts_with url ''//'' then (takeWhile in_netloc (drop 2 url), dropWhile in_netloc (drop 2 url))
      else ([], url))"

text \<open>\<open>url.split(c, 1)\<close> where \<open>c\<close> occurs; otherwise the second part is empty.\<close>

definition split_once :: "char \<Rightarrow> string \<Rightarrow> string \<times> string" where
  "split_once c t = (takeWhile (\<lambda>d. d \<noteq> c) t, tl (dropWhile (\<lambda>d. d \<noteq> c) t))"

definition urlsplit :: "string \<Rightarrow> py_exn + url_parts" where
  "urlsplit url =
     (let url = filter (\<lambda>c. \<not> unsafe_url_char c) (dropWhile control_or_space url);
          (scheme, url) = split_scheme url;
          (netloc, url) = split_netloc url
      in if (CHR ''['' \<in> set netloc) \<noteq> (CHR '']'' \<in> set netloc) then Inl PyValueError
         else (let (url, fragment) = split_once (CHR ''#'') url;
                   (path, query) = split_once (CHR ''?'') url
               in Inr \<lparr>u_scheme = scheme, u_netloc = netloc, u_path = path, u_query = query,
                       u_fragment = fragment\<rparr>))"

definition uses_netloc :: "string list" where
  "uses_netloc = [[], ''ftp'', ''http'', ''gopher'', ''nntp'', ''telnet'', ''imap'', ''wais'', ''file'', ''mms'',
     ''https'', ''shttp'', ''snews'', ''prospero'', ''rtsp'', ''rtsps'', ''rtspu'', ''rsync'', ''svn'', ''svn+ssh'',
     ''sftp'', ''nfs'', ''git'', ''git+ssh'', ''ws'', ''wss'', ''itms-services'']"

definition urlunsplit :: "string \<Rightarrow> string \<Rightarrow> string \<Rightarrow> string \<Rightarrow> string" where
  "urlunsplit scheme netloc path query =
     (let url = (if netloc \<noteq> [] then
                   ''//'' @ netloc @ (if path \<noteq> [] \<and> hd path \<noteq> CHR ''/'' then CHR ''/'' # path else path)
                 else if starts_with path ''//'' then ''//'' @ path
                 else if scheme \<noteq> [] \<and> scheme \<in> set uses_netloc \<and> (path = [] \<or> hd path = CHR ''/'')
                 then ''//'' @ path else path);
          url = (if scheme \<noteq> [] then scheme @ '':'' @ url else url)
      in if query \<noteq> [] then url @ ''?'' @ query else url)"

definition rstrip_slash :: "string \<Rightarrow> string" where
  "rstrip_slash t = rev (dropWhile (\<lambda>c. c = CHR ''/'') (rev t))"

definition path_overlaps :: "string \<Rightarrow> string \<Rightarrow> bool" where
  "path_overlaps request_path base_path \<longleftrightarrow>
     request_path = base_path \<or> starts_with request_path (base_path @ ''/'')"

definition combined_path :: "string \<Rightarrow> string \<Rightarrow> string" where
  "combined_path base_path request_path =
     (let p = (if base_path \<noteq> [] \<and> path_overlaps request_path base_path then request_path
               else base_path @ request_path)
      in if p = [] then ''/'' else p)"

definition build_upstream_url :: "string \<Rightarrow> string \<Rightarrow> string \<Rightarrow> py_exn + string" where
  "build_upstream_url base_url request_path query =
     py_bind (urlsplit (rstrip_slash base_url)) (\<lambda>u.
       Inr (urlunsplit (u_scheme u) (u_netloc u) (combined_path (rstrip_slash (u_path u)) request_path) query))"

subsection \<open>Usage numbers\<close>

text \<open>The prompt and completion tokens, as the JSON values that were found.\<close>

type_synonym usage = "json option \<times> json option"

text \<open>\<open>isinstance(x, int)\<close>: an integer literal, or a bool.\<close>

fun json_is_int :: "json \<Rightarrow> bool" where
  "json_is_int (JNum t) = list_all (\<lambda>c. is_digit c \<or> c = CHR ''-'') t"
| "json_is_int (JBool b) = True"
| "json_is_int _ = False"

definition int_field :: "(string \<times> json) list \<Rightarrow> string \<Rightarrow> json option" where
  "int_field kvs k =
     (case map_of kvs k of None \<Rightarrow> None | Some v \<Rightarrow> if json_is_int v then Some v else None)"

definition extract_usage_from_payload :: "json \<Rightarrow> usage" where
  "extract_usage_from_payload payload =
     (case payload of
        JObj kvs \<Rightarrow>
          (case map_of kvs ''usage'' of
             Some (JObj us) \<Rightarrow> (int_field us ''prompt_tokens'', int_field us ''completion_tokens'')
           | _ \<Rightarrow> (None, None))
      | _ \<Rightarrow> (None, None))"

definition extract_usage_from_body :: "(string \<Rightarrow> json option) \<Rightarrow> string \<Rightarrow> usage" where
  "extract_usage_from_body loads body =
     (case loads body of None \<Rightarrow> (None, None) | Some payload \<Rightarrow> extract_usage_from_payload payload)"

definition update_usage_from_sse_line :: "(string \<Rightarrow> json option) \<Rightarrow> string \<Rightarrow> usage \<Rightarrow> usage" where
  "update_usage_from_sse_line loads line u =
     (let data = strip line
      in if data = [] \<or> \<not> starts_with data ''data:'' then u
         else (let payload = strip (drop 5 data)
               in if payload = ''[DONE]'' \<or> payload = [] then u
                  else (case loads payload of
                          None \<Rightarrow> u
                        | Some parsed \<Rightarrow>
                            (let (prompt, completion) = extract_usage_from_payload parsed
                             in (if prompt \<noteq> None then prompt else fst u,
                                 if completion \<noteq> None then completion else snd u)))))"

text \<open>The lines of a stream as its chunks come in: what is left of the buffer, and the usage so far.\<close>

function drain_buffer :: "(string \<Rightarrow> json option) \<Rightarrow> string \<Rightarrow> usage \<Rightarrow> string \<times> usage" where
  "drain_buffer loads buffer u =
     (if newline \<in> set buffer
      then drain_buffer loads (tl (dropWhile (\<lambda>c. c \<noteq> newline) buffer))
             (update_usage_from_sse_line loads (takeWhile (\<lambda>c. c \<noteq> newline) buffer) u)
      else (buffer, u))"
  by pat_completeness auto
termination
proof (relation "measure (\<lambda>(loads, buffer, u). length buffer)", goal_cases)
  case (2 loads buffer u)
  then have "dropWhile (\<lambda>c. c \<noteq> newline) buffer \<noteq> []" by (auto simp: dropWhile_eq_Nil_conv)
  moreover have "length (dropWhile (\<lambda>c. c \<noteq> newline) buffer) \<le> length buffer" by (rule length_dropWhile_le)
  ultimately show ?case by (cases "dropWhile (\<lambda>c. c \<noteq> newline) buffer") auto
qed simp

declare drain_buffer.simps [simp del]

definition feed_chunk :: "(string \<Rightarrow> json option) \<Rightarrow> string \<Rightarrow> string \<times> usage \<Rightarrow> string \<times> usage" where
  "feed_chunk loads chunk x = (case x of (buffer, u) \<Rightarrow> drain_buffer loads (buffer @ chunk) u)"

definition flush_buffer :: "(string \<Rightarrow> json option) \<Rightarrow> string \<times> usage \<Rightarrow> usage" where
  "flush_buffer loads x =
     (case x of (buffer, u) \<Rightarrow> if buffer \<noteq> [] then update_usage_from_sse_line loads buffer u else u)"

subsection \<open>The proxy's own answers\<close>

definition error_payload :: "string \<Rightarrow> string \<Rightarrow> string \<Rightarrow> json" where
  "error_payload message error_type code =
     JObj [(''error'', JObj [(''message'', JStr message), (''type'', JStr error_type), (''code'', JStr code)])]"

datatype reply =
    JsonReply int json
  | BytesReply int string headers "string option"
  | StreamReply int headers "string option"

fun reply_status :: "reply \<Rightarrow> int" where
  "reply_status (JsonReply code _) = code"
| "reply_status (BytesReply code _ _ _) = code"
| "reply_status (StreamReply code _ _) = code"

definition bad_request :: "string \<Rightarrow> string \<Rightarrow> reply" where
  "bad_request message code = JsonReply 400 (error_payload message ''invalid_request_error'' code)"

text \<open>The text of the seconds (format \<open>g\<close>) is a parameter.\<close>

definition rate_limit_response :: "(real \<Rightarrow> string) \<Rightarrow> real option \<Rightarrow> reply" where
  "rate_limit_response format_g timeout_seconds =
     (let message = (case timeout_seconds of
            None \<Rightarrow> ''Queue wait timeout exceeded''
          | Some t \<Rightarrow> ''Queue wait timeout exceeded ('' @ format_g t @ ''s)'')
      in JsonReply 429 (JObj [(''error'', JObj [(''message'', JStr message),
           (''type'', JStr ''rate_limit_error''), (''code'', JStr ''queue_timeout'')])]))"

definition service_unavailable :: "string \<Rightarrow> string \<Rightarrow> reply" where
  "service_unavailable message code = JsonReply 503 (error_payload message ''service_unavailable'' code)"

definition upstream_error :: "string \<Rightarrow> reply" where
  "upstream_error message = JsonReply 502 (error_payload message ''upstream_error'' ''bad_gateway'')"

subsection \<open>Overrides per client and model\<close>

text \<open>
  What the file holds: a mapping (the keys of a YAML mapping can be any scalar) or something else.
  The file system, and PyYAML where it is installed, are parameters.
\<close>

datatype file_content = Mapping "(json \<times> json) list" | Other

record overrides =
  ov_base_urls :: "(string \<times> string) list"
  ov_capacities :: "(string \<times> int) list"

record file_env =
  f_exists :: "string \<Rightarrow> bool"
  f_read_text :: "string \<Rightarrow> py_exn + string"
  f_suffix :: "string \<Rightarrow> string"
  f_yaml :: "(string \<Rightarrow> py_exn + file_content) option"

definition file_not_found :: py_exn where
  "file_not_found = RawExn \<lparr>exn_class = ''FileNotFoundError'',
     exn_bases = [''FileNotFoundError'', ''OSError'', ''Exception'', ''BaseException''], exn_text = []\<rparr>"

definition import_error :: py_exn where
  "import_error = RawExn \<lparr>exn_class = ''ImportError'',
     exn_bases = [''ImportError'', ''Exception'', ''BaseException''], exn_text = []\<rparr>"

fun content_of_json :: "json \<Rightarrow> file_content" where
  "content_of_json (JObj kvs) = Mapping (map (apfst JStr) kvs)"
| "content_of_json _ = Other"

definition load_mapping :: "(string \<Rightarrow> json option) \<Rightarrow> file_env \<Rightarrow> string \<Rightarrow> py_exn + file_content" where
  "load_mapping loads F path =
     (if \<not> f_exists F path then Inl file_not_found
      else py_bind (f_read_text F path) (\<lambda>raw.
        if map ascii_lower (f_suffix F path) \<in> {''.yaml'', ''.yml''}
        then (case f_yaml F of None \<Rightarrow> Inl import_error | Some safe_load \<Rightarrow> safe_load raw)
        else (case loads raw of None \<Rightarrow> Inl PyValueError | Some v \<Rightarrow> Inr (content_of_json v))))"

text \<open>\<open>value.get(name)\<close>: a null value is as good as none.\<close>

definition json_get :: "(string \<times> json) list \<Rightarrow> string \<Rightarrow> json option" where
  "json_get kvs name = (case map_of kvs name of None \<Rightarrow> None | Some JNull \<Rightarrow> None | Some v \<Rightarrow> Some v)"

definition override_url :: "string \<Rightarrow> (string \<times> json) list \<Rightarrow> (string \<times> string) list \<Rightarrow> py_exn + (string \<times> string) list" where
  "override_url key value urls =
     (case json_get value ''upstream_base_url'' of
        None \<Rightarrow> Inr urls
      | Some (JStr upstream) \<Rightarrow>
          if str_strip upstream = [] then Inl PyValueError else Inr (dict_put key (str_strip upstream) urls)
      | Some _ \<Rightarrow> Inl PyValueError)"

definition override_capacity :: "string \<Rightarrow> (string \<times> json) list \<Rightarrow> (string \<times> int) list \<Rightarrow> py_exn + (string \<times> int) list" where
  "override_capacity key value capacities =
     (case json_get value ''semaphore_capacity'' of
        None \<Rightarrow> Inr capacities
      | Some v \<Rightarrow>
          (case v of
             JNum t \<Rightarrow>
               (case str_int t of
                  None \<Rightarrow> Inl PyValueError
                | Some capacity \<Rightarrow> if capacity < 1 then Inl PyValueError else Inr (dict_put key capacity capacities))
           | _ \<Rightarrow> Inl PyValueError))"

fun read_overrides :: "(json \<times> json) list \<Rightarrow> overrides \<Rightarrow> py_exn + overrides" where
  "read_overrides [] ov = Inr ov"
| "read_overrides ((key, value) # items) ov =
     (case (key, value) of
        (JStr k, JObj kvs) \<Rightarrow>
          if CHR '':'' \<notin> set k then Inl PyValueError
          else py_bind (override_url k kvs (ov_base_urls ov)) (\<lambda>urls.
                 py_bind (override_capacity k kvs (ov_capacities ov)) (\<lambda>capacities.
                   read_overrides items \<lparr>ov_base_urls = urls, ov_capacities = capacities\<rparr>))
      | _ \<Rightarrow> Inl PyValueError)"

definition load_client_model_overrides ::
  "(string \<Rightarrow> json option) \<Rightarrow> file_env \<Rightarrow> string option \<Rightarrow> py_exn + overrides" where
  "load_client_model_overrides loads F path =
     (case path of
        None \<Rightarrow> Inr \<lparr>ov_base_urls = [], ov_capacities = []\<rparr>
      | Some p \<Rightarrow>
          if p = [] then Inr \<lparr>ov_base_urls = [], ov_capacities = []\<rparr>
          else py_bind (load_mapping loads F p) (\<lambda>payload.
            case payload of
              Other \<Rightarrow> Inl PyValueError
            | Mapping items \<Rightarrow> read_overrides items \<lparr>ov_base_urls = [], ov_capacities = []\<rparr>))"

definition override_key :: "string \<Rightarrow> string \<Rightarrow> string" where
  "override_key client_id model = client_id @ '':'' @ model"

definition upstream_base_url_of :: "overrides \<Rightarrow> string \<Rightarrow> string \<Rightarrow> string option" where
  "upstream_base_url_of ov client_id model = map_of (ov_base_urls ov) (override_key client_id model)"

definition semaphore_capacity_of :: "overrides \<Rightarrow> string \<Rightarrow> string \<Rightarrow> int option" where
  "semaphore_capacity_of ov client_id model = map_of (ov_capacities ov) (override_key client_id model)"

end
