(* ===== verification/ProxyApp.thy ===== *)
theory ProxyApp
  imports ProxyText SemaphoreClient
begin

section \<open>The LLM proxy: its state, the pool of semaphores, waiting for Redis\<close>

text \<open>
  \<open>config.py\<close>, \<open>core/semaphore_pool.py\<close>, \<open>infrastructure/redis_manager.py\<close>, the start in \<open>main.py\<close>, and
  from \<open>api/proxy_common.py\<close> how a request gets its slot. What is set once at the start is the record
  \<open>app_config\<close>; what changes is \<open>proxy_app\<close>, the first part of the world of every semaphore object here.
  An awaited operation returns the state as it is afterwards: other requests may have run meanwhile.
\<close>

subsection \<open>Settings\<close>

record proxy_settings =
  ps_redis_host :: string
  ps_redis_port :: int
  ps_redis_db :: int
  ps_redis_socket_timeout :: real
  ps_redis_socket_connect_timeout :: real
  ps_redis_max_connections :: int
  ps_semaphore_capacity :: int
  ps_semaphore_lock_timeout :: real
  ps_semaphore_acquire_timeout :: real
  ps_semaphore_blpop_timeout :: real
  ps_semaphore_namespace :: string
  ps_redis_check_interval :: real
  ps_upstream_base_url :: string
  ps_upstream_timeout :: real
  ps_client_model_config_path :: "string option"
  ps_log_level :: string
  ps_log_file :: "string option"

definition proxy_settings_defaults :: proxy_settings where
  "proxy_settings_defaults = \<lparr>
     ps_redis_host = ''localhost'', ps_redis_port = 6379, ps_redis_db = 0,
     ps_redis_socket_timeout = 10, ps_redis_socket_connect_timeout = 5, ps_redis_max_connections = 64,
     ps_semaphore_capacity = 5, ps_semaphore_lock_timeout = 120, ps_semaphore_acquire_timeout = 200,
     ps_semaphore_blpop_timeout = 3, ps_semaphore_namespace = ''llm_proxy'',
     ps_redis_check_interval = 5, ps_upstream_base_url = ''https://api.openai.com/v1'',
     ps_upstream_timeout = 120, ps_client_model_config_path = None, ps_log_level = ''INFO'',
     ps_log_file = Some ''logs/llm_proxy.jsonl''\<rparr>"

text \<open>What the connection pool is made with; the keepalive options of the platform are left out here.\<close>

definition redis_pool_kwargs :: "proxy_settings \<Rightarrow> (string \<times> pyobj) list" where
  "redis_pool_kwargs s =
     [(''host'', PStr (ps_redis_host s)), (''port'', PInt (ps_redis_port s)), (''db'', PInt (ps_redis_db s)),
      (''max_connections'', PInt (ps_redis_max_connections s)),
      (''timeout'', PFloat (ps_redis_socket_timeout s)), (''health_check_interval'', PInt 10),
      (''socket_keepalive'', PBool True), (''socket_timeout'', PFloat (ps_redis_socket_timeout s)),
      (''socket_connect_timeout'', PFloat (ps_redis_socket_connect_timeout s)),
      (''retry_on_timeout'', PBool True)]"

text \<open>The options a platform has: TCP_KEEPIDLE, TCP_KEEPALIVE, TCP_KEEPINTVL, TCP_KEEPCNT.\<close>

definition tcp_keepalive_options :: "int option \<Rightarrow> int option \<Rightarrow> int option \<Rightarrow> int option \<Rightarrow> (int \<times> int) list" where
  "tcp_keepalive_options keepidle keepalive keepintvl keepcnt =
     (let idle = (case keepidle of None \<Rightarrow> keepalive | Some n \<Rightarrow> if n = 0 then keepalive else Some n);
          put = (\<lambda>option value options. case option of None \<Rightarrow> options
             | Some n \<Rightarrow> filter (\<lambda>(k, v). k \<noteq> n) options @ [(n, value)])
      in put keepcnt 3 (put keepintvl 10 (put idle 30 [])))"

subsection \<open>The pool\<close>

record sem_pool =
  sp_capacity :: int
  sp_capacity_overrides :: "(string \<times> int) list"
  sp_lock_timeout :: real
  sp_acquire_timeout :: real
  sp_blpop_timeout :: real
  sp_namespace :: string
  sp_configs :: "(string \<times> semaphore_config) list"

definition semaphore_key_name :: "string \<Rightarrow> string \<Rightarrow> string" where
  "semaphore_key_name client_id model = ''client_'' @ client_id @ '':'' @ model"

definition new_pool :: "proxy_settings \<Rightarrow> (string \<times> int) list \<Rightarrow> sem_pool" where
  "new_pool s capacity_overrides =
     \<lparr>sp_capacity = ps_semaphore_capacity s, sp_capacity_overrides = capacity_overrides,
      sp_lock_timeout = ps_semaphore_lock_timeout s, sp_acquire_timeout = ps_semaphore_acquire_timeout s,
      sp_blpop_timeout = ps_semaphore_blpop_timeout s, sp_namespace = ps_semaphore_namespace s,
      sp_configs = []\<rparr>"

definition pool_size :: "sem_pool \<Rightarrow> nat" where
  "pool_size P = length (sp_configs P)"

definition pool_limit :: "sem_pool \<Rightarrow> string \<Rightarrow> int" where
  "pool_limit P key = (case map_of (sp_capacity_overrides P) key of None \<Rightarrow> sp_capacity P | Some n \<Rightarrow> n)"

definition pool_config :: "sem_pool \<Rightarrow> string \<Rightarrow> semaphore_config" where
  "pool_config P key = (semaphore_config_defaults key (pool_limit P key))
     \<lparr>sc_lock_timeout := sp_lock_timeout P, sc_acquire_timeout := Some (sp_acquire_timeout P),
      sc_blpop_timeout := sp_blpop_timeout P, sc_namespace := sp_namespace P, sc_acquire_mode := BLPOP\<rparr>"

text \<open>
  The configuration is made on first use. There is no await where the lock of the pool is held, so no
  other request ever waits for it. \<open>socket_timeout\<close> is what the semaphore reads from its client.
\<close>

definition get_semaphore_from_key :: "real option \<Rightarrow> string \<Rightarrow> sem_pool \<Rightarrow> (py_exn + sem_obj) \<times> sem_pool" where
  "get_semaphore_from_key socket_timeout key P =
     (case map_of (sp_configs P) key of
        Some c \<Rightarrow> (Inr (new_semaphore c socket_timeout), P)
      | None \<Rightarrow>
          (let c = pool_config P key
           in case semaphore_post_init c of
                Inl e \<Rightarrow> (Inl e, P)
              | Inr _ \<Rightarrow> (Inr (new_semaphore c socket_timeout), P\<lparr>sp_configs := sp_configs P @ [(key, c)]\<rparr>)))"

definition get_semaphore :: "real option \<Rightarrow> string \<Rightarrow> string \<Rightarrow> sem_pool \<Rightarrow> (py_exn + sem_obj) \<times> sem_pool" where
  "get_semaphore socket_timeout client_id model P =
     get_semaphore_from_key socket_timeout (semaphore_key_name client_id model) P"

subsection \<open>The application and what it reaches\<close>

record app_config =
  ac_settings :: proxy_settings
  ac_overrides :: overrides

record proxy_app =
  pa_pool :: sem_pool
  pa_redis_available :: bool
  pa_redis_ready :: bool

text \<open>Under \<open>wait_for\<close> an awaited operation is done, raises, or is cancelled at the deadline.\<close>

datatype 'a awaited = Done 'a | Raised raw_exn | Expired

record 'w proxy_env =
  x_sem :: "(proxy_app \<times> 'w) sem_env"
  x_socket_timeout :: "real option"
  x_plain_ping :: "proxy_app \<times> 'w \<Rightarrow> raw_exn option \<times> proxy_app \<times> 'w"
  x_ping :: "real \<Rightarrow> proxy_app \<times> 'w \<Rightarrow> unit awaited \<times> proxy_app \<times> 'w"
  x_check_sleep :: "real \<Rightarrow> real \<Rightarrow> proxy_app \<times> 'w \<Rightarrow> unit awaited \<times> proxy_app \<times> 'w"
  x_recover_lock :: "real \<Rightarrow> proxy_app \<times> 'w \<Rightarrow> unit awaited \<times> proxy_app \<times> 'w"
  x_recover_unlock :: "proxy_app \<times> 'w \<Rightarrow> proxy_app \<times> 'w"
  x_zremrangebyscore :: "key \<Rightarrow> ms \<Rightarrow> ms \<Rightarrow> proxy_app \<times> 'w \<Rightarrow> (raw_exn + int) \<times> proxy_app \<times> 'w"
  x_zcard :: "key \<Rightarrow> proxy_app \<times> 'w \<Rightarrow> (raw_exn + int) \<times> proxy_app \<times> 'w"

abbreviation x_monotonic :: "'w proxy_env \<Rightarrow> proxy_app \<times> 'w \<Rightarrow> real" where
  "x_monotonic E \<equiv> s_monotonic (x_sem E)"

text \<open>What a route can raise.\<close>

datatype proxy_exn = Lib py_exn | ProxyBadRequest string string | BackendUnavailable

subsection \<open>Start of the application\<close>

definition app_state :: "app_config \<Rightarrow> bool \<Rightarrow> proxy_app" where
  "app_state C available =
     \<lparr>pa_pool = new_pool (ac_settings C) (ov_capacities (ac_overrides C)), pa_redis_available = available,
      pa_redis_ready = available\<rparr>"

text \<open>The first ping decides whether Redis counts as available; it gives what it raised, if anything.\<close>

definition lifespan_start ::
  "(string \<Rightarrow> json option) \<Rightarrow> file_env \<Rightarrow> proxy_settings \<Rightarrow> raw_exn option \<Rightarrow> py_exn + app_config \<times> proxy_app" where
  "lifespan_start loads F settings ping =
     py_bind (load_client_model_overrides loads F (ps_client_model_config_path settings)) (\<lambda>ov.
       let C = \<lparr>ac_settings = settings, ac_overrides = ov\<rparr>
       in case ping of
            None \<Rightarrow> Inr (C, app_state C True)
          | Some e \<Rightarrow> if is_exception (RawExn e) then Inr (C, app_state C False) else Inl (RawExn e))"

text \<open>At the end the clients are closed, in this order; what one raises leaves out the rest.\<close>

definition close_redis :: "('y \<Rightarrow> raw_exn option \<times> 'y) \<Rightarrow> ('y \<Rightarrow> raw_exn option \<times> 'y) \<Rightarrow> 'y \<Rightarrow> raw_exn option \<times> 'y" where
  "close_redis close disconnect y =
     (case close y of (Some e, y) \<Rightarrow> (Some e, y) | (None, y) \<Rightarrow> disconnect y)"

definition lifespan_stop ::
  "('y \<Rightarrow> raw_exn option \<times> 'y) \<Rightarrow> ('y \<Rightarrow> raw_exn option \<times> 'y) \<Rightarrow> ('y \<Rightarrow> raw_exn option \<times> 'y) \<Rightarrow> 'y \<Rightarrow> raw_exn option \<times> 'y" where
  "lifespan_stop http_aclose close disconnect y =
     (case http_aclose y of (Some e, y) \<Rightarrow> (Some e, y) | (None, y) \<Rightarrow> close_redis close disconnect y)"

subsection \<open>Redis comes and goes\<close>

definition redis_is_available :: "proxy_app \<times> 'w \<Rightarrow> bool" where
  "redis_is_available x = pa_redis_available (fst x)"

definition mark_redis_unavailable :: "proxy_app \<times> 'w \<Rightarrow> proxy_app \<times> 'w" where
  "mark_redis_unavailable x = apfst (\<lambda>A. A\<lparr>pa_redis_available := False, pa_redis_ready := False\<rparr>) x"

definition mark_redis_ready :: "proxy_app \<times> 'w \<Rightarrow> proxy_app \<times> 'w" where
  "mark_redis_ready x = apfst (\<lambda>A. A\<lparr>pa_redis_available := True, pa_redis_ready := True\<rparr>) x"

definition ping_round ::
  "'w proxy_env \<Rightarrow> app_config \<Rightarrow> real \<Rightarrow> proxy_app \<times> 'w \<Rightarrow> (unit awaited \<times> proxy_app \<times> 'w) + (proxy_app \<times> 'w)" where
  "ping_round E C deadline x =
     (case x_ping E deadline x of
        (Done _, x) \<Rightarrow> Inl (Done (), mark_redis_ready x)
      | (Expired, x) \<Rightarrow> Inl (Expired, x)
      | (Raised e, x) \<Rightarrow>
          if \<not> is_exception (RawExn e) then Inl (Raised e, x)
          else (case x_check_sleep E deadline (ps_redis_check_interval (ac_settings C)) x of
              (Done _, x) \<Rightarrow> Inr x
            | (r, x) \<Rightarrow> Inl (r, x)))"

definition wait_for_redis ::
  "'w proxy_env \<Rightarrow> app_config \<Rightarrow> real \<Rightarrow> proxy_app \<times> 'w \<Rightarrow> (unit awaited \<times> proxy_app \<times> 'w) option" where
  "wait_for_redis E C deadline x =
     (if pa_redis_ready (fst x) then Some (Done (), x)
      else (case x_recover_lock E deadline x of
          (Done _, x) \<Rightarrow>
            map_option (map_prod id (x_recover_unlock E))
              (if pa_redis_ready (fst x) then Some (Done (), x)
               else repeat_until (ping_round E C deadline) x)
        | (r, x) \<Rightarrow> Some (r, x)))"

definition wait_for_redis_bounded ::
  "'w proxy_env \<Rightarrow> app_config \<Rightarrow> real \<Rightarrow> proxy_app \<times> 'w \<Rightarrow> ((proxy_exn + unit) \<times> proxy_app \<times> 'w) option" where
  "wait_for_redis_bounded E C remaining x =
     (if remaining \<le> 0 then Some (Inl BackendUnavailable, x)
      else map_option (map_prod (\<lambda>r. case r of
               Done _ \<Rightarrow> Inr ()
             | Expired \<Rightarrow> Inl BackendUnavailable
             | Raised e \<Rightarrow> if isinstance e ''TimeoutError'' then Inl BackendUnavailable else Inl (Lib (RawExn e))) id)
           (wait_for_redis E C (x_monotonic E x + remaining) x))"

subsection \<open>A slot for a request\<close>

text \<open>\<open>except (RedisError, OSError, ConnectionError)\<close>, where the last is the built-in class, an OSError.\<close>

definition is_outage :: "py_exn \<Rightarrow> bool" where
  "is_outage e \<longleftrightarrow> (case e of
     RawExn r \<Rightarrow> isinstance r ''RedisError'' \<or> isinstance r ''OSError'' \<or>
       isinstance r ''ConnectionError'' \<and> isinstance r ''OSError''
   | _ \<Rightarrow> False)"

text \<open>The statements under \<open>try\<close>.\<close>

definition try_slot ::
  "'w proxy_env \<Rightarrow> string \<Rightarrow> string \<Rightarrow> proxy_app \<times> 'w \<Rightarrow> ((py_exn + sem_obj) \<times> proxy_app \<times> 'w) option" where
  "try_slot E client_id model x =
     (case get_semaphore (x_socket_timeout E) client_id model (pa_pool (fst x)) of
        (Inl e, P) \<Rightarrow> Some (Inl e, apfst (\<lambda>A. A\<lparr>pa_pool := P\<rparr>) x)
      | (Inr S, P) \<Rightarrow>
          map_option (\<lambda>(r, S, x). (map_sum id (\<lambda>_. S) r, x))
            (sem_aacquire (x_sem E) True S (apfst (\<lambda>A. A\<lparr>pa_pool := P\<rparr>) x)))"

type_synonym 'w slot_result = "((proxy_exn + sem_obj) \<times> proxy_app \<times> 'w) option"

text \<open>One round: the result of the call (\<open>None\<close>: a wait in it never ends), or the state of the next.\<close>

definition after_wait :: "((proxy_exn + unit) \<times> proxy_app \<times> 'w) option \<Rightarrow> 'w slot_result + (proxy_app \<times> 'w)" where
  "after_wait r =
     (case r of None \<Rightarrow> Inl None | Some (Inl e, x) \<Rightarrow> Inl (Some (Inl e, x)) | Some (Inr _, x) \<Rightarrow> Inr x)"

definition slot_round ::
  "'w proxy_env \<Rightarrow> app_config \<Rightarrow> real \<Rightarrow> string \<Rightarrow> string \<Rightarrow> proxy_app \<times> 'w \<Rightarrow> 'w slot_result + (proxy_app \<times> 'w)" where
  "slot_round E C deadline client_id model x =
     (let remaining = deadline - x_monotonic E x
      in if remaining \<le> 0 then Inl (Some (Inl BackendUnavailable, x))
         else if \<not> redis_is_available x then after_wait (wait_for_redis_bounded E C remaining x)
         else (case try_slot E client_id model x of
             None \<Rightarrow> Inl None
           | Some (Inr S, x) \<Rightarrow> Inl (Some (Inr S, x))
           | Some (Inl e, x) \<Rightarrow>
               if is_outage e
               then (let x = mark_redis_unavailable x
                     in after_wait (wait_for_redis_bounded E C (deadline - x_monotonic E x) x))
               else Inl (Some (Inl (Lib e), x))))"

definition acquire_slot ::
  "'w proxy_env \<Rightarrow> app_config \<Rightarrow> string \<Rightarrow> string \<Rightarrow> proxy_app \<times> 'w \<Rightarrow> 'w slot_result" where
  "acquire_slot E C client_id model x =
     (let budget = ps_semaphore_acquire_timeout (ac_settings C);
          deadline = x_monotonic E x + budget
      in Option.bind (repeat_until (slot_round E C deadline client_id model) x) id)"

subsection \<open>Health and status routes\<close>

definition health :: reply where
  "health = JsonReply 200 (JObj [(''status'', JStr ''ok'')])"

definition ready :: "'w proxy_env \<Rightarrow> proxy_app \<times> 'w \<Rightarrow> (py_exn + reply) \<times> proxy_app \<times> 'w" where
  "ready E x =
     (case x_plain_ping E x of
        (Some e, x) \<Rightarrow>
          if is_exception (RawExn e) then (Inr (service_unavailable ''Redis unavailable'' ''redis_unavailable''), x)
          else (Inl (RawExn e), x)
      | (None, x) \<Rightarrow> (Inr (JsonReply 200 (JObj [(''status'', JStr ''ready'')])), x))"

text \<open>What \<open>except Exception: return -1\<close> makes of a failed command.\<close>

definition minus_one_if_exception :: "raw_exn \<Rightarrow> py_exn + int" where
  "minus_one_if_exception e = (if is_exception (RawExn e) then Inr (- 1) else Inl (RawExn e))"

definition get_used_slots :: "'w proxy_env \<Rightarrow> string \<Rightarrow> proxy_app \<times> 'w \<Rightarrow> (py_exn + int) \<times> proxy_app \<times> 'w" where
  "get_used_slots E name x =
     (let now_ms = py_int (s_time (x_sem E) x * 1000);
          owners = sp_namespace (pa_pool (fst x)) @ '':'' @ name @ '':owners''
      in case x_zremrangebyscore E owners 0 now_ms x of
           (Inl e, x) \<Rightarrow> (minus_one_if_exception e, x)
         | (Inr _, x) \<Rightarrow>
             (case x_zcard E owners x of
                (Inl e, x) \<Rightarrow> (minus_one_if_exception e, x)
              | (Inr n, x) \<Rightarrow> (Inr n, x)))"

record slot_info =
  si_name :: string
  si_limit :: int
  si_lock_timeout :: real
  si_acquire_timeout :: "real option"
  si_used_slots :: int

fun snapshot_items ::
  "'w proxy_env \<Rightarrow> (string \<times> semaphore_config) list \<Rightarrow> proxy_app \<times> 'w \<Rightarrow> (py_exn + slot_info list) \<times> proxy_app \<times> 'w" where
  "snapshot_items E [] x = (Inr [], x)"
| "snapshot_items E ((name, c) # items) x =
     (case get_used_slots E name x of
        (Inl e, x) \<Rightarrow> (Inl e, x)
      | (Inr used, x) \<Rightarrow>
          (case snapshot_items E items x of
             (r, x) \<Rightarrow> (map_sum id (Cons \<lparr>si_name = name, si_limit = sc_limit c, si_lock_timeout = sc_lock_timeout c,
                                 si_acquire_timeout = sc_acquire_timeout c, si_used_slots = used\<rparr>) r, x)))"

definition snapshot :: "'w proxy_env \<Rightarrow> proxy_app \<times> 'w \<Rightarrow> (py_exn + slot_info list) \<times> proxy_app \<times> 'w" where
  "snapshot E x = snapshot_items E (sp_configs (pa_pool (fst x))) x"

text \<open>The content of the status answer: the snapshot and the size of the pool after it.\<close>

definition semaphore_status_route ::
  "'w proxy_env \<Rightarrow> proxy_app \<times> 'w \<Rightarrow> (py_exn + slot_info list \<times> nat) \<times> proxy_app \<times> 'w" where
  "semaphore_status_route E x =
     (case snapshot E x of (r, x) \<Rightarrow> (map_sum id (\<lambda>items. (items, pool_size (pa_pool (fst x)))) r, x))"

end
