(* ===== verification/ProxyRoutes.thy ===== *)
theory ProxyRoutes
  imports ProxyApp
begin

section \<open>The LLM proxy: the routes\<close>

text \<open>
  \<open>api/proxy_common.py\<close>, \<open>api/request_logging.py\<close> and the routes \<open>chat.py\<close>, \<open>embeddings.py\<close> and
  \<open>proxy.py\<close>, with the exception handler of \<open>main.py\<close>. Requests to the upstream are operations of the
  environment; while one is awaited, other requests and the heartbeat of the request's own slot run,
  so it returns the semaphore object too. The body of a streamed answer is a generator that the server
  runs after the route has returned: \<open>stream_body\<close> is its whole run, a chunk is handed over by
  \<open>h_yield\<close>, which gives what the server throws into the generator, if anything. A stream need not end.
\<close>

subsection \<open>Requests, answers of the upstream, log lines\<close>

record http_request =
  rq_method :: string
  rq_path :: string
  rq_query :: string
  rq_headers :: headers

record http_response =
  hr_status :: int
  hr_headers :: headers
  hr_content :: string
  hr_text :: string
  hr_reason :: string

record log_fields =
  lf_status :: int
  lf_status_detail :: "string option"
  lf_queue_wait :: "real option"
  lf_processing :: "real option"
  lf_input_tokens :: "json option"
  lf_output_tokens :: "json option"
  lf_upstream_status :: "int option"
  lf_upstream_detail :: "string option"
  lf_error :: "string option"

record request_context =
  cx_endpoint :: string
  cx_stream :: bool
  cx_start_time :: real
  cx_queue_start :: real
  cx_client_id :: "string option"
  cx_model :: "string option"
  cx_session_id :: "string option"
  cx_run_id :: "string option"

record log_line =
  ll_context :: request_context
  ll_end_time :: real
  ll_fields :: log_fields

text \<open>The client for the upstream, over the state \<open>'y\<close> of the coroutine that uses it.\<close>

record 'y http_env =
  h_post :: "string \<Rightarrow> json \<Rightarrow> headers \<Rightarrow> 'y \<Rightarrow> (py_exn + http_response) \<times> 'y"
  h_send_json :: "string \<Rightarrow> json \<Rightarrow> headers \<Rightarrow> 'y \<Rightarrow> (py_exn + http_response) \<times> 'y"
  h_send_content :: "string \<Rightarrow> string \<Rightarrow> string option \<Rightarrow> headers \<Rightarrow> 'y \<Rightarrow> (py_exn + http_response) \<times> 'y"
  h_aread :: "'y \<Rightarrow> (py_exn + string) \<times> 'y"
  h_aclose :: "'y \<Rightarrow> py_exn option \<times> 'y"
  h_next_chunk :: "'y \<Rightarrow> (py_exn + string option) \<times> 'y"
  h_yield :: "string \<Rightarrow> 'y \<Rightarrow> py_exn option \<times> 'y"

record 'w route_env =
  r_env :: "'w proxy_env"
  r_loads :: "string \<Rightarrow> json option"
  r_json :: "proxy_app \<times> 'w \<Rightarrow> (py_exn + json) \<times> proxy_app \<times> 'w"
  r_body :: "proxy_app \<times> 'w \<Rightarrow> (py_exn + string) \<times> proxy_app \<times> 'w"
  r_http :: "(sem_obj \<times> proxy_app \<times> 'w) http_env"
  r_plain_http :: "(proxy_app \<times> 'w) http_env"
  r_utc_now :: "proxy_app \<times> 'w \<Rightarrow> real"
  r_perf_counter :: "proxy_app \<times> 'w \<Rightarrow> real"
  r_log :: "log_line \<Rightarrow> proxy_app \<times> 'w \<Rightarrow> proxy_app \<times> 'w"
  r_str :: "py_exn \<Rightarrow> string"
  r_decode :: "string \<Rightarrow> string"
  r_phrase :: "int \<Rightarrow> string option"
  r_format_g :: "real \<Rightarrow> string"

text \<open>A log call names some fields; the others are none.\<close>

definition log_status :: "int \<Rightarrow> log_fields" where
  "log_status code = \<lparr>lf_status = code, lf_status_detail = None, lf_queue_wait = None, lf_processing = None,
     lf_input_tokens = None, lf_output_tokens = None, lf_upstream_status = None, lf_upstream_detail = None,
     lf_error = None\<rparr>"

definition ctx_log :: "'w route_env \<Rightarrow> request_context \<Rightarrow> log_fields \<Rightarrow> proxy_app \<times> 'w \<Rightarrow> proxy_app \<times> 'w" where
  "ctx_log R ctx f x = r_log R \<lparr>ll_context = ctx, ll_end_time = r_utc_now R x, ll_fields = f\<rparr> x"

definition make_context :: "'w route_env \<Rightarrow> http_request \<Rightarrow> proxy_app \<times> 'w \<Rightarrow> request_context" where
  "make_context R rq x = \<lparr>cx_endpoint = rq_path rq, cx_stream = False, cx_start_time = r_utc_now R x,
     cx_queue_start = r_perf_counter R x, cx_client_id = None, cx_model = None,
     cx_session_id = header_value (rq_headers rq) [''session_id'', ''x-session-id''],
     cx_run_id = header_value (rq_headers rq) [''run_id'', ''x-run-id'']\<rparr>"

subsection \<open>Reading a request\<close>

definition missing_model :: proxy_exn where
  "missing_model = ProxyBadRequest
     (''Request JSON must include non-empty '' @ CHR 0x27 # ''model'' @ [CHR 0x27]) ''missing_model''"

text \<open>\<open>payload.get("model")\<close> is an AttributeError where the body is JSON but not an object.\<close>

definition model_of_payload :: "json \<Rightarrow> proxy_exn + string" where
  "model_of_payload payload =
     (case payload of
        JObj kvs \<Rightarrow>
          (case map_of kvs ''model'' of
             Some (JStr model) \<Rightarrow>
               if str_strip model = [] then Inl missing_model
               else Inr (str_strip model)
           | _ \<Rightarrow> Inl missing_model)
      | _ \<Rightarrow> Inl (Lib attribute_error))"

definition parse_proxy_request ::
  "'w route_env \<Rightarrow> http_request \<Rightarrow> request_context \<Rightarrow> proxy_app \<times> 'w \<Rightarrow>
   (proxy_exn + string \<times> string \<times> json) \<times> request_context \<times> proxy_app \<times> 'w" where
  "parse_proxy_request R rq ctx x =
     (case parse_client_id (rq_headers rq) of
        None \<Rightarrow> (Inl (ProxyBadRequest ''Missing x-client-id header'' ''missing_client_id''), ctx, x)
      | Some client_id \<Rightarrow>
          if client_id = []
          then (Inl (ProxyBadRequest ''x-client-id must be a non-empty string'' ''invalid_client_id''), ctx, x)
          else (let ctx = ctx\<lparr>cx_client_id := Some client_id\<rparr>
                in case r_json R x of
                     (Inl e, x) \<Rightarrow>
                       if is_exception e
                       then (Inl (ProxyBadRequest ''Request body must be valid JSON'' ''invalid_json''), ctx, x)
                       else (Inl (Lib e), ctx, x)
                   | (Inr payload, x) \<Rightarrow>
                       (case model_of_payload payload of
                          Inl e \<Rightarrow> (Inl e, ctx, x)
                        | Inr model \<Rightarrow> (Inr (client_id, model, payload), ctx\<lparr>cx_model := Some model\<rparr>, x))))"

definition resolve_upstream ::
  "app_config \<Rightarrow> http_request \<Rightarrow> string \<Rightarrow> string \<Rightarrow> py_exn + string \<times> headers" where
  "resolve_upstream C rq client_id model =
     (let base_url = (case upstream_base_url_of (ac_overrides C) client_id model of
            None \<Rightarrow> ps_upstream_base_url (ac_settings C)
          | Some url \<Rightarrow> if url = [] then ps_upstream_base_url (ac_settings C) else url)
      in py_bind (build_upstream_url base_url (rq_path rq) (rq_query rq)) (\<lambda>url.
           Inr (url, build_upstream_headers (rq_headers rq))))"

subsection \<open>The slot\<close>

definition is_acquire_timeout :: "proxy_exn \<Rightarrow> bool" where
  "is_acquire_timeout e \<longleftrightarrow> (case e of
     Lib (SemError AcquireTimeoutError) \<Rightarrow> True | Lib (SemError (RateLimitTimeoutError _)) \<Rightarrow> True | _ \<Rightarrow> False)"

definition str_of :: "'w route_env \<Rightarrow> proxy_exn \<Rightarrow> string" where
  "str_of R e = (case e of
     Lib e \<Rightarrow> r_str R e | BackendUnavailable \<Rightarrow> ''Redis unavailable: wait budget exceeded''
   | ProxyBadRequest detail _ \<Rightarrow> detail)"

text \<open>The statement that acquires, with its two handlers: the slot, or what the route ends with.\<close>

definition slot_for_request ::
  "'w route_env \<Rightarrow> app_config \<Rightarrow> request_context \<Rightarrow> string \<Rightarrow> string \<Rightarrow> proxy_app \<times> 'w \<Rightarrow>
   (((proxy_exn + reply) + sem_obj) \<times> proxy_app \<times> 'w) option" where
  "slot_for_request R C ctx client_id model x =
     (case acquire_slot (r_env R) C client_id model x of
        None \<Rightarrow> None
      | Some (Inr S, x) \<Rightarrow> Some (Inr S, x)
      | Some (Inl e, x) \<Rightarrow>
          (let waited = r_perf_counter R x - cx_queue_start ctx
           in if is_acquire_timeout e then
                (let detail = ''Queue wait timeout exceeded ('' @
                     r_format_g R (ps_semaphore_acquire_timeout (ac_settings C)) @ ''s)''
                 in Some (Inl (Inl e), ctx_log R ctx ((log_status 429)\<lparr>lf_status_detail := Some detail,
                      lf_queue_wait := Some waited, lf_error := Some (str_of R e)\<rparr>) x))
              else if e = BackendUnavailable then
                Some (Inl (Inr (service_unavailable ''Redis unavailable'' ''redis_unavailable'')),
                  ctx_log R ctx ((log_status 503)\<lparr>lf_status_detail := Some ''Redis unavailable'',
                    lf_queue_wait := Some waited, lf_error := Some (str_of R e)\<rparr>) x)
              else Some (Inl (Inl e), x)))"

text \<open>\<open>with contextlib.suppress(Exception)\<close>: only what is not an Exception leaves it.\<close>

definition release_quietly ::
  "'w route_env \<Rightarrow> sem_obj \<times> proxy_app \<times> 'w \<Rightarrow> py_exn option \<times> sem_obj \<times> proxy_app \<times> 'w" where
  "release_quietly R y =
     (case sem_arelease (x_sem (r_env R)) (fst y) (snd y) of
        (Inl e, y) \<Rightarrow> (if is_exception e then None else Some e, y)
      | (Inr _, y) \<Rightarrow> (None, y))"

text \<open>What a \<open>finally\<close> block raises replaces what was to be returned or raised.\<close>

definition unless_raised :: "py_exn option \<Rightarrow> py_exn + 'a \<Rightarrow> py_exn + 'a" where
  "unless_raised e r = (case e of None \<Rightarrow> r | Some e \<Rightarrow> Inl e)"

definition is_http_error :: "py_exn \<Rightarrow> bool" where
  "is_http_error e \<longleftrightarrow> (case e of RawExn r \<Rightarrow> isinstance r ''HTTPError'' | _ \<Rightarrow> False)"

definition is_lock_lost :: "py_exn \<Rightarrow> bool" where
  "is_lock_lost e \<longleftrightarrow> (case e of SemError (LockLostError _) \<Rightarrow> True | _ \<Rightarrow> False)"

text \<open>\<open>a or b\<close> on texts, where the last may be none.\<close>

definition first_text :: "string \<Rightarrow> string \<Rightarrow> string option \<Rightarrow> string option" where
  "first_text a b c = (if a \<noteq> [] then Some a else if b \<noteq> [] then Some b else c)"

subsection \<open>Answers in one piece\<close>

text \<open>The \<open>try\<close> statement of both routes; the log fields are its local variables.\<close>

definition forward_request ::
  "'w route_env \<Rightarrow> string \<Rightarrow> json \<Rightarrow> headers \<Rightarrow> sem_obj \<times> proxy_app \<times> 'w \<Rightarrow>
   (py_exn + reply) \<times> log_fields \<times> sem_obj \<times> proxy_app \<times> 'w" where
  "forward_request R url payload hs y =
     (let f = log_status 500
      in case h_post (r_http R) url payload hs y of
           (Inr rsp, y) \<Rightarrow>
             (let (input, output) = extract_usage_from_body (r_loads R) (hr_content rsp);
                  f = f\<lparr>lf_upstream_status := Some (hr_status rsp), lf_status := hr_status rsp,
                        lf_input_tokens := input, lf_output_tokens := output\<rparr>;
                  f = (if hr_status rsp \<noteq> 200
                       then (let detail = first_text (hr_text rsp) (hr_reason rsp) (r_phrase R (hr_status rsp))
                             in f\<lparr>lf_upstream_detail := detail, lf_status_detail := detail\<rparr>)
                       else f)
              in (Inr (BytesReply (hr_status rsp) (hr_content rsp) (filter_response_headers (hr_headers rsp))
                         (map_of (hr_headers rsp) ''content-type'')), f, y))
         | (Inl e, y) \<Rightarrow>
             if is_lock_lost e then
               (Inr (service_unavailable ''Semaphore lock lost'' ''lock_lost''),
                f\<lparr>lf_status := 503, lf_status_detail := Some ''Semaphore lock lost''\<rparr>, y)
             else if is_http_error e then
               (Inr (upstream_error ''Upstream request failed''),
                f\<lparr>lf_status := 502, lf_status_detail := Some ''Upstream request failed'',
                  lf_upstream_detail := Some (r_str R e), lf_error := Some (r_str R e)\<rparr>, y)
             else (Inl e, f, y))"

text \<open>The \<open>finally\<close> block: a log line, then the release.\<close>

definition log_and_release ::
  "'w route_env \<Rightarrow> request_context \<Rightarrow> real \<Rightarrow> real \<Rightarrow> log_fields \<Rightarrow> sem_obj \<times> proxy_app \<times> 'w \<Rightarrow>
   py_exn option \<times> sem_obj \<times> proxy_app \<times> 'w" where
  "log_and_release R ctx queue_wait start f y =
     (case y of (S, x) \<Rightarrow>
        release_quietly R (S, ctx_log R ctx (f\<lparr>lf_queue_wait := Some queue_wait,
          lf_processing := Some (r_perf_counter R x - start)\<rparr>) x))"

definition handle_non_streaming ::
  "'w route_env \<Rightarrow> request_context \<Rightarrow> real \<Rightarrow> real \<Rightarrow> string \<Rightarrow> headers \<Rightarrow> json \<Rightarrow>
   sem_obj \<times> proxy_app \<times> 'w \<Rightarrow> (py_exn + reply) \<times> sem_obj \<times> proxy_app \<times> 'w" where
  "handle_non_streaming R ctx queue_wait start url hs payload y =
     (case forward_request R url payload hs y of
        (r, f, y) \<Rightarrow>
          (case log_and_release R ctx queue_wait start f y of (e, y) \<Rightarrow> (unless_raised e r, y)))"

text \<open>The embeddings route has no output tokens to log.\<close>

definition embed_request ::
  "'w route_env \<Rightarrow> request_context \<Rightarrow> real \<Rightarrow> real \<Rightarrow> string \<Rightarrow> headers \<Rightarrow> json \<Rightarrow>
   sem_obj \<times> proxy_app \<times> 'w \<Rightarrow> (py_exn + reply) \<times> sem_obj \<times> proxy_app \<times> 'w" where
  "embed_request R ctx queue_wait start url hs payload y =
     (case forward_request R url payload hs y of
        (r, f, y) \<Rightarrow>
          (case log_and_release R ctx queue_wait start (f\<lparr>lf_output_tokens := None\<rparr>) y of
             (e, y) \<Rightarrow> (unless_raised e r, y)))"

subsection \<open>Streamed answers\<close>

definition handle_streaming ::
  "'w route_env \<Rightarrow> request_context \<Rightarrow> real \<Rightarrow> real \<Rightarrow> string \<Rightarrow> headers \<Rightarrow> json \<Rightarrow>
   sem_obj \<times> proxy_app \<times> 'w \<Rightarrow> (py_exn + reply) \<times> sem_obj \<times> proxy_app \<times> 'w" where
  "handle_streaming R ctx queue_wait start url hs payload y =
     (case h_send_json (r_http R) url payload hs y of
        (Inl e, y) \<Rightarrow>
          if is_http_error e then
            (case log_and_release R ctx queue_wait start ((log_status 502)\<lparr>
                 lf_status_detail := Some ''Upstream request failed'', lf_upstream_detail := Some (r_str R e),
                 lf_error := Some (r_str R e)\<rparr>) y of
               (e', y) \<Rightarrow> (unless_raised e' (Inr (upstream_error ''Upstream request failed'')), y))
          else (Inl e, y)
      | (Inr rsp, y) \<Rightarrow>
          (let headers = filter_response_headers (hr_headers rsp);
               content_type = map_of (hr_headers rsp) ''content-type''
           in if 400 \<le> hr_status rsp then
                (case h_aread (r_http R) y of
                   (Inl e, y) \<Rightarrow> (Inl e, y)
                 | (Inr body, y) \<Rightarrow>
                     (case h_aclose (r_http R) y of
                        (Some e, y) \<Rightarrow> (Inl e, y)
                      | (None, y) \<Rightarrow>
                          (let detail = first_text (r_decode R body) (hr_reason rsp) (r_phrase R (hr_status rsp))
                           in case log_and_release R ctx queue_wait start ((log_status (hr_status rsp))\<lparr>
                                  lf_status_detail := detail, lf_upstream_status := Some (hr_status rsp),
                                  lf_upstream_detail := detail\<rparr>) y of
                                (e', y) \<Rightarrow> (unless_raised e' (Inr (BytesReply (hr_status rsp) body headers content_type)), y))))
              else (Inr (StreamReply (hr_status rsp) headers
                      (Some (case content_type of None \<Rightarrow> ''text/event-stream'' | Some t \<Rightarrow> t))), y)))"

text \<open>The generator: what was handed over so far, the unfinished line with the usage, and the state.\<close>

type_synonym 'y body_state = "string list \<times> (string \<times> usage) \<times> 'y"

definition body_round ::
  "'w route_env \<Rightarrow> (sem_obj \<times> proxy_app \<times> 'w) body_state \<Rightarrow>
   ((py_exn option \<times> bool) \<times> (sem_obj \<times> proxy_app \<times> 'w) body_state) + (sem_obj \<times> proxy_app \<times> 'w) body_state" where
  "body_round R b =
     (case b of (sent, u, y) \<Rightarrow>
        (case h_next_chunk (r_http R) y of
           (Inl e, y) \<Rightarrow> Inl ((Some e, False), sent, u, y)
         | (Inr None, y) \<Rightarrow> Inl ((None, False), sent, u, y)
         | (Inr (Some chunk), y) \<Rightarrow>
             if so_state (fst y) = LOST then Inl ((None, True), sent, u, y)
             else (let u = feed_chunk (r_loads R) chunk u
                   in case h_yield (r_http R) chunk y of
                        (Some e, y) \<Rightarrow> Inl ((Some e, False), sent @ [chunk], u, y)
                      | (None, y) \<Rightarrow> Inr (sent @ [chunk], u, y))))"

text \<open>Its \<open>finally\<close> block.\<close>

definition finish_body ::
  "'w route_env \<Rightarrow> request_context \<Rightarrow> real \<Rightarrow> real \<Rightarrow> int \<Rightarrow> bool \<Rightarrow> string \<times> usage \<Rightarrow>
   sem_obj \<times> proxy_app \<times> 'w \<Rightarrow> py_exn option \<times> sem_obj \<times> proxy_app \<times> 'w" where
  "finish_body R ctx queue_wait start status lock_lost u y =
     (let usage = flush_buffer (r_loads R) u
      in case h_aclose (r_http R) y of
           (Some e, y) \<Rightarrow> (Some e, y)
         | (None, y) \<Rightarrow>
             log_and_release R ctx queue_wait start ((log_status (if status = 0 then 200 else status))\<lparr>
                 lf_status_detail := (if lock_lost then Some ''Semaphore lock lost mid-stream'' else None),
                 lf_input_tokens := fst usage, lf_output_tokens := snd usage,
                 lf_upstream_status := Some status,
                 lf_error := (if lock_lost then Some ''lock_lost'' else None)\<rparr>) y)"

definition stream_body ::
  "'w route_env \<Rightarrow> request_context \<Rightarrow> real \<Rightarrow> real \<Rightarrow> int \<Rightarrow> sem_obj \<times> proxy_app \<times> 'w \<Rightarrow>
   ((py_exn + unit) \<times> string list \<times> sem_obj \<times> proxy_app \<times> 'w) option" where
  "stream_body R ctx queue_wait start status y =
     map_option (\<lambda>((e, lock_lost), sent, u, y).
         case finish_body R ctx queue_wait start status lock_lost u y of
           (e', y) \<Rightarrow> (unless_raised e' (unless_raised e (Inr ())), sent, y))
       (repeat_until (body_round R) ([], ([], None, None), y))"

subsection \<open>The rate-limited routes\<close>

text \<open>What both routes do before they forward: how they end early, or the slot and what to forward.\<close>

definition open_request ::
  "'w route_env \<Rightarrow> app_config \<Rightarrow> (json \<Rightarrow> bool) \<Rightarrow> http_request \<Rightarrow> proxy_app \<times> 'w \<Rightarrow>
   (((proxy_exn + reply) + request_context \<times> json \<times> (string \<times> headers) \<times> sem_obj) \<times> proxy_app \<times> 'w) option" where
  "open_request R C wants_stream rq x =
     (case parse_proxy_request R rq (make_context R rq x) x of
        (Inl (ProxyBadRequest detail code), ctx, x) \<Rightarrow>
          Some (Inl (Inr (bad_request detail code)),
            ctx_log R ctx ((log_status 400)\<lparr>lf_status_detail := Some detail\<rparr>) x)
      | (Inl e, ctx, x) \<Rightarrow> Some (Inl (Inl e), x)
      | (Inr (client_id, model, payload), ctx, x) \<Rightarrow>
          (let ctx = ctx\<lparr>cx_stream := wants_stream payload\<rparr>
           in case resolve_upstream C rq client_id model of
                Inl e \<Rightarrow> Some (Inl (Inl (Lib e)), x)
              | Inr target \<Rightarrow>
                  map_option (map_prod (map_sum id (\<lambda>S. (ctx, payload, target, S))) id)
                    (slot_for_request R C ctx client_id model x)))"

definition wants_stream :: "json \<Rightarrow> bool" where
  "wants_stream payload =
     (case payload of JObj kvs \<Rightarrow> map_of kvs ''stream'' = Some (JBool True) | _ \<Rightarrow> False)"

text \<open>A route ends with an answer or an exception, and with the object of its slot if it got one.\<close>

definition proxy_chat_completions ::
  "'w route_env \<Rightarrow> app_config \<Rightarrow> http_request \<Rightarrow> proxy_app \<times> 'w \<Rightarrow>
   ((proxy_exn + reply) \<times> sem_obj option \<times> proxy_app \<times> 'w) option" where
  "proxy_chat_completions R C rq x =
     map_option (\<lambda>(q, x). case q of
         Inl r \<Rightarrow> (r, None, x)
       | Inr (ctx, payload, (url, hs), S) \<Rightarrow>
           (let queue_wait = r_perf_counter R x - cx_queue_start ctx;
                start = r_perf_counter R x;
                handler = (if cx_stream ctx then handle_streaming else handle_non_streaming)
            in case handler R ctx queue_wait start url hs payload (S, x) of
                 (r, S, x) \<Rightarrow> (map_sum Lib id r, Some S, x)))
       (open_request R C wants_stream rq x)"

definition proxy_embeddings ::
  "'w route_env \<Rightarrow> app_config \<Rightarrow> http_request \<Rightarrow> proxy_app \<times> 'w \<Rightarrow>
   ((proxy_exn + reply) \<times> sem_obj option \<times> proxy_app \<times> 'w) option" where
  "proxy_embeddings R C rq x =
     map_option (\<lambda>(q, x). case q of
         Inl r \<Rightarrow> (r, None, x)
       | Inr (ctx, payload, (url, hs), S) \<Rightarrow>
           (let queue_wait = r_perf_counter R x - cx_queue_start ctx;
                start = r_perf_counter R x
            in case embed_request R ctx queue_wait start url hs payload (S, x) of
                 (r, S, x) \<Rightarrow> (map_sum Lib id r, Some S, x)))
       (open_request R C (\<lambda>_. False) rq x)"

text \<open>The application's handler turns the timeout of the queue into an answer.\<close>

definition acquire_timeout_handler :: "'w route_env \<Rightarrow> app_config \<Rightarrow> proxy_exn + reply \<Rightarrow> proxy_exn + reply" where
  "acquire_timeout_handler R C r =
     (case r of
        Inl e \<Rightarrow> if is_acquire_timeout e
          then Inr (rate_limit_response (r_format_g R) (Some (ps_semaphore_acquire_timeout (ac_settings C))))
          else Inl e
      | Inr a \<Rightarrow> Inr a)"

subsection \<open>Everything else: passed through\<close>

definition proxy_passthrough ::
  "'w route_env \<Rightarrow> app_config \<Rightarrow> http_request \<Rightarrow> proxy_app \<times> 'w \<Rightarrow> (py_exn + reply) \<times> proxy_app \<times> 'w" where
  "proxy_passthrough R C rq x =
     (case build_upstream_url (ps_upstream_base_url (ac_settings C)) (rq_path rq) (rq_query rq) of
        Inl e \<Rightarrow> (Inl e, x)
      | Inr url \<Rightarrow>
          (case r_body R x of
             (Inl e, x) \<Rightarrow> (Inl e, x)
           | (Inr body, x) \<Rightarrow>
               (case h_send_content (r_plain_http R) (rq_method rq) url (if body = [] then None else Some body)
                       (build_upstream_headers (rq_headers rq)) x of
                  (Inl e, x) \<Rightarrow>
                    if is_http_error e then (Inr (upstream_error ''Upstream request failed''), x) else (Inl e, x)
                | (Inr rsp, x) \<Rightarrow>
                    (let headers = filter_response_headers (hr_headers rsp);
                         content_type = map_of (hr_headers rsp) ''content-type''
                     in if 400 \<le> hr_status rsp then
                          (case h_aread (r_plain_http R) x of
                             (Inl e, x) \<Rightarrow> (Inl e, x)
                           | (Inr body, x) \<Rightarrow>
                               (case h_aclose (r_plain_http R) x of
                                  (Some e, x) \<Rightarrow> (Inl e, x)
                                | (None, x) \<Rightarrow> (Inr (BytesReply (hr_status rsp) body headers content_type), x)))
                        else (Inr (StreamReply (hr_status rsp) headers content_type), x)))))"

definition pass_round ::
  "'w route_env \<Rightarrow> string list \<times> proxy_app \<times> 'w \<Rightarrow>
   (py_exn option \<times> string list \<times> proxy_app \<times> 'w) + (string list \<times> proxy_app \<times> 'w)" where
  "pass_round R b =
     (case b of (sent, x) \<Rightarrow>
        (case h_next_chunk (r_plain_http R) x of
           (Inl e, x) \<Rightarrow> Inl (Some e, sent, x)
         | (Inr None, x) \<Rightarrow> Inl (None, sent, x)
         | (Inr (Some chunk), x) \<Rightarrow>
             (case h_yield (r_plain_http R) chunk x of
                (Some e, x) \<Rightarrow> Inl (Some e, sent @ [chunk], x)
              | (None, x) \<Rightarrow> Inr (sent @ [chunk], x))))"

definition passthrough_body ::
  "'w route_env \<Rightarrow> proxy_app \<times> 'w \<Rightarrow> ((py_exn + unit) \<times> string list \<times> proxy_app \<times> 'w) option" where
  "passthrough_body R x =
     map_option (\<lambda>(e, sent, x). case h_aclose (r_plain_http R) x of
           (e', x) \<Rightarrow> (unless_raised e' (unless_raised e (Inr ())), sent, x))
       (repeat_until (pass_round R) ([], x))"

subsection \<open>Which route serves a request\<close>

datatype route = Chat | Embeddings | Health | Ready | Status | Passthrough

definition route_of :: "string \<Rightarrow> string \<Rightarrow> route option" where
  "route_of verb path =
     (if path = ''/v1/chat/completions'' \<and> verb = ''POST'' then Some Chat
      else if path = ''/v1/embeddings'' \<and> verb = ''POST'' then Some Embeddings
      else if path = ''/health'' \<and> verb = ''GET'' then Some Health
      else if path = ''/ready'' \<and> verb = ''GET'' then Some Ready
      else if path = ''/semaphore/status'' \<and> verb = ''GET'' then Some Status
      else if verb \<in> {''GET'', ''POST'', ''PUT'', ''PATCH'', ''DELETE'', ''OPTIONS'', ''HEAD''}
      then Some Passthrough else None)"

end
