(* ===== verification/ProxyTextProps.thy ===== *)
theory ProxyTextProps
  imports ProxyText
begin

section \<open>The LLM proxy: usage numbers, URLs and overrides are right\<close>

text \<open>
  Facts on the pure parts of the proxy: the usage found in a stream does not depend on where its chunks
  end; the URL a request is sent to keeps the parts of the base and has the base's path once; what the
  override file may contain, and which override a request finds.
\<close>

subsection \<open>The usage of a stream\<close>

text \<open>The reference: \<open>text.split(b"\\n")\<close>, and every line read in order.\<close>

fun split_lines :: "string \<Rightarrow> string list" where
  "split_lines [] = [[]]"
| "split_lines (c # cs) = (if c = newline then [] # split_lines cs
     else (case split_lines cs of [] \<Rightarrow> [[c]] | l # ls \<Rightarrow> (c # l) # ls))"

definition usage_of_text :: "(string \<Rightarrow> json option) \<Rightarrow> string \<Rightarrow> usage" where
  "usage_of_text loads t = fold (update_usage_from_sse_line loads) (split_lines t) (None, None)"

lemma split_lines_nonempty [simp]: "split_lines t \<noteq> []"
  by (cases t) (auto split: list.split)

lemma split_lines_append_line:
  "newline \<notin> set l \<Longrightarrow> split_lines (l @ newline # t) = l # split_lines t"
  by (induction l) auto

lemma split_lines_plain: "newline \<notin> set l \<Longrightarrow> split_lines l = [l]"
  by (induction l) auto

lemma first_line:
  assumes "newline \<in> set t"
  shows "t = takeWhile (\<lambda>c. c \<noteq> newline) t @ newline # tl (dropWhile (\<lambda>c. c \<noteq> newline) t)"
proof -
  have d: "dropWhile (\<lambda>c. c \<noteq> newline) t \<noteq> []" using assms by (auto simp: dropWhile_eq_Nil_conv)
  from hd_dropWhile [OF this] have "hd (dropWhile (\<lambda>c. c \<noteq> newline) t) = newline" by simp
  with d have "dropWhile (\<lambda>c. c \<noteq> newline) t = newline # tl (dropWhile (\<lambda>c. c \<noteq> newline) t)"
    by (metis list.collapse)
  then show ?thesis by (metis takeWhile_dropWhile_id)
qed

lemma split_lines_first:
  "newline \<in> set t \<Longrightarrow>
    split_lines t = takeWhile (\<lambda>c. c \<noteq> newline) t # split_lines (tl (dropWhile (\<lambda>c. c \<noteq> newline) t))"
  by (subst first_line, assumption, rule split_lines_append_line) (auto dest: set_takeWhileD)

text \<open>The loop takes all lines but the last, which stays in the buffer.\<close>

lemma drain_buffer_lines:
  "drain_buffer loads t u =
     (last (split_lines t), fold (update_usage_from_sse_line loads) (butlast (split_lines t)) u)"
proof (induction loads t u rule: drain_buffer.induct)
  case (1 loads t u)
  show ?case
  proof (cases "newline \<in> set t")
    case True
    with 1 show ?thesis by (subst drain_buffer.simps) (simp add: split_lines_first [OF True])
  next
    case False
    then show ?thesis by (subst drain_buffer.simps) (simp add: split_lines_plain)
  qed
qed

lemma split_lines_append:
  "split_lines (s @ t) = butlast (split_lines s) @ split_lines (last (split_lines s) @ t)"
proof (induction s)
  case (Cons c s)
  obtain l ls where s: "split_lines s = l # ls" by (cases "split_lines s") auto
  show ?case
  proof (cases "c = newline")
    case True
    with Cons s show ?thesis by simp
  next
    case False
    show ?thesis
    proof (cases ls)
      case Nil
      with s have "split_lines (s @ t) = split_lines (l @ t)" using Cons by simp
      with False s Nil show ?thesis by (simp split: list.split)
    next
      case (Cons k ks)
      with Cons.IH s have "split_lines (s @ t) = l # butlast ls @ split_lines (last ls @ t)" by simp
      with False s Cons show ?thesis by simp
    qed
  qed
qed simp

lemma update_empty_line [simp]: "update_usage_from_sse_line loads [] u = u"
  by (simp add: update_usage_from_sse_line_def strip_def)

lemma feed_chunks:
  "fold (feed_chunk loads) chunks ([], u) =
     (last (split_lines (concat chunks)),
      fold (update_usage_from_sse_line loads) (butlast (split_lines (concat chunks))) u)"
proof (induction chunks rule: rev_induct)
  case (snoc c chunks)
  then show ?case
    by (simp add: feed_chunk_def drain_buffer_lines split_lines_append [of "concat chunks" c] butlast_append)
qed simp

lemma flush_usage:
  "flush_buffer loads (fold (feed_chunk loads) chunks ([], None, None)) = usage_of_text loads (concat chunks)"
proof -
  let ?ls = "split_lines (concat chunks)"
  have "?ls = butlast ?ls @ [last ?ls]" by simp
  then have "usage_of_text loads (concat chunks) =
      update_usage_from_sse_line loads (last ?ls)
        (fold (update_usage_from_sse_line loads) (butlast ?ls) (None, None))"
    unfolding usage_of_text_def by (metis fold_append fold_simps comp_apply)
  then show ?thesis by (simp add: feed_chunks flush_buffer_def)
qed

text \<open>C33: where a stream's chunks end makes no difference for the usage that is logged: reading the chunks
  one by one, with the unfinished line kept and read at the end, finds what reading the lines of the whole
  text one after the other finds.\<close>

theorem usage_independent_of_chunks:
  "flush_buffer loads (fold (feed_chunk loads) chunks ([], None, None)) = usage_of_text loads (concat chunks)"
  by (rule flush_usage)

subsection \<open>The URL of a request\<close>

lemma is_alpha_lower: "is_alpha c \<Longrightarrow> is_alpha (ascii_lower c)"
  by (auto simp: is_alpha_def ascii_lower_def Let_def)

lemma ascii_lower_idem [simp]: "ascii_lower (ascii_lower c) = ascii_lower c"
  by (auto simp: ascii_lower_def Let_def)

lemma scheme_char_lower: "scheme_char c \<Longrightarrow> scheme_char (ascii_lower c)"
  using is_alpha_lower [of c] by (auto simp: scheme_char_def is_alpha_def is_digit_def ascii_lower_def Let_def)

definition url_clean :: "char \<Rightarrow> bool" where
  "url_clean c \<longleftrightarrow> \<not> unsafe_url_char c \<and> c \<noteq> CHR ''#''"

definition clean_scheme :: "string \<Rightarrow> bool" where
  "clean_scheme s \<longleftrightarrow> s = [] \<or> is_alpha (hd s) \<and> list_all scheme_char s \<and> map ascii_lower s = s"

definition clean_netloc :: "string \<Rightarrow> bool" where
  "clean_netloc n \<longleftrightarrow> n \<noteq> [] \<and> list_all (\<lambda>c. in_netloc c \<and> url_clean c) n \<and>
     (CHR ''['' \<in> set n) = (CHR '']'' \<in> set n)"

definition clean_path :: "string \<Rightarrow> bool" where
  "clean_path p \<longleftrightarrow> p \<noteq> [] \<and> hd p = CHR ''/'' \<and> list_all (\<lambda>c. url_clean c \<and> c \<noteq> CHR ''?'') p"

lemma scheme_char_facts:
  "scheme_char c \<Longrightarrow> c \<noteq> CHR '':'' \<and> url_clean c"
  "is_alpha c \<Longrightarrow> \<not> control_or_space c"
  by (auto simp: scheme_char_def is_alpha_def is_digit_def url_clean_def unsafe_url_char_def control_or_space_def)

lemma split_scheme_written:
  assumes "clean_scheme s" and "s \<noteq> []"
  shows "split_scheme (s @ '':'' @ t) = (s, t)"
proof -
  have "list_all (\<lambda>c. c \<noteq> CHR '':'') s"
    using assms by (auto simp: clean_scheme_def list_all_iff dest: scheme_char_facts)
  then show ?thesis
    using assms takeWhile_all_append [of "\<lambda>c. c \<noteq> CHR '':''" s "CHR '':''" t]
      dropWhile_all_append [of "\<lambda>c. c \<noteq> CHR '':''" s "CHR '':''" t]
    by (auto simp: split_scheme_def clean_scheme_def)
qed

lemma split_scheme_none: "split_scheme (CHR ''/'' # t) = ([], CHR ''/'' # t)"
  by (simp add: split_scheme_def Let_def is_alpha_def)

lemma split_netloc_written:
  assumes "clean_netloc n" and "clean_path p"
  shows "split_netloc (''//'' @ n @ p @ t) = (n, p @ t)"
proof -
  obtain c r where p: "p = c # r" "c = CHR ''/''" using assms(2) by (cases p) (auto simp: clean_path_def)
  have n: "list_all in_netloc n" using assms(1) by (auto simp: clean_netloc_def list_all_iff)
  have c: "\<not> in_netloc (CHR ''/'')" by (simp add: in_netloc_def)
  show ?thesis
    using takeWhile_all_append [OF n c, of "r @ t"] dropWhile_all_append [OF n c, of "r @ t"]
    by (simp add: split_netloc_def starts_with_def p)
qed

lemma split_once_absent: "c \<notin> set t \<Longrightarrow> split_once c t = (t, [])"
  by (induction t) (auto simp: split_once_def)

lemma split_once_written: "c \<notin> set s \<Longrightarrow> split_once c (s @ c # t) = (s, t)"
  by (induction s) (auto simp: split_once_def)

text \<open>A URL that was put together from clean parts is split into them.\<close>

lemma urlsplit_urlunsplit:
  assumes s: "clean_scheme s" and n: "clean_netloc n" and p: "clean_path p" and q: "list_all url_clean q"
  shows "urlsplit (urlunsplit s n p q) = Inr \<lparr>u_scheme = s, u_netloc = n, u_path = p, u_query = q, u_fragment = []\<rparr>"
proof -
  define tail where "tail = (if q \<noteq> [] then ''?'' @ q else [])"
  define front where "front = (if s \<noteq> [] then s @ '':'' else [])"
  have u: "urlunsplit s n p q = front @ ''//'' @ n @ p @ tail"
    using n p by (simp add: urlunsplit_def clean_netloc_def clean_path_def tail_def front_def)
  have sep: "url_clean (CHR '':'')" "url_clean (CHR ''/'')" "url_clean (CHR ''?'')"
    by (simp_all add: url_clean_def unsafe_url_char_def)
  have "list_all url_clean s" "list_all url_clean n" "list_all url_clean p"
    using s n p scheme_char_facts(1) by (auto simp: clean_scheme_def clean_netloc_def clean_path_def list_all_iff)
  with sep q have clean: "list_all url_clean (front @ ''//'' @ n @ p @ tail)" by (simp add: front_def tail_def)
  have "\<not> control_or_space (hd (front @ ''//'' @ n @ p @ tail))"
    using s scheme_char_facts(2) by (cases s) (auto simp: front_def clean_scheme_def control_or_space_def)
  then have d: "dropWhile control_or_space (front @ ''//'' @ n @ p @ tail) = front @ ''//'' @ n @ p @ tail"
    by (cases "front @ ''//'' @ n @ p @ tail") auto
  have f: "filter (\<lambda>c. \<not> unsafe_url_char c) (front @ ''//'' @ n @ p @ tail) = front @ ''//'' @ n @ p @ tail"
    using clean by (intro filter_True) (auto simp: list_all_iff url_clean_def)
  have ss: "split_scheme (front @ ''//'' @ n @ p @ tail) = (s, ''//'' @ n @ p @ tail)"
    using split_scheme_written [OF s] split_scheme_none by (simp add: front_def)
  have h: "split_once (CHR ''#'') (p @ tail) = (p @ tail, [])"
    using clean by (intro split_once_absent) (auto simp: list_all_iff url_clean_def)
  have "CHR ''?'' \<notin> set p" using p by (auto simp: clean_path_def list_all_iff)
  then have qq: "split_once (CHR ''?'') (p @ tail) = (p, q)"
    using split_once_written [of "CHR ''?''" p q] split_once_absent [of "CHR ''?''" p] by (simp add: tail_def)
  from n have b: "(CHR ''['' \<in> set n) = (CHR '']'' \<in> set n)" by (simp add: clean_netloc_def)
  show ?thesis unfolding u urlsplit_def Let_def d f ss prod.case split_netloc_written [OF n p] h qq
    using b by simp
qed

text \<open>What \<open>urlsplit\<close> gives is clean.\<close>

lemma split_scheme_clean: "split_scheme t = (s, r) \<Longrightarrow> clean_scheme s \<and> set r \<subseteq> set t"
proof -
  assume "split_scheme t = (s, r)"
  moreover have "list_all scheme_char xs \<Longrightarrow> list_all scheme_char (map ascii_lower xs)" for xs
    by (auto simp: list_all_iff scheme_char_lower)
  moreover have "set (tl xs) \<subseteq> set xs" for xs :: string by (cases xs) auto
  then have "set (tl (dropWhile (\<lambda>c. c \<noteq> CHR '':'') t)) \<subseteq> set t" using set_dropWhileD by fast
  ultimately show ?thesis
    by (auto simp: split_scheme_def Let_def clean_scheme_def hd_map is_alpha_lower split: if_splits)
qed

lemma urlsplit_clean:
  assumes "urlsplit t = Inr u"
  shows "clean_scheme (u_scheme u)" and "u_netloc u \<noteq> [] \<Longrightarrow> clean_netloc (u_netloc u)"
    and "list_all (\<lambda>c. url_clean c \<and> c \<noteq> CHR ''?'') (u_path u)"
proof -
  obtain s r where ss: "split_scheme (filter (\<lambda>c. \<not> unsafe_url_char c) (dropWhile control_or_space t)) = (s, r)"
    by fastforce
  from split_scheme_clean [OF this] have s: "clean_scheme s" and r: "\<forall>c \<in> set r. \<not> unsafe_url_char c" by auto
  obtain n q where sn: "split_netloc r = (n, q)" by fastforce
  then have n: "list_all in_netloc n" "set n \<subseteq> set r" "set q \<subseteq> set r"
    by (auto simp: split_netloc_def list_all_iff dest: set_takeWhileD set_dropWhileD in_set_dropD split: if_splits)
  from assms ss sn have u: "u_scheme u = s" "u_netloc u = n" "(CHR ''['' \<in> set n) = (CHR '']'' \<in> set n)"
    "u_path u = takeWhile (\<lambda>c. c \<noteq> CHR ''?'') (takeWhile (\<lambda>c. c \<noteq> CHR ''#'') q)"
    by (auto simp: urlsplit_def Let_def split_once_def split: if_splits prod.splits)
  show "clean_scheme (u_scheme u)" by (simp add: u s)
  show "u_netloc u \<noteq> [] \<Longrightarrow> clean_netloc (u_netloc u)"
    using n r u by (auto simp: clean_netloc_def list_all_iff url_clean_def in_netloc_def)
  show "list_all (\<lambda>c. url_clean c \<and> c \<noteq> CHR ''?'') (u_path u)"
    using n r by (auto simp: u list_all_iff url_clean_def dest!: set_takeWhileD)
qed

lemma set_rstrip_slash: "set (rstrip_slash t) \<subseteq> set t"
  by (auto simp: rstrip_slash_def dest: set_dropWhileD)

lemma split_path_slash:
  "urlsplit t = Inr u \<Longrightarrow> u_netloc u \<noteq> [] \<Longrightarrow> u_path u = [] \<or> hd (u_path u) = CHR ''/''"
proof -
  assume u: "urlsplit t = Inr u" and n: "u_netloc u \<noteq> []"
  obtain s r where ss: "split_scheme (filter (\<lambda>c. \<not> unsafe_url_char c) (dropWhile control_or_space t)) = (s, r)"
    by fastforce
  obtain m q where sn: "split_netloc r = (m, q)" by fastforce
  with n ss u have "m \<noteq> []" by (auto simp: urlsplit_def Let_def split: if_splits prod.splits)
  with sn have "q = dropWhile in_netloc (drop 2 r)" by (simp add: split_netloc_def split: if_splits)
  then have "q = [] \<or> \<not> in_netloc (hd q)" using hd_dropWhile by blast
  moreover have "u_path u = takeWhile (\<lambda>c. c \<noteq> CHR ''?'') (takeWhile (\<lambda>c. c \<noteq> CHR ''#'') q)"
    using u ss sn by (auto simp: urlsplit_def Let_def split_once_def split: if_splits prod.splits)
  ultimately show ?thesis by (cases q) (auto simp: in_netloc_def)
qed

lemma rstrip_slash_prefix: "\<exists>r. t = rstrip_slash t @ r"
proof -
  have "rev t = takeWhile (\<lambda>c. c = CHR ''/'') (rev t) @ dropWhile (\<lambda>c. c = CHR ''/'') (rev t)" by simp
  then show ?thesis unfolding rstrip_slash_def by (metis rev_append rev_rev_ident)
qed

lemma combined_path_clean:
  assumes u: "urlsplit t = Inr u" "u_netloc u \<noteq> []" and p: "clean_path p" and b: "b = rstrip_slash (u_path u)"
  shows "clean_path (combined_path b p)"
    and "combined_path b p = (if b \<noteq> [] \<and> path_overlaps p b then p else b @ p)"
proof -
  have ne: "b @ p \<noteq> []" "p \<noteq> []" using p by (auto simp: clean_path_def)
  then show c: "combined_path b p = (if b \<noteq> [] \<and> path_overlaps p b then p else b @ p)"
    by (simp add: combined_path_def)
  have "list_all (\<lambda>c. url_clean c \<and> c \<noteq> CHR ''?'') b"
    using urlsplit_clean(3) [OF u(1)] set_rstrip_slash [of "u_path u"] by (auto simp: b list_all_iff)
  moreover have "hd b = CHR ''/''" if "b \<noteq> []"
  proof -
    obtain r where "u_path u = b @ r" using rstrip_slash_prefix b by metis
    with split_path_slash [OF u] that show ?thesis by auto
  qed
  ultimately show "clean_path (combined_path b p)"
    using p unfolding c clean_path_def by (cases "b = []") auto
qed

text \<open>A request is forwarded to the scheme and host of the base URL with the request's own query; its
  path is always at or below the base's path, and the base's path is put in front exactly when the
  request's path is not already at or below it.\<close>

theorem upstream_url_has_base_once:
  assumes "urlsplit (rstrip_slash base_url) = Inr u" and "u_netloc u \<noteq> []"
    and "clean_path path" and "list_all url_clean query"
  defines "b \<equiv> rstrip_slash (u_path u)"
  shows "\<exists>url p. build_upstream_url base_url path query = Inr url \<and>
      urlsplit url = Inr \<lparr>u_scheme = u_scheme u, u_netloc = u_netloc u, u_path = p, u_query = query, u_fragment = []\<rparr> \<and>
      (b = [] \<or> path_overlaps p b) \<and> p = (if b \<noteq> [] \<and> path_overlaps path b then path else b @ path)"
proof (intro exI conjI)
  note c = combined_path_clean [OF assms(1-3) meta_eq_to_obj_eq [OF b_def]]
  show "build_upstream_url base_url path query =
      Inr (urlunsplit (u_scheme u) (u_netloc u) (combined_path b path) query)"
    by (simp add: build_upstream_url_def assms(1) py_bind_def b_def)
  show "urlsplit (urlunsplit (u_scheme u) (u_netloc u) (combined_path b path) query) =
      Inr \<lparr>u_scheme = u_scheme u, u_netloc = u_netloc u, u_path = combined_path b path, u_query = query,
        u_fragment = []\<rparr>"
    using urlsplit_clean [OF assms(1)] assms(2,4) c(1) by (intro urlsplit_urlunsplit)
  show "combined_path b path = (if b \<noteq> [] \<and> path_overlaps path b then path else b @ path)" by (rule c(2))
  have "hd path = CHR ''/''" "path \<noteq> []" using assms(3) by (simp_all add: clean_path_def)
  then obtain t where "path = CHR ''/'' # t" by (cases path) auto
  then show "b = [] \<or> path_overlaps (combined_path b path) b"
    unfolding c(2) by (auto simp: path_overlaps_def starts_with_def)
qed

definition demo_base :: string where
  "demo_base = ''https://api.openai.com/v1/''"

definition demo_parts :: url_parts where
  "demo_parts = \<lparr>u_scheme = ''https'', u_netloc = ''api.openai.com'', u_path = ''/v1'', u_query = [], u_fragment = []\<rparr>"

text \<open>A path with the base's path as its first segment, and one that only looks like it.\<close>

theorem upstream_url_has_base_once_witness:
  "(\<exists>url. build_upstream_url demo_base ''/v1/chat/completions'' ''a=b'' = Inr url \<and>
     map_sum id u_path (urlsplit url) = Inr ''/v1/chat/completions'') \<and>
   (\<exists>url. build_upstream_url demo_base ''/v1beta'' [] = Inr url \<and> map_sum id u_path (urlsplit url) = Inr ''/v1/v1beta'') \<and>
   build_upstream_url demo_base ''/v1/chat/completions'' ''a=b'' = Inr ''https://api.openai.com/v1/chat/completions?a=b''"
proof -
  have u: "urlsplit (rstrip_slash demo_base) = Inr demo_parts" by code_simp
  have c: "clean_path ''/v1/chat/completions''" "clean_path ''/v1beta''" "list_all url_clean ''a=b''" "list_all url_clean []"
    by code_simp+
  have b: "rstrip_slash (u_path demo_parts) = ''/v1''" "u_netloc demo_parts \<noteq> []" by code_simp+
  have o: "path_overlaps ''/v1/chat/completions'' ''/v1''" "\<not> path_overlaps ''/v1beta'' ''/v1''" by code_simp+
  have t: "build_upstream_url demo_base ''/v1/chat/completions'' ''a=b'' =
      Inr ''https://api.openai.com/v1/chat/completions?a=b''" by code_simp
  show ?thesis
    using upstream_url_has_base_once [OF u b(2) c(1,3)] upstream_url_has_base_once [OF u b(2) c(2,4)] t
    by (auto simp: b(1) o)
qed

subsection \<open>The override file\<close>

lemma set_dict_put: "set (dict_put k v d) \<subseteq> insert (k, v) (set d)"
  by (induction d) (auto split: if_splits)

lemma distinct_dict_put: "distinct (map fst d) \<Longrightarrow> distinct (map fst (dict_put k v d))"
proof (induction d)
  case (Cons x d)
  then show ?case using set_dict_put [of k v d] by (cases x) force
qed simp

definition overrides_ok :: "overrides \<Rightarrow> bool" where
  "overrides_ok ov \<longleftrightarrow>
     distinct (map fst (ov_base_urls ov)) \<and> distinct (map fst (ov_capacities ov)) \<and>
     list_all (\<lambda>(k, url). CHR '':'' \<in> set k \<and> url \<noteq> []) (ov_base_urls ov) \<and>
     list_all (\<lambda>(k, n). CHR '':'' \<in> set k \<and> 1 \<le> n) (ov_capacities ov)"

lemma override_url_ok:
  assumes "override_url k kvs urls = Inr urls'" and "CHR '':'' \<in> set k"
    and "distinct (map fst urls)" "list_all (\<lambda>(k, url). CHR '':'' \<in> set k \<and> url \<noteq> []) urls"
  shows "distinct (map fst urls') \<and> list_all (\<lambda>(k, url). CHR '':'' \<in> set k \<and> url \<noteq> []) urls'"
proof -
  from assms(1) have "urls' = urls \<or> (\<exists>t. t \<noteq> [] \<and> urls' = dict_put k t urls)"
    by (auto simp: override_url_def split: option.splits json.splits if_splits)
  with assms(2-4) set_dict_put [of k _ urls] show ?thesis
    by (auto simp: list_all_iff intro: distinct_dict_put)
qed

lemma override_capacity_ok:
  assumes "override_capacity k kvs caps = Inr caps'" and "CHR '':'' \<in> set k"
    and "distinct (map fst caps)" "list_all (\<lambda>(k, n). CHR '':'' \<in> set k \<and> (1::int) \<le> n) caps"
  shows "distinct (map fst caps') \<and> list_all (\<lambda>(k, n). CHR '':'' \<in> set k \<and> 1 \<le> n) caps'"
proof -
  from assms(1) have "caps' = caps \<or> (\<exists>n. 1 \<le> n \<and> caps' = dict_put k n caps)"
    by (auto simp: override_capacity_def not_less split: option.splits json.splits if_splits)
  with assms(2-4) set_dict_put [of k _ caps] show ?thesis
    by (auto simp: list_all_iff intro: distinct_dict_put)
qed

lemma read_overrides_ok: "read_overrides items ov = Inr ov' \<Longrightarrow> overrides_ok ov \<Longrightarrow> overrides_ok ov'"
proof (induction items ov arbitrary: ov' rule: read_overrides.induct)
  case (2 key "value" items ov)
  from 2(2) obtain k kvs urls caps where i: "key = JStr k" "value = JObj kvs" "CHR '':'' \<in> set k"
    and u: "override_url k kvs (ov_base_urls ov) = Inr urls"
    and c: "override_capacity k kvs (ov_capacities ov) = Inr caps"
    and r: "read_overrides items \<lparr>ov_base_urls = urls, ov_capacities = caps\<rparr> = Inr ov'"
    by (auto simp: py_bind_def split: json.splits if_splits sum.splits)
  have "overrides_ok \<lparr>ov_base_urls = urls, ov_capacities = caps\<rparr>"
    using override_url_ok [OF u i(3)] override_capacity_ok [OF c i(3)] 2(3) by (simp add: overrides_ok_def)
  with 2(1) [OF refl i(1,2)] i(3) u c r show ?case by blast
qed simp

lemma loaded_overrides_ok:
  assumes "load_client_model_overrides loads F path = Inr ov"
  shows "overrides_ok ov"
proof -
  have e: "overrides_ok \<lparr>ov_base_urls = [], ov_capacities = []\<rparr>" by (simp add: overrides_ok_def)
  from assms show ?thesis
    by (auto simp: load_client_model_overrides_def py_bind_def e intro: read_overrides_ok [OF _ e]
        split: option.splits if_splits sum.splits file_content.splits)
qed

end
