(* ===== verification/ProxyPool.thy ===== *)
theory ProxyPool
  imports ProxyApp ProxyTextProps SemaphoreAcquire
begin

section \<open>The LLM proxy: the pool, and how a request gets its slot\<close>

text \<open>
  The pool keeps one accepted configuration per client and model, whose keys no other pair uses (for
  client names without a colon); which capacity it has; what an outage does to a request that asks for
  a slot, and how long the asking takes. \<open>recovering\<close> is what the waiting for Redis relies on.
\<close>

subsection \<open>The invariant of the pool\<close>

definition settings_ok :: "proxy_settings \<Rightarrow> bool" where
  "settings_ok s \<longleftrightarrow> 1 \<le> ps_semaphore_capacity s \<and> 0 < ps_semaphore_lock_timeout s \<and>
     0 < ps_semaphore_acquire_timeout s \<and> 0 < ps_semaphore_blpop_timeout s"

lemma default_settings_ok: "settings_ok proxy_settings_defaults"
  by (simp add: settings_ok_def proxy_settings_defaults_def)

definition pool_base :: "app_config \<Rightarrow> sem_pool" where
  "pool_base C = new_pool (ac_settings C) (ov_capacities (ac_overrides C))"

text \<open>
  The configuration that belongs to a name, written out over the settings and the overrides: the capacity is
  the one the overrides give for this very name, else the default of the settings; what the settings do
  not say has the default of the library.
\<close>

definition named_config :: "app_config \<Rightarrow> string \<Rightarrow> semaphore_config" where
  "named_config C name =
     \<lparr>sc_name = name,
      sc_limit = (case map_of (ov_capacities (ac_overrides C)) name of
          None \<Rightarrow> ps_semaphore_capacity (ac_settings C) | Some n \<Rightarrow> n),
      sc_lock_timeout = ps_semaphore_lock_timeout (ac_settings C),
      sc_acquire_timeout = Some (ps_semaphore_acquire_timeout (ac_settings C)),
      sc_retry_interval = 1 / 10, sc_refresh_interval = None,
      sc_namespace = ps_semaphore_namespace (ac_settings C), sc_strict_mode = False,
      sc_use_server_time = False, sc_acquire_mode = BLPOP, sc_retry_interval_max = None,
      sc_retry_backoff_multiplier = 2, sc_retry_jitter = 1 / 10,
      sc_blpop_timeout = ps_semaphore_blpop_timeout (ac_settings C), sc_refresh_retry_interval = None,
      sc_time_source = SERVER, sc_cluster_hash_tags = False, sc_reacquire_policy = RENEW\<rparr>"

definition pair_name :: "string \<Rightarrow> string \<Rightarrow> string" where
  "pair_name client_id model = concat [''client_'', client_id, '':'', model]"

lemma semaphore_key_name_pair: "semaphore_key_name client_id model = pair_name client_id model"
  by (simp add: semaphore_key_name_def pair_name_def)

definition pool_ok :: "app_config \<Rightarrow> sem_pool \<Rightarrow> bool" where
  "pool_ok C P \<longleftrightarrow>
     P\<lparr>sp_configs := []\<rparr> = pool_base C \<and> distinct (map fst (sp_configs P)) \<and>
     list_all (\<lambda>(key, c). key \<noteq> [] \<and> c = named_config C key) (sp_configs P)"

definition config_ok :: "app_config \<Rightarrow> bool" where
  "config_ok C \<longleftrightarrow> settings_ok (ac_settings C) \<and> overrides_ok (ac_overrides C)"

lemma pool_base_fields [simp]:
  "sp_capacity (pool_base C) = ps_semaphore_capacity (ac_settings C)"
  "sp_capacity_overrides (pool_base C) = ov_capacities (ac_overrides C)"
  "sp_lock_timeout (pool_base C) = ps_semaphore_lock_timeout (ac_settings C)"
  "sp_acquire_timeout (pool_base C) = ps_semaphore_acquire_timeout (ac_settings C)"
  "sp_blpop_timeout (pool_base C) = ps_semaphore_blpop_timeout (ac_settings C)"
  "sp_namespace (pool_base C) = ps_semaphore_namespace (ac_settings C)" "sp_configs (pool_base C) = []"
  by (simp_all add: pool_base_def new_pool_def)

lemma pool_config_named: "pool_config (pool_base C) key = named_config C key"
  by (simp add: pool_config_def semaphore_config_defaults_def pool_limit_def named_config_def split: option.split)

lemma pool_limit_positive: "config_ok C \<Longrightarrow> 1 \<le> pool_limit (pool_base C) key"
  by (auto simp: config_ok_def settings_ok_def overrides_ok_def pool_limit_def list_all_iff
      split: option.split dest: map_of_SomeD)

lemma pool_config_fields [simp]:
  "sc_name (pool_config P key) = key" "sc_limit (pool_config P key) = pool_limit P key"
  "sc_namespace (pool_config P key) = sp_namespace P" "sc_acquire_mode (pool_config P key) = BLPOP"
  "sc_acquire_timeout (pool_config P key) = Some (sp_acquire_timeout P)"
  "sc_lock_timeout (pool_config P key) = sp_lock_timeout P"
  "sc_cluster_hash_tags (pool_config P key) = False" "sc_reacquire_policy (pool_config P key) = RENEW"
  "sc_refresh_interval (pool_config P key) = None" "sc_strict_mode (pool_config P key) = False"
  by (simp_all add: pool_config_def semaphore_config_defaults_def)

lemma pool_config_accepted:
  assumes "config_ok C" and "key \<noteq> []"
  shows "semaphore_post_init (pool_config (pool_base C) key) = Inr False"
  using assms pool_limit_positive [OF assms(1), of key]
  by (simp add: semaphore_post_init_def pool_config_def semaphore_config_defaults_def set_and_def config_ok_def
      settings_ok_def pool_limit_def)

lemma pool_base_of: "pool_ok C P \<Longrightarrow> pool_base C = P\<lparr>sp_configs := []\<rparr>"
  by (simp add: pool_ok_def)

lemma pool_config_of_ok: "pool_ok C P \<Longrightarrow> pool_config P key = pool_config (pool_base C) key"
  by (drule pool_base_of) (simp add: pool_config_def pool_limit_def split: option.split)

lemma new_semaphore_ok: "sem_ok (new_semaphore c t)"
  by (simp add: sem_ok_def new_semaphore_def)

lemma new_pool_ok: "pool_ok C (pool_base C)"
  by (simp add: pool_ok_def)

lemma pool_gives:
  assumes "config_ok C" and "pool_ok C P"
  shows "\<exists>P'. get_semaphore t client_id model P =
      (Inr (new_semaphore (named_config C (semaphore_key_name client_id model)) t), P') \<and> pool_ok C P' \<and>
    map_of (sp_configs P') =
      (map_of (sp_configs P))(semaphore_key_name client_id model \<mapsto> named_config C (semaphore_key_name client_id model))"
proof -
  let ?k = "semaphore_key_name client_id model"
  have k: "?k \<noteq> []" by (simp add: semaphore_key_name_def)
  note a = pool_config_accepted [OF assms(1) k, unfolded pool_config_named]
    and c = pool_config_of_ok [OF assms(2), of ?k, unfolded pool_config_named]
  show ?thesis
  proof (cases "map_of (sp_configs P) ?k")
    case None
    then have n: "?k \<notin> fst ` set (sp_configs P)" by (simp add: map_of_eq_None_iff)
    let ?P = "P\<lparr>sp_configs := sp_configs P @ [(?k, named_config C ?k)]\<rparr>"
    have "pool_ok C ?P"
      using assms(2) n k by (simp add: pool_ok_def)
    moreover have "map_of (sp_configs ?P) = (map_of (sp_configs P))(?k \<mapsto> named_config C ?k)"
      using None by (auto simp: map_add_def fun_eq_iff split: option.split)
    moreover have "get_semaphore t client_id model P = (Inr (new_semaphore (named_config C ?k) t), ?P)"
      using None a by (simp add: get_semaphore_def get_semaphore_from_key_def c Let_def)
    ultimately show ?thesis by blast
  next
    case (Some d)
    then have "d = named_config C ?k" using assms(2) by (auto simp: pool_ok_def list_all_iff dest: map_of_SomeD)
    with Some assms(2) show ?thesis
      by (auto simp: get_semaphore_def get_semaphore_from_key_def fun_upd_idem)
  qed
qed

lemma named_config_fields [simp]:
  "sc_name (named_config C key) = key" "sc_namespace (named_config C key) = ps_semaphore_namespace (ac_settings C)"
  "sc_acquire_mode (named_config C key) = BLPOP" "sc_cluster_hash_tags (named_config C key) = False"
  "sc_acquire_timeout (named_config C key) = Some (ps_semaphore_acquire_timeout (ac_settings C))"
  by (simp_all add: named_config_def)

text \<open>C35: when the settings are valid (a capacity of at least one and positive timeouts) and so are the
  overrides, the pool gives a fresh semaphore for every client and model, never an error. Its name
  is \<open>client_<id>:<model>\<close>; its limit is the capacity the overrides have under that name, else the default
  capacity; timeouts and namespace are those of the settings; it waits with BLPOP. The pool then keeps this
  configuration for the pair, all its other configurations as they were, and stays consistent, so that the next
  request for the pair gets an equal semaphore.\<close>

theorem pool_serves_every_pair:
  assumes "config_ok C" and "pool_ok C P"
  shows "\<exists>S P'. get_semaphore t client_id model P = (Inr S, P') \<and>
    so_config S = named_config C (pair_name client_id model) \<and> 1 \<le> sc_limit (so_config S) \<and>
    so_state S = RELEASED \<and> so_mode S = NONE \<and> so_identifier S = None \<and> so_heartbeat S = None \<and>
    so_async_heartbeat S = None \<and> pool_ok C P' \<and>
    map_of (sp_configs P') = (map_of (sp_configs P))(pair_name client_id model \<mapsto> so_config S) \<and>
    get_semaphore t client_id model P' = (Inr S, P')"
proof -
  note name = semaphore_key_name_pair
  obtain P' where a: "get_semaphore t client_id model P = (Inr (new_semaphore (named_config C (pair_name client_id model)) t), P')"
    "pool_ok C P'" "map_of (sp_configs P') = (map_of (sp_configs P))(pair_name client_id model \<mapsto> named_config C (pair_name client_id model))"
    using pool_gives [OF assms, of t client_id model] by (auto simp: name)
  have "1 \<le> sc_limit (named_config C (pair_name client_id model))"
    using pool_limit_positive [OF assms(1), of "pair_name client_id model"]
      pool_config_fields(2) [of "pool_base C" "pair_name client_id model"] by (simp only: pool_config_named)
  moreover have "get_semaphore t client_id model P' = (Inr (new_semaphore (named_config C (pair_name client_id model)) t), P')"
    using a(3) by (simp add: get_semaphore_def get_semaphore_from_key_def name)
  ultimately show ?thesis using a by (simp add: new_semaphore_def)
qed

text \<open>Twice the same pair, on the defaults.\<close>

definition default_config :: app_config where
  "default_config = \<lparr>ac_settings = proxy_settings_defaults, ac_overrides = \<lparr>ov_base_urls = [], ov_capacities = []\<rparr>\<rparr>"

lemma default_config_ok: "config_ok default_config"
  by (simp add: config_ok_def default_config_def default_settings_ok overrides_ok_def)

theorem pool_serves_every_pair_witness:
  "\<exists>S P'. get_semaphore None ''c'' ''m'' (pool_base default_config) = (Inr S, P') \<and>
     get_semaphore None ''c'' ''m'' P' = (Inr S, P') \<and>
     sc_name (so_config S) = ''client_c:m'' \<and> sc_limit (so_config S) = 5"
proof -
  have "sc_limit (named_config default_config (pair_name ''c'' ''m'')) = 5"
    by (simp add: named_config_def default_config_def proxy_settings_defaults_def)
  moreover have "pair_name ''c'' ''m'' = ''client_c:m''" by (simp add: pair_name_def)
  ultimately show ?thesis
    using pool_serves_every_pair [OF default_config_ok new_pool_ok, of None "''c''" "''m''"]
    by (metis named_config_fields(1))
qed

subsection \<open>Pairs do not share\<close>

lemma split_at_char:
  "c \<notin> set a \<Longrightarrow> c \<notin> set b \<Longrightarrow> a @ c # x = b @ c # y \<longleftrightarrow> a = b \<and> x = y"
proof (induction a arbitrary: b)
  case Nil
  then show ?case by (cases b) auto
next
  case (Cons d a)
  then show ?case by (cases b) auto
qed

lemma key_name_inject:
  "CHR '':'' \<notin> set a \<Longrightarrow> CHR '':'' \<notin> set b \<Longrightarrow>
    semaphore_key_name a m = semaphore_key_name b n \<longleftrightarrow> a = b \<and> m = n"
  by (simp add: semaphore_key_name_def split_at_char)

definition sem_keys_of :: "semaphore_config \<Rightarrow> key set" where
  "sem_keys_of c = {owners_key c, fencing_key c, queue_key c}"

lemma same_end: "length u = length v \<Longrightarrow> a @ u = b @ v \<longleftrightarrow> a = b \<and> u = v"
  by simp

lemma last_neq: "last u \<noteq> last v \<Longrightarrow> u \<noteq> [] \<Longrightarrow> v \<noteq> [] \<Longrightarrow> a @ u \<noteq> b @ v"
  by (metis last_appendR)

lemma names_do_not_share:
  assumes "sc_namespace c = sc_namespace d" and "sc_name c \<noteq> sc_name d"
    and "\<not> sc_cluster_hash_tags c" "\<not> sc_cluster_hash_tags d"
  shows "sem_keys_of c \<inter> sem_keys_of d = {}"
proof -
  define a b where "a = sem_key_prefix c" and "b = sem_key_prefix d"
  have "a \<noteq> b" using assms by (simp add: a_def b_def sem_key_prefix_def key_prefix_def)
  then have "a @ '':owners'' \<noteq> b @ '':owners''" "a @ '':fencing'' \<noteq> b @ '':fencing''" "a @ '':queue'' \<noteq> b @ '':queue''"
    by simp_all
  moreover have "a @ '':owners'' \<noteq> b @ '':fencing''" "a @ '':owners'' \<noteq> b @ '':queue''" "a @ '':fencing'' \<noteq> b @ '':queue''"
    "a @ '':fencing'' \<noteq> b @ '':owners''" "a @ '':queue'' \<noteq> b @ '':owners''" "a @ '':queue'' \<noteq> b @ '':fencing''"
    by (rule last_neq; simp)+
  ultimately show ?thesis
    by (auto simp: sem_keys_of_def owners_key_def fencing_key_def queue_key_def a_def b_def)
qed

text \<open>C36: two different pairs of client and model use different keys in Redis, so that neither takes the
  other's slots, if the names of the clients have no colon.\<close>

theorem pairs_do_not_share_keys:
  assumes "config_ok C" and "pool_ok C P" and "pool_ok C Q"
    and "get_semaphore t client1 model1 P = (Inr S, P')" and "get_semaphore t client2 model2 Q = (Inr T, Q')"
    and "CHR '':'' \<notin> set client1" and "CHR '':'' \<notin> set client2" and "(client1, model1) \<noteq> (client2, model2)"
  shows "sem_keys_of (so_config S) \<inter> sem_keys_of (so_config T) = {}"
proof -
  have "so_config S = named_config C (semaphore_key_name client1 model1)"
    "so_config T = named_config C (semaphore_key_name client2 model2)"
    using pool_gives [OF assms(1,2), of t client1 model1]
      pool_gives [OF assms(1,3), of t client2 model2] assms(4,5) by (auto simp: new_semaphore_def)
  with key_name_inject [OF assms(6,7), of model1 model2] assms(8) show ?thesis
    by (intro names_do_not_share) simp_all
qed

text \<open>Two models of a client; with a colon in the client's name two pairs do share a semaphore.\<close>

theorem pairs_do_not_share_keys_witness:
  "(\<exists>S T P Q. get_semaphore None ''c'' ''m'' (pool_base default_config) = (Inr S, P) \<and>
      get_semaphore None ''c'' ''n'' (pool_base default_config) = (Inr T, Q) \<and>
      sem_keys_of (so_config S) \<inter> sem_keys_of (so_config T) = {}) \<and>
   semaphore_key_name ''a:b'' ''c'' = semaphore_key_name ''a'' ''b:c''"
proof -
  obtain S T P Q where g: "get_semaphore None ''c'' ''m'' (pool_base default_config) = (Inr S, P)"
    "get_semaphore None ''c'' ''n'' (pool_base default_config) = (Inr T, Q)"
    using pool_gives [OF default_config_ok new_pool_ok] by blast
  from pairs_do_not_share_keys [OF default_config_ok new_pool_ok new_pool_ok g] g show ?thesis
    by (auto simp: semaphore_key_name_def)
qed

subsection \<open>The capacity of a pair\<close>

lemma named_limit:
  "sc_limit (named_config C (semaphore_key_name client_id model)) =
     (case semaphore_capacity_of (ac_overrides C) (''client_'' @ client_id) model of
        None \<Rightarrow> ps_semaphore_capacity (ac_settings C) | Some n \<Rightarrow> n)"
  by (simp add: named_config_def semaphore_capacity_of_def override_key_def semaphore_key_name_def split: option.split)

text \<open>C39: the capacity that the override file gives for a client and a model is not the one the pool uses:
  the semaphore of client \<open>c\<close> has the capacity the file gives for a client called \<open>client_c\<close>, and the
  default where the file has none under that name.\<close>

theorem capacity_override_misses_its_client:
  assumes "load_client_model_overrides loads F path = Inr (ac_overrides C)" and "settings_ok (ac_settings C)"
    and "pool_ok C P" and "get_semaphore t client_id model P = (Inr S, P')"
  shows "sc_limit (so_config S) =
    (case semaphore_capacity_of (ac_overrides C) (''client_'' @ client_id) model of
       None \<Rightarrow> ps_semaphore_capacity (ac_settings C) | Some n \<Rightarrow> n)"
proof -
  have "config_ok C" using loaded_overrides_ok [OF assms(1)] assms(2) by (simp add: config_ok_def)
  from pool_gives [OF this assms(3), of t client_id model] assms(4)
  show ?thesis by (auto simp: new_semaphore_def named_limit)
qed

text \<open>The file of the documentation: three slots for \<open>client-1\<close> and \<open>gpt-4o\<close>, but the pool has five.\<close>

definition readme_overrides :: json where
  "readme_overrides = JObj
     [(''client-1:gpt-4o'', JObj [(''upstream_base_url'', JStr ''https://api.openai.com/v1''), (''semaphore_capacity'', JNum ''3'')]),
      (''client-1:text-embedding-3-small'', JObj [(''semaphore_capacity'', JNum ''2'')])]"

definition readme_file :: file_env where
  "readme_file = \<lparr>f_exists = (\<lambda>p. p = ''overrides.json''), f_read_text = (\<lambda>p. Inr (json_dumps readme_overrides)),
     f_suffix = (\<lambda>p. ''.json''), f_yaml = None\<rparr>"

definition readme_config :: app_config where
  "readme_config = \<lparr>ac_settings = proxy_settings_defaults,
     ac_overrides = \<lparr>ov_base_urls = [(''client-1:gpt-4o'', ''https://api.openai.com/v1'')],
       ov_capacities = [(''client-1:gpt-4o'', 3), (''client-1:text-embedding-3-small'', 2)]\<rparr>\<rparr>"

theorem capacity_override_misses_its_client_witness:
  "load_client_model_overrides json_loads readme_file (Some ''overrides.json'') = Inr (ac_overrides readme_config) \<and>
   semaphore_capacity_of (ac_overrides readme_config) ''client-1'' ''gpt-4o'' = Some 3 \<and>
   (\<exists>S P. get_semaphore None ''client-1'' ''gpt-4o'' (pool_base readme_config) = (Inr S, P) \<and> sc_limit (so_config S) = 5)"
proof -
  have l: "load_client_model_overrides json_loads readme_file (Some ''overrides.json'') = Inr (ac_overrides readme_config)"
    by code_simp
  have s: "settings_ok (ac_settings readme_config)" by (simp add: readme_config_def default_settings_ok)
  have c: "config_ok readme_config" using loaded_overrides_ok [OF l] s by (simp add: config_ok_def)
  obtain S P where g: "get_semaphore None ''client-1'' ''gpt-4o'' (pool_base readme_config) = (Inr S, P)"
    using pool_gives [OF c new_pool_ok] by blast
  have "semaphore_capacity_of (ac_overrides readme_config) ''client-1'' ''gpt-4o'' = Some 3"
    "semaphore_capacity_of (ac_overrides readme_config) (''client_'' @ ''client-1'') ''gpt-4o'' = None"
    "ps_semaphore_capacity (ac_settings readme_config) = 5"
    by code_simp+
  with l g capacity_override_misses_its_client [OF l s new_pool_ok g] show ?thesis by simp
qed

end
