(* ===== verification/ProxySlot.thy ===== *)
theory ProxySlot
  imports ProxyPool
begin

section \<open>The LLM proxy: outages and time of a request for a slot\<close>

text \<open>
  What \<open>acquire_slot\<close> does when Redis fails, and how long it takes. What the waiting for Redis relies
  on (clocks, cancelled waits, the other requests) is the locale \<open>recovering\<close>; the simulated world at the
  end keeps it.
\<close>

subsection \<open>An outage during the attempt\<close>

lemma boundary_no_outage: "backend_errors operation name q = Inl e \<Longrightarrow> \<not> is_outage e"
  by (auto simp: backend_errors_def is_outage_def split: sum.splits py_exn.splits if_splits)

lemma map_sum_eq_Inl: "map_sum f g r = Inl e \<longleftrightarrow> (\<exists>a. r = Inl a \<and> e = f a)"
  by (cases r) auto

lemma get_semaphore_no_outage: "get_semaphore t client_id model P = (Inl e, P') \<Longrightarrow> \<not> is_outage e"
  by (auto simp: get_semaphore_def get_semaphore_from_key_def semaphore_post_init_def is_outage_def Let_def
      split: option.splits sum.splits if_splits)

lemma try_slot_no_outage: "try_slot E client_id model x = Some (Inl e, y) \<Longrightarrow> \<not> is_outage e"
proof -
  assume t: "try_slot E client_id model x = Some (Inl e, y)"
  obtain q P where g: "get_semaphore (x_socket_timeout E) client_id model (pa_pool (fst x)) = (q, P)" by fastforce
  show ?thesis
  proof (cases q)
    case (Inl e')
    with t g get_semaphore_no_outage show ?thesis by (auto simp: try_slot_def)
  next
    case (Inr S)
    with t g obtain S' where "sem_aacquire (x_sem E) True S (apfst (\<lambda>A. A\<lparr>pa_pool := P\<rparr>) x) = Some (Inl e, S', y)"
      by (auto simp: try_slot_def map_sum_eq_Inl)
    then obtain q' :: "py_exn + acquire_result" where "Inl e = backend_errors ''acquire'' (Some (sc_name (so_config S))) q'"
      by (auto simp: sem_acquire_Some)
    from boundary_no_outage [OF this [symmetric]] show ?thesis .
  qed
qed

lemma slot_round_tries:
  assumes "redis_is_available x" and "x_monotonic E x < deadline"
  shows "slot_round E C deadline client_id model x =
    Inl (map_option (map_prod (map_sum Lib id) id) (try_slot E client_id model x))"
proof (cases "try_slot E client_id model x")
  case None
  with assms show ?thesis by (simp add: slot_round_def)
next
  case (Some p)
  with assms try_slot_no_outage [of E client_id model x] show ?thesis
    by (cases p; cases "fst p") (simp_all add: slot_round_def Let_def)
qed

lemma acquire_slot_tries:
  assumes "redis_is_available x" and "0 < ps_semaphore_acquire_timeout (ac_settings C)"
  shows "acquire_slot E C client_id model x = map_option (map_prod (map_sum Lib id) id) (try_slot E client_id model x)"
  using slot_round_tries [OF assms(1), of E "x_monotonic E x + ps_semaphore_acquire_timeout (ac_settings C)"] assms(2)
  by (simp add: acquire_slot_def Let_def)

text \<open>C37: while Redis counts as available a request for a slot makes exactly one attempt, and whatever that
  raises leaves it: a connection that breaks in the attempt is a \<open>BackendError\<close> of the library, which the
  handler does not catch. So the outage is neither waited for nor noted, and the caller sees no
  \<open>BackendUnavailable\<close>.\<close>

theorem outage_escapes_the_retry:
  assumes "redis_is_available x" and "0 < ps_semaphore_acquire_timeout (ac_settings C)"
  shows "acquire_slot E C client_id model x =
      map_option (map_prod (map_sum Lib id) id) (try_slot E client_id model x) \<and>
    (\<forall>y. acquire_slot E C client_id model x \<noteq> Some (Inl BackendUnavailable, y))"
  using acquire_slot_tries [OF assms, of E client_id model]
  by (auto simp: map_prod_eq_pair map_sum_eq_Inl dest!: sym [of "Inl BackendUnavailable"])

subsection \<open>Time\<close>

text \<open>
  Operations under a deadline end at most \<open>late\<close> after it, or after their start where that is later, and
  then only as cancelled; a sleep that is done took its time. The other requests keep \<open>good\<close>, in which the
  two signs of an available Redis agree.
\<close>

definition in_time :: "'w proxy_env \<Rightarrow> real \<Rightarrow> (proxy_app \<Rightarrow> bool) \<Rightarrow> real \<Rightarrow> proxy_app \<times> 'w \<Rightarrow> unit awaited \<times> proxy_app \<times> 'w \<Rightarrow> bool" where
  "in_time E late good deadline x p \<longleftrightarrow>
     (good (fst x) \<longrightarrow> good (fst (snd p))) \<and>
     x_monotonic E x \<le> x_monotonic E (snd p) \<and>
     x_monotonic E (snd p) \<le> max (x_monotonic E x) deadline + late \<and>
     (deadline < x_monotonic E x \<longrightarrow> fst p = Expired)"

locale recovering =
  fixes E :: "'w proxy_env" and late :: real and good :: "proxy_app \<Rightarrow> bool"
  assumes late_nonneg: "0 \<le> late"
    and ping_in_time: "in_time E late good deadline x (x_ping E deadline x)"
    and sleep_in_time: "in_time E late good deadline x (x_check_sleep E deadline d x)"
    and sleep_takes: "x_check_sleep E deadline d x = (Done u, y) \<Longrightarrow> x_monotonic E x + d \<le> x_monotonic E y"
    and lock_in_time: "in_time E late good deadline x (x_recover_lock E deadline x)"
    and unlock: "fst (x_recover_unlock E x) = fst x" "x_monotonic E (x_recover_unlock E x) = x_monotonic E x"
    and clock_app: "x_monotonic E (A, w) = x_monotonic E (B, w)"
    and ready_good: "good A \<Longrightarrow> good (A\<lparr>pa_redis_available := True, pa_redis_ready := True\<rparr>)"
    and good_signs: "good A \<Longrightarrow> pa_redis_available A = pa_redis_ready A"
begin

lemma ready_clock: "x_monotonic E (mark_redis_ready x) = x_monotonic E x"
  unfolding mark_redis_ready_def by (cases x) (simp, rule clock_app)

text \<open>What the loop of pings keeps: not later than \<open>late\<close> after the deadline.\<close>

definition ends_well :: "real \<Rightarrow> real \<Rightarrow> unit awaited \<times> proxy_app \<times> 'w \<Rightarrow> bool" where
  "ends_well t deadline p \<longleftrightarrow> good (fst (snd p)) \<and> t \<le> x_monotonic E (snd p) \<and>
     x_monotonic E (snd p) \<le> deadline + 2 * late \<and> (fst p = Done () \<longrightarrow> pa_redis_ready (fst (snd p)))"

lemma ping_round_step:
  assumes "good (fst x)" and "t \<le> x_monotonic E x" and "x_monotonic E x \<le> deadline + late"
  shows "case ping_round E C deadline x of
      Inl p \<Rightarrow> ends_well t deadline p
    | Inr y \<Rightarrow> (good (fst y) \<and> t \<le> x_monotonic E y \<and> x_monotonic E y \<le> deadline + late) \<and>
        x_monotonic E x + ps_redis_check_interval (ac_settings C) \<le> x_monotonic E y"
proof -
  let ?d = "ps_redis_check_interval (ac_settings C)"
  obtain q x1 where p: "x_ping E deadline x = (q, x1)" by (rule prod.exhaust)
  have p1: "good (fst x1)" "x_monotonic E x \<le> x_monotonic E x1" "x_monotonic E x1 \<le> deadline + 2 * late"
    "q \<noteq> Expired \<Longrightarrow> x_monotonic E x1 \<le> deadline + late"
    using ping_in_time [of deadline x] assms late_nonneg by (auto simp: in_time_def p max_def split: if_splits)
  obtain q2 x2 where s: "x_check_sleep E deadline ?d x1 = (q2, x2)" by (rule prod.exhaust)
  have s1: "good (fst x2)" "x_monotonic E x1 \<le> x_monotonic E x2"
    "x_monotonic E x1 \<le> deadline + late \<Longrightarrow> x_monotonic E x2 \<le> deadline + 2 * late"
    "q2 \<noteq> Expired \<Longrightarrow> x_monotonic E x2 \<le> deadline + late"
    using sleep_in_time [of deadline x1 ?d] p1 late_nonneg by (auto simp: in_time_def s max_def split: if_splits)
  have t: "t \<le> x_monotonic E x1" "t \<le> x_monotonic E x2" using assms(2) p1(2) s1(2) by linarith+
  show ?thesis
  proof (cases q)
    case (Done u)
    then show ?thesis
      using p p1 t ready_good [OF p1(1)] ready_clock [of x1]
      by (simp add: ping_round_def ends_well_def) (simp add: mark_redis_ready_def)
  next
    case (Raised e)
    show ?thesis
    proof (cases "is_exception (RawExn e)")
      case True
      with Raised p s s1 p1 t sleep_takes [of deadline ?d x1] show ?thesis
        by (cases q2) (auto simp: ping_round_def ends_well_def)
    qed (use Raised p p1 t in \<open>simp add: ping_round_def ends_well_def\<close>)
  qed (use p p1 t in \<open>simp add: ping_round_def ends_well_def\<close>)
qed

lemma ping_loop_ends:
  assumes "good (fst x)" and "t \<le> x_monotonic E x" and "x_monotonic E x \<le> deadline + late"
    and "0 < ps_redis_check_interval (ac_settings C)"
  shows "\<exists>p. repeat_until (ping_round E C deadline) x = Some p \<and> ends_well t deadline p"
proof (rule repeat_until_ends [where P = "\<lambda>x. good (fst x) \<and> t \<le> x_monotonic E x \<and> x_monotonic E x \<le> deadline + late"
      and f = "\<lambda>x. nat \<lfloor>(deadline + late - x_monotonic E x) / ps_redis_check_interval (ac_settings C)\<rfloor>"], goal_cases)
  case 1
  then show ?case using assms by simp
next
  case (2 x y)
  then show ?case using ping_round_step [of x t deadline C] rounds_left_less [OF assms(4)] by force
next
  case (3 x p)
  then show ?case using ping_round_step [of x t deadline C] by force
qed

lemma wait_for_redis_ends:
  assumes "good (fst x)" and "x_monotonic E x \<le> deadline" and "0 < ps_redis_check_interval (ac_settings C)"
  shows "\<exists>p. wait_for_redis E C deadline x = Some p \<and> ends_well (x_monotonic E x) deadline p"
proof (cases "pa_redis_ready (fst x)")
  case True
  with assms late_nonneg show ?thesis by (simp add: wait_for_redis_def ends_well_def)
next
  case False
  obtain q x1 where l: "x_recover_lock E deadline x = (q, x1)" by (rule prod.exhaust)
  have l1: "good (fst x1)" "x_monotonic E x \<le> x_monotonic E x1" "x_monotonic E x1 \<le> deadline + late"
    using lock_in_time [of deadline x] assms late_nonneg by (auto simp: in_time_def l max_def split: if_splits)
  have u: "ends_well t deadline p \<Longrightarrow> ends_well t deadline (map_prod id (x_recover_unlock E) p)" for t p
    by (cases p) (simp add: ends_well_def unlock)
  show ?thesis
  proof (cases q)
    case (Done v)
    show ?thesis
    proof (cases "pa_redis_ready (fst x1)")
      case True
      then have "ends_well (x_monotonic E x) deadline (Done (), x1)"
        using l1 late_nonneg by (simp add: ends_well_def)
      from u [OF this] True False l Done show ?thesis by (simp add: wait_for_redis_def)
    next
      case no: False
      from ping_loop_ends [OF l1(1,2) l1(3) assms(3)] obtain p where
        "repeat_until (ping_round E C deadline) x1 = Some p" "ends_well (x_monotonic E x) deadline p" by blast
      with u False no l Done show ?thesis by (simp add: wait_for_redis_def)
    qed
  qed (use False l l1 late_nonneg in \<open>simp_all add: wait_for_redis_def ends_well_def\<close>)
qed

lemma wait_bounded_ends:
  assumes "good (fst x)" and "0 < remaining" and "0 < ps_redis_check_interval (ac_settings C)"
  shows "\<exists>r y. wait_for_redis_bounded E C remaining x = Some (r, y) \<and> good (fst y) \<and>
      x_monotonic E x \<le> x_monotonic E y \<and> x_monotonic E y \<le> x_monotonic E x + remaining + 2 * late \<and>
      (r = Inr () \<longrightarrow> redis_is_available y)"
proof -
  from wait_for_redis_ends [OF assms(1) _ assms(3), of "x_monotonic E x + remaining"] assms(2) obtain p where
    p: "wait_for_redis E C (x_monotonic E x + remaining) x = Some p"
    and e: "ends_well (x_monotonic E x) (x_monotonic E x + remaining) p" by auto
  have "fst p = Done () \<longrightarrow> redis_is_available (snd p)"
    using e good_signs by (auto simp: ends_well_def redis_is_available_def)
  with p e assms(2) show ?thesis
    by (cases p; cases "fst p") (auto simp: wait_for_redis_bounded_def ends_well_def)
qed

lemma try_slot_ends:
  assumes "config_ok C" and "pool_ok C (pa_pool (fst x))"
    and "timely (x_sem E) ASYNC quick slow wait" and "0 < quick" and "0 \<le> wait"
  shows "\<exists>r y. try_slot E client_id model x = Some (r, y) \<and>
      x_monotonic E y \<le> x_monotonic E x + ps_semaphore_acquire_timeout (ac_settings C) + wait + slow"
proof -
  let ?c = "pool_config (pool_base C) (semaphore_key_name client_id model)"
  obtain P where g: "get_semaphore (x_socket_timeout E) client_id model (pa_pool (fst x)) =
      (Inr (new_semaphore ?c (x_socket_timeout E)), P)"
    using pool_gives [OF assms(1,2), folded pool_config_named] by blast
  have T: "sc_acquire_timeout (so_config (new_semaphore ?c (x_socket_timeout E))) =
      Some (ps_semaphore_acquire_timeout (ac_settings C))"
    by (simp add: new_semaphore_def)
  have "0 \<le> ps_semaphore_acquire_timeout (ac_settings C)" using assms(1) by (simp add: config_ok_def settings_ok_def)
  from acquire_returns_in_time [OF assms(3) _ assms(4,5) T this, of True "apfst (\<lambda>A. A\<lparr>pa_pool := P\<rparr>) x"]
  obtain r S y where "sem_aacquire (x_sem E) True (new_semaphore ?c (x_socket_timeout E))
      (apfst (\<lambda>A. A\<lparr>pa_pool := P\<rparr>) x) = Some (r, S, y)"
    and "x_monotonic E y \<le> x_monotonic E (apfst (\<lambda>A. A\<lparr>pa_pool := P\<rparr>) x) +
      ps_semaphore_acquire_timeout (ac_settings C) + wait + slow"
    by (auto simp: acquire_api_def)
  moreover have "x_monotonic E (apfst f x) = x_monotonic E x" for f by (cases x) (simp, rule clock_app)
  ultimately show ?thesis using g by (simp add: try_slot_def)
qed

text \<open>At most two rounds: a wait that ends well leaves Redis available, and then the attempt is the last.\<close>

lemma acquire_slot_ends:
  assumes "config_ok C" and "0 < ps_redis_check_interval (ac_settings C)" and "good (fst x)"
    and pools: "\<And>A. good A \<Longrightarrow> pool_ok C (pa_pool A)"
    and tm: "timely (x_sem E) ASYNC quick slow wait" and q: "0 < quick" and "0 \<le> wait" and "0 \<le> slow"
  shows "\<exists>r y. acquire_slot E C client_id model x = Some (r, y) \<and>
      x_monotonic E y \<le> x_monotonic E x + 2 * ps_semaphore_acquire_timeout (ac_settings C) + 2 * late + wait + slow"
proof -
  let ?B = "ps_semaphore_acquire_timeout (ac_settings C)"
  let ?limit = "x_monotonic E x + 2 * ?B + 2 * late + wait + slow"
  let ?round = "slot_round E C (x_monotonic E x + ?B) client_id model"
  have B: "0 < ?B" using assms(1) by (simp add: config_ok_def settings_ok_def)
  have attempt: "\<exists>r z. repeat_until ?round y = Some (Some (r, z)) \<and> x_monotonic E z \<le> ?limit"
    if y: "good (fst y)" "redis_is_available y" "x_monotonic E y \<le> x_monotonic E x + ?B + 2 * late" for y
  proof (cases "x_monotonic E y < x_monotonic E x + ?B")
    case True
    obtain r z where t: "try_slot E client_id model y = Some (r, z)" "x_monotonic E z \<le> x_monotonic E y + ?B + wait + slow"
      using try_slot_ends [OF assms(1) pools [OF y(1)] tm q assms(7)] by blast
    from True t y late_nonneg show ?thesis
      by (simp add: slot_round_tries [OF y(2) True])
  next
    case False
    then have "?round y = Inl (Some (Inl BackendUnavailable, y))" by (simp add: slot_round_def)
    with y B assms(7,8) show ?thesis by simp
  qed
  show ?thesis
  proof (cases "redis_is_available x")
    case True
    with attempt [of x] assms(3) B late_nonneg show ?thesis by (auto simp: acquire_slot_def Let_def)
  next
    case False
    obtain r y where w: "wait_for_redis_bounded E C ?B x = Some (r, y)" "good (fst y)"
      "x_monotonic E y \<le> x_monotonic E x + ?B + 2 * late" "r = Inr () \<longrightarrow> redis_is_available y"
      using wait_bounded_ends [OF assms(3) B assms(2)] by auto
    show ?thesis
    proof (cases r)
      case (Inl e)
      with False w B assms(7,8) show ?thesis
        by (simp add: acquire_slot_def Let_def slot_round_def after_wait_def)
    next
      case (Inr u)
      then have "?round x = Inr y" using False w B by (simp add: slot_round_def after_wait_def)
      with attempt [of y] w Inr show ?thesis by (auto simp: acquire_slot_def Let_def repeat_until_Inr)
    qed
  qed
qed

end

text \<open>C34: a request for a slot ends, with or without Redis: if the operations under a deadline end at most
  \<open>late\<close> after it, script calls take at most \<open>slow\<close> and the waits of acquire are at most \<open>wait\<close> late, it
  takes at most twice the acquire timeout (once to wait for Redis, once to wait for a slot) and that.\<close>

theorem acquire_slot_returns_in_time:
  assumes "recovering E late good" and "config_ok C" and "0 < ps_redis_check_interval (ac_settings C)"
    and "good (fst x)" and "\<And>A. good A \<Longrightarrow> pool_ok C (pa_pool A)"
    and "timely (x_sem E) ASYNC quick slow wait" and "0 < quick" and "0 \<le> wait" and "0 \<le> slow"
  shows "\<exists>r y. acquire_slot E C client_id model x = Some (r, y) \<and>
      x_monotonic E y \<le> x_monotonic E x + 2 * ps_semaphore_acquire_timeout (ac_settings C) + 2 * late + wait + slow"
  by (rule recovering.acquire_slot_ends [OF assms])

end
