(* ===== verification/ProxySafety.thy ===== *)
theory ProxySafety
  imports ProxyRoutes ProxySlot
begin

section \<open>The LLM proxy: the slot of a request is given up\<close>

text \<open>
  Which ways through the rate-limited routes release the slot, and which do not; what a streamed answer
  forwards and logs. What the routes rely on is the locale \<open>http_client\<close>: while a request to the upstream
  is awaited, only its own heartbeat changes the object of the slot.
\<close>

subsection \<open>The object of a slot\<close>

definition slot_held :: "sem_obj \<Rightarrow> bool" where
  "slot_held S \<longleftrightarrow> sem_ok S \<and> so_state S \<noteq> RELEASED \<and> so_mode S = ASYNC"

definition no_heartbeat :: "sem_obj \<Rightarrow> bool" where
  "no_heartbeat S \<longleftrightarrow> so_heartbeat S = None \<and> so_async_heartbeat S = None"

lemma slot_held_heartbeat:
  "slot_held S \<Longrightarrow> slot_held (fst (snd (heartbeat_refresh E ASYNC (S, w))))"
  "slot_held S \<Longrightarrow> slot_held (fst (on_lost E ASYNC i (S, w)))"
  using heartbeat_refresh_ok [of S E ASYNC w] on_lost_ok [of S E ASYNC i w]
  by (auto simp: slot_held_def heartbeat_refresh_def on_lost_def set_lost_def Let_def split: prod.splits sum.splits)

lemma waiting_round_object:
  assumes x: "so_identifier V = Some x" and r: "acquire_round E ASYNC True x (st, V, v) = Inr (st', Z, z)"
  shows "so_identifier Z = Some x \<and> so_config Z = so_config V"
proof (rule acquire_round_cases [OF x, of ASYNC E v True st], goal_cases)
  case (5 f e u w1 w2 S1 st1)
  have "S1 = fst (register_waiting E V st
      (emit E (SetSlotsUsed (sc_name (so_config V)) (sc_namespace (so_config V)) u (sc_limit (so_config V))) w1))"
    unfolding 5(3) by simp
  then have "so_identifier S1 = Some x \<and> so_config S1 = so_config V" using x by simp
  with 5(4) r show ?case by (auto split: if_splits prod.splits sum.splits)
qed (use r in simp_all)

lemma granted_round_object:
  assumes x: "so_identifier V = Some x" and r: "acquire_round E ASYNC True x (st, V, v) = Inl (Inr a, Z, z)"
  shows "so_state Z = ACQUIRED \<and> so_mode Z = ASYNC \<and> so_config Z = so_config V \<and>
    (0 < refresh_interval (so_config V) \<longrightarrow> so_async_heartbeat Z \<noteq> None)"
proof (rule acquire_round_cases [OF x, of ASYNC E v True st], goal_cases)
  case (3 f e u w1 w2 T)
  with r have "Z = with_heartbeat ASYNC (granted_obj f e st ASYNC V)" by simp
  then show ?case
    using x by (simp add: with_heartbeat_def granted_obj_def start_heartbeat_async_def)
next
  case (5 f e u w1 w2 S1 st1)
  with r show ?case by (auto simp: handle_timeout_def split: if_splits prod.splits sum.splits)
qed (use r in simp_all)

lemma acquired_slot:
  assumes run: "acquire_with E ASYNC True S w = Some (Inr a, S', w')" and "sem_ok S"
  shows "slot_held S' \<and> so_state S' = ACQUIRED \<and> so_config S' = so_config S \<and>
    (0 < refresh_interval (so_config S) \<longrightarrow> so_async_heartbeat S' \<noteq> None)"
  using run
proof (cases rule: acquire_with_cases)
  case (tried x T w1)
  let ?P = "\<lambda>(st, T, w). so_identifier T = Some x \<and> so_config T = so_config S"
  let ?Q = "\<lambda>(r, S', w'). \<forall>a. r = Inr a \<longrightarrow> so_state S' = ACQUIRED \<and> so_mode S' = ASYNC \<and> so_config S' = so_config S \<and>
      (0 < refresh_interval (so_config S) \<longrightarrow> so_async_heartbeat S' \<noteq> None)"
  have "?Q (Inr a :: py_exn + acquire_result, S', w')"
  proof (rule repeat_until_invariant [where P = ?P and Q = ?Q, OF tried(3)], goal_cases)
    case 1
    then show ?case using ensure_identifier_object [OF tried(2)] by simp
  next
    case (2 y z)
    obtain st V v where y: "y = (st, V, v)" by (rule prod_cases3)
    obtain st' Z u where z: "z = (st', Z, u)" by (rule prod_cases3)
    from 2 waiting_round_object [of V x E st v st' Z u] show ?case unfolding y z by simp
  next
    case (3 y q)
    obtain st V v where y: "y = (st, V, v)" by (rule prod_cases3)
    obtain r Z u where q: "q = (r, Z, u)" by (rule prod_cases3)
    from 3 granted_round_object [of V x E st v _ Z u] show ?case unfolding y q by auto
  qed
  with acquire_with_ok [OF run assms(2)] show ?thesis by (simp add: slot_held_def)
qed simp

text \<open>What a release leaves: the heartbeat is stopped in any case; if it returned, the object is released; if it
  raised, the object still knows its slot, and the lease runs out, for want of a heartbeat.\<close>

definition given_up :: "py_exn + bool \<Rightarrow> sem_obj \<Rightarrow> sem_obj \<Rightarrow> bool" where
  "given_up q S S' \<longleftrightarrow> no_heartbeat S' \<and>
     (case q of
        Inr _ \<Rightarrow> so_state S' = RELEASED \<and> so_identifier S' = None
      | Inl _ \<Rightarrow> so_state S' = so_state S \<and> so_identifier S' = so_identifier S)"

lemma release_gives_up:
  assumes "slot_held S" and q: "sem_arelease E S x = (q, T, y)"
  shows "given_up q S T"
proof -
  have m: "so_identifier S \<noteq> None" "check_mode S ASYNC = Inr ()" "so_heartbeat S = None"
    using assms(1) by (auto simp: slot_held_def sem_ok_def check_mode_def)
  obtain p where p: "release_with E ASYNC S x = (p, T, y)" "q = backend_errors ''release'' (Some (sc_name (so_config S))) p"
    using q by (auto simp: sem_methods boundary_def map_prod_eq_pair)
  show ?thesis
  proof (cases p)
    case (Inl e)
    then obtain e' where "q = Inl e'" using p(2) backend_errors_Inl by blast
    with m p(1) Inl show ?thesis
      by (auto simp: given_up_def release_with_def no_heartbeat_def stop_heartbeat_of_def stop_heartbeat_async_def
          Let_def split: prod.splits sum.splits)
  next
    case (Inr b)
    then have "q = Inr b" using p(2) by (simp add: backend_errors_def)
    with m p(1) Inr show ?thesis
      by (auto simp: given_up_def release_with_def no_heartbeat_def stop_heartbeat_of_def stop_heartbeat_async_def
          reset_state_def Let_def split: prod.splits sum.splits)
  qed
qed

text \<open>
  A slot that was given up: the last things done for the request are one log line, with the status of the
  answer if there is one, and the release of a held slot; where it raises and there is an answer all the
  same, it raised an \<open>Exception\<close>, which the route suppresses.
\<close>

definition slot_closed :: "'w route_env \<Rightarrow> 'e + reply \<Rightarrow> sem_obj \<Rightarrow> proxy_app \<times> 'w \<Rightarrow> bool" where
  "slot_closed R r S' x' \<longleftrightarrow>
     (\<exists>S x ctx f q. slot_held S \<and> sem_arelease (x_sem (r_env R)) S (ctx_log R ctx f x) = (q, S', x') \<and> given_up q S S' \<and>
        (\<forall>a. r = Inr a \<longrightarrow> lf_status f = reply_status a \<and> (\<forall>e. q = Inl e \<longrightarrow> is_exception e)))"

lemma slot_closed_map: "slot_closed R (map_sum g id r) S' x' \<longleftrightarrow> slot_closed R r S' x'"
  by (cases r) (simp_all add: slot_closed_def)

lemma log_and_release_closed:
  assumes "slot_held S" and l: "log_and_release R ctx queue_wait start f (S, x) = (e, S', x')"
    and "\<And>a. r = Inr a \<Longrightarrow> lf_status f = reply_status a"
  shows "slot_closed R (unless_raised e r) S' x'"
proof -
  let ?f = "f\<lparr>lf_queue_wait := Some queue_wait, lf_processing := Some (r_perf_counter R x - start)\<rparr>"
  obtain q where q: "sem_arelease (x_sem (r_env R)) S (ctx_log R ctx ?f x) = (q, S', x')"
    using l by (auto simp: log_and_release_def release_quietly_def split: prod.splits sum.splits)
  have "\<forall>a. unless_raised e r = Inr a \<longrightarrow> lf_status ?f = reply_status a \<and> (\<forall>e. q = Inl e \<longrightarrow> is_exception e)"
    using assms(3) l q by (auto simp: unless_raised_def log_and_release_def release_quietly_def split: option.splits if_splits)
  with release_gives_up [OF assms(1) q] assms(1) q show ?thesis unfolding slot_closed_def by blast
qed

subsection \<open>The routes\<close>

locale http_client =
  fixes R :: "'w route_env"
  assumes post_keeps: "slot_held (fst y) \<Longrightarrow> slot_held (fst (snd (h_post (r_http R) url payload hs y)))"
    and send_keeps: "slot_held (fst y) \<Longrightarrow> slot_held (fst (snd (h_send_json (r_http R) url payload hs y)))"
    and aread_keeps: "slot_held (fst y) \<Longrightarrow> slot_held (fst (snd (h_aread (r_http R) y)))"
    and aclose_keeps: "slot_held (fst y) \<Longrightarrow> slot_held (fst (snd (h_aclose (r_http R) y)))"
    and next_keeps: "slot_held (fst y) \<Longrightarrow> slot_held (fst (snd (h_next_chunk (r_http R) y)))"
    and yield_keeps: "slot_held (fst y) \<Longrightarrow> slot_held (fst (snd (h_yield (r_http R) chunk y)))"
begin

lemma forward_request_result:
  assumes "slot_held (fst y)" and "forward_request R url payload hs y = (r, f, y')"
  shows "slot_held (fst y') \<and> (\<forall>a. r = Inr a \<longrightarrow> lf_status f = reply_status a)"
  using assms post_keeps [OF assms(1), of url payload hs]
  by (auto simp: forward_request_def Let_def log_status_def service_unavailable_def upstream_error_def
      split: prod.splits sum.splits if_splits)

lemma non_streaming_closed:
  assumes "slot_held S" and "handle_non_streaming R ctx queue_wait start url hs payload (S, x) = (r, S', x')"
  shows "slot_closed R r S' x'"
proof -
  obtain p f T z where f: "forward_request R url payload hs (S, x) = (p, f, T, z)" by (metis prod_cases4)
  obtain e where l: "log_and_release R ctx queue_wait start f (T, z) = (e, S', x')" "r = unless_raised e p"
    using assms(2) f by (auto simp: handle_non_streaming_def split: prod.splits)
  have "slot_held T" "\<And>a. p = Inr a \<Longrightarrow> lf_status f = reply_status a"
    using forward_request_result [OF _ f] assms(1) by auto
  then show ?thesis unfolding l(2) by (rule log_and_release_closed [OF _ l(1)])
qed

lemma embed_closed:
  assumes "slot_held S" and "embed_request R ctx queue_wait start url hs payload (S, x) = (r, S', x')"
  shows "slot_closed R r S' x'"
proof -
  obtain p f T z where f: "forward_request R url payload hs (S, x) = (p, f, T, z)" by (metis prod_cases4)
  obtain e where l: "log_and_release R ctx queue_wait start (f\<lparr>lf_output_tokens := None\<rparr>) (T, z) = (e, S', x')"
    "r = unless_raised e p"
    using assms(2) f by (auto simp: embed_request_def split: prod.splits)
  have "slot_held T" "\<And>a. p = Inr a \<Longrightarrow> lf_status (f\<lparr>lf_output_tokens := None\<rparr>) = reply_status a"
    using forward_request_result [OF _ f] assms(1) by auto
  then show ?thesis unfolding l(2) by (rule log_and_release_closed [OF _ l(1)])
qed

text \<open>A streamed request, by what its sending gives: an exception, or the head of an answer.\<close>

lemma unsent_stream_closed:
  assumes T: "slot_held T" and q: "h_send_json (r_http R) url payload hs (S, x) = (Inl e, T, z)"
    and h: "handle_streaming R ctx queue_wait start url hs payload (S, x) = (r, S', x')"
  shows "if is_http_error e then slot_closed R r S' x' else r = Inl e \<and> S' = T"
proof (cases "is_http_error e")
  case True
  let ?f = "(log_status 502)\<lparr>lf_status_detail := Some ''Upstream request failed'',
      lf_upstream_detail := Some (r_str R e), lf_error := Some (r_str R e)\<rparr>"
  obtain e' where l: "log_and_release R ctx queue_wait start ?f (T, z) = (e', S', x')"
    and r: "r = unless_raised e' (Inr (upstream_error ''Upstream request failed''))"
    using h q True by (auto simp: handle_streaming_def split: prod.splits)
  have "slot_closed R r S' x'"
    unfolding r by (rule log_and_release_closed [OF T l]) (simp add: log_status_def upstream_error_def)
  with True show ?thesis by simp
qed (use h q in \<open>auto simp: handle_streaming_def\<close>)

lemma error_answer_closed:
  assumes T: "slot_held T" and q: "h_send_json (r_http R) url payload hs (S, x) = (Inr rsp, T, z)"
    and code: "400 \<le> hr_status rsp"
    and h: "handle_streaming R ctx queue_wait start url hs payload (S, x) = (r, S', x')"
  shows "slot_closed R r S' x' \<or> (\<exists>e. r = Inl e) \<and> slot_held S'"
proof -
  obtain b V v where b: "h_aread (r_http R) (T, z) = (b, V, v)" by (rule prod_cases3)
  have V: "slot_held V" using aread_keeps [of "(T, z)"] T b by simp
  obtain c W w where c: "h_aclose (r_http R) (V, v) = (c, W, w)" by (rule prod_cases3)
  have W: "slot_held W" using aclose_keeps [of "(V, v)"] V c by simp
  show ?thesis
  proof (cases "\<exists>body. b = Inr body \<and> c = None")
    case True
    then obtain body where body: "b = Inr body" "c = None" by blast
    let ?detail = "first_text (r_decode R body) (hr_reason rsp) (r_phrase R (hr_status rsp))"
    let ?f = "(log_status (hr_status rsp))\<lparr>lf_status_detail := ?detail,
        lf_upstream_status := Some (hr_status rsp), lf_upstream_detail := ?detail\<rparr>"
    obtain e' where l: "log_and_release R ctx queue_wait start ?f (W, w) = (e', S', x')"
      and r: "r = unless_raised e' (Inr (BytesReply (hr_status rsp) body
        (filter_response_headers (hr_headers rsp)) (map_of (hr_headers rsp) ''content-type'')))"
      using h q code b c body by (auto simp: handle_streaming_def Let_def split: prod.splits)
    have "slot_closed R r S' x'"
      unfolding r by (rule log_and_release_closed [OF W l]) (simp add: log_status_def)
    then show ?thesis ..
  next
    case False
    with h q code b c V W show ?thesis
      by (auto simp: handle_streaming_def Let_def split: sum.splits option.splits)
  qed
qed

text \<open>So an answer that is no stream comes after the release; with a stream, or with an exception that leaves
  the handler, the slot is still held, unless it was the release that raised.\<close>

lemma no_stream_unless_ok:
  assumes "h_send_json (r_http R) url payload hs (S, x) = (q, T, z)"
    and "handle_streaming R ctx queue_wait start url hs payload (S, x) = (Inr (StreamReply a b c), S', x')"
  shows "\<exists>rsp. q = Inr rsp \<and> hr_status rsp < 400 \<and> S' = T"
  using assms
  by (auto simp: handle_streaming_def Let_def unless_raised_def upstream_error_def
      split: sum.splits if_splits prod.splits option.splits)

lemma streaming_closed:
  assumes S: "slot_held S" and h: "handle_streaming R ctx queue_wait start url hs payload (S, x) = (r, S', x')"
  shows "(case r of
      Inr (StreamReply _ _ _) \<Rightarrow> slot_held S'
    | Inr _ \<Rightarrow> slot_closed R r S' x'
    | Inl e \<Rightarrow> slot_closed R r S' x' \<or> slot_held S')"
proof -
  obtain q T z where q: "h_send_json (r_http R) url payload hs (S, x) = (q, T, z)" by (rule prod_cases3)
  have T: "slot_held T" using send_keeps [of "(S, x)" url payload hs] S q by simp
  have "(\<exists>e. r = Inl e) \<and> slot_held S' \<or> slot_closed R r S' x' \<or> (\<exists>a b c. r = Inr (StreamReply a b c))"
  proof (cases q)
    case (Inl e)
    with unsent_stream_closed [OF T _ h] q T show ?thesis by (auto split: if_splits)
  next
    case (Inr rsp)
    show ?thesis
    proof (cases "400 \<le> hr_status rsp")
      case True
      with error_answer_closed [OF T _ True h] q Inr show ?thesis by blast
    qed (use h q Inr in \<open>auto simp: handle_streaming_def Let_def\<close>)
  qed
  moreover have "slot_held S'" if "r = Inr (StreamReply a b c)" for a b c
    using no_stream_unless_ok [OF q] h that T by blast
  ultimately show ?thesis by (auto split: sum.split reply.split)
qed

end

subsection \<open>The slot that a route got\<close>

lemma map_sum_eq_Inr: "map_sum f g r = Inr e \<longleftrightarrow> (\<exists>a. r = Inr a \<and> e = g a)"
  by (cases r) auto

lemma try_slot_held: "try_slot E client_id model x = Some (Inr S, y) \<Longrightarrow> slot_held S"
proof -
  assume t: "try_slot E client_id model x = Some (Inr S, y)"
  obtain q P where g: "get_semaphore (x_socket_timeout E) client_id model (pa_pool (fst x)) = (q, P)" by fastforce
  with t obtain T a where q: "q = Inr T"
    and "sem_aacquire (x_sem E) True T (apfst (\<lambda>A. A\<lparr>pa_pool := P\<rparr>) x) = Some (Inr a, S, y)"
    by (auto simp: try_slot_def map_sum_eq_Inr split: sum.splits)
  then obtain q where run: "acquire_with (x_sem E) ASYNC True T (apfst (\<lambda>A. A\<lparr>pa_pool := P\<rparr>) x) = Some (q, S, y)"
    "Inr a = backend_errors ''acquire'' (Some (sc_name (so_config T))) q"
    by (auto simp: sem_acquire_Some)
  from run(2) have "q = Inr a" by (metis backend_errors_eq_Inr)
  moreover have "sem_ok T"
    using g q new_semaphore_ok by (auto simp: get_semaphore_def get_semaphore_from_key_def Let_def split: option.splits sum.splits)
  ultimately show ?thesis using acquired_slot [of "x_sem E" T _ a S y] run(1) by simp
qed

lemma slot_round_Inr:
  "slot_round E C deadline client_id model z = Inl (Some (Inr S, y)) \<Longrightarrow> slot_held S"
  by (auto simp: slot_round_def after_wait_def Let_def intro: try_slot_held
      split: if_splits option.splits prod.splits sum.splits)

lemma acquire_slot_held: "acquire_slot E C client_id model x = Some (Inr S, y) \<Longrightarrow> slot_held S"
proof -
  assume a: "acquire_slot E C client_id model x = Some (Inr S, y)"
  then have run: "repeat_until (slot_round E C (x_monotonic E x + ps_semaphore_acquire_timeout (ac_settings C)) client_id model) x =
      Some (Some (Inr S, y))"
    by (auto simp: acquire_slot_def Let_def bind_eq_Some_conv)
  have "(\<lambda>r. r = Some (Inr S, y) \<longrightarrow> slot_held S) (Some (Inr S :: proxy_exn + sem_obj, y))"
    by (rule repeat_until_invariant [where P = "\<lambda>_. True" and Q = "\<lambda>r. r = Some (Inr S, y) \<longrightarrow> slot_held S", OF run]) (auto intro: slot_round_Inr)
  then show ?thesis by simp
qed

lemma open_request_held:
  "open_request R C stream rq x = Some (Inr (ctx, payload, target, S), y) \<Longrightarrow> slot_held S"
  by (auto simp: open_request_def slot_for_request_def Let_def map_sum_eq_Inr intro: acquire_slot_held
      split: prod.splits sum.splits proxy_exn.splits option.splits if_splits)

text \<open>Every embeddings request that got a slot gives it up, whatever the upstream answers or raises: the
  route ends with the release, which stops the heartbeat, after one log line with the status answered.\<close>

theorem embeddings_release_their_slot:
  assumes "http_client R" and "proxy_embeddings R C rq x = Some (r, Some S', x')"
  shows "slot_closed R r S' x'"
proof -
  obtain q y where q: "open_request R C (\<lambda>_. False) rq x = Some (q, y)"
    using assms(2) by (auto simp: proxy_embeddings_def)
  with assms(2) obtain v where "q = Inr v" by (cases q) (auto simp: proxy_embeddings_def)
  then obtain ctx payload url hs S where o: "open_request R C (\<lambda>_. False) rq x = Some (Inr (ctx, payload, (url, hs), S), y)"
    using q by (metis prod.exhaust)
  let ?t = "r_perf_counter R y"
  obtain p T z where e: "embed_request R ctx (?t - cx_queue_start ctx) ?t url hs payload (S, y) = (p, T, z)"
    by (rule prod_cases3)
  with assms(2) o have "r = map_sum Lib id p" "T = S'" "z = x'" by (simp_all add: proxy_embeddings_def Let_def)
  with http_client.embed_closed [OF assms(1) open_request_held [OF o] e] show ?thesis
    by (simp add: slot_closed_map)
qed

text \<open>C31: a chat request that got a slot and is answered in one piece has called for the release of the slot
  before it answers, after one log line that has the status answered. If that release returned, the slot is
  released; if it raised, which the route suppresses, the object still has its slot but no heartbeat, so
  that its lease runs out. With a stream as its answer the slot is still held, for the body to release. Where
  an exception leaves the route the release was called as well, except for streamed requests, the only ones
  that can keep their slot with its heartbeat.\<close>

theorem chat_answers_after_release:
  assumes "http_client R" and "proxy_chat_completions R C rq x = Some (r, Some S', x')"
  shows "case r of
      Inr (StreamReply _ _ _) \<Rightarrow> slot_held S'
    | Inr _ \<Rightarrow> slot_closed R r S' x'
    | Inl e \<Rightarrow> slot_closed R r S' x' \<or>
        slot_held S' \<and> (\<exists>ctx payload target S y. cx_stream ctx \<and>
          open_request R C wants_stream rq x = Some (Inr (ctx, payload, target, S), y))"
proof -
  obtain q y where q: "open_request R C wants_stream rq x = Some (q, y)"
    using assms(2) by (auto simp: proxy_chat_completions_def)
  with assms(2) obtain v where "q = Inr v" by (cases q) (auto simp: proxy_chat_completions_def)
  then obtain ctx payload url hs S where o: "open_request R C wants_stream rq x = Some (Inr (ctx, payload, (url, hs), S), y)"
    using q by (metis prod.exhaust)
  let ?t = "r_perf_counter R y"
  let ?h = "if cx_stream ctx then handle_streaming else handle_non_streaming"
  obtain p T z where e: "?h R ctx (?t - cx_queue_start ctx) ?t url hs payload (S, y) = (p, T, z)"
    by (rule prod_cases3)
  with assms(2) o have r: "r = map_sum Lib id p" "T = S'" "z = x'"
    by (simp_all add: proxy_chat_completions_def Let_def split: if_splits)
  show ?thesis
  proof (cases "cx_stream ctx")
    case True
    with e have "handle_streaming R ctx (?t - cx_queue_start ctx) ?t url hs payload (S, y) = (p, T, z)" by simp
    from http_client.streaming_closed [OF assms(1) open_request_held [OF o] this] True o show ?thesis
      unfolding r slot_closed_map by (cases p) (auto simp: r split: reply.splits)
  next
    case False
    with http_client.non_streaming_closed [OF assms(1) open_request_held [OF o], of ctx] e
    have "slot_closed R p T z" by simp
    moreover have "p \<noteq> Inr (StreamReply a b c)" for a b c
      using e False by (auto simp: handle_non_streaming_def forward_request_def unless_raised_def Let_def
          service_unavailable_def upstream_error_def split: prod.splits sum.splits if_splits option.splits)
    ultimately show ?thesis unfolding r slot_closed_map by (cases p) (auto simp: r split: reply.split)
  qed
qed

text \<open>C38: a streamed request whose sending raises anything but an HTTP error of the client (a payload that
  cannot be encoded, an invalid URL, a cancelled request) ends with that exception and keeps the slot: it is
  not released, and the heartbeat that was started for it goes on.\<close>

theorem failed_send_keeps_the_slot:
  assumes "http_client R" and "open_request R C wants_stream rq x = Some (Inr (ctx, payload, (url, hs), S), y)"
    and "cx_stream ctx" and "h_send_json (r_http R) url payload hs (S, y) = (Inl e, T, z)" and "\<not> is_http_error e"
  shows "proxy_chat_completions R C rq x = Some (Inl (Lib e), Some T, z) \<and> slot_held T"
  using http_client.send_keeps [OF assms(1), of "(S, y)" url payload hs] open_request_held [OF assms(2)] assms(2-5)
  by (simp add: proxy_chat_completions_def handle_streaming_def Let_def)

subsection \<open>The body of a stream\<close>

text \<open>What is still to come from the upstream: \<open>left\<close>.\<close>

locale upstream_stream = http_client R for R :: "'w route_env" +
  fixes left :: "sem_obj \<times> proxy_app \<times> 'w \<Rightarrow> string list"
  assumes next_chunk: "h_next_chunk (r_http R) y = (Inr (Some chunk), y') \<Longrightarrow> left y = chunk # left y'"
    and last_chunk: "h_next_chunk (r_http R) y = (Inr None, y') \<Longrightarrow> left y = []"
    and yield_left: "left (snd (h_yield (r_http R) chunk y)) = left y"
begin

definition body_inv :: "string list \<Rightarrow> (sem_obj \<times> proxy_app \<times> 'w) body_state \<Rightarrow> bool" where
  "body_inv all b \<longleftrightarrow> (case b of (sent, u, y) \<Rightarrow>
     all = sent @ left y \<and> u = fold (feed_chunk (r_loads R)) sent ([], None, None) \<and> slot_held (fst y))"

definition body_end :: "string list \<Rightarrow> (py_exn option \<times> bool) \<times> (sem_obj \<times> proxy_app \<times> 'w) body_state \<Rightarrow> bool" where
  "body_end all p \<longleftrightarrow> (case p of ((e, lock_lost), sent, u, y) \<Rightarrow>
     u = fold (feed_chunk (r_loads R)) sent ([], None, None) \<and> slot_held (fst y) \<and>
     (\<exists>rest. all = sent @ rest \<and> (e = None \<longrightarrow> lock_lost \<or> rest = [])))"

lemma body_round_inv:
  assumes "body_inv all b"
  shows "case body_round R b of Inl p \<Rightarrow> body_end all p | Inr b' \<Rightarrow> body_inv all b'"
proof -
  obtain sent u y where b: "b = (sent, u, y)" by (rule prod_cases3)
  with assms have i: "all = sent @ left y" "u = fold (feed_chunk (r_loads R)) sent ([], None, None)" "slot_held (fst y)"
    by (simp_all add: body_inv_def)
  obtain q z where q: "h_next_chunk (r_http R) y = (q, z)" by (rule prod.exhaust)
  have z: "slot_held (fst z)" using next_keeps [OF i(3)] q by simp
  show ?thesis
  proof (cases q)
    case (Inl e)
    with b q i z show ?thesis by (simp add: body_round_def body_end_def)
  next
    case (Inr c)
    show ?thesis
    proof (cases c)
      case None
      with b q Inr i z last_chunk [of y z] show ?thesis by (simp add: body_round_def body_end_def)
    next
      case (Some chunk)
      with q Inr have l: "left y = chunk # left z" by (intro next_chunk) simp
      obtain e v where v: "h_yield (r_http R) chunk z = (e, v)" by (rule prod.exhaust)
      have "slot_held (fst v)" "left v = left z"
        using yield_keeps [OF z, of chunk] yield_left [of chunk z] v by simp_all
      with b q Inr Some i z l v show ?thesis
        by (cases e) (simp_all add: body_round_def body_end_def body_inv_def Let_def)
    qed
  qed
qed

lemma body_loop_end:
  assumes "slot_held (fst y)" and "repeat_until (body_round R) ([], ([], None, None), y) = Some p"
  shows "body_end (left y) p"
  by (rule repeat_until_invariant [where P = "body_inv (left y)" and Q = "body_end (left y)", OF assms(2)])
     (use assms(1) body_round_inv [of "left y"] in \<open>force simp: body_inv_def\<close>)+

end

text \<open>C32: what went to the client of a streamed answer when its body ends, in whatever way, is a prefix of what
  the upstream sent. Then the upstream is closed. If that returns, one line is logged, with the usage of the
  text that was forwarded, and the release is called: if it returns the slot is released, if it raises, which
  is suppressed, the slot has no heartbeat any more; and when the body ended without an exception, all was
  forwarded or the slot was lost. If closing the upstream raises, the body ends with that exception and still
  holds the slot, with its heartbeat.\<close>

theorem stream_releases_and_logs_its_usage:
  assumes "upstream_stream R left" and "slot_held S"
    and "stream_body R ctx queue_wait start status (S, x) = Some (r, sent, S', x')"
  shows "\<exists>T z c V v rest. slot_held T \<and> h_aclose (r_http R) (T, z) = (c, V, v) \<and> slot_held V \<and> left (S, x) = sent @ rest \<and>
    (case c of
       None \<Rightarrow> \<exists>f q. sem_arelease (x_sem (r_env R)) V (ctx_log R ctx f v) = (q, S', x') \<and> given_up q V S' \<and>
         (lf_input_tokens f, lf_output_tokens f) = usage_of_text (r_loads R) (concat sent) \<and>
         (r = Inr () \<longrightarrow> rest = [] \<or> lf_error f = Some ''lock_lost'')
     | Some e \<Rightarrow> r = Inl e \<and> S' = V \<and> x' = v)"
proof -
  note client = upstream_stream.axioms(1) [OF assms(1)]
  obtain p where p: "repeat_until (body_round R) ([], ([], None, None), S, x) = Some p"
    using assms(3) by (auto simp: stream_body_def)
  obtain e lock_lost sent' u T z where q: "p = ((e, lock_lost), sent', u, T, z)" by (metis prod.exhaust)
  obtain e' where fin: "finish_body R ctx queue_wait start status lock_lost u (T, z) = (e', S', x')"
    and r: "r = unless_raised e' (unless_raised e (Inr ()))" and sent: "sent' = sent"
    using assms(3) p q by (auto simp: stream_body_def split: prod.splits)
  have "upstream_stream.body_end R (left (S, x)) p"
    using upstream_stream.body_loop_end [OF assms(1) _ p] assms(2) by simp
  then obtain rest where u: "u = fold (feed_chunk (r_loads R)) sent ([], None, None)" and T: "slot_held T"
    and rest: "left (S, x) = sent @ rest" "e = None \<longrightarrow> lock_lost \<or> rest = []"
    by (auto simp: upstream_stream.body_end_def [OF assms(1)] q sent)
  obtain c V v where c: "h_aclose (r_http R) (T, z) = (c, V, v)" by (rule prod_cases3)
  have V: "slot_held V" using http_client.aclose_keeps [OF client, of "(T, z)"] T c by simp
  let ?usage = "flush_buffer (r_loads R) u"
  let ?f = "(log_status (if status = 0 then 200 else status))\<lparr>
      lf_status_detail := (if lock_lost then Some ''Semaphore lock lost mid-stream'' else None),
      lf_input_tokens := fst ?usage, lf_output_tokens := snd ?usage, lf_upstream_status := Some status,
      lf_error := (if lock_lost then Some ''lock_lost'' else None),
      lf_queue_wait := Some queue_wait, lf_processing := Some (r_perf_counter R v - start)\<rparr>"
  have "case c of
       None \<Rightarrow> \<exists>f q. sem_arelease (x_sem (r_env R)) V (ctx_log R ctx f v) = (q, S', x') \<and> given_up q V S' \<and>
         (lf_input_tokens f, lf_output_tokens f) = usage_of_text (r_loads R) (concat sent) \<and>
         (r = Inr () \<longrightarrow> rest = [] \<or> lf_error f = Some ''lock_lost'')
     | Some e \<Rightarrow> r = Inl e \<and> S' = V \<and> x' = v"
  proof (cases c)
    case None
    obtain q where rel: "sem_arelease (x_sem (r_env R)) V (ctx_log R ctx ?f v) = (q, S', x')"
      using fin c None by (auto simp: finish_body_def Let_def log_and_release_def release_quietly_def split: prod.splits sum.splits)
    have "r = Inr () \<longrightarrow> rest = [] \<or> lf_error ?f = Some ''lock_lost''"
      using rest(2) by (auto simp: r unless_raised_def split: option.splits)
    moreover have "(lf_input_tokens ?f, lf_output_tokens ?f) = usage_of_text (r_loads R) (concat sent)"
      by (simp add: u flush_usage)
    ultimately show ?thesis using rel release_gives_up [OF V rel] unfolding None option.case by blast
  next
    case (Some a)
    then have "e' = Some a \<and> V = S' \<and> v = x'" using fin c by (simp add: finish_body_def Let_def)
    then show ?thesis unfolding Some option.case by (simp add: r unless_raised_def)
  qed
  with T V c rest(1) show ?thesis by blast
qed

end
