(* ===== verification/ProxyStatus.thy ===== *)
theory ProxyStatus
  imports ProxyApp Redis
begin

section \<open>The LLM proxy: what its status page does to the leases\<close>

text \<open>
  \<open>/semaphore/status\<close> counts the owners of every semaphore of the pool after it has removed those that
  have expired; it takes the time of the host for this, while the leases are by the server's clock. The
  locale says that the two commands do what Redis documents, with nobody else in between.
\<close>

text \<open>ZREMRANGEBYSCORE with two numbers.\<close>

definition doc_zremrange :: "key \<Rightarrow> ms \<Rightarrow> ms \<Rightarrow> rview \<Rightarrow> int \<times> rview" where
  "doc_zremrange k lo hi v =
     (let out = filter (\<lambda>e. lo \<le> fst e \<and> fst e \<le> hi) (zsets v k)
      in (int (length out), put_zset k (filter (\<lambda>e. \<not> (lo \<le> fst e \<and> fst e \<le> hi)) (zsets v k)) v))"

locale zset_commands =
  fixes E :: "'w proxy_env" and store :: "proxy_app \<times> 'w \<Rightarrow> rview"
  assumes zremrange: "x_zremrangebyscore E k lo hi x = (Inr n, y) \<Longrightarrow> store y = snd (doc_zremrange k lo hi (store x))"
    and zcard: "x_zcard E k x = (Inr n, y) \<Longrightarrow> n = int (length (zsets (store x) k)) \<and> store y = store x"
begin

definition host_ms :: "proxy_app \<times> 'w \<Rightarrow> ms" where
  "host_ms x = py_int (s_time (x_sem E) x * 1000)"

lemma used_slots_store:
  assumes "get_used_slots E name x = (Inr used, y)" and "used \<noteq> - 1"
    and "k = sp_namespace (pa_pool (fst x)) @ '':'' @ name @ '':owners''"
  shows "zsets (store y) k = filter (\<lambda>e. \<not> (0 \<le> fst e \<and> fst e \<le> host_ms x)) (zsets (store x) k) \<and>
    used = int (length (zsets (store y) k))"
proof -
  obtain q z where q: "x_zremrangebyscore E k 0 (host_ms x) x = (q, z)" by (rule prod.exhaust)
  obtain u v where u: "x_zcard E k z = (u, v)" by (rule prod.exhaust)
  from assms q u obtain n where n: "q = Inr n" "u = Inr used" "v = y"
    by (auto simp: get_used_slots_def Let_def host_ms_def minus_one_if_exception_def split: sum.splits if_splits)
  from zremrange [of k 0 "host_ms x" x n z] zcard [of k z used y] q u n
  show ?thesis by (simp add: doc_zremrange_def put_zset_def Let_def)
qed

end

text \<open>C40: asking for the status removes leases by the host's clock: of the owners of a semaphore exactly those
  stay whose expiry is after the host's time, whatever the server's clock says, and they are what is
  reported as used. A host whose clock is ahead so takes slots from clients that hold them.\<close>

theorem status_removes_leases_by_host_clock:
  assumes "zset_commands E store" and "get_used_slots E name x = (Inr used, y)" and "used \<noteq> - 1"
    and "k = sp_namespace (pa_pool (fst x)) @ '':'' @ name @ '':owners''"
    and "\<And>e. e \<in> set (zsets (store x) k) \<Longrightarrow> 0 \<le> fst e"
  shows "set (zsets (store y) k) = {e \<in> set (zsets (store x) k). py_int (s_time (x_sem E) x * 1000) < fst e} \<and>
    used = int (length (zsets (store y) k))"
proof -
  have "zsets (store y) k = filter (\<lambda>e. \<not> (0 \<le> fst e \<and> fst e \<le> py_int (s_time (x_sem E) x * 1000))) (zsets (store x) k)"
    "used = int (length (zsets (store y) k))"
    using zset_commands.used_slots_store [OF assms(1-4)] by (simp_all add: zset_commands.host_ms_def [OF assms(1)])
  moreover have "set (filter (\<lambda>e. \<not> (0 \<le> fst e \<and> fst e \<le> h)) (zsets (store x) k)) = {e \<in> set (zsets (store x) k). h < fst e}" for h
    using assms(5) by (auto simp: not_le) (metis fst_conv not_le)
  ultimately show ?thesis by simp
qed

end
