(* ===== verification/ProxySim.thy ===== *)
theory ProxySim
  imports ProxySafety ProxyStatus SemaphorePart
begin

section \<open>A simulated world for the proxy\<close>

text \<open>
  The proxy in the simulated world of the semaphores: the documented store with its cached scripts, a
  process clock in milliseconds, a clock of the host that is ahead of the server's by \<open>skew\<close>, a Redis
  that is unreachable while \<open>down\<close> holds, and an upstream that answers as it is told. It keeps the
  contracts of the proxy's locales; the properties are witnessed in it.
\<close>

type_synonym psim = "sim \<times> string list"

definition psim_put :: "sim \<Rightarrow> proxy_app \<times> psim \<Rightarrow> proxy_app \<times> psim" where
  "psim_put w x = (fst x, w, snd (snd x))"

definition broken :: raw_exn where
  "broken = \<lparr>exn_class = ''ConnectionError'',
     exn_bases = [''ConnectionError'', ''RedisError'', ''Exception'', ''BaseException''], exn_text = ''refused''\<rparr>"

definition after_ms :: "ms \<Rightarrow> sim \<Rightarrow> sim" where
  "after_ms n w = (fst w, snd w + n)"

definition outage_client :: "(ms \<Rightarrow> bool) \<Rightarrow> sim script_client" where
  "outage_client down = \<lparr>cl_is_async = True,
     cl_evalsha = (\<lambda>h n args w. if down (snd w) then (Inl (RawExn broken), after_ms 1 w)
        else cl_evalsha (sim_client True True) h n args w),
     cl_eval = (\<lambda>sc n args w. if down (snd w) then (Inl (RawExn broken), after_ms 1 w)
        else cl_eval (sim_client True True) sc n args w)\<rparr>"

definition psim_sem :: "(ms \<Rightarrow> bool) \<Rightarrow> ms \<Rightarrow> semaphore_config \<Rightarrow> (proxy_app \<times> psim) sem_env" where
  "psim_sem down skew c = part_env (\<lambda>x. fst (snd x)) psim_put
     ((sim_env True c)\<lparr>s_client := outage_client down, s_uuid_hex := (\<lambda>w. (''0a'' @ int_str (snd w), w)),
        s_time := (\<lambda>w. of_int (clock_ms (sim_store w) + skew) / 1000)\<rparr>)"

definition psim_now :: "proxy_app \<times> psim \<Rightarrow> real" where
  "psim_now x = of_int (snd (fst (snd x))) / 1000"

definition psim_later :: "semaphore_config \<Rightarrow> real \<Rightarrow> proxy_app \<times> psim \<Rightarrow> proxy_app \<times> psim" where
  "psim_later c d x = psim_put (sim_sleep (sim_keys c) d (fst (snd x))) x"

definition psim_ping :: "(ms \<Rightarrow> bool) \<Rightarrow> real \<Rightarrow> proxy_app \<times> psim \<Rightarrow> unit awaited \<times> proxy_app \<times> psim" where
  "psim_ping down deadline x =
     (if deadline < psim_now x then (Expired, x)
      else (if down (snd (fst (snd x))) then Raised broken else Done (), psim_put (after_ms 1 (fst (snd x))) x))"

definition psim_check_sleep ::
  "semaphore_config \<Rightarrow> real \<Rightarrow> real \<Rightarrow> proxy_app \<times> psim \<Rightarrow> unit awaited \<times> proxy_app \<times> psim" where
  "psim_check_sleep c deadline d x =
     (if deadline < psim_now x then (Expired, x)
      else if deadline < psim_now (psim_later c d x) then (Expired, psim_later c (deadline - psim_now x) x)
      else (Done (), psim_later c d x))"

definition psim_zset ::
  "(rview \<Rightarrow> int \<times> rview) \<Rightarrow> proxy_app \<times> psim \<Rightarrow> (raw_exn + int) \<times> proxy_app \<times> psim" where
  "psim_zset f x =
     (case fst (snd x) of ((v, scripts), t) \<Rightarrow>
        (case f v of (n, v) \<Rightarrow> (Inr n, psim_put ((v, scripts), t + 1) x)))"

definition psim_env :: "(ms \<Rightarrow> bool) \<Rightarrow> ms \<Rightarrow> semaphore_config \<Rightarrow> psim proxy_env" where
  "psim_env down skew c =
     \<lparr>x_sem = psim_sem down skew c, x_socket_timeout = Some 10,
      x_plain_ping = (\<lambda>x. (if down (snd (fst (snd x))) then Some broken else None, x)),
      x_ping = psim_ping down, x_check_sleep = psim_check_sleep c,
      x_recover_lock = (\<lambda>deadline x. (if deadline < psim_now x then Expired else Done (), x)),
      x_recover_unlock = (\<lambda>x. x),
      x_zremrangebyscore = (\<lambda>k lo hi. psim_zset (doc_zremrange k lo hi)),
      x_zcard = (\<lambda>k. psim_zset (\<lambda>v. (int (length (zsets v k)), v)))\<rparr>"

lemma psim_part: "is_part (\<lambda>x. fst (snd x)) psim_put"
  by (simp add: is_part_def psim_put_def)

lemma psim_monotonic: "x_monotonic (psim_env down skew c) x = psim_now x"
  by (simp add: psim_env_def psim_sem_def part_env_def sim_env_def psim_now_def)

lemma psim_put_now [simp]: "psim_now (psim_put w x) = of_int (snd w) / 1000" "fst (psim_put w x) = fst x"
  by (simp_all add: psim_now_def psim_put_def)

lemma psim_later_app [simp]: "fst (psim_later c d x) = fst x"
  by (simp add: psim_later_def)

lemma psim_later_now:
  "psim_now (psim_later c d x) = psim_now x + of_int (max 0 \<lceil>d * 1000\<rceil>) / 1000"
  by (simp add: psim_later_def psim_put_def sim_sleep_def psim_now_def Let_def add_divide_distrib split: prod.split)

lemma psim_later_bounds:
  "psim_now x + d \<le> psim_now (psim_later c d x)" "psim_now x \<le> psim_now (psim_later c d x)"
  "0 \<le> d \<Longrightarrow> psim_now (psim_later c d x) \<le> psim_now x + d + 1 / 1000"
proof -
  have "d * 1000 \<le> of_int (max 0 \<lceil>d * 1000\<rceil>)" by linarith
  moreover have "(0::real) \<le> of_int (max 0 \<lceil>d * 1000\<rceil>)" by simp
  moreover have "0 \<le> d \<Longrightarrow> real_of_int (max 0 \<lceil>d * 1000\<rceil>) \<le> d * 1000 + 1" by linarith
  ultimately show "psim_now x + d \<le> psim_now (psim_later c d x)" "psim_now x \<le> psim_now (psim_later c d x)"
    "0 \<le> d \<Longrightarrow> psim_now (psim_later c d x) \<le> psim_now x + d + 1 / 1000"
    unfolding psim_later_now by linarith+
qed

subsection \<open>It keeps the contract of the waiting for Redis\<close>

definition app_ok :: "app_config \<Rightarrow> proxy_app \<Rightarrow> bool" where
  "app_ok C A \<longleftrightarrow> pool_ok C (pa_pool A) \<and> pa_redis_available A = pa_redis_ready A"

interpretation psim_recovering: recovering "psim_env down skew c" "1 / 1000" "app_ok C"
proof (unfold_locales, goal_cases)
  case (2 deadline x)
  show ?case
    by (simp add: in_time_def psim_monotonic) (simp add: psim_env_def psim_ping_def after_ms_def psim_put_def psim_now_def max_def)
next
  case (3 deadline x d)
  show ?case
    using psim_later_bounds(2) [where x = x and d = d and c = c]
      psim_later_bounds(2,3) [where x = x and d = "deadline - psim_now x" and c = c]
    by (simp add: in_time_def psim_monotonic) (auto simp: psim_env_def psim_check_sleep_def max_def)
next
  case (4 deadline d x u y)
  then show ?case
    using psim_later_bounds(1) [of x d c]
    by (auto simp: psim_monotonic) (auto simp: psim_env_def psim_check_sleep_def split: if_splits)
next
  case (5 deadline x)
  show ?case by (simp add: in_time_def psim_monotonic) (simp add: psim_env_def max_def)
qed (simp_all add: psim_monotonic, simp_all add: psim_env_def app_ok_def psim_now_def)

subsection \<open>A request gets a slot\<close>

lemma calm_client: "outage_client (\<lambda>_. False) = sim_client True True"
  by (simp add: outage_client_def sim_client_def)

lemma quiet_leave_wait: "\<not> s_metrics_enabled E \<Longrightarrow> snd (leave_wait E st result S w) = w"
  by (simp add: leave_wait_def decrement_waiting_def observe_wait_def emit_def Let_def split: prod.split option.split)

lemma acquire_with_granted_quiet:
  assumes "acquire_checks S m = Inr ()" and "m \<noteq> NONE" and "ensure_identifier E S w = (x, T, w1)"
    and "so_identifier T = Some x" and "call_acquire E m T x w1 = (Inr (True, f, e, u), w2)" and q: "\<not> s_metrics_enabled E"
  shows "acquire_with E m b S w =
    Some (Inr (granted_result (granted_obj f e (new_acq_state E w1) m T) u),
          with_heartbeat m (granted_obj f e (new_acq_state E w1) m T), w2)"
proof (rule acquire_round_cases [OF assms(4,2), of E w1 b "new_acq_state E w1"], goal_cases)
  case (2 f e u w1' w2' V)
  moreover have "w2' = w2" using 2(1,3) assms(5) quiet_leave_wait [OF q] q by (simp add: emit_def)
  ultimately show ?case using assms by (simp add: acquire_with_def)
qed (use assms in simp_all)

definition psim_ident :: "sim \<Rightarrow> ident" where
  "psim_ident w = ''0a'' @ int_str (snd w) @ '':'' @ int_str (clock_ms (sim_store w) * 1000000)"

definition psim_slot :: "semaphore_config \<Rightarrow> ident \<Rightarrow> int \<Rightarrow> ms \<Rightarrow> sem_obj" where
  "psim_slot c i t e = with_heartbeat ASYNC ((new_semaphore c (Some 10))\<lparr>so_identifier := Some i,
     so_fencing_token := (if t = 0 then None else Some t), so_expires_at := (if e = 0 then None else Some (of_int e / 1000)),
     so_state := ACQUIRED, so_mode := ASYNC\<rparr>)"

lemma psim_try_slot:
  assumes C: "config_ok C" "pool_ok C (pa_pool (fst x))"
    and c: "c = pool_config (pool_base C) (semaphore_key_name client_id model)"
    and a: "acquire_script doc_redis (owners_key c) (fencing_key c) (psim_ident (fst (snd x))) (sc_limit c)
      (py_int (sc_lock_timeout c * 1000)) None (sim_store (fst (snd x))) = (grant_resp (Granted t e n), v)"
  shows "\<exists>y. try_slot (psim_env (\<lambda>_. False) skew k) client_id model x =
      Some (Inr (psim_slot c (psim_ident (fst (snd x))) t e), y) \<and>
    sim_store (fst (snd y)) = v \<and> snd (snd y) = snd (snd x) \<and> pool_ok C (pa_pool (fst y)) \<and>
    pa_redis_available (fst y) = pa_redis_available (fst x)"
proof -
  let ?E = "psim_sem (\<lambda>_. False) skew k" and ?S = "new_semaphore c (Some 10)" and ?i = "psim_ident (fst (snd x))"
  let ?B = "(sim_env True k)\<lparr>s_client := outage_client (\<lambda>_. False), s_uuid_hex := (\<lambda>w. (''0a'' @ int_str (snd w), w)),
        s_time := (\<lambda>w. of_int (clock_ms (sim_store w) + skew) / 1000)\<rparr>"
  let ?T = "?S\<lparr>so_identifier := Some ?i\<rparr>"
  obtain P where g: "get_semaphore (Some 10) client_id model (pa_pool (fst x)) = (Inr ?S, P)" and P: "pool_ok C P"
    using pool_gives [OF C, of "Some 10" client_id model, folded pool_config_named] c by blast
  let ?x = "apfst (\<lambda>A. A\<lparr>pa_pool := P\<rparr>) x"
  have en: "ensure_identifier ?E ?S ?x = (?i, ?T, ?x)"
    by (simp add: ensure_identifier_def generate_identifier_def psim_sem_def part_env_def sim_env_def on_part_def
        new_semaphore_def psim_ident_def psim_put_def) (cases x; simp)
  obtain w where w: "runner_acquire_async doc_sha1 (sim_client True True) (owners_key c) (fencing_key c) ?i (sc_limit c)
      (py_int (sc_lock_timeout c * 1000)) None (fst (snd x)) = (Inr (True, Some t, Some e, n), w)" "sim_store w = v"
    using sim_server.acquire_runs [OF TrueI a, where is_async = True and decode = True] by auto
  have ts: "sc_time_source c = SERVER" by (simp add: c pool_config_def semaphore_config_defaults_def)
  have b: "call_acquire ?B ASYNC ?T ?i (fst (snd ?x)) = (Inr (True, Some t, Some e, n), w)"
    using w(1) ts by (simp add: call_acquire_def sem_now_arg_def now_ms_arg_def sim_env_def calm_client new_semaphore_def
        lock_timeout_ms_def)
  have ca: "call_acquire ?E ASYNC ?T ?i ?x = (Inr (True, Some t, Some e, n), psim_put w ?x)"
    unfolding psim_sem_def call_acquire_part [OF psim_part] using b by (rule on_part_eq)
  have ch: "acquire_checks ?S ASYNC = Inr ()"
    by (simp add: acquire_checks_def check_mode_def check_lock_lost_def check_reacquire_def new_semaphore_def)
  have o: "with_heartbeat ASYNC (granted_obj (Some t) (Some e) (new_acq_state ?E ?x) ASYNC ?T) = psim_slot c ?i t e"
    by (simp add: granted_obj_def psim_slot_def waiting_left_def new_acq_state_def new_semaphore_def)
  have "acquire_with ?E ASYNC True ?S ?x =
      Some (Inr (granted_result (granted_obj (Some t) (Some e) (new_acq_state ?E ?x) ASYNC ?T) n), psim_slot c ?i t e,
        psim_put w ?x)"
    unfolding o [symmetric]
    by (rule acquire_with_granted_quiet [OF ch _ en _ ca]) (simp_all add: psim_sem_def part_env_def sim_env_def)
  then have "sem_aacquire ?E True ?S ?x =
      Some (Inr (granted_result (granted_obj (Some t) (Some e) (new_acq_state ?E ?x) ASYNC ?T) n), psim_slot c ?i t e,
        psim_put w ?x)"
    by (simp add: sem_acquire_Some)
  then have "try_slot (psim_env (\<lambda>_. False) skew k) client_id model x = Some (Inr (psim_slot c ?i t e), psim_put w ?x)"
    using g by (simp add: try_slot_def psim_env_def)
  then show ?thesis using w(2) P by (intro exI [of _ "psim_put w ?x"] conjI) (simp_all add: psim_put_def)
qed

end
