(* ===== verification/ProxyRuns.thy ===== *)
theory ProxyRuns
  imports ProxySim
begin

section \<open>The LLM proxy: runs\<close>

text \<open>
  Requests in the simulated world: they show that what the properties of the proxy ask for can hold, and
  what happens where the code does not do what it means to.
\<close>

subsection \<open>Times of the calls\<close>

lemma call_time:
  fixes C :: "sim script_client"
  assumes "cl_is_async C" and one: "\<And>h n args w. snd (snd (cl_evalsha C h n args w)) = snd w + 1"
    "\<And>sc n args w. snd (snd (cl_eval C sc n args w)) = snd w + 1"
  shows "snd (snd (script_call doc_sha1 (aevalsha doc_sha1 C) ''acquire'' keys args parse w)) \<in> {snd w + 1, snd w + 2}"
proof -
  have t: "snd (snd (evalsha_or_eval doc_sha1 C (doc_sha1 ACQUIRE_SCRIPT) n args w)) \<in> {snd w + 1, snd w + 2}" for n args
    using one(1) [of "doc_sha1 ACQUIRE_SCRIPT" n args w] one(2) [of ACQUIRE_SCRIPT n args]
    by (auto simp: evalsha_or_eval_def sim_server.script_for_sha_script split: prod.split sum.split)
  obtain p w' where e: "evalsha_or_eval doc_sha1 C (doc_sha1 ACQUIRE_SCRIPT) (length keys) (map AStr keys @ args) w = (p, w')"
    by (rule prod.exhaust)
  have "snd (snd (script_call doc_sha1 (aevalsha doc_sha1 C) ''acquire'' keys args parse w)) = snd w'"
    using e assms(1) by (cases p) (simp_all add: script_call_def sim_server.get_sha_script [of _ ACQUIRE_SCRIPT]
        SCRIPTS_def aevalsha_def)
  with t [of "length keys" "map AStr keys @ args"] e show ?thesis by simp
qed

lemma outage_client_times:
  "cl_is_async (outage_client down)"
  "snd (snd (cl_evalsha (outage_client down) h n args w)) = snd w + 1"
  "snd (snd (cl_eval (outage_client down) sc n args w)) = snd w + 1"
  by (simp_all add: outage_client_def sim_client_def after_ms_def split: prod.split)

lemma psim_call_time:
  "snd (fst (snd (snd (call_acquire (psim_sem down skew c) ASYNC S i x)))) \<in> {snd (fst (snd x)) + 1, snd (fst (snd x)) + 2}"
proof -
  note t = call_time [OF outage_client_times(1) outage_client_times(2) outage_client_times(3), of down]
  show ?thesis
    using t unfolding psim_sem_def call_acquire_part [OF psim_part] snd_on_part
    by (simp add: call_acquire_def runner_acquire_async_def psim_put_def sim_env_def)
qed

lemma psim_timely: "timely (psim_sem down skew c) ASYNC (1 / 1000) (2 / 1000) (1 / 1000)"
proof -
  have m: "s_monotonic (psim_sem down skew c) x = psim_now x" for x
    using psim_monotonic [of down skew c x] by (simp add: psim_env_def)
  have call: "psim_now x + 1 / 1000 \<le> psim_now (snd (call_acquire (psim_sem down skew c) ASYNC S i x))"
    "psim_now (snd (call_acquire (psim_sem down skew c) ASYNC S i x)) \<le> psim_now x + 2 / 1000" for S i x
    using psim_call_time [of down skew c S i x] by (auto simp: psim_now_def add_divide_distrib)
  have sl: "waits_for (psim_sem down skew c) (1 / 1000) (psim_later c)"
    using psim_later_bounds by (simp add: waits_for_def m)
  have f: "s_sleep (psim_sem down skew c) = psim_later c" "s_asleep (psim_sem down skew c) = psim_later c"
    by (simp_all add: psim_sem_def part_env_def sim_env_def psim_later_def fun_eq_iff)
  have b: "waits_for (psim_sem down skew c) (1 / 1000) (\<lambda>d w. snd (s_blpop (psim_sem down skew c) k d w))"
    "waits_for (psim_sem down skew c) (1 / 1000) (\<lambda>d w. snd (s_ablpop (psim_sem down skew c) k d w))" for k
  proof -
    have "snd (s_blpop (psim_sem down skew c) k d w) = psim_later c d w \<or>
        psim_now (snd (s_blpop (psim_sem down skew c) k d w)) = psim_now w"
      "snd (s_ablpop (psim_sem down skew c) k d w) = psim_later c d w \<or>
        psim_now (snd (s_ablpop (psim_sem down skew c) k d w)) = psim_now w" for d w
      by (auto simp: psim_sem_def part_env_def sim_env_def snd_on_part sim_blpop_def psim_later_def psim_now_def
          psim_put_def split: prod.split)
    with sl show "waits_for (psim_sem down skew c) (1 / 1000) (\<lambda>d w. snd (s_blpop (psim_sem down skew c) k d w))"
      "waits_for (psim_sem down skew c) (1 / 1000) (\<lambda>d w. snd (s_ablpop (psim_sem down skew c) k d w))"
      unfolding waits_for_def m by (smt (verit, best) divide_pos_pos zero_less_numeral zero_less_one)+
  qed
  have r: "psim_now (snd (s_uniform (psim_sem down skew c) u v x)) = psim_now x"
    "psim_now (snd (s_uuid_hex (psim_sem down skew c) x)) = psim_now x"
    "psim_now (s_metric (psim_sem down skew c) k x) = psim_now x" for u v k x
    by (simp_all add: psim_sem_def part_env_def sim_env_def snd_on_part psim_now_def psim_put_def)
  show ?thesis unfolding timely_def m f using call sl b r by simp
qed

subsection \<open>An upstream that answers as it is told\<close>

text \<open>
  A client that gets \<open>answer\<close> for every request and then the chunks that are left; while it waits for a
  request or a chunk, \<open>meanwhile\<close> happens. For a request with a slot that is a step of its heartbeat.
\<close>

definition told_http ::
  "('y \<Rightarrow> 'y) \<Rightarrow> ('y \<Rightarrow> string list) \<Rightarrow> (string list \<Rightarrow> 'y \<Rightarrow> 'y) \<Rightarrow> py_exn + http_response \<Rightarrow> 'y http_env" where
  "told_http meanwhile chunks put_chunks answer =
     \<lparr>h_post = (\<lambda>url payload hs y. (answer, meanwhile y)), h_send_json = (\<lambda>url payload hs y. (answer, meanwhile y)),
      h_send_content = (\<lambda>verb url body hs y. (answer, meanwhile y)),
      h_aread = (\<lambda>y. (Inr (case answer of Inl _ \<Rightarrow> [] | Inr rsp \<Rightarrow> hr_content rsp), y)),
      h_aclose = (\<lambda>y. (None, y)),
      h_next_chunk = (\<lambda>y. case chunks y of [] \<Rightarrow> (Inr None, y) | c # cs \<Rightarrow> (Inr (Some c), put_chunks cs (meanwhile y))),
      h_yield = (\<lambda>chunk y. (None, y))\<rparr>"

definition psim_left :: "sem_obj \<times> proxy_app \<times> psim \<Rightarrow> string list" where
  "psim_left y = snd (snd (snd y))"

definition psim_beat :: "(ms \<Rightarrow> bool) \<Rightarrow> ms \<Rightarrow> semaphore_config \<Rightarrow> sem_obj \<times> proxy_app \<times> psim \<Rightarrow> sem_obj \<times> proxy_app \<times> psim" where
  "psim_beat down skew c y = snd (heartbeat_refresh (psim_sem down skew c) ASYNC y)"

definition psim_routes ::
  "(ms \<Rightarrow> bool) \<Rightarrow> ms \<Rightarrow> semaphore_config \<Rightarrow> json \<Rightarrow> py_exn + http_response \<Rightarrow> psim route_env" where
  "psim_routes down skew c payload answer =
     \<lparr>r_env = psim_env down skew c, r_loads = json_loads, r_json = (\<lambda>x. (Inr payload, x)),
      r_body = (\<lambda>x. (Inr (json_dumps payload), x)),
      r_http = told_http (psim_beat down skew c) psim_left (\<lambda>cs y. (fst y, fst (snd y), fst (snd (snd y)), cs)) answer,
      r_plain_http = told_http (\<lambda>x. x) (\<lambda>x. snd (snd x)) (\<lambda>cs x. (fst x, fst (snd x), cs)) answer,
      r_utc_now = psim_now, r_perf_counter = psim_now, r_log = (\<lambda>line x. x), r_str = (\<lambda>e. ''error''),
      r_decode = (\<lambda>t. t), r_phrase = (\<lambda>n. None), r_format_g = (\<lambda>t. int_str \<lfloor>t\<rfloor>)\<rparr>"

lemma psim_beat_held: "slot_held (fst y) \<Longrightarrow> slot_held (fst (psim_beat down skew c y))"
  using slot_held_heartbeat(1) [of "fst y" "psim_sem down skew c" "snd y"] by (simp add: psim_beat_def)

interpretation psim_client: http_client "psim_routes down skew c payload answer"
  by unfold_locales (simp_all add: psim_routes_def told_http_def psim_beat_held split: list.split)

interpretation psim_stream: upstream_stream "psim_routes down skew c payload answer" psim_left
  by unfold_locales (auto simp: psim_routes_def told_http_def psim_left_def split: list.splits)

interpretation psim_zsets: zset_commands "psim_env down skew c" "\<lambda>x. sim_store (fst (snd x))"
  by unfold_locales
     (auto simp: psim_env_def psim_zset_def sim_store_def psim_put_def split: prod.splits)

subsection \<open>Two requests\<close>

definition run_start :: "bool \<Rightarrow> string list \<Rightarrow> proxy_app \<times> psim" where
  "run_start available chunks = (app_state default_config available, sim_start 5000, chunks)"

definition run_sem :: semaphore_config where
  "run_sem = pool_config (pool_base default_config) (semaphore_key_name ''c'' ''m'')"

definition run_slot :: sem_obj where
  "run_slot = psim_slot run_sem ''0a0:5000000000'' 1 125000"

lemma run_start_ok: "pool_ok default_config (pa_pool (fst (run_start available chunks)))"
  "app_ok default_config (fst (run_start available chunks))"
  using new_pool_ok [of default_config] by (simp_all add: run_start_def app_state_def app_ok_def pool_base_def)

lemma run_acquire:
  "\<exists>y. acquire_slot (psim_env (\<lambda>_. False) skew k) default_config ''c'' ''m'' (run_start True chunks) = Some (Inr run_slot, y) \<and>
     snd (snd y) = chunks \<and> owners (owners_key run_sem) (sim_store (fst (snd y))) ''0a0:5000000000'' = Some 125000"
proof -
  let ?x = "run_start True chunks"
  let ?r = "acquire_script doc_redis (owners_key run_sem) (fencing_key run_sem) ''0a0:5000000000'' 5 120000 None (empty_view 5000)"
  have i: "psim_ident (fst (snd ?x)) = ''0a0:5000000000''" by (simp add: run_start_def psim_ident_def) code_simp
  have k: "sc_limit run_sem = 5" "py_int (sc_lock_timeout run_sem * 1000) = 120000" "sim_store (fst (snd ?x)) = empty_view 5000"
    by (simp_all add: run_start_def run_sem_def default_config_def proxy_settings_defaults_def pool_limit_def py_int_def)
  have g: "fst ?r = grant_resp (Granted 1 125000 1)" "owners (owners_key run_sem) (snd ?r) ''0a0:5000000000'' = Some 125000"
    by code_simp+
  have r: "acquire_script doc_redis (owners_key run_sem) (fencing_key run_sem) (psim_ident (fst (snd ?x))) (sc_limit run_sem)
      (py_int (sc_lock_timeout run_sem * 1000)) None (sim_store (fst (snd ?x))) = (grant_resp (Granted 1 125000 1), snd ?r)"
    unfolding i k using g(1) by (intro prod_eqI) simp_all
  obtain y where y: "try_slot (psim_env (\<lambda>_. False) skew k) ''c'' ''m'' ?x = Some (Inr run_slot, y)"
    "sim_store (fst (snd y)) = snd ?r" "snd (snd y) = chunks"
    using psim_try_slot [OF default_config_ok run_start_ok(1) run_sem_def r, of skew k] unfolding i run_slot_def [symmetric]
    by (auto simp: run_start_def)
  have "redis_is_available ?x" by (simp add: redis_is_available_def run_start_def app_state_def)
  from acquire_slot_tries [OF this, of default_config] y g(2) show ?thesis
    by (simp add: default_config_def proxy_settings_defaults_def)
qed

subsection \<open>An outage\<close>

lemma down_call:
  "fst (call_acquire (psim_sem (\<lambda>_. True) skew c) ASYNC S i x) = Inl (RawExn broken)"
  "fst (snd (call_acquire (psim_sem (\<lambda>_. True) skew c) ASYNC S i x)) = fst x"
proof -
  have e: "fst (evalsha_or_eval doc_sha1 (outage_client (\<lambda>_. True)) h n args w) = Inl (RawExn broken)" for h n args w
    by (auto simp: evalsha_or_eval_def outage_client_def isinstance_def broken_def split: prod.split)
  have "fst (script_call doc_sha1 (aevalsha doc_sha1 (outage_client (\<lambda>_. True))) ''acquire'' keys args parse w) =
      Inl (RawExn broken)" for keys args w and parse :: "pyobj \<Rightarrow> py_exn + bool \<times> int option \<times> ms option \<times> int"
    using e [of "doc_sha1 ACQUIRE_SCRIPT" "length keys" "map AStr keys @ args" w]
    by (auto simp: script_call_def sim_server.get_sha_script [of _ ACQUIRE_SCRIPT] SCRIPTS_def aevalsha_def
        outage_client_times(1) split: prod.split)
  then show "fst (call_acquire (psim_sem (\<lambda>_. True) skew c) ASYNC S i x) = Inl (RawExn broken)"
    "fst (snd (call_acquire (psim_sem (\<lambda>_. True) skew c) ASYNC S i x)) = fst x"
    unfolding psim_sem_def call_acquire_part [OF psim_part]
    by (simp_all add: fst_on_part snd_on_part psim_put_def call_acquire_def runner_acquire_async_def sim_env_def)
qed

lemma down_try:
  assumes "config_ok C" and "pool_ok C (pa_pool (fst x))"
  shows "\<exists>e y. try_slot (psim_env (\<lambda>_. True) skew k) client_id model x = Some (Inl (SemError (Backend e)), y) \<and>
    be_class e = RedisConnectionError \<and> redis_is_available y = redis_is_available x"
proof -
  let ?E = "psim_sem (\<lambda>_. True) skew k" 
  let ?S = "new_semaphore (pool_config (pool_base C) (semaphore_key_name client_id model)) (Some 10)"
  obtain P where g: "get_semaphore (Some 10) client_id model (pa_pool (fst x)) = (Inr ?S, P)"
    using pool_gives [OF assms, folded pool_config_named] by blast
  let ?x = "apfst (\<lambda>A. A\<lparr>pa_pool := P\<rparr>) x"
  obtain i T where en: "ensure_identifier ?E ?S ?x = (i, T, ?x)"
    by (cases x) (auto simp: ensure_identifier_def generate_identifier_def psim_sem_def part_env_def sim_env_def
        on_part_def psim_put_def new_semaphore_def)
  obtain y where c: "call_acquire ?E ASYNC T i ?x = (Inl (RawExn broken), y)" "fst y = fst ?x"
    using down_call [of skew k T i ?x] by (metis prod.collapse)
  have "acquire_checks ?S ASYNC = Inr ()"
    by (simp add: acquire_checks_def check_mode_def check_lock_lost_def check_reacquire_def new_semaphore_def)
  then have "acquire_with ?E ASYNC True ?S ?x = Some (Inl (RawExn broken), T, y)"
    using en c(1) by (simp add: acquire_with_def acquire_round_def)
  moreover have "redis_is_available y = redis_is_available x"
    using c(2) by (simp add: redis_is_available_def)
  ultimately show ?thesis
    using g by (auto simp: try_slot_def psim_env_def sem_acquire_Some backend_errors_def isinstance_def broken_def
        map_backend_error_def starts_with_def)
qed

theorem outage_escapes_the_retry_witness:
  "\<exists>e y. acquire_slot (psim_env (\<lambda>_. True) 0 run_sem) default_config ''c'' ''m'' (run_start True []) =
      Some (Inl (Lib (SemError (Backend e))), y) \<and> be_class e = RedisConnectionError \<and> redis_is_available y"
proof -
  have "redis_is_available (run_start True [])" "0 < ps_semaphore_acquire_timeout (ac_settings default_config)"
    by (simp_all add: redis_is_available_def run_start_def app_state_def default_config_def proxy_settings_defaults_def)
  from outage_escapes_the_retry [OF this, of "psim_env (\<lambda>_. True) 0 run_sem" "''c''" "''m''"] this(1)
    down_try [OF default_config_ok run_start_ok(1), of 0 run_sem "''c''" "''m''" True "[]"] show ?thesis
    by auto
qed

text \<open>With Redis unreachable and known to be, the wait ends within the budget and the request is refused.\<close>

theorem acquire_slot_returns_in_time_witness:
  "\<exists>r y. acquire_slot (psim_env (\<lambda>_. True) 0 run_sem) default_config ''c'' ''m'' (run_start False []) = Some (r, y) \<and>
     psim_now y \<le> 400 + 5 / 1000"
proof -
  let ?E = "psim_env (\<lambda>_. True) 0 run_sem"
  have s: "x_sem ?E = psim_sem (\<lambda>_. True) 0 run_sem" by (simp add: psim_env_def)
  have tm: "timely (x_sem ?E) ASYNC (1 / 1000) (2 / 1000) (1 / 1000)" unfolding s by (rule psim_timely)
  have p: "pool_ok default_config (pa_pool A)" if "app_ok default_config A" for A using that by (simp add: app_ok_def)
  have i: "0 < ps_redis_check_interval (ac_settings default_config)"
    by (simp add: default_config_def proxy_settings_defaults_def)
  have b: "ps_semaphore_acquire_timeout (ac_settings default_config) = 200" "psim_now (run_start False []) = 0"
    by (simp_all add: default_config_def proxy_settings_defaults_def run_start_def psim_now_def sim_start_def)
  show ?thesis
    using acquire_slot_returns_in_time [OF psim_recovering.recovering_axioms default_config_ok i
        run_start_ok(2) [of False "[]"] p tm, of "''c''" "''m''"]
    by (simp add: psim_monotonic b del: split_paired_Ex)
qed

end
