(* ===== verification/ProxyServed.thy ===== *)
theory ProxyServed
  imports ProxyRuns
begin

section \<open>The LLM proxy: requests that are served\<close>

text \<open>
  Requests of client \<open>c\<close> for model \<open>m\<close> in the simulated world, from the header to the release: an
  embeddings request, a chat request, a stream with its usage, a stream that cannot be sent, and the status
  page on a host whose clock is ahead.
\<close>

definition run_request :: "string \<Rightarrow> http_request" where
  "run_request path = \<lparr>rq_method = ''POST'', rq_path = path, rq_query = [], rq_headers = [(''x-client-id'', ''c'')]\<rparr>"

definition run_payload :: "bool \<Rightarrow> json" where
  "run_payload stream = JObj [(''model'', JStr ''m''), (''stream'', JBool stream)]"

definition run_answer :: http_response where
  "run_answer = \<lparr>hr_status = 200, hr_headers = [(''content-type'', ''application/json'')], hr_content = ''{}'',
     hr_text = ''{}'', hr_reason = ''OK''\<rparr>"

lemma run_targets:
  "resolve_upstream default_config (run_request ''/v1/embeddings'') ''c'' ''m'' =
     Inr (''https://api.openai.com/v1/embeddings'', [(''x-client-id'', ''c'')])"
  "resolve_upstream default_config (run_request ''/v1/chat/completions'') ''c'' ''m'' =
     Inr (''https://api.openai.com/v1/chat/completions'', [(''x-client-id'', ''c'')])"
  by code_simp+

lemma run_open:
  assumes "resolve_upstream default_config (run_request path) ''c'' ''m'' = Inr target"
  shows "\<exists>ctx y. open_request (psim_routes (\<lambda>_. False) skew k (run_payload stream) answer) default_config wants
      (run_request path) (run_start True chunks) = Some (Inr (ctx, run_payload stream, target, run_slot), y) \<and>
    cx_stream ctx = wants (run_payload stream) \<and> snd (snd y) = chunks"
proof -
  let ?R = "psim_routes (\<lambda>_. False) skew k (run_payload stream) answer" and ?x = "run_start True chunks"
  obtain y where y: "acquire_slot (r_env ?R) default_config ''c'' ''m'' ?x = Some (Inr run_slot, y)" "snd (snd y) = chunks"
    using run_acquire [of skew k chunks] by (auto simp: psim_routes_def)
  have i: "parse_client_id (rq_headers (run_request path)) = Some ''c''"
    unfolding run_request_def http_request.select_convs by code_simp
  have m: "model_of_payload (run_payload stream) = Inr ''m''"
    by (cases stream) code_simp+
  have "r_json ?R x = (Inr (run_payload stream), x)" for x by (simp add: psim_routes_def)
  then obtain ctx where "parse_proxy_request ?R (run_request path) (make_context ?R (run_request path) ?x) ?x =
      (Inr (''c'', ''m'', run_payload stream), ctx, ?x)"
    using i m by (simp add: parse_proxy_request_def Let_def)
  with y assms show ?thesis by (simp add: open_request_def slot_for_request_def Let_def)
qed

text \<open>With Redis up the release raises nothing.\<close>

lemma run_release:
  assumes "slot_held S"
  shows "\<exists>S' x'. log_and_release (psim_routes (\<lambda>_. False) skew k payload answer) ctx queue_wait start f (S, x) = (None, S', x')"
proof -
  let ?E = "psim_sem (\<lambda>_. False) skew k"
  obtain i where i: "so_identifier S = Some i" "check_mode S ASYNC = Inr ()"
    using assms by (auto simp: slot_held_def sem_ok_def check_mode_def)
  let ?T = "stop_heartbeat_of ASYNC S" and ?w = "fst (snd x)"
  obtain n v where r: "release_script doc_redis (owners_key (so_config ?T)) i (sim_store ?w) = (RInt n, v)"
    by (cases "doc_zrem (owners_key (so_config ?T)) i (sim_store ?w)") (simp add: release_script_def)
  obtain w where w: "runner_release_async doc_sha1 (sim_client True True) (owners_key (so_config ?T)) i ?w = (Inr (n \<noteq> 0), w)"
    using sim_server.release_runs [OF TrueI r, where is_async = True and decode = True] by auto
  have "call_release ?E ASYNC ?T i x = (Inr (n \<noteq> 0), psim_put w x)"
    unfolding psim_sem_def call_release_part [OF psim_part]
    by (rule on_part_eq) (use w in \<open>simp add: call_release_def sim_env_def calm_client\<close>)
  then have "\<exists>b U y. sem_arelease ?E S x = (Inr b, U, y)"
    using i by (simp add: sem_arelease_def boundary_def arelease_body_def release_with_def Let_def del: split_paired_Ex)
  then show ?thesis
    by (auto simp: log_and_release_def ctx_log_def release_quietly_def psim_routes_def psim_env_def)
qed

lemma run_forward:
  "\<exists>f. forward_request (psim_routes down skew k payload (Inr run_answer)) url payload' hs y =
     (Inr (BytesReply 200 ''{}'' [(''content-type'', ''application/json'')] (Some ''application/json'')), f, psim_beat down skew k y)"
proof -
  have "filter_response_headers [(''content-type'', ''application/json'')] = [(''content-type'', ''application/json'')]"
    by code_simp
  then show ?thesis
    by (simp add: forward_request_def psim_routes_def told_http_def run_answer_def split: prod.split)
qed

lemma run_handled:
  assumes "slot_held S"
  shows "\<exists>S' x'. handle_non_streaming (psim_routes (\<lambda>_. False) skew k payload (Inr run_answer)) ctx queue_wait start url hs
      payload' (S, x) =
    (Inr (BytesReply 200 ''{}'' [(''content-type'', ''application/json'')] (Some ''application/json'')), S', x')"
    "\<exists>S' x'. embed_request (psim_routes (\<lambda>_. False) skew k payload (Inr run_answer)) ctx queue_wait start url hs
      payload' (S, x) =
    (Inr (BytesReply 200 ''{}'' [(''content-type'', ''application/json'')] (Some ''application/json'')), S', x')"
proof -
  let ?R = "psim_routes (\<lambda>_. False) skew k payload (Inr run_answer)"
  obtain f T z where f: "forward_request ?R url payload' hs (S, x) =
      (Inr (BytesReply 200 ''{}'' [(''content-type'', ''application/json'')] (Some ''application/json'')), f, T, z)" "slot_held T"
    using run_forward [of "\<lambda>_. False" skew k payload url payload' hs "(S, x)"] psim_beat_held [of "(S, x)"] assms
    by (metis fst_conv prod.collapse)
  have "\<exists>S' x'. log_and_release ?R ctx queue_wait start g (T, z) = (None, S', x')" for g by (rule run_release [OF f(2)])
  then obtain U u V v where "log_and_release ?R ctx queue_wait start f (T, z) = (None, U, u)"
    "log_and_release ?R ctx queue_wait start (f\<lparr>lf_output_tokens := None\<rparr>) (T, z) = (None, V, v)" by metis
  with f(1) show "\<exists>S' x'. handle_non_streaming ?R ctx queue_wait start url hs payload' (S, x) =
      (Inr (BytesReply 200 ''{}'' [(''content-type'', ''application/json'')] (Some ''application/json'')), S', x')"
    "\<exists>S' x'. embed_request ?R ctx queue_wait start url hs payload' (S, x) =
      (Inr (BytesReply 200 ''{}'' [(''content-type'', ''application/json'')] (Some ''application/json'')), S', x')"
    by (simp_all add: handle_non_streaming_def embed_request_def unless_raised_def del: split_paired_Ex)
qed

subsection \<open>Answers in one piece\<close>

theorem embeddings_release_their_slot_witness:
  "\<exists>hs S' x'. proxy_embeddings (psim_routes (\<lambda>_. False) 0 run_sem (run_payload False) (Inr run_answer)) default_config
      (run_request ''/v1/embeddings'') (run_start True []) =
      Some (Inr (BytesReply 200 ''{}'' hs (Some ''application/json'')), Some S', x') \<and> no_heartbeat S'"
proof -
  let ?R = "psim_routes (\<lambda>_. False) 0 run_sem (run_payload False) (Inr run_answer)"
  obtain ctx url hs y where o: "open_request ?R default_config (\<lambda>_. False) (run_request ''/v1/embeddings'')
      (run_start True []) = Some (Inr (ctx, run_payload False, (url, hs), run_slot), y)"
    using run_open [OF run_targets(1)] by blast
  obtain S' x' where h: "embed_request ?R ctx (r_perf_counter ?R y - cx_queue_start ctx) (r_perf_counter ?R y) url hs
      (run_payload False) (run_slot, y) =
      (Inr (BytesReply 200 ''{}'' [(''content-type'', ''application/json'')] (Some ''application/json'')), S', x')"
    using run_handled(2) [OF open_request_held [OF o]] by blast
  have e: "proxy_embeddings ?R default_config (run_request ''/v1/embeddings'') (run_start True []) =
      Some (Inr (BytesReply 200 ''{}'' [(''content-type'', ''application/json'')] (Some ''application/json'')), Some S', x')"
    using o h by (simp add: proxy_embeddings_def Let_def)
  from embeddings_release_their_slot [OF psim_client.http_client_axioms e] e show ?thesis
    unfolding slot_closed_def given_up_def by blast
qed

theorem chat_answers_after_release_witness:
  "\<exists>hs S' x'. proxy_chat_completions (psim_routes (\<lambda>_. False) 0 run_sem (run_payload False) (Inr run_answer))
      default_config (run_request ''/v1/chat/completions'') (run_start True []) =
      Some (Inr (BytesReply 200 ''{}'' hs (Some ''application/json'')), Some S', x') \<and> no_heartbeat S'"
proof -
  let ?R = "psim_routes (\<lambda>_. False) 0 run_sem (run_payload False) (Inr run_answer)"
  have "\<not> wants_stream (run_payload False)" by code_simp
  then obtain ctx url hs y where o: "open_request ?R default_config wants_stream (run_request ''/v1/chat/completions'')
      (run_start True []) = Some (Inr (ctx, run_payload False, (url, hs), run_slot), y)" and c: "\<not> cx_stream ctx"
    using run_open [OF run_targets(2), of 0 run_sem False "Inr run_answer" wants_stream "[]"] by auto
  obtain S' x' where h: "handle_non_streaming ?R ctx (r_perf_counter ?R y - cx_queue_start ctx) (r_perf_counter ?R y) url hs
      (run_payload False) (run_slot, y) =
      (Inr (BytesReply 200 ''{}'' [(''content-type'', ''application/json'')] (Some ''application/json'')), S', x')"
    using run_handled(1) [OF open_request_held [OF o]] by blast
  have e: "proxy_chat_completions ?R default_config (run_request ''/v1/chat/completions'') (run_start True []) =
      Some (Inr (BytesReply 200 ''{}'' [(''content-type'', ''application/json'')] (Some ''application/json'')), Some S', x')"
    using o h c by (simp add: proxy_chat_completions_def Let_def)
  from chat_answers_after_release [OF psim_client.http_client_axioms e] have "no_heartbeat S'"
    by (auto simp: slot_closed_def given_up_def)
  with e show ?thesis by blast
qed

text \<open>A payload that cannot be encoded: the route raises, the slot is kept and its heartbeat runs.\<close>

lemma psim_beat_object:
  "so_state (fst (psim_beat down skew c y)) = so_state (fst y) \<and>
   so_async_heartbeat (fst (psim_beat down skew c y)) = so_async_heartbeat (fst y)"
  by (cases y) (auto simp: psim_beat_def heartbeat_refresh_def split: prod.split sum.split)

lemma run_slot_object: "so_state run_slot = ACQUIRED" "so_async_heartbeat run_slot \<noteq> None"
  by (simp_all add: run_slot_def psim_slot_def with_heartbeat_def start_heartbeat_async_def refresh_interval_def
      new_semaphore_def run_sem_def default_config_def proxy_settings_defaults_def)

theorem failed_send_keeps_the_slot_witness:
  "\<exists>S' x'. proxy_chat_completions (psim_routes (\<lambda>_. False) 0 run_sem (run_payload True) (Inl PyValueError))
      default_config (run_request ''/v1/chat/completions'') (run_start True []) = Some (Inl (Lib PyValueError), Some S', x') \<and>
    slot_held S' \<and> so_state S' = ACQUIRED \<and> so_async_heartbeat S' \<noteq> None"
proof -
  let ?R = "psim_routes (\<lambda>_. False) 0 run_sem (run_payload True) (Inl PyValueError)"
  have "wants_stream (run_payload True)" by code_simp
  then obtain ctx url hs y where o: "open_request ?R default_config wants_stream (run_request ''/v1/chat/completions'')
      (run_start True []) = Some (Inr (ctx, run_payload True, (url, hs), run_slot), y)" and c: "cx_stream ctx"
    using run_open [OF run_targets(2), of 0 run_sem True "Inl PyValueError" wants_stream "[]"] by auto
  obtain T z where t: "psim_beat (\<lambda>_. False) 0 run_sem (run_slot, y) = (T, z)" by (rule prod.exhaust)
  then have s: "h_send_json (r_http ?R) url (run_payload True) hs (run_slot, y) = (Inl PyValueError, T, z)"
    by (simp add: psim_routes_def told_http_def)
  have "\<not> is_http_error PyValueError" by (simp add: is_http_error_def)
  from failed_send_keeps_the_slot [OF psim_client.http_client_axioms o c s this] show ?thesis
    using psim_beat_object [of "\<lambda>_. False" 0 run_sem "(run_slot, y)"] run_slot_object t
    by (intro exI [of _ T] exI [of _ z]) simp
qed

subsection \<open>A stream\<close>

text \<open>With the slot kept, the body forwards all chunks.\<close>

lemma run_body:
  assumes "so_state (fst y) \<noteq> LOST" and "slot_held (fst y)"
  shows "\<exists>T z. repeat_until (body_round (psim_routes down skew k payload answer)) (sent, u, y) =
      Some ((None, False), sent @ psim_left y, fold (feed_chunk json_loads) (psim_left y) u, T, z) \<and> slot_held T"
  using assms
proof (induction "psim_left y" arbitrary: y sent u)
  case Nil
  have "body_round (psim_routes down skew k payload answer) (sent, u, y) = Inl ((None, False), sent, u, y)"
    using Nil(1) by (simp add: body_round_def psim_routes_def told_http_def split: prod.split)
  with Nil show ?case by (cases y) simp
next
  case (Cons chunk left)
  let ?b = "psim_beat down skew k y"
  let ?y = "(fst ?b, fst (snd ?b), fst (snd (snd ?b)), left)"
  have b: "so_state (fst ?y) \<noteq> LOST" "slot_held (fst ?y)" "left = psim_left ?y"
    using psim_beat_object [of down skew k y] psim_beat_held [of y] Cons(3,4) by (simp_all add: psim_left_def)
  have "body_round (psim_routes down skew k payload answer) (sent, u, y) =
      Inr (sent @ [chunk], feed_chunk json_loads chunk u, ?y)"
    using Cons(2) [symmetric] b(1) by (simp add: body_round_def psim_routes_def told_http_def Let_def)
  with Cons(1) [OF b(3) b(1,2), of "sent @ [chunk]" "feed_chunk json_loads chunk u"] Cons(2) [symmetric]
      b(3) [symmetric]
  show ?case by (simp add: repeat_until_Inr del: split_paired_Ex)
qed

definition run_chunks :: "string list" where
  "run_chunks =
     [''data: {'' @ CHR 0x22 # ''usage'' @ CHR 0x22 # '': {'' @ CHR 0x22 # ''prompt_tokens'' @ CHR 0x22 # '': 3, '' @
        CHR 0x22 # ''compl'',
      ''etion_tokens'' @ CHR 0x22 # '': 7}}'' @ newline # ''data: [DONE]'']"

theorem stream_releases_and_logs_its_usage_witness:
  "\<exists>ctx S' x'. stream_body (psim_routes (\<lambda>_. False) 0 run_sem (run_payload True) (Inr run_answer)) ctx 0 0 200
      (run_slot, run_start True run_chunks) = Some (Inr (), run_chunks, S', x') \<and> no_heartbeat S' \<and>
    usage_of_text json_loads (concat run_chunks) = (Some (JNum ''3''), Some (JNum ''7''))"
proof -
  let ?R = "psim_routes (\<lambda>_. False) 0 run_sem (run_payload True) (Inr run_answer)"
  obtain y where h: "slot_held run_slot"
    using open_request_held run_open [OF run_targets(1)] by (metis prod.collapse)
  have l: "psim_left (run_slot, run_start True run_chunks) = run_chunks" by (simp add: psim_left_def run_start_def)
  obtain T z where b: "repeat_until (body_round ?R) ([], ([], None, None), run_slot, run_start True run_chunks) =
      Some ((None, False), run_chunks, fold (feed_chunk json_loads) run_chunks ([], None, None), T, z)" "slot_held T"
    using run_body [of "(run_slot, run_start True run_chunks)" "\<lambda>_. False" 0 run_sem "run_payload True" "Inr run_answer" "[]"
        "([], None, None)"] run_slot_object(1) h unfolding l by auto
  have c: "h_aclose (r_http ?R) v = (None, v)" for v by (simp add: psim_routes_def told_http_def)
  define ctx where "ctx = make_context ?R (run_request ''/v1/chat/completions'') (run_start True run_chunks)"
  obtain S' x' where "finish_body ?R ctx 0 0 200 False (fold (feed_chunk json_loads) run_chunks ([], None, None)) (T, z) =
      (None, S', x')"
    using run_release [OF b(2)] c by (simp add: finish_body_def Let_def del: split_paired_Ex) blast
  with b(1) have s: "stream_body ?R ctx 0 0 200 (run_slot, run_start True run_chunks) = Some (Inr (), run_chunks, S', x')"
    by (simp add: stream_body_def unless_raised_def)
  have u: "usage_of_text json_loads (concat run_chunks) = (Some (JNum ''3''), Some (JNum ''7''))" by code_simp
  from stream_releases_and_logs_its_usage [OF psim_stream.upstream_stream_axioms h s] have "no_heartbeat S'"
    unfolding c by (auto simp: given_up_def)
  with s u show ?thesis by blast
qed

subsection \<open>The status page\<close>

text \<open>A lease until 125000 on the server's clock, which is at 5000; the host's is at 135000. The lease is
  gone after the status page, and another client gets the only slot.\<close>

definition status_start :: "proxy_app \<times> psim" where
  "status_start = (app_state default_config True,
     ((put_zset ''llm_proxy:client_c:m:owners'' [(125000, ''a'')] (empty_view 5000), []), 0), [])"

theorem status_removes_leases_by_host_clock_witness:
  "\<exists>y. get_used_slots (psim_env (\<lambda>_. False) 130000 run_sem) ''client_c:m'' status_start = (Inr 0, y) \<and>
     zsets (sim_store (fst (snd y))) ''llm_proxy:client_c:m:owners'' = []"
proof -
  let ?E = "psim_env (\<lambda>_. False) 130000 run_sem" and ?k = "''llm_proxy:client_c:m:owners''"
  have k: "sp_namespace (pa_pool (fst status_start)) @ '':'' @ ''client_c:m'' @ '':owners'' = ?k"
    by (simp add: status_start_def app_state_def new_pool_def default_config_def proxy_settings_defaults_def)
  have t: "py_int (s_time (x_sem ?E) status_start * 1000) = 135000"
    by (simp add: psim_env_def psim_sem_def part_env_def status_start_def sim_store_def clock_ms_def put_zset_def
        empty_view_def py_int_def)
  obtain y where y: "get_used_slots ?E ''client_c:m'' status_start = (Inr 0, y)"
    unfolding get_used_slots_def k t Let_def
    by (simp add: psim_env_def psim_zset_def status_start_def doc_zremrange_def put_zset_def psim_put_def Let_def)
  have z: "zsets (sim_store (fst (snd status_start))) ?k = [(125000, ''a'')]"
    by (simp add: status_start_def sim_store_def put_zset_def)
  from status_removes_leases_by_host_clock [OF psim_zsets.zset_commands_axioms y _ k [symmetric]] z t y show ?thesis
    by auto
qed

end
