(* ===== verification/Spec2Isabelle.thy ===== *)
theory Spec2Isabelle
  imports SemProps RateAdjust DispatchScripts RunnerProps ConfigProps RateLimiterProps FleetProps DispatchStop Connection
    ProxyServed
begin

text \<open>
  A verification library for \<open>redis_semaphore\<close> (\<open>src/src/redis_semaphore\<close>): distributed semaphores,
  rate limiters and job queues over Redis. File names below are relative to that directory,
  those of the proxy to its own.

  \<^bold>\<open>The program.\<close> All shared state is in Redis and changes in Lua scripts (\<open>lua_scripts.py\<close>), which
  the server runs one at a time. A semaphore is a sorted set of owners with their expiry, a counter of
  fencing tokens and a list that waiters block on. A rate limiter keeps per limit a log of admitted
  requests and a running total. A queue is a stream with a marker per submit. Clients reach the scripts
  through a registry and an adapter (EVALSHA, then EVAL after NOSCRIPT); \<open>semaphore.py\<close> keeps the
  state of one holder and its waiting loop, \<open>heartbeat.py\<close> refreshes a held slot in the background,
  \<open>rate_limiter.py\<close> waits for permits and settles their costs, \<open>errors.py\<close> translates what redis-py
  raises, \<open>types.py\<close> validates the configurations, \<open>metrics.py\<close> records, and \<open>dispatch.py\<close> runs job
  queues: producers wait for a reply list, workers compete for the queues' leadership and run handlers.

  \<^bold>\<open>The theories.\<close>
  \<^item> \<open>Prelude\<close>: type names, decimal texts, lists, and \<open>repeat_until\<close>, the loop of every waiting method
    (a \<open>partial_function\<close>: not ending is \<open>None\<close>), with its rules for invariants and for ending.
  \<^item> \<open>Redis\<close>: the commands as a record over any state type; the locale \<open>redis\<close> says what the program
    relies on, through a view of the keyspace; the documented behaviour on the view interprets it. What
    happens between two scripts is \<open>env_step\<close>: the clock moves on and keys whose time has come vanish.
  \<^item> \<open>SemScripts\<close>, \<open>RateScripts\<close>, \<open>DispatchScripts\<close>: the scripts, statement by statement.
  \<^item> \<open>SemSpec\<close>, \<open>SemSystem\<close>, \<open>SemProps\<close>: the semaphore as a set of leases; the scripts are such a
    \<open>lease_store\<close>; runs of any number of clients, and their safety and liveness.
  \<^item> \<open>RateView\<close>, \<open>RateSystem\<close>, \<open>RateRuns\<close>, \<open>RateProps\<close>, \<open>RateAdjust\<close>: the limiter's logs as the
    specification, refinement by the scripts, runs of any number of clients, settlement of costs.
  \<^item> \<open>Errors\<close>, \<open>ScriptRunner\<close>, \<open>RunnerProps\<close>: exceptions as a datatype and a sum; the registry, the
    adapter and the typed helpers; the locale \<open>script_server\<close> for what redis-py and the server promise.
  \<^item> \<open>Config\<close>, \<open>ConfigProps\<close>: configurations as records with their validation; key names; intervals.
  \<^item> \<open>Heartbeat\<close>, \<open>Metrics\<close>: the refreshing loop; the collectors.
  \<^item> \<open>SemaphoreClient\<close>, \<open>SemaphoreSim\<close>, \<open>SemaphoreProps\<close>, \<open>SemaphoreAcquire\<close>: the methods of a
    semaphore object as functions on its record and the world; a simulated world for the witnesses; the
    object's invariant, release, how and when acquire ends.
  \<^item> \<open>SemaphoreFleet\<close>, \<open>FleetProps\<close>: many objects on one store, over a connection that loses requests and
    replies; what the objects believe is covered by what the store holds.
  \<^item> \<open>RateLimiter\<close>, \<open>RateLimiterProps\<close>: the limiter's methods; costs, time and adjusting.
  \<^item> \<open>Json\<close>: \<open>json.dumps\<close> and \<open>json.loads\<close> on texts, with the round trip of every value.
  \<^item> \<open>DispatchQueue\<close>, \<open>DispatchWorker\<close>: \<open>dispatch.py\<close>. The producer's methods and their waiting loop;
    the worker's coroutines as functions on the worker's state and the world: election, reading,
    reclaiming and dispatching entries, handler tasks, touching, shutdown. The event loop changes tasks
    only at an await, so everything else that runs meanwhile is in what an awaited operation returns.
  \<^item> \<open>DispatchProps\<close>: what travels through a queue arrives as it was sent; how long a submit takes.
  \<^item> \<open>DispatchStreams\<close>, \<open>DispatchSafety\<close>, \<open>DispatchKept\<close>: the stream of a queue as labelled steps
    (submitted, answered, dropped, handed to a consumer, seen without pending jobs, pruned with the jobs
    it has then) and their invariant; the locale \<open>queue_server\<close> for what a worker's environment promises,
    only documented effects of the commands; in it every coroutine moves the stream by such steps only.
    \<open>DispatchSim\<close> interprets it on the documented stream commands; \<open>DispatchJobs\<close> draws the conclusion: no
    job is lost, except by the race of a pruning with a delivery, and in that race it is.
  \<^item> \<open>DispatchFlow\<close>, \<open>DispatchStop\<close>: the jobs of a queue run one at a time until they are admitted; a
    stopping leader waits for no handler but the one it has cancelled (a handler that goes on after it was
    cancelled keeps its leader: cancelling is \<open>None\<close> then).
  \<^item> \<open>Connection\<close>: the connection settings and the calls the factory makes; blocking waits end before the
    socket timeout that was configured.

  \<^item> \<open>SemaphorePart\<close>: a semaphore whose world is a part of a larger program's world; the simulated worlds
    of the workers and of the proxy are made of it.

  \<^bold>\<open>The proxy.\<close> \<open>src/examples/fastapi_llm_proxy/llm_proxy\<close> is an application on top of the library: it
  forwards requests to a language model and holds a semaphore slot of the client and model meanwhile.
  \<^item> \<open>ProxyText\<close>, \<open>ProxyTextProps\<close>: headers, URLs, usage numbers, answers, the override file
    (\<open>upstream.py\<close>, \<open>request_logging.py\<close>, \<open>responses.py\<close>, \<open>client_model_overrides.py\<close>); the usage in a
    stream does not depend on how it is cut, the upstream URL has its base path once.
  \<^item> \<open>ProxyApp\<close>: settings, start and end, the pool of semaphores, waiting for Redis, acquiring a slot, health
    and status (\<open>config.py\<close>, \<open>main.py\<close>, \<open>semaphore_pool.py\<close>, \<open>redis_manager.py\<close>, \<open>proxy_common.py\<close>).
    \<open>ProxyPool\<close>: the pool's invariant, keys and capacities. \<open>ProxySlot\<close>: outages, and the time a request
    waits, under the contract \<open>recovering\<close>. \<open>ProxyStatus\<close>: the status page.
  \<^item> \<open>ProxyRoutes\<close>: the routes (\<open>chat.py\<close>, \<open>embeddings.py\<close>, \<open>proxy.py\<close>). \<open>ProxySafety\<close>: which requests give
    their slot up, under the contracts \<open>http_client\<close> and \<open>upstream_stream\<close>.
  \<^item> \<open>ProxySim\<close>, \<open>ProxyRuns\<close>, \<open>ProxyServed\<close>: a simulated world that keeps these contracts, an outage in it,
    and requests that are served in it.

  \<^bold>\<open>Conventions.\<close> What is not part of the program is a parameter: Redis, redis-py, SHA1, clocks, random
  numbers, sleeping and the user's callbacks, as fields of an environment over a world type. A method
  returns a sum (\<open>Inl\<close> the exception), the object and the world. Milliseconds are integers, seconds
  real numbers; that a float has a largest value is kept where the code can reach it. The numbers of Lua
  and of the counters in Redis are unbounded integers: that Lua is exact up to \<open>2 ^ 53\<close> only and INCR refuses
  what exceeds \<open>2 ^ 63 - 1\<close> is left out. Times of the
  server are those of its clock at the script's start. The lemmas of a waiting loop say that it ends
  (\<open>Some\<close>) and with what, never only what holds if it ends.

  \<^bold>\<open>Not modelled.\<close> \<open>logger.py\<close> and \<open>__init__.py\<close> (logging and exports), the text of log messages and of
  most exceptions; of the proxy \<open>logging_setup.py\<close> and \<open>metrics.py\<close> (they configure other libraries), how
  settings are read from the environment, and what FastAPI, Starlette and httpx do, which are parameters;
  the other examples and the test scripts, which only call the library and print.
\<close>

end
